(* ===== verification/Ego_Prelude.thy ===== *)
theory Ego_Prelude
  imports Main "HOL-Library.Word"
begin

text \<open>
  Shared vocabulary of the development.

  \<^item> Rust's \<open>Result\<close> is the sum type, with \<open>Ok\<close> and \<open>Err\<close> as names of its injections.
  \<^item> \<open>u64\<close> is a 64-bit word; \<open>DateTime<Utc>\<close> is an \<open>int\<close> (nanoseconds since the epoch) and
    \<open>std::time::Duration\<close> a \<open>nat\<close> (nanoseconds).
  \<^item> A Rust \<open>String\<close> is a \<open>string\<close>, the list of its UTF-8 bytes, so \<open>length\<close> is Rust's \<open>len\<close>.
  \<^item> A \<open>HashMap\<close> is a partial map. Where the code iterates over one, the unspecified iteration
    order is an explicit argument, and \<open>enumerates\<close> says that it lists the keys once each.
\<close>

section \<open>Collections of facts\<close>

named_theorems store_defs \<open>the defining equations of the store operations\<close>
named_theorems frame_simps \<open>what an operation leaves unchanged\<close>
named_theorems inv_intros \<open>every operation keeps the invariant\<close>

section \<open>Results\<close>

type_synonym ('a, 'e) result = "'e + 'a"

abbreviation Ok :: "'a \<Rightarrow> ('a, 'e) result" where
  "Ok \<equiv> Inr"

abbreviation Err :: "'e \<Rightarrow> ('a, 'e) result" where
  "Err \<equiv> Inl"

fun is_ok :: "('a, 'e) result \<Rightarrow> bool" where
  "is_ok (Inr _) = True"
| "is_ok (Inl _) = False"

lemma is_ok_iff [simp]: "is_ok r \<longleftrightarrow> (\<exists>v. r = Ok v)"
  by (cases r) auto

lemma map_sum_Ok: "map_sum f g r = Ok v \<longleftrightarrow> (\<exists>u. r = Ok u \<and> v = g u)"
  by (cases r) auto

section \<open>Three-way comparison\<close>

text \<open>\<open>std::cmp::Ordering\<close> with \<open>Ord::cmp\<close> of a primitive type and \<open>Ordering::then_with\<close>.\<close>

datatype Ordering = OrdLess | OrdEqual | OrdGreater

definition ord_cmp :: "'a::linorder \<Rightarrow> 'a \<Rightarrow> Ordering" where
  "ord_cmp x y = (if x < y then OrdLess else if x = y then OrdEqual else OrdGreater)"

fun then_with :: "Ordering \<Rightarrow> Ordering \<Rightarrow> Ordering" where
  "then_with OrdEqual other = other"
| "then_with c other = c"

lemma ord_cmp_simps [simp]:
  "ord_cmp x y = OrdLess \<longleftrightarrow> x < y" "ord_cmp x y = OrdEqual \<longleftrightarrow> x = y" "ord_cmp x y = OrdGreater \<longleftrightarrow> y < x"
  by (auto simp: ord_cmp_def)

lemma then_with_simps [simp]:
  "then_with c d = OrdLess \<longleftrightarrow> c = OrdLess \<or> c = OrdEqual \<and> d = OrdLess"
  "then_with c d = OrdEqual \<longleftrightarrow> c = OrdEqual \<and> d = OrdEqual"
  "then_with c d = OrdGreater \<longleftrightarrow> c = OrdGreater \<or> c = OrdEqual \<and> d = OrdGreater"
  by (cases c; simp)+

section \<open>Machine integers, instants and durations\<close>

type_synonym u64 = "64 word"
type_synonym timestamp = int
type_synonym duration = nat

definition i64_min :: int where
  "i64_min = - (2 ^ 63)"

definition i64_max :: int where
  "i64_max = 2 ^ 63 - 1"

text \<open>\<open>u64::checked_add(1)\<close>: \<open>None\<close> on overflow.\<close>

definition checked_succ :: "u64 \<Rightarrow> u64 option" where
  "checked_succ w = (if w = - 1 then None else Some (w + 1))"

lemma unat_succ_no_wrap: "w \<noteq> - 1 \<Longrightarrow> unat (w + 1 :: u64) = Suc (unat w)"
  using unatSuc [of w] by (metis add.commute eq_neg_iff_add_eq_0)

lemma checked_succ_Some [simp]:
  "checked_succ w = Some v \<longleftrightarrow> w \<noteq> - 1 \<and> v = w + 1"
  by (auto simp: checked_succ_def)

lemma checked_succ_unat: "checked_succ w = Some v \<Longrightarrow> unat v = Suc (unat w)"
  using unat_succ_no_wrap [of w] by simp

lemma checked_succ_less: "checked_succ w = Some v \<Longrightarrow> w < v"
  using checked_succ_unat [of w v] by (simp add: word_less_nat_alt)

section \<open>Blank strings\<close>

text \<open>
  \<open>s.trim().is_empty()\<close> on a UTF-8 string: every code point of \<open>s\<close> has the Unicode property
  \<open>White_Space\<close>. The code points with that property are the ASCII controls 9 to 13 and the space,
  and U+0085, U+00A0, U+1680, U+2000 to U+200A, U+2028, U+2029, U+202F, U+205F, U+3000, here in
  their UTF-8 encodings.
\<close>

fun blank_bytes :: "nat list \<Rightarrow> bool" where
  "blank_bytes [] = True"
| "blank_bytes (b # bs) =
     (if b = 32 \<or> (9 \<le> b \<and> b \<le> 13) then blank_bytes bs
      else case bs of
        [] \<Rightarrow> False
      | c # cs \<Rightarrow>
          if b = 0xC2 then (c = 0x85 \<or> c = 0xA0) \<and> blank_bytes cs
          else (case cs of
            [] \<Rightarrow> False
          | d # ds \<Rightarrow>
              (if b = 0xE1 \<and> c = 0x9A then d = 0x80
               else if b = 0xE2 \<and> c = 0x80
                 then (0x80 \<le> d \<and> d \<le> 0x8A) \<or> d = 0xA8 \<or> d = 0xA9 \<or> d = 0xAF
               else if b = 0xE2 \<and> c = 0x81 then d = 0x9F
               else b = 0xE3 \<and> c = 0x80 \<and> d = 0x80) \<and> blank_bytes ds))"

definition trim_is_empty :: "string \<Rightarrow> bool" where
  "trim_is_empty s = blank_bytes (map of_char s)"

lemma trim_is_empty_Nil [simp]: "trim_is_empty []"
  by (simp add: trim_is_empty_def)

section \<open>Strings\<close>

text \<open>\<open>str::is_char_boundary\<close>.\<close>

definition is_char_boundary :: "string \<Rightarrow> nat \<Rightarrow> bool" where
  "is_char_boundary s i \<longleftrightarrow>
     i = 0 \<or> i = length s \<or> (i < length s \<and> \<not> (128 \<le> (of_char (s ! i) :: nat) \<and> (of_char (s ! i) :: nat) < 192))"

text \<open>\<open>str::split_once\<close>, \<open>str::split\<close> on a character and \<open>str::to_ascii_lowercase\<close>.\<close>

fun split_once :: "char \<Rightarrow> string \<Rightarrow> (string \<times> string) option" where
  "split_once c [] = None"
| "split_once c (x # xs) =
     (if x = c then Some ([], xs) else map_option (map_prod (\<lambda>pre. x # pre) id) (split_once c xs))"

fun str_split :: "char \<Rightarrow> string \<Rightarrow> string list" where
  "str_split c [] = [[]]"
| "str_split c (x # xs) =
     (if x = c then [] # str_split c xs
      else case str_split c xs of p # ps \<Rightarrow> (x # p) # ps | [] \<Rightarrow> [[x]])"

definition to_ascii_lowercase :: "string \<Rightarrow> string" where
  "to_ascii_lowercase =
     map (\<lambda>c. if 65 \<le> (of_char c :: nat) \<and> (of_char c :: nat) \<le> 90 then char_of ((of_char c :: nat) + 32) else c)"

definition is_prefix :: "string \<Rightarrow> string \<Rightarrow> bool" where
  "is_prefix p s \<longleftrightarrow> take (length p) s = p"

text \<open>\<open>str::get\<close> with an open range: \<open>None\<close> past the end or inside a character.\<close>

definition str_get_from :: "string \<Rightarrow> nat \<Rightarrow> string option" where
  "str_get_from s i = (if i \<le> length s \<and> is_char_boundary s i then Some (drop i s) else None)"

text \<open>The byte strings \<open>String::from_utf8\<close> accepts.\<close>

fun utf8 :: "nat list \<Rightarrow> bool" where
  "utf8 [] = True"
| "utf8 (b # bs) =
     (if b < 0x80 then utf8 bs
      else case bs of
        [] \<Rightarrow> False
      | c # cs \<Rightarrow>
          if 0xC2 \<le> b \<and> b \<le> 0xDF then 0x80 \<le> c \<and> c \<le> 0xBF \<and> utf8 cs
          else (case cs of
            [] \<Rightarrow> False
          | d # ds \<Rightarrow>
              if 0xE0 \<le> b \<and> b \<le> 0xEF
              then (if b = 0xE0 then 0xA0 \<le> c else 0x80 \<le> c) \<and> (if b = 0xED then c \<le> 0x9F else c \<le> 0xBF) \<and>
                   0x80 \<le> d \<and> d \<le> 0xBF \<and> utf8 ds
              else (case ds of
                [] \<Rightarrow> False
              | e # es \<Rightarrow>
                  0xF0 \<le> b \<and> b \<le> 0xF4 \<and> (if b = 0xF0 then 0x90 \<le> c else 0x80 \<le> c) \<and>
                  (if b = 0xF4 then c \<le> 0x8F else c \<le> 0xBF) \<and>
                  0x80 \<le> d \<and> d \<le> 0xBF \<and> 0x80 \<le> e \<and> e \<le> 0xBF \<and> utf8 es)))"

definition utf8_valid :: "string \<Rightarrow> bool" where
  "utf8_valid s = utf8 (map of_char s)"

lemma str_split_append: "c \<notin> set p \<Longrightarrow> str_split c (p @ c # s) = p # str_split c s"
  by (induction p) auto

lemma str_split_none: "c \<notin> set p \<Longrightarrow> str_split c p = [p]"
  by (induction p) auto

lemma split_once_append: "c \<notin> set pre \<Longrightarrow> split_once c (pre @ c # post) = Some (pre, post)"
  by (induction pre) auto

lemma split_once_SomeD: "split_once c s = Some (pre, post) \<Longrightarrow> s = pre @ c # post \<and> c \<notin> set pre"
  by (induction s arbitrary: pre) (auto split: if_splits)

lemma split_once_None: "split_once c s = None \<longleftrightarrow> c \<notin> set s"
  by (induction s) auto

lemma split_once_iff: "split_once c s = Some (pre, post) \<longleftrightarrow> s = pre @ c # post \<and> c \<notin> set pre"
  using split_once_append split_once_SomeD by metis

section \<open>JSON values\<close>

text \<open>\<open>serde_json::Value\<close>: a number is its rendering, a map the list of its entries in its own order.\<close>

datatype json =
  JNull
| JBool bool
| JNumber string
| JString string
| JArray "json list"
| JObject "(string \<times> json) list"

text \<open>\<open>serde_json::Value::get\<close> with a string index, \<open>as_str\<close>, \<open>as_u64\<close> and \<open>as_i64\<close>.\<close>

fun json_get :: "string \<Rightarrow> json \<Rightarrow> json option" where
  "json_get k (JObject entries) = map_of entries k"
| "json_get k _ = None"

fun json_as_str :: "json \<Rightarrow> string option" where
  "json_as_str (JString s) = Some s"
| "json_as_str _ = None"

definition is_digit :: "char \<Rightarrow> bool" where
  "is_digit c \<longleftrightarrow> 48 \<le> (of_char c :: nat) \<and> (of_char c :: nat) \<le> 57"

text \<open>\<open>Display\<close> of an unsigned integer.\<close>

fun nat_to_string :: "nat \<Rightarrow> string" where
  "nat_to_string n = (if n < 10 then [char_of (48 + n)] else nat_to_string (n div 10) @ [char_of (48 + n mod 10)])"

declare nat_to_string.simps [simp del]

definition decimal :: "string \<Rightarrow> int" where
  "decimal n = foldl (\<lambda>acc c. 10 * acc + (of_char c - 48)) 0 n"

fun as_u64 :: "json \<Rightarrow> int option" where
  "as_u64 (JNumber n) =
     (if n \<noteq> [] \<and> list_all is_digit n \<and> decimal n < 2 ^ 64 then Some (decimal n) else None)"
| "as_u64 _ = None"

fun as_i64 :: "json \<Rightarrow> int option" where
  "as_i64 (JNumber n) =
     (if n \<noteq> [] \<and> list_all is_digit n \<and> decimal n \<le> i64_max then Some (decimal n)
      else if n \<noteq> [] \<and> hd n = CHR ''-'' \<and> tl n \<noteq> [] \<and> list_all is_digit (tl n) \<and> i64_min \<le> - decimal (tl n)
      then Some (- decimal (tl n)) else None)"
| "as_i64 _ = None"

section \<open>Ordered maps\<close>

text \<open>A \<open>BTreeMap\<close> is the list of its entries in the order of their keys; \<open>insert\<close> replaces a value.\<close>

fun btree_insert :: "'k::linorder \<Rightarrow> 'v \<Rightarrow> ('k \<times> 'v) list \<Rightarrow> ('k \<times> 'v) list" where
  "btree_insert k v [] = [(k, v)]"
| "btree_insert k v ((k', v') # m) =
     (if k < k' then (k, v) # (k', v') # m
      else if k = k' then (k, v) # m
      else (k', v') # btree_insert k v m)"

lemma map_of_btree_insert [simp]: "sorted (map fst m) \<Longrightarrow> map_of (btree_insert k v m) = (map_of m)(k \<mapsto> v)"
  by (induction m) (auto simp: fun_eq_iff)

lemma set_btree_insert_keys: "set (map fst (btree_insert k v m)) = insert k (set (map fst m))"
  by (induction m rule: list.induct) (simp, force split: if_splits)

lemma sorted_btree_insert: "sorted (map fst m) \<Longrightarrow> sorted (map fst (btree_insert k v m))"
proof (induction m)
  case (Cons e m)
  obtain k' v' where "e = (k', v')" by fastforce
  then show ?case using Cons set_btree_insert_keys [of k v m] by (auto simp: less_imp_le simp del: set_map)
qed simp

section \<open>Faults\<close>

text \<open>What can happen to a call to a remote store: its request is lost, or its response.\<close>

datatype fault = NoFault | LostRequest | LostResponse

section \<open>Iterating over a hash map\<close>

definition enumerates :: "'k list \<Rightarrow> ('k \<rightharpoonup> 'v) \<Rightarrow> bool" where
  "enumerates order m \<longleftrightarrow> distinct order \<and> set order = dom m"

lemma enumerates_distinct: "enumerates order m \<Longrightarrow> distinct order"
  by (simp add: enumerates_def)

lemma enumerates_mem: "enumerates order m \<Longrightarrow> k \<in> set order \<longleftrightarrow> (\<exists>v. m k = Some v)"
  by (auto simp: enumerates_def)

lemma enumerates_finite: "enumerates order m \<Longrightarrow> finite (dom m)"
  by (metis enumerates_def finite_set)

lemma enumerates_exists: "finite (dom m) \<Longrightarrow> \<exists>order. enumerates order m"
  using finite_distinct_list [of "dom m"] by (auto simp: enumerates_def)

text \<open>Removing a list of keys, one by one.\<close>

fun remove_keys :: "'k list \<Rightarrow> ('k \<rightharpoonup> 'v) \<Rightarrow> ('k \<rightharpoonup> 'v)" where
  "remove_keys [] m = m"
| "remove_keys (k # ks) m = remove_keys ks (m(k := None))"

lemma remove_keys_apply [simp]:
  "remove_keys ks m k = (if k \<in> set ks then None else m k)"
  by (induction ks arbitrary: m) auto

lemma take_filter_subset: "set (take n (filter P xs)) \<subseteq> {x \<in> set xs. P x}"
  by (auto dest: in_set_takeD)

lemma distinct_take_filter: "distinct xs \<Longrightarrow> distinct (take n (filter P xs))"
  by simp

end
