(* ===== verification/Ego_Identity.thy ===== *)
theory Ego_Identity
  imports Ego_Prelude
begin

text \<open>
  Identities: validated identifiers (\<open>id_type!\<close>, \<open>TenantId\<close>, \<open>IdempotencyKey\<close>), the client's
  \<open>OperationKey\<close> and \<open>OperationFingerprint\<close>, the \<open>OperationIdentity\<close> pairing them, the
  per-aggregate \<open>OperationReceipt\<close> with its \<open>AggregateOutcome\<close>, and \<open>resolve_tenant\<close>, the rule that
  turns a caller's tenant argument into the partition a store files a row under.
\<close>

section \<open>Validated identifiers\<close>

text \<open>The macro \<open>id_type!\<close> makes a newtype over \<open>String\<close> whose only constructor rejects blanks.\<close>

datatype id_error = IdError

definition id_type_new :: "string \<Rightarrow> (string, id_error) result" where
  "id_type_new s = (if trim_is_empty s then Err IdError else Ok s)"

datatype TenantId = TenantId (tenant_str: string)

definition TenantId_new :: "string \<Rightarrow> (TenantId, id_error) result" where
  "TenantId_new s = (case id_type_new s of Inl e \<Rightarrow> Err e | Inr v \<Rightarrow> Ok (TenantId v))"

datatype IdempotencyKey = IdempotencyKey (idempotency_str: string)

definition IdempotencyKey_new :: "string \<Rightarrow> (IdempotencyKey, id_error) result" where
  "IdempotencyKey_new s = (case id_type_new s of Inl e \<Rightarrow> Err e | Inr v \<Rightarrow> Ok (IdempotencyKey v))"

lemma TenantId_new_Ok [simp]:
  "TenantId_new s = Ok t \<longleftrightarrow> \<not> trim_is_empty s \<and> t = TenantId s"
  by (auto simp: TenantId_new_def id_type_new_def)

lemma TenantId_new_Err [simp]: "TenantId_new s = Err e \<longleftrightarrow> trim_is_empty s"
  by (cases e) (auto simp: TenantId_new_def id_type_new_def)

section \<open>Operation keys and fingerprints\<close>

definition MAX_LEN :: nat where
  "MAX_LEN = 255"

datatype OperationKey = OperationKey (key_str: string)

datatype OperationKeyError = OperationKeyEmpty | OperationKeyTooLong

definition OperationKey_parse :: "string \<Rightarrow> (OperationKey, OperationKeyError) result" where
  "OperationKey_parse s =
     (if trim_is_empty s then Err OperationKeyEmpty
      else if length s > MAX_LEN then Err OperationKeyTooLong
      else Ok (OperationKey s))"

datatype OperationFingerprint = OperationFingerprint (fingerprint_str: string)

record OperationIdentity =
  oi_key :: OperationKey
  oi_fingerprint :: OperationFingerprint

definition OperationIdentity_new :: "OperationKey \<Rightarrow> OperationFingerprint \<Rightarrow> OperationIdentity" where
  "OperationIdentity_new k f = \<lparr>oi_key = k, oi_fingerprint = f\<rparr>"

text \<open>
  \<open>OperationKeyHash::of\<close> renders the first eight bytes of the SHA-256 digest of the key in lower
  case hexadecimal. The digest comes from the \<open>sha2\<close> crate and is a parameter.
\<close>

definition HASH_HEX_LEN :: nat where
  "HASH_HEX_LEN = 16"

definition hex_digit :: "nat \<Rightarrow> char" where
  "hex_digit n = char_of (if n < 10 then 48 + n else 87 + n)"

definition hex_byte :: "nat \<Rightarrow> string" where
  "hex_byte b = [hex_digit (b div 16), hex_digit (b mod 16)]"

definition OperationKeyHash_of :: "(string \<Rightarrow> nat list) \<Rightarrow> OperationKey \<Rightarrow> string" where
  "OperationKeyHash_of sha256 k = concat (map hex_byte (take (HASH_HEX_LEN div 2) (sha256 (key_str k))))"

section \<open>Receipts\<close>

datatype AggregateOutcome =
  Events (version_from: int) (version_to: int)
| NoEvents

datatype AggregateOutcomeError = Inverted | EmptyRange

text \<open>
  \<open>AggregateOutcome::events\<close>. The outer \<open>None\<close> is the panic of a build with overflow checks on
  \<open>version_from - 1\<close> at \<open>i64::MIN\<close>.
\<close>

definition AggregateOutcome_events ::
  "int \<Rightarrow> int \<Rightarrow> (AggregateOutcome, AggregateOutcomeError) result option" where
  "AggregateOutcome_events vf vt =
     (if vf - 1 < i64_min then None
      else if vt = vf - 1 then Some (Err EmptyRange)
      else if vt < vf then Some (Err Inverted)
      else Some (Ok (Events vf vt)))"

record OperationReceipt =
  or_aggregate_type :: string
  or_aggregate_id :: string
  or_tenant :: "TenantId option"
  or_operation_key :: OperationKey
  or_fingerprint :: OperationFingerprint
  or_outcome :: AggregateOutcome

definition OperationReceipt_new ::
  "string \<Rightarrow> string \<Rightarrow> TenantId option \<Rightarrow> OperationKey \<Rightarrow> OperationFingerprint \<Rightarrow>
   AggregateOutcome \<Rightarrow> OperationReceipt" where
  "OperationReceipt_new ty i t k f out =
     \<lparr>or_aggregate_type = ty, or_aggregate_id = i, or_tenant = t, or_operation_key = k,
      or_fingerprint = f, or_outcome = out\<rparr>"

section \<open>Tenant scopes\<close>

datatype PersistenceError =
  NotFound string
| Conflict string int int
| MissingTenant
| Internal string

definition resolve_tenant :: "string option \<Rightarrow> (string option, PersistenceError) result" where
  "resolve_tenant t =
     (case t of
        None \<Rightarrow> Ok None
      | Some s \<Rightarrow> if s = [] then Err MissingTenant else Ok (Some s))"

lemma resolve_tenant_simps [simp]:
  "resolve_tenant None = Ok None"
  "resolve_tenant (Some []) = Err MissingTenant"
  "s \<noteq> [] \<Longrightarrow> resolve_tenant (Some s) = Ok (Some s)"
  by (simp_all add: resolve_tenant_def)

lemma resolve_tenant_Ok:
  "resolve_tenant t = Ok scope \<longleftrightarrow> scope = t \<and> t \<noteq> Some []"
  by (auto simp: resolve_tenant_def split: option.splits if_splits)

lemma resolve_tenant_Err:
  "resolve_tenant t = Err e \<longleftrightarrow> t = Some [] \<and> e = MissingTenant"
  by (auto simp: resolve_tenant_def split: option.splits if_splits)

section \<open>What the constructors guarantee\<close>

lemma OperationKey_parse_Ok:
  "OperationKey_parse s = Ok k \<longleftrightarrow>
     k = OperationKey s \<and> \<not> trim_is_empty s \<and> length s \<le> MAX_LEN"
  by (auto simp: OperationKey_parse_def)

lemma AggregateOutcome_events_Ok:
  "AggregateOutcome_events vf vt = Some (Ok out) \<longleftrightarrow>
     i64_min < vf \<and> vf \<le> vt \<and> out = Events vf vt"
  by (auto simp: AggregateOutcome_events_def)

end
