(* ===== verification/Ego_Reservation.thy ===== *)
theory Ego_Reservation
  imports Ego_Identity
begin

text \<open>
  The operation reservation port of \<open>crates/persistence-api/src/operation/reservation.rs\<close>: its
  vocabulary, an abstract specification of the life of one reservation (\<open>slot_step\<close>), and the
  locale \<open>reservation_port\<close> stating what every adapter promises. What a client may conclude from
  the promises (fencing, lease exclusivity, stable replay) is proved once, in the locale.

  The clock is read inside the adapter's critical section, so each call carries the instant that
  reading returned. Instants of successive calls need not increase.
\<close>

section \<open>Vocabulary\<close>

datatype OldestCompleted = Unsupported | OldestEmpty | OldestAt timestamp

record OperationId =
  oid_tenant :: "TenantId option"
  oid_key :: OperationKey

datatype OwnerId = OwnerId string

datatype FencingToken = FencingToken (token_value: u64)

definition FencingToken_initial :: FencingToken where
  "FencingToken_initial = FencingToken 1"

definition FencingToken_next :: "FencingToken \<Rightarrow> FencingToken option" where
  "FencingToken_next t = map_option FencingToken (checked_succ (token_value t))"

datatype StoredServiceResponse = StoredServiceResponse "8 word list"

record Lease =
  lease_operation_id :: OperationId
  lease_owner_id :: OwnerId
  lease_fencing_token :: FencingToken
  lease_until :: timestamp

record OwnerFence =
  fence_operation_id :: OperationId
  fence_owner_id :: OwnerId
  fence_token :: FencingToken

record ReserveRequest =
  req_tenant :: "TenantId option"
  req_operation_key :: OperationKey
  req_fingerprint :: OperationFingerprint
  req_owner_id :: OwnerId
  req_lease_until :: timestamp

datatype ReservationOutcome =
  Fresh Lease
| TakenOver Lease
| OwnedInProgress Lease
| OtherInProgress
| Succeeded StoredServiceResponse
| ReservationConflict

datatype ReservationError = StaleOwner | FencingExhausted | Backend string

instantiation FencingToken :: linorder
begin

definition less_eq_FencingToken :: "FencingToken \<Rightarrow> FencingToken \<Rightarrow> bool" where
  "less_eq_FencingToken a b \<longleftrightarrow> token_value a \<le> token_value b"

definition less_FencingToken :: "FencingToken \<Rightarrow> FencingToken \<Rightarrow> bool" where
  "less_FencingToken a b \<longleftrightarrow> token_value a < token_value b"

instance
  by standard (auto simp: less_eq_FencingToken_def less_FencingToken_def intro: FencingToken.expand)

end

lemma FencingToken_next_greater: "FencingToken_next t = Some t' \<Longrightarrow> t < t'"
  using checked_succ_less [of "token_value t" "token_value t'"]
  by (auto simp: FencingToken_next_def less_FencingToken_def simp del: checked_succ_Some)

definition request_id :: "ReserveRequest \<Rightarrow> OperationId" where
  "request_id req = \<lparr>oid_tenant = req_tenant req, oid_key = req_operation_key req\<rparr>"

section \<open>The life of one reservation\<close>

datatype slot =
  Free
| Held (slot_fp: OperationFingerprint) (slot_owner: OwnerId) (slot_token: FencingToken) (slot_until: timestamp)
| Done (slot_fp: OperationFingerprint) (slot_response: StoredServiceResponse) (slot_at: timestamp)

text \<open>The verification every mutating call performs: the full triple, on a lease that still runs.\<close>

fun fence_live :: "timestamp \<Rightarrow> OwnerFence \<Rightarrow> slot \<Rightarrow> bool" where
  "fence_live now f (Held fp ow t u) = (fence_owner_id f = ow \<and> fence_token f = t \<and> now < u)"
| "fence_live now f _ = False"

text \<open>
  What may happen to a reservation in one call. A held lease changes hands only once it has expired
  and only to a strictly greater token; only its live holder finishes or drops it; a finished
  reservation can only be purged.
\<close>

inductive slot_step :: "timestamp \<Rightarrow> slot \<Rightarrow> slot \<Rightarrow> bool" for now where
  stutter: "slot_step now sl sl"
| grant: "slot_step now Free (Held fp ow FencingToken_initial u)"
| takeover: "u \<le> now \<Longrightarrow> t < t' \<Longrightarrow> slot_step now (Held fp ow t u) (Held fp ow' t' u')"
| extend: "now < u \<Longrightarrow> slot_step now (Held fp ow t u) (Held fp ow t u')"
| finish: "now < u \<Longrightarrow> slot_step now (Held fp ow t u) (Done fp r now)"
| drop: "now < u \<Longrightarrow> slot_step now (Held fp ow t u) Free"
| purge: "slot_step now (Done fp r at) Free"

inductive_cases slot_step_HeldE: "slot_step now (Held fp ow t u) sl"
inductive_cases slot_step_DoneE: "slot_step now (Done fp r at) sl"
inductive_cases slot_step_FreeE: "slot_step now Free sl"

text \<open>What \<open>reserve\<close> may answer, and what it then leaves behind.\<close>

inductive reserve_spec ::
  "timestamp \<Rightarrow> ReserveRequest \<Rightarrow> slot \<Rightarrow> (ReservationOutcome, ReservationError) result \<Rightarrow> slot \<Rightarrow> bool"
  for now req where
  spec_fresh:
    "reserve_spec now req Free
       (Ok (Fresh \<lparr>lease_operation_id = request_id req, lease_owner_id = req_owner_id req,
                   lease_fencing_token = FencingToken_initial, lease_until = req_lease_until req\<rparr>))
       (Held (req_fingerprint req) (req_owner_id req) FencingToken_initial (req_lease_until req))"
| spec_conflict:
    "sl \<noteq> Free \<Longrightarrow> slot_fp sl \<noteq> req_fingerprint req \<Longrightarrow>
     reserve_spec now req sl (Ok ReservationConflict) sl"
| spec_takeover:
    "u \<le> now \<Longrightarrow> t < t' \<Longrightarrow>
     reserve_spec now req (Held (req_fingerprint req) ow t u)
       (Ok (TakenOver \<lparr>lease_operation_id = request_id req, lease_owner_id = req_owner_id req,
                       lease_fencing_token = t', lease_until = req_lease_until req\<rparr>))
       (Held (req_fingerprint req) (req_owner_id req) t' (req_lease_until req))"
| spec_exhausted:
    "u \<le> now \<Longrightarrow> FencingToken_next t = None \<Longrightarrow>
     reserve_spec now req (Held (req_fingerprint req) ow t u) (Err FencingExhausted)
       (Held (req_fingerprint req) ow t u)"
| spec_owned:
    "now < u \<Longrightarrow>
     reserve_spec now req (Held (req_fingerprint req) (req_owner_id req) t u)
       (Ok (OwnedInProgress \<lparr>lease_operation_id = request_id req, lease_owner_id = req_owner_id req,
                             lease_fencing_token = t, lease_until = u\<rparr>))
       (Held (req_fingerprint req) (req_owner_id req) t u)"
| spec_other:
    "now < u \<Longrightarrow> ow \<noteq> req_owner_id req \<Longrightarrow>
     reserve_spec now req (Held (req_fingerprint req) ow t u) (Ok OtherInProgress)
       (Held (req_fingerprint req) ow t u)"
| spec_succeeded:
    "reserve_spec now req (Done (req_fingerprint req) r at) (Ok (Succeeded r))
       (Done (req_fingerprint req) r at)"

inductive_cases reserve_spec_HeldE: "reserve_spec now req (Held fp ow t u) out sl'"
inductive_cases reserve_spec_DoneE: "reserve_spec now req (Done fp r at) out sl'"
inductive_cases reserve_spec_FreeE: "reserve_spec now req Free out sl'"
inductive_cases reserve_spec_TakenOverE: "reserve_spec now req sl (Ok (TakenOver lease)) sl'"

lemma reserve_spec_slot_step: "reserve_spec now req sl out sl' \<Longrightarrow> slot_step now sl sl'"
  by (induction rule: reserve_spec.induct) (auto intro: slot_step.intros)

section \<open>Histories of calls\<close>

datatype reservation_op =
  Reserve ReserveRequest
| Renew OwnerFence timestamp
| Complete OwnerFence StoredServiceResponse
| Abandon OwnerFence
| Purge timestamp nat "OperationId list"

datatype reservation_reply =
  ReserveReply "(ReservationOutcome, ReservationError) result"
| AckReply "(unit, ReservationError) result"
| PurgeReply nat

type_synonym 's ack_call = "(unit, ReservationError) result \<times> 's"

fun exec_with ::
  "(timestamp \<Rightarrow> ReserveRequest \<Rightarrow> 's \<Rightarrow> (ReservationOutcome, ReservationError) result \<times> 's) \<Rightarrow>
   (timestamp \<Rightarrow> OwnerFence \<Rightarrow> timestamp \<Rightarrow> 's \<Rightarrow> 's ack_call) \<Rightarrow>
   (timestamp \<Rightarrow> OwnerFence \<Rightarrow> StoredServiceResponse \<Rightarrow> 's \<Rightarrow> 's ack_call) \<Rightarrow>
   (timestamp \<Rightarrow> OwnerFence \<Rightarrow> 's \<Rightarrow> 's ack_call) \<Rightarrow>
   (OperationId list \<Rightarrow> timestamp \<Rightarrow> nat \<Rightarrow> 's \<Rightarrow> nat \<times> 's) \<Rightarrow>
   timestamp \<Rightarrow> reservation_op \<Rightarrow> 's \<Rightarrow> reservation_reply \<times> 's" where
  "exec_with rs rn co ab pu now (Reserve req) s = map_prod ReserveReply id (rs now req s)"
| "exec_with rs rn co ab pu now (Renew f u) s = map_prod AckReply id (rn now f u s)"
| "exec_with rs rn co ab pu now (Complete f r) s = map_prod AckReply id (co now f r s)"
| "exec_with rs rn co ab pu now (Abandon f) s = map_prod AckReply id (ab now f s)"
| "exec_with rs rn co ab pu now (Purge c b order) s = map_prod PurgeReply id (pu order c b s)"

fun run_ops :: "(timestamp \<Rightarrow> 'o \<Rightarrow> 's \<Rightarrow> 'r \<times> 's) \<Rightarrow> (timestamp \<times> 'o) list \<Rightarrow> 's \<Rightarrow> 's" where
  "run_ops ex [] s = s"
| "run_ops ex ((now, op) # h) s = run_ops ex h (snd (ex now op s))"

text \<open>\<open>P\<close> holds in the first state of a history and after each of its calls.\<close>

fun holds_throughout ::
  "('s \<Rightarrow> bool) \<Rightarrow> (timestamp \<Rightarrow> 'o \<Rightarrow> 's \<Rightarrow> 'r \<times> 's) \<Rightarrow> (timestamp \<times> 'o) list \<Rightarrow> 's \<Rightarrow> bool" where
  "holds_throughout P ex [] s = P s"
| "holds_throughout P ex ((now, op) # h) s = (P s \<and> holds_throughout P ex h (snd (ex now op s)))"

text \<open>The fence a call presents, if it presents one.\<close>

fun presented_fence :: "reservation_op \<Rightarrow> OwnerFence option" where
  "presented_fence (Renew f _) = Some f"
| "presented_fence (Complete f _) = Some f"
| "presented_fence (Abandon f) = Some f"
| "presented_fence _ = None"

fun purges_at :: "timestamp \<Rightarrow> reservation_op \<Rightarrow> bool" where
  "purges_at at (Purge c _ _) = (at < c)"
| "purges_at at _ = False"

text \<open>A fence with token \<open>t\<close> is dead as long as the reservation stays occupied.\<close>

fun fenced_out :: "FencingToken \<Rightarrow> slot \<Rightarrow> bool" where
  "fenced_out t Free = False"
| "fenced_out t (Held _ _ t' _) = (t < t')"
| "fenced_out t (Done _ _ _) = True"

lemma fenced_out_step:
  assumes "slot_step now sl sl'" "fenced_out t sl" "sl' \<noteq> Free"
  shows "fenced_out t sl'"
  using assms by (cases rule: slot_step.cases) auto

lemma fenced_out_not_live:
  "fenced_out t sl \<Longrightarrow> fence_token f \<le> t \<Longrightarrow> \<not> fence_live now f sl"
  by (cases sl) auto

section \<open>The port\<close>

locale reservation_port =
  fixes slot_of :: "'s \<Rightarrow> OperationId \<Rightarrow> slot"
    and reserve :: "timestamp \<Rightarrow> ReserveRequest \<Rightarrow> 's \<Rightarrow> (ReservationOutcome, ReservationError) result \<times> 's"
    and renew :: "timestamp \<Rightarrow> OwnerFence \<Rightarrow> timestamp \<Rightarrow> 's \<Rightarrow> 's ack_call"
    and complete :: "timestamp \<Rightarrow> OwnerFence \<Rightarrow> StoredServiceResponse \<Rightarrow> 's \<Rightarrow> 's ack_call"
    and abandon :: "timestamp \<Rightarrow> OwnerFence \<Rightarrow> 's \<Rightarrow> 's ack_call"
    and purge :: "OperationId list \<Rightarrow> timestamp \<Rightarrow> nat \<Rightarrow> 's \<Rightarrow> nat \<times> 's"
  assumes reserve_own:
      "reserve_spec now req (slot_of s (request_id req)) (fst (reserve now req s))
         (slot_of (snd (reserve now req s)) (request_id req))"
    and reserve_frame:
      "i \<noteq> request_id req \<Longrightarrow> slot_of (snd (reserve now req s)) i = slot_of s i"
    and stale:
      "\<not> fence_live now f (slot_of s (fence_operation_id f)) \<Longrightarrow>
         renew now f u s = (Err StaleOwner, s) \<and>
         complete now f r s = (Err StaleOwner, s) \<and>
         abandon now f s = (Err StaleOwner, s)"
    and mutation_frame:
      "i \<noteq> fence_operation_id f \<Longrightarrow>
         slot_of (snd (renew now f u s)) i = slot_of s i \<and>
         slot_of (snd (complete now f r s)) i = slot_of s i \<and>
         slot_of (snd (abandon now f s)) i = slot_of s i"
    and renew_live:
      "slot_of s (fence_operation_id f) = Held fp ow t lu \<Longrightarrow>
       fence_live now f (slot_of s (fence_operation_id f)) \<Longrightarrow>
         fst (renew now f u s) = Ok () \<and>
         slot_of (snd (renew now f u s)) (fence_operation_id f) = Held fp ow t u"
    and complete_live:
      "slot_of s (fence_operation_id f) = Held fp ow t lu \<Longrightarrow>
       fence_live now f (slot_of s (fence_operation_id f)) \<Longrightarrow>
         fst (complete now f r s) = Ok () \<and>
         slot_of (snd (complete now f r s)) (fence_operation_id f) = Done fp r now"
    and abandon_live:
      "fence_live now f (slot_of s (fence_operation_id f)) \<Longrightarrow>
         fst (abandon now f s) = Ok () \<and>
         slot_of (snd (abandon now f s)) (fence_operation_id f) = Free"
    and purge_slot:
      "slot_of (snd (purge order c b s)) i = slot_of s i \<or>
       slot_of (snd (purge order c b s)) i = Free \<and>
         (\<exists>fp r at. slot_of s i = Done fp r at \<and> at < c)"
begin

abbreviation exec :: "timestamp \<Rightarrow> reservation_op \<Rightarrow> 's \<Rightarrow> reservation_reply \<times> 's" where
  "exec \<equiv> exec_with reserve renew complete abandon purge"

lemma fence_live_Held:
  assumes "fence_live now f sl"
  obtains fp lu where "sl = Held fp (fence_owner_id f) (fence_token f) lu" "now < lu"
  using assms by (cases sl) auto

lemma renew_slot_step: "slot_step now (slot_of s i) (slot_of (snd (renew now f u s)) i)"
proof (cases "i = fence_operation_id f \<and> fence_live now f (slot_of s i)")
  case True
  then show ?thesis
    using renew_live [of s f] by (auto elim!: fence_live_Held intro: slot_step.intros)
next
  case False
  then show ?thesis
    using stale [of now f s] mutation_frame [of i f] by (fastforce intro: stutter)
qed

lemma complete_slot_step: "slot_step now (slot_of s i) (slot_of (snd (complete now f r s)) i)"
proof (cases "i = fence_operation_id f \<and> fence_live now f (slot_of s i)")
  case True
  then show ?thesis
    using complete_live [of s f] by (auto elim!: fence_live_Held intro: slot_step.intros)
next
  case False
  then show ?thesis
    using stale [of now f s] mutation_frame [of i f] by (fastforce intro: stutter)
qed

lemma abandon_slot_step: "slot_step now (slot_of s i) (slot_of (snd (abandon now f s)) i)"
proof (cases "i = fence_operation_id f \<and> fence_live now f (slot_of s i)")
  case True
  then show ?thesis
    using abandon_live [of now f s] by (auto elim!: fence_live_Held intro: slot_step.intros)
next
  case False
  then show ?thesis
    using stale [of now f s] mutation_frame [of i f] by (fastforce intro: stutter)
qed

lemma reserve_slot_step: "slot_step now (slot_of s i) (slot_of (snd (reserve now req s)) i)"
  using reserve_own [of now req s] reserve_frame [of i req]
  by (cases "i = request_id req") (auto intro: stutter dest: reserve_spec_slot_step)

lemma purge_slot_step: "slot_step now (slot_of s i) (slot_of (snd (purge order c b s)) i)"
  using purge_slot [of order c b s i] by (auto intro: slot_step.intros)

text \<open>Refinement: seen through \<open>slot_of\<close>, every call is a step of every reservation's life.\<close>

lemma exec_slot_step: "slot_step now (slot_of s i) (slot_of (snd (exec now op s)) i)"
  by (cases op)
    (simp_all add: reserve_slot_step renew_slot_step complete_slot_step abandon_slot_step purge_slot_step)

lemma fenced_out_run:
  assumes "holds_throughout (\<lambda>s. slot_of s i \<noteq> Free) exec h s" "fenced_out t (slot_of s i)"
  shows "fenced_out t (slot_of (run_ops exec h s) i)"
  using assms
proof (induction h arbitrary: s)
  case (Cons c h)
  obtain now op where c: "c = (now, op)" by fastforce
  have "slot_of (snd (exec now op s)) i \<noteq> Free"
    using Cons.prems c by (cases h) auto
  then show ?case
    using Cons c fenced_out_step [OF exec_slot_step [of now s i op]] by auto
qed simp

text \<open>A displaced fence stays dead for as long as the reservation exists.\<close>

lemma displaced_fence_dead:
  assumes "slot_of s i = Held fp ow t u" "request_id req = i"
    and "fst (reserve now req s) = Ok (TakenOver lease)"
    and "holds_throughout (\<lambda>s. slot_of s i \<noteq> Free) exec h (snd (reserve now req s))"
    and "fence_operation_id f = i" "fence_token f \<le> t"
  defines "s' \<equiv> run_ops exec h (snd (reserve now req s))"
  shows "renew now' f v s' = (Err StaleOwner, s')"
    and "complete now' f r s' = (Err StaleOwner, s')"
    and "abandon now' f s' = (Err StaleOwner, s')"
proof -
  have "fenced_out t (slot_of (snd (reserve now req s)) i)"
    using reserve_own [of now req s] assms(1-3) by (auto elim: reserve_spec_HeldE)
  from fenced_out_run [OF assms(4) this]
  have "\<not> fence_live now' f (slot_of s' (fence_operation_id f))"
    using fenced_out_not_live assms(5,6) by (simp add: s'_def)
  from stale [OF this]
  show "renew now' f v s' = (Err StaleOwner, s')"
    and "complete now' f r s' = (Err StaleOwner, s')"
    and "abandon now' f s' = (Err StaleOwner, s')"
    by blast+
qed

text \<open>While a lease runs, calls that do not present its fence leave it alone.\<close>

lemma lease_untouched:
  assumes "slot_of s i = Held fp ow t u" "now < u"
    and "presented_fence op \<noteq> Some \<lparr>fence_operation_id = i, fence_owner_id = ow, fence_token = t\<rparr>"
  shows "slot_of (snd (exec now op s)) i = Held fp ow t u"
proof (cases op)
  case (Reserve req)
  then show ?thesis
    using assms reserve_own [of now req s] reserve_frame [of i req now s]
    by (cases "i = request_id req") (auto elim!: reserve_spec_HeldE)
next
  case (Purge c b order)
  then show ?thesis using assms purge_slot [of order c b s i] by auto
next
  case (Renew f v)
  then have "i = fence_operation_id f \<Longrightarrow> \<not> fence_live now f (slot_of s i)"
    using assms by (cases f) auto
  then show ?thesis using Renew assms(1) stale [of now f s v] mutation_frame [of i f now v s] by force
next
  case (Complete f r)
  then have "i = fence_operation_id f \<Longrightarrow> \<not> fence_live now f (slot_of s i)"
    using assms by (cases f) auto
  then show ?thesis using Complete assms(1) stale [of now f s] mutation_frame [of i f now] by force
next
  case (Abandon f)
  then have "i = fence_operation_id f \<Longrightarrow> \<not> fence_live now f (slot_of s i)"
    using assms by (cases f) auto
  then show ?thesis using Abandon assms(1) stale [of now f s] mutation_frame [of i f now] by force
qed

lemma lease_untouched_run:
  assumes "slot_of s i = Held fp ow t u"
    and "\<forall>(now, op) \<in> set h. now < u \<and>
       presented_fence op \<noteq> Some \<lparr>fence_operation_id = i, fence_owner_id = ow, fence_token = t\<rparr>"
  shows "slot_of (run_ops exec h s) i = Held fp ow t u"
  using assms
proof (induction h arbitrary: s)
  case (Cons c h)
  obtain now op where "c = (now, op)" by fastforce
  then show ?case using Cons lease_untouched [of s i fp ow t u now op] by simp
qed simp

text \<open>A completed reservation answers every retry with its response until it is purged.\<close>

lemma done_stable:
  assumes "slot_of s i = Done fp r at" "\<not> purges_at at op"
  shows "slot_of (snd (exec now op s)) i = Done fp r at"
proof (cases op)
  case (Purge c b order)
  then show ?thesis using assms purge_slot [of order c b s i] by auto
next
  case (Reserve req)
  then show ?thesis
    using assms reserve_own [of now req s] reserve_frame [of i req now s]
    by (cases "i = request_id req") (auto elim!: reserve_spec_DoneE)
next
  case (Renew f v)
  then show ?thesis using assms stale [of now f s v] mutation_frame [of i f now v s]
    by (cases "i = fence_operation_id f") auto
next
  case (Complete f r')
  then show ?thesis using assms stale [of now f s _ r'] mutation_frame [of i f now _ s r']
    by (cases "i = fence_operation_id f") auto
next
  case (Abandon f)
  then show ?thesis using assms stale [of now f s] mutation_frame [of i f now _ s]
    by (cases "i = fence_operation_id f") auto
qed

lemma done_stable_run:
  assumes "slot_of s i = Done fp r at" "\<forall>(now, op) \<in> set h. \<not> purges_at at op"
  shows "slot_of (run_ops exec h s) i = Done fp r at"
  using assms
proof (induction h arbitrary: s)
  case (Cons c h)
  obtain now op where "c = (now, op)" by fastforce
  then show ?case using Cons done_stable [of s i fp r at op now] by simp
qed simp

lemma reserve_done:
  assumes "slot_of s (request_id req) = Done (req_fingerprint req) r at"
  shows "fst (reserve now req s) = Ok (Succeeded r)"
  using reserve_own [of now req s] assms by (auto elim!: reserve_spec_DoneE)

end

end
