(* ===== verification/Ego_Reservation_Memory.thy ===== *)
theory Ego_Reservation_Memory
  imports Ego_Reservation
begin

text \<open>
  \<open>InMemoryOperationReservationStore\<close> (\<open>crates/persistence-memory/src/operation/reservation.rs\<close>):
  a map from operation ids to records behind one mutex. Every method is one critical section, so
  every method is one function on the map; the instant argument is what \<open>self.clock.now()\<close> returns
  there. \<open>purge_completed_before\<close> iterates over a \<open>HashMap\<close>, whose order is the argument \<open>order\<close>.
\<close>

section \<open>The store\<close>

datatype RecordState =
  InProgress OwnerId FencingToken timestamp
| Completed StoredServiceResponse timestamp

record Record =
  rec_fingerprint :: OperationFingerprint
  rec_state :: RecordState

type_synonym reservation_store = "OperationId \<rightharpoonup> Record"

definition ReservationStore_new :: reservation_store where
  "ReservationStore_new = Map.empty"

definition ReservationStore_is_durable :: bool where
  "ReservationStore_is_durable = False"

definition ReservationStore_reserve ::
  "timestamp \<Rightarrow> ReserveRequest \<Rightarrow> reservation_store \<Rightarrow>
   (ReservationOutcome, ReservationError) result \<times> reservation_store" where
  "ReservationStore_reserve now req records =
     (let operation_id = \<lparr>oid_tenant = req_tenant req, oid_key = req_operation_key req\<rparr> in
      case records operation_id of
        None \<Rightarrow>
          (Ok (Fresh \<lparr>lease_operation_id = operation_id, lease_owner_id = req_owner_id req,
                      lease_fencing_token = FencingToken_initial,
                      lease_until = req_lease_until req\<rparr>),
           records(operation_id \<mapsto>
             \<lparr>rec_fingerprint = req_fingerprint req,
              rec_state = InProgress (req_owner_id req) FencingToken_initial (req_lease_until req)\<rparr>))
      | Some record \<Rightarrow>
          if rec_fingerprint record \<noteq> req_fingerprint req then (Ok ReservationConflict, records)
          else (case rec_state record of
            InProgress owner_id fencing_token lease_end \<Rightarrow>
              if lease_end \<le> now then
                (case FencingToken_next fencing_token of
                   None \<Rightarrow> (Err FencingExhausted, records)
                 | Some new_token \<Rightarrow>
                     (Ok (TakenOver \<lparr>lease_operation_id = operation_id,
                                     lease_owner_id = req_owner_id req,
                                     lease_fencing_token = new_token,
                                     lease_until = req_lease_until req\<rparr>),
                      records(operation_id \<mapsto>
                        \<lparr>rec_fingerprint = rec_fingerprint record,
                         rec_state = InProgress (req_owner_id req) new_token (req_lease_until req)\<rparr>)))
              else if owner_id = req_owner_id req then
                (Ok (OwnedInProgress \<lparr>lease_operation_id = operation_id, lease_owner_id = owner_id,
                                      lease_fencing_token = fencing_token, lease_until = lease_end\<rparr>),
                 records)
              else (Ok OtherInProgress, records)
          | Completed response _ \<Rightarrow> (Ok (Succeeded response), records)))"

definition ReservationStore_renew ::
  "timestamp \<Rightarrow> OwnerFence \<Rightarrow> timestamp \<Rightarrow> reservation_store \<Rightarrow>
   (unit, ReservationError) result \<times> reservation_store" where
  "ReservationStore_renew now fence until records =
     (case records (fence_operation_id fence) of
        Some record \<Rightarrow>
          (case rec_state record of
             InProgress owner_id fencing_token lease_end \<Rightarrow>
               if owner_id = fence_owner_id fence \<and> fencing_token = fence_token fence \<and> now < lease_end
               then (Ok (), records(fence_operation_id fence \<mapsto>
                       record\<lparr>rec_state := InProgress owner_id fencing_token until\<rparr>))
               else (Err StaleOwner, records)
           | Completed _ _ \<Rightarrow> (Err StaleOwner, records))
      | None \<Rightarrow> (Err StaleOwner, records))"

definition ReservationStore_complete ::
  "timestamp \<Rightarrow> OwnerFence \<Rightarrow> StoredServiceResponse \<Rightarrow> reservation_store \<Rightarrow>
   (unit, ReservationError) result \<times> reservation_store" where
  "ReservationStore_complete now fence response records =
     (case records (fence_operation_id fence) of
        Some record \<Rightarrow>
          (case rec_state record of
             InProgress owner_id fencing_token lease_end \<Rightarrow>
               if owner_id = fence_owner_id fence \<and> fencing_token = fence_token fence \<and> now < lease_end
               then (Ok (), records(fence_operation_id fence \<mapsto>
                       \<lparr>rec_fingerprint = rec_fingerprint record,
                        rec_state = Completed response now\<rparr>))
               else (Err StaleOwner, records)
           | Completed _ _ \<Rightarrow> (Err StaleOwner, records))
      | None \<Rightarrow> (Err StaleOwner, records))"

definition ReservationStore_abandon ::
  "timestamp \<Rightarrow> OwnerFence \<Rightarrow> reservation_store \<Rightarrow>
   (unit, ReservationError) result \<times> reservation_store" where
  "ReservationStore_abandon now fence records =
     (case records (fence_operation_id fence) of
        Some record \<Rightarrow>
          (case rec_state record of
             InProgress owner_id fencing_token lease_end \<Rightarrow>
               if owner_id = fence_owner_id fence \<and> fencing_token = fence_token fence \<and> now < lease_end
               then (Ok (), records(fence_operation_id fence := None))
               else (Err StaleOwner, records)
           | Completed _ _ \<Rightarrow> (Err StaleOwner, records))
      | None \<Rightarrow> (Err StaleOwner, records))"

definition purge_eligible :: "timestamp \<Rightarrow> reservation_store \<Rightarrow> OperationId \<Rightarrow> bool" where
  "purge_eligible cutoff records i =
     (case records i of
        None \<Rightarrow> False
      | Some record \<Rightarrow>
          (case rec_state record of
             Completed _ completed_at \<Rightarrow> completed_at < cutoff
           | InProgress _ _ _ \<Rightarrow> False))"

definition ReservationStore_purge_completed_before ::
  "OperationId list \<Rightarrow> timestamp \<Rightarrow> nat \<Rightarrow> reservation_store \<Rightarrow> nat \<times> reservation_store" where
  "ReservationStore_purge_completed_before order cutoff batch records =
     (let eligible = take batch (filter (purge_eligible cutoff records) order)
      in (length eligible, remove_keys eligible records))"

fun completed_at_of :: "Record option \<Rightarrow> timestamp option" where
  "completed_at_of None = None"
| "completed_at_of (Some record) =
     (case rec_state record of Completed _ completed_at \<Rightarrow> Some completed_at | InProgress _ _ _ \<Rightarrow> None)"

definition ReservationStore_oldest_completed ::
  "OperationId list \<Rightarrow> reservation_store \<Rightarrow> OldestCompleted" where
  "ReservationStore_oldest_completed order records =
     (case List.map_filter (\<lambda>i. completed_at_of (records i)) order of
        [] \<Rightarrow> OldestEmpty
      | t # ts \<Rightarrow> OldestAt (fold min ts t))"

definition ReservationStore_probe :: "(unit, ReservationError) result" where
  "ReservationStore_probe = Ok ()"

lemmas [store_defs] =
  ReservationStore_reserve_def ReservationStore_renew_def ReservationStore_complete_def
  ReservationStore_abandon_def ReservationStore_purge_completed_before_def

abbreviation ReservationStore_exec where
  "ReservationStore_exec \<equiv>
     exec_with ReservationStore_reserve ReservationStore_renew ReservationStore_complete
       ReservationStore_abandon ReservationStore_purge_completed_before"

section \<open>The store keeps the port's promises\<close>

fun record_slot :: "Record option \<Rightarrow> slot" where
  "record_slot None = Free"
| "record_slot (Some record) =
     (case rec_state record of
        InProgress ow t u \<Rightarrow> Held (rec_fingerprint record) ow t u
      | Completed r at \<Rightarrow> Done (rec_fingerprint record) r at)"

definition store_slot :: "reservation_store \<Rightarrow> OperationId \<Rightarrow> slot" where
  "store_slot records i = record_slot (records i)"

lemma record_slot_Free [simp]: "record_slot r = Free \<longleftrightarrow> r = None"
  by (cases r) (auto split: RecordState.splits)

lemma record_slot_Held [simp]:
  "record_slot r = Held fp ow t u \<longleftrightarrow>
     r = Some \<lparr>rec_fingerprint = fp, rec_state = InProgress ow t u\<rparr>"
  by (cases r rule: record_slot.cases) (auto split: RecordState.splits)

lemma record_slot_Done [simp]:
  "record_slot r = Done fp rsp at \<longleftrightarrow>
     r = Some \<lparr>rec_fingerprint = fp, rec_state = Completed rsp at\<rparr>"
  by (cases r rule: record_slot.cases) (auto split: RecordState.splits)

lemma record_slot_inj: "record_slot r = record_slot r' \<longleftrightarrow> r = r'"
  by (metis record_slot_Done record_slot_Free record_slot_Held slot.exhaust)

lemma store_slot_upd [simp]:
  "store_slot (records(i := v)) j = (if j = i then record_slot v else store_slot records j)"
  by (simp add: store_slot_def)

lemma fence_live_slot:
  "fence_live now f (record_slot r) \<longleftrightarrow>
     (\<exists>fp u. r = Some \<lparr>rec_fingerprint = fp,
                     rec_state = InProgress (fence_owner_id f) (fence_token f) u\<rparr> \<and> now < u)"
proof (cases r)
  case (Some rc)
  then show ?thesis by (cases rc) (auto split: RecordState.splits)
qed simp

lemma purge_eligible_iff:
  "purge_eligible c records i \<longleftrightarrow>
     (\<exists>fp r at. records i = Some \<lparr>rec_fingerprint = fp, rec_state = Completed r at\<rparr> \<and> at < c)"
proof (cases "records i")
  case (Some rc)
  then show ?thesis by (cases rc) (auto simp: purge_eligible_def split: RecordState.splits)
qed (simp add: purge_eligible_def)

lemma reserve_refines:
  "reserve_spec now req (store_slot records (request_id req))
     (fst (ReservationStore_reserve now req records))
     (store_slot (snd (ReservationStore_reserve now req records)) (request_id req))"
proof (cases "records (request_id req)")
  case None
  then show ?thesis
    by (simp add: ReservationStore_reserve_def store_slot_def Let_def spec_fresh flip: request_id_def)
next
  case (Some rc)
  show ?thesis
  proof (cases "rec_fingerprint rc = req_fingerprint req")
    case False
    then show ?thesis using Some
      by (auto simp: ReservationStore_reserve_def store_slot_def Let_def simp flip: request_id_def
          split: RecordState.splits intro!: spec_conflict)
  next
    case True
    then show ?thesis using Some
      by (auto simp: ReservationStore_reserve_def store_slot_def Let_def simp flip: request_id_def
          split: RecordState.splits option.splits
          intro: reserve_spec.intros dest: FencingToken_next_greater)
  qed
qed

interpretation mem: reservation_port store_slot ReservationStore_reserve ReservationStore_renew
  ReservationStore_complete ReservationStore_abandon ReservationStore_purge_completed_before
proof unfold_locales
  fix now req and s :: reservation_store
  show "reserve_spec now req (store_slot s (request_id req))
          (fst (ReservationStore_reserve now req s))
          (store_slot (snd (ReservationStore_reserve now req s)) (request_id req))"
    by (rule reserve_refines)
next
  fix i req now and s :: reservation_store
  assume "i \<noteq> request_id req"
  then show "store_slot (snd (ReservationStore_reserve now req s)) i = store_slot s i"
    by (simp add: ReservationStore_reserve_def Let_def flip: request_id_def
        split: option.splits RecordState.splits)
next
  fix now u r and f :: OwnerFence and s :: reservation_store
  assume "\<not> fence_live now f (store_slot s (fence_operation_id f))"
  then show "ReservationStore_renew now f u s = (Err StaleOwner, s) \<and>
             ReservationStore_complete now f r s = (Err StaleOwner, s) \<and>
             ReservationStore_abandon now f s = (Err StaleOwner, s)"
    by (auto simp: store_defs store_slot_def split: option.splits RecordState.splits)
next
  fix i now u r and f :: OwnerFence and s :: reservation_store
  assume "i \<noteq> fence_operation_id f"
  then show "store_slot (snd (ReservationStore_renew now f u s)) i = store_slot s i \<and>
             store_slot (snd (ReservationStore_complete now f r s)) i = store_slot s i \<and>
             store_slot (snd (ReservationStore_abandon now f s)) i = store_slot s i"
    by (auto simp: store_defs split: option.splits RecordState.splits)
next
  fix fp ow t lu now u and f :: OwnerFence and s :: reservation_store
  assume "store_slot s (fence_operation_id f) = Held fp ow t lu"
    and "fence_live now f (store_slot s (fence_operation_id f))"
  then show "fst (ReservationStore_renew now f u s) = Ok () \<and>
    store_slot (snd (ReservationStore_renew now f u s)) (fence_operation_id f) = Held fp ow t u"
    by (auto simp: store_defs store_slot_def)
next
  fix fp ow t lu now r and f :: OwnerFence and s :: reservation_store
  assume "store_slot s (fence_operation_id f) = Held fp ow t lu"
    and "fence_live now f (store_slot s (fence_operation_id f))"
  then show "fst (ReservationStore_complete now f r s) = Ok () \<and>
    store_slot (snd (ReservationStore_complete now f r s)) (fence_operation_id f) = Done fp r now"
    by (auto simp: store_defs store_slot_def)
next
  fix now and f :: OwnerFence and s :: reservation_store
  assume "fence_live now f (store_slot s (fence_operation_id f))"
  then show "fst (ReservationStore_abandon now f s) = Ok () \<and>
    store_slot (snd (ReservationStore_abandon now f s)) (fence_operation_id f) = Free"
    by (auto simp: store_defs store_slot_def fence_live_slot)
next
  fix order c b i and s :: reservation_store
  let ?s' = "snd (ReservationStore_purge_completed_before order c b s)"
  show "store_slot ?s' i = store_slot s i \<or>
     store_slot ?s' i = Free \<and> (\<exists>fp r at. store_slot s i = Done fp r at \<and> at < c)"
  proof (cases "i \<in> set (take b (filter (purge_eligible c s) order))")
    case True
    then have "purge_eligible c s i" by (auto dest: in_set_takeD)
    then have "\<exists>fp r at. store_slot s i = Done fp r at \<and> at < c"
      by (auto simp: purge_eligible_iff store_slot_def)
    then show ?thesis using True by (simp add: store_defs store_slot_def Let_def)
  next
    case False
    then show ?thesis by (simp add: store_defs store_slot_def Let_def)
  qed
qed

lemma store_slot_occupied: "store_slot records i \<noteq> Free \<longleftrightarrow> records i \<noteq> None"
  by (simp add: store_slot_def)

section \<open>A sample reservation\<close>

definition ex_id :: OperationId where
  "ex_id = \<lparr>oid_tenant = Some (TenantId ''acme''), oid_key = OperationKey ''op-1''\<rparr>"

definition ex_fence :: "string \<Rightarrow> u64 \<Rightarrow> OwnerFence" where
  "ex_fence ow t = \<lparr>fence_operation_id = ex_id, fence_owner_id = OwnerId ow, fence_token = FencingToken t\<rparr>"

definition ex_request :: "string \<Rightarrow> string \<Rightarrow> timestamp \<Rightarrow> ReserveRequest" where
  "ex_request fp ow u =
     \<lparr>req_tenant = Some (TenantId ''acme''), req_operation_key = OperationKey ''op-1'',
      req_fingerprint = OperationFingerprint fp, req_owner_id = OwnerId ow, req_lease_until = u\<rparr>"

definition ex_records :: reservation_store where
  "ex_records = [ex_id \<mapsto> \<lparr>rec_fingerprint = OperationFingerprint ''f'',
                             rec_state = InProgress (OwnerId ''a'') (FencingToken 1) 10\<rparr>]"

lemmas ex_defs = ex_id_def ex_fence_def ex_request_def ex_records_def request_id_def Let_def

section \<open>Properties\<close>

text \<open>C22: fencing. Once \<open>reserve\<close> has taken an expired lease over, every fence that carries the
  displaced token or a smaller one, whoever presents it, is refused by \<open>renew\<close>, \<open>complete\<close> and
  \<open>abandon\<close> with \<open>StaleOwner\<close> and without any change to the store: immediately, and after any further
  calls by anyone at any instants, for as long as the reservation exists.\<close>

theorem takeover_fences_out:
  assumes "records i = Some \<lparr>rec_fingerprint = fp, rec_state = InProgress ow t u\<rparr>"
    and "request_id req = i"
    and "fst (ReservationStore_reserve now req records) = Ok (TakenOver lease)"
    and "holds_throughout (\<lambda>s. s i \<noteq> None) ReservationStore_exec h
           (snd (ReservationStore_reserve now req records))"
    and "fence_operation_id f = i" "fence_token f \<le> t"
  defines "s' \<equiv> run_ops ReservationStore_exec h (snd (ReservationStore_reserve now req records))"
  shows "ReservationStore_renew now' f v s' = (Err StaleOwner, s') \<and>
         ReservationStore_complete now' f r s' = (Err StaleOwner, s') \<and>
         ReservationStore_abandon now' f s' = (Err StaleOwner, s')"
proof -
  have "store_slot records i = Held fp ow t u" using assms(1) by (simp add: store_slot_def)
  note dead = mem.displaced_fence_dead
    [OF this assms(2,3) assms(4) [folded store_slot_occupied] assms(5,6)]
  show ?thesis unfolding s'_def using dead by blast
qed

theorem takeover_fences_out_witness:
  "let s' = run_ops ReservationStore_exec
              [(11, Renew (ex_fence ''a'' 1) 50), (12, Complete (ex_fence ''b'' 2) (StoredServiceResponse [7]))]
              (snd (ReservationStore_reserve 10 (ex_request ''f'' ''b'' 20) ex_records))
   in ReservationStore_renew 13 (ex_fence ''a'' 1) 60 s' = (Err StaleOwner, s') \<and>
      ReservationStore_complete 13 (ex_fence ''a'' 1) (StoredServiceResponse []) s' = (Err StaleOwner, s') \<and>
      ReservationStore_abandon 13 (ex_fence ''a'' 1) s' = (Err StaleOwner, s')"
  unfolding Let_def
  by (rule takeover_fences_out [where i = ex_id and t = "FencingToken 1" and fp = "OperationFingerprint ''f''"
        and ow = "OwnerId ''a''" and u = 10
        and lease = "\<lparr>lease_operation_id = ex_id, lease_owner_id = OwnerId ''b'',
                      lease_fencing_token = FencingToken 2, lease_until = 20\<rparr>"])
    (simp_all add: ex_defs store_defs FencingToken_next_def checked_succ_def)

text \<open>Verification before mutation. \<open>renew\<close>, \<open>complete\<close> and \<open>abandon\<close> succeed exactly when the
  full triple matches the record of that operation and its lease still runs; otherwise each returns
  \<open>StaleOwner\<close> and leaves the store as it was.\<close>

theorem mutation_needs_live_fence:
  "let live = (\<exists>fp u. records (fence_operation_id f) =
                  Some \<lparr>rec_fingerprint = fp,
                        rec_state = InProgress (fence_owner_id f) (fence_token f) u\<rparr> \<and> now < u)
   in (fst (ReservationStore_renew now f v records) = Ok ()) = live \<and>
      (fst (ReservationStore_complete now f r records) = Ok ()) = live \<and>
      (fst (ReservationStore_abandon now f records) = Ok ()) = live \<and>
      (live \<or> ReservationStore_renew now f v records = (Err StaleOwner, records) \<and>
              ReservationStore_complete now f r records = (Err StaleOwner, records) \<and>
              ReservationStore_abandon now f records = (Err StaleOwner, records))"
proof -
  let ?live = "fence_live now f (store_slot records (fence_operation_id f))"
  have "?live \<Longrightarrow> fst (ReservationStore_renew now f v records) = Ok () \<and>
          fst (ReservationStore_complete now f r records) = Ok () \<and>
          fst (ReservationStore_abandon now f records) = Ok ()"
    by (metis mem.renew_live mem.complete_live mem.abandon_live mem.fence_live_Held)
  moreover note mem.stale [of now f records v r]
  ultimately show ?thesis
    unfolding Let_def fence_live_slot [symmetric] store_slot_def [symmetric] by fastforce
qed

text \<open>C23: exclusion. From the grant of a lease until it expires, no call other than one presenting
  that lease's own fence changes the reservation: no competing \<open>reserve\<close> is granted the operation,
  whatever calls happen in between and in whatever order their instants come.\<close>

theorem lease_is_exclusive:
  assumes "records i = Some \<lparr>rec_fingerprint = fp, rec_state = InProgress ow t u\<rparr>"
    and "\<forall>(now, op) \<in> set h. now < u \<and>
       presented_fence op \<noteq> Some \<lparr>fence_operation_id = i, fence_owner_id = ow, fence_token = t\<rparr>"
    and "request_id req = i" "now' < u"
  defines "s' \<equiv> run_ops ReservationStore_exec h records"
  shows "s' i = records i \<and>
         fst (ReservationStore_reserve now' req s') =
           Ok (if req_fingerprint req \<noteq> fp then ReservationConflict
               else if req_owner_id req = ow
                 then OwnedInProgress \<lparr>lease_operation_id = i, lease_owner_id = ow,
                                       lease_fencing_token = t, lease_until = u\<rparr>
               else OtherInProgress)"
proof -
  have "store_slot records i = Held fp ow t u" using assms(1) by (simp add: store_slot_def)
  from mem.lease_untouched_run [OF this assms(2)]
  have *: "store_slot s' i = Held fp ow t u" by (simp add: s'_def)
  then have "s' i = records i" using assms(1) by (simp add: store_slot_def)
  moreover have "fst (ReservationStore_reserve now' req s') =
      Ok (if req_fingerprint req \<noteq> fp then ReservationConflict
          else if req_owner_id req = ow
            then OwnedInProgress \<lparr>lease_operation_id = i, lease_owner_id = ow,
                                  lease_fencing_token = t, lease_until = u\<rparr>
          else OtherInProgress)"
    using mem.reserve_own [of now' req s'] * assms(3,4) by (auto elim!: reserve_spec_HeldE)
  ultimately show ?thesis ..
qed

theorem lease_is_exclusive_witness:
  "let s' = run_ops ReservationStore_exec
              [(3, Reserve (ex_request ''f'' ''b'' 90)), (9, Abandon (ex_fence ''b'' 1)), (4, Purge 99 5 [ex_id])]
              ex_records
   in s' ex_id = ex_records ex_id \<and>
      fst (ReservationStore_reserve 9 (ex_request ''f'' ''b'' 90) s') = Ok OtherInProgress"
  unfolding Let_def
  using lease_is_exclusive [of ex_records ex_id "OperationFingerprint ''f''" "OwnerId ''a''" "FencingToken 1" 10
      "[(3, Reserve (ex_request ''f'' ''b'' 90)), (9, Abandon (ex_fence ''b'' 1)), (4, Purge 99 5 [ex_id])]"
      "ex_request ''f'' ''b'' 90" 9]
  by (simp add: ex_defs)

text \<open>Replay. After \<open>complete\<close> has succeeded, every later \<open>reserve\<close> under the same key and tenant
  answers the stored response to the same fingerprint and \<open>Conflict\<close> to any other, after any further
  calls, unless a purge with a cutoff past the completion runs.\<close>

theorem completion_is_replayed:
  assumes "ReservationStore_complete now f r records = (Ok (), s)"
    and "records (fence_operation_id f) = Some rc"
    and "\<forall>(now', op) \<in> set h. \<not> purges_at now op"
    and "request_id req = fence_operation_id f"
  shows "fst (ReservationStore_reserve now' req (run_ops ReservationStore_exec h s)) =
           Ok (if req_fingerprint req = rec_fingerprint rc then Succeeded r else ReservationConflict)"
proof -
  have "store_slot s (fence_operation_id f) = Done (rec_fingerprint rc) r now"
    using assms(1,2)
    by (auto simp: ReservationStore_complete_def store_slot_def split: RecordState.splits if_splits)
  from mem.done_stable_run [OF this assms(3)] show ?thesis
    using mem.reserve_own [of now' req "run_ops ReservationStore_exec h s"] assms(4)
    by (auto elim!: reserve_spec_DoneE)
qed

theorem completion_is_replayed_witness:
  "fst (ReservationStore_reserve 30 (ex_request ''f'' ''b'' 90)
     (run_ops ReservationStore_exec [(20, Purge 5 9 [ex_id]), (21, Reserve (ex_request ''g'' ''c'' 50))]
       (snd (ReservationStore_complete 5 (ex_fence ''a'' 1) (StoredServiceResponse [7]) ex_records)))) =
   Ok (Succeeded (StoredServiceResponse [7]))"
  using completion_is_replayed [of 5 "ex_fence ''a'' 1" "StoredServiceResponse [7]" ex_records
      "snd (ReservationStore_complete 5 (ex_fence ''a'' 1) (StoredServiceResponse [7]) ex_records)"
      "the (ex_records ex_id)"
      "[(20, Purge 5 9 [ex_id]), (21, Reserve (ex_request ''g'' ''c'' 50))]" "ex_request ''f'' ''b'' 90" 30]
  by (simp add: ex_defs ReservationStore_complete_def)

text \<open>Retention. Whatever the iteration order of the map, a purge removes only completed
  reservations older than the cutoff, removes exactly as many as it reports, reports the smaller of
  the batch size and the number of eligible rows, and keeps every other row.\<close>

theorem purge_is_exact:
  assumes "enumerates order records"
  shows "let eligible = {i. \<exists>fp r at. records i = Some \<lparr>rec_fingerprint = fp, rec_state = Completed r at\<rparr> \<and>
                                     at < cutoff};
             (n, records') = ReservationStore_purge_completed_before order cutoff batch records
         in \<exists>gone. gone \<subseteq> eligible \<and> card gone = n \<and> n = min batch (card eligible) \<and>
              (\<forall>i. records' i = (if i \<in> gone then None else records i))"
proof -
  let ?el = "filter (purge_eligible cutoff records) order"
  let ?E = "{i. purge_eligible cutoff records i}"
  have el: "distinct ?el" "set ?el = ?E"
    using assms by (auto simp: enumerates_mem enumerates_distinct purge_eligible_iff)
  have card: "card ?E = length ?el"
    using distinct_card [OF el(1)] unfolding el(2) .
  have "set (take batch ?el) \<subseteq> ?E"
    using set_take_subset [of batch ?el] unfolding el(2) .
  moreover have "card (set (take batch ?el)) = min batch (card ?E)"
    using distinct_card [OF distinct_take [OF el(1), of batch]] unfolding card by simp
  ultimately show ?thesis
    unfolding ReservationStore_purge_completed_before_def Let_def case_prod_conv
      purge_eligible_iff [symmetric]
    by (intro exI [of _ "set (take batch ?el)"]) (simp add: card min.commute)
qed

theorem purge_is_exact_witness:
  "let records = [ex_id \<mapsto> \<lparr>rec_fingerprint = OperationFingerprint ''f'',
                             rec_state = Completed (StoredServiceResponse []) 3\<rparr>]
   in fst (ReservationStore_purge_completed_before [ex_id] 4 1 records) = 1 \<and>
      snd (ReservationStore_purge_completed_before [ex_id] 4 1 records) ex_id = None"
proof -
  let ?records = "[ex_id \<mapsto> \<lparr>rec_fingerprint = OperationFingerprint ''f'',
                               rec_state = Completed (StoredServiceResponse []) 3\<rparr>]"
  have "enumerates [ex_id] ?records" by (simp add: enumerates_def)
  note purge_is_exact [OF this, of 4 1]
  moreover have "{i. \<exists>fp r at. ?records i = Some \<lparr>rec_fingerprint = fp, rec_state = Completed r at\<rparr> \<and> at < 4}
      = {ex_id}" by auto
  ultimately show ?thesis by (auto simp: Let_def case_prod_beta subset_singleton_iff)
qed

text \<open>C25: the stored reservation follows its specified life. Whatever call is made at whatever
  instant, the record of each operation takes one step of \<open>slot_step\<close>, the specification of a
  single reservation: stay, be granted, be taken over after expiry with a greater token, be renewed,
  completed or abandoned while live, or be purged once completed.\<close>

theorem store_refines_lifecycle:
  "slot_step now (store_slot records i) (store_slot (snd (ReservationStore_exec now op records)) i)"
  by (rule mem.exec_slot_step)

text \<open>A fence outlives its reservation. \<open>abandon\<close> removes the record, so the next \<open>reserve\<close> by
  the same owner starts again at the initial token: the fence of the abandoned execution compares
  equal to the fence of the new one, and a straggler of the first execution can complete the second.
  Takeover never reuses a token, but the sequence is not monotone across an abandonment.\<close>

theorem abandoned_fence_is_reissued:
  "let (r1, s1) = ReservationStore_reserve 0 (ex_request ''f'' ''a'' 10) ReservationStore_new;
       (r2, s2) = ReservationStore_abandon 1 (ex_fence ''a'' 1) s1;
       (r3, s3) = ReservationStore_reserve 2 (ex_request ''g'' ''a'' 10) s2;
       (r4, s4) = ReservationStore_complete 3 (ex_fence ''a'' 1) (StoredServiceResponse [1]) s3
   in (\<exists>l. r1 = Ok (Fresh l)) \<and> r2 = Ok () \<and> (\<exists>l. r3 = Ok (Fresh l)) \<and> r4 = Ok () \<and>
      fst (ReservationStore_reserve 4 (ex_request ''g'' ''a'' 10) s4) =
        Ok (Succeeded (StoredServiceResponse [1]))"
  by (simp add: ex_defs store_defs ReservationStore_new_def FencingToken_initial_def)

end
