(* ===== verification/Ego_Effect.thy ===== *)
theory Ego_Effect
  imports Ego_Identity
begin

text \<open>
  What a handler returns: \<open>Effect\<close> and \<open>ExternalEffectDescription\<close> of \<open>crates/domain/src/effect.rs\<close>.
  A byte vector is a list of 8-bit words.
\<close>

section \<open>Effects\<close>

record ExternalEffectDescription =
  ed_idempotency_key :: IdempotencyKey
  ed_effect_type :: string
  ed_payload :: "8 word list"
  ed_destination :: string

datatype ('e, 'r, 's) Effect =
  NoEffect
| StateMutation 's
| EventEmission "'e list"
| Reply 'r
| ExternalEffects "ExternalEffectDescription list"
| Composed "('e, 'r, 's) Effect list"

definition Effect_no :: "('e, 'r, 's) Effect" where
  "Effect_no = NoEffect"

definition Effect_state :: "'s \<Rightarrow> ('e, 'r, 's) Effect" where
  "Effect_state s = StateMutation s"

definition Effect_emit :: "'e list \<Rightarrow> ('e, 'r, 's) Effect" where
  "Effect_emit es = EventEmission es"

definition Effect_reply :: "'r \<Rightarrow> ('e, 'r, 's) Effect" where
  "Effect_reply r = Reply r"

definition Effect_external :: "ExternalEffectDescription list \<Rightarrow> ('e, 'r, 's) Effect" where
  "Effect_external ds = ExternalEffects ds"

definition Effect_compose :: "('e, 'r, 's) Effect list \<Rightarrow> ('e, 'r, 's) Effect" where
  "Effect_compose es = Composed es"

text \<open>\<open>collect_children\<close> pushes onto the vector \<open>acc\<close>; the result is that vector afterwards.\<close>

fun collect_children ::
  "('e, 'r, 's) Effect \<Rightarrow> ('e, 'r, 's) Effect list \<Rightarrow> ('e, 'r, 's) Effect list" where
  "collect_children (Composed children) acc = fold collect_children children acc"
| "collect_children NoEffect acc = acc"
| "collect_children other acc = acc @ [other]"

fun and_then :: "('e, 'r, 's) Effect \<Rightarrow> ('e, 'r, 's) Effect \<Rightarrow> ('e, 'r, 's) Effect" where
  "and_then NoEffect other = other"
| "and_then self NoEffect = self"
| "and_then self other = Composed (collect_children other (collect_children self []))"

section \<open>Flattening\<close>

text \<open>The reference definition: the effects at the leaves, in order.\<close>

primrec leaves :: "('e, 'r, 's) Effect \<Rightarrow> ('e, 'r, 's) Effect list" where
  "leaves NoEffect = []"
| "leaves (StateMutation s) = [StateMutation s]"
| "leaves (EventEmission es) = [EventEmission es]"
| "leaves (Reply r) = [Reply r]"
| "leaves (ExternalEffects ds) = [ExternalEffects ds]"
| "leaves (Composed es) = concat (map leaves es)"

lemma fold_append_leaves:
  assumes "\<And>e acc. e \<in> set es \<Longrightarrow> collect_children e acc = acc @ leaves e"
  shows "fold collect_children es acc = acc @ concat (map leaves es)"
  using assms by (induction es arbitrary: acc) auto

lemma collect_children_leaves: "collect_children e acc = acc @ leaves e"
proof (induction e arbitrary: acc)
  case (Composed es)
  then show ?case by (simp add: fold_append_leaves)
qed simp_all

lemma and_then_NoEffect_right [simp]: "and_then e NoEffect = e"
  by (cases e) simp_all

lemma and_then_Composed:
  "a \<noteq> NoEffect \<Longrightarrow> b \<noteq> NoEffect \<Longrightarrow> and_then a b = Composed (leaves a @ leaves b)"
  by (cases a; cases b) (simp_all add: collect_children_leaves del: collect_children.simps)

lemma leaves_flat: "e' \<in> set (leaves e) \<Longrightarrow> leaves e' = [e']"
  by (induction e) auto

lemma concat_map_single: "(\<And>x. x \<in> set xs \<Longrightarrow> f x = [x]) \<Longrightarrow> concat (map f xs) = xs"
  by (induction xs) auto

lemma concat_leaves [simp]: "concat (map leaves (leaves e)) = leaves e"
  by (rule concat_map_single) (rule leaves_flat)

lemma leaves_and_then [simp]: "leaves (and_then a b) = leaves a @ leaves b"
  by (cases "a = NoEffect \<or> b = NoEffect") (auto simp: and_then_Composed)

lemma and_then_eq_NoEffect [simp]: "and_then a b = NoEffect \<longleftrightarrow> a = NoEffect \<and> b = NoEffect"
  by (cases a; cases b) simp_all

text \<open>Composition of effects. \<open>and_then\<close> is associative with \<open>NoEffect\<close> as its unit, loses and
  reorders nothing (the leaves of the result are the leaves of the operands in order), and flattens:
  the children of a composition it builds are neither compositions nor \<open>NoEffect\<close>.\<close>

theorem and_then_monoid:
  "and_then NoEffect a = a \<and> and_then a NoEffect = a \<and>
   and_then (and_then a b) c = and_then a (and_then b c) \<and>
   leaves (and_then a b) = leaves a @ leaves b \<and>
   (a = NoEffect \<or> b = NoEffect \<or>
    (\<exists>es. and_then a b = Composed es \<and> list_all (\<lambda>e. leaves e = [e]) es))"
proof -
  have "and_then (and_then a b) c = and_then a (and_then b c)"
    by (cases "a = NoEffect \<or> b = NoEffect \<or> c = NoEffect") (auto simp: and_then_Composed)
  moreover have "list_all (\<lambda>e. leaves e = [e]) (leaves a @ leaves b)"
    by (auto simp: list_all_iff dest: leaves_flat)
  ultimately show ?thesis
    by (auto simp: and_then_Composed)
qed

end
