(* ===== verification/Ego_Effect_Store.thy ===== *)
theory Ego_Effect_Store
  imports Ego_Effect
begin

text \<open>
  The effect delivery stores of \<open>crates/runtime/src/effects/store.rs\<close>: the vocabulary of the two
  ports (\<open>EffectStateStore\<close>, \<open>EffectDedupStore\<close>) and \<open>InMemoryEffectStore\<close>, which implements both.

  \<open>u32\<close> attempt counters are \<open>nat\<close>. SHA-256 comes from the \<open>sha2\<close> crate and is a parameter.
\<close>

section \<open>Vocabulary\<close>

datatype EffectId = EffectId "128 word"

datatype EffectState = Pending | InFlight | Succeeded | RetryableFailed | TerminalFailed

datatype TerminalReason = ExecutorMissing | InvalidEffect string | Other string

datatype EffectStoreError =
  NotFound EffectId
| InvalidTransition EffectId EffectState EffectState
| Conflict string
| TemporarilyUnavailable string
| Backend string

record AcceptedEffect =
  ae_id :: EffectId
  ae_tenant :: TenantId
  ae_attempt :: nat
  ae_description :: ExternalEffectDescription

record StoredEffect =
  se_id :: EffectId
  se_tenant :: TenantId
  se_description :: ExternalEffectDescription
  se_attempt :: nat
  se_state :: EffectState
  se_next_at :: timestamp

datatype DedupOutcome =
  Fresh | OwnedInProgress | OwnedSucceeded | OtherInProgress | OtherSucceeded | DedupConflict

record DedupScope =
  ds_tenant :: TenantId
  ds_effect_type :: string
  ds_key :: IdempotencyKey

section \<open>Fingerprints\<close>

datatype EffectFingerprint = EffectFingerprint "8 word list"

text \<open>\<open>(n as u64).to_be_bytes()\<close>.\<close>

definition to_be_bytes :: "nat \<Rightarrow> 8 word list" where
  "to_be_bytes n = map (\<lambda>i. of_nat (n div 256 ^ i)) [7, 6, 5, 4, 3, 2, 1, 0]"

definition as_bytes :: "string \<Rightarrow> 8 word list" where
  "as_bytes s = map (\<lambda>c. of_nat (of_char c)) s"

text \<open>What the hasher is fed.\<close>

definition fingerprint_input :: "8 word list \<Rightarrow> string \<Rightarrow> 8 word list" where
  "fingerprint_input payload destination =
     to_be_bytes (length payload) @ payload @
     to_be_bytes (length (as_bytes destination)) @ as_bytes destination"

definition EffectFingerprint_compute ::
  "(8 word list \<Rightarrow> 8 word list) \<Rightarrow> 8 word list \<Rightarrow> string \<Rightarrow> EffectFingerprint" where
  "EffectFingerprint_compute sha256 payload destination =
     EffectFingerprint (sha256 (fingerprint_input payload destination))"

section \<open>The in-memory store\<close>

record EffectRecord =
  er_tenant :: TenantId
  er_description :: ExternalEffectDescription
  er_state :: EffectState
  er_attempt :: nat
  er_next_at :: "timestamp option"
  er_terminal_reason :: "TerminalReason option"

record ReservationRecord =
  rr_effect_id :: EffectId
  rr_fingerprint :: EffectFingerprint
  rr_succeeded :: bool

record InMemoryEffectStore =
  states :: "EffectId \<rightharpoonup> EffectRecord"
  dedup :: "DedupScope \<rightharpoonup> ReservationRecord"

type_synonym 'a effect_call = "('a, EffectStoreError) result \<times> InMemoryEffectStore"

definition EffectStore_new :: InMemoryEffectStore where
  "EffectStore_new = \<lparr>states = Map.empty, dedup = Map.empty\<rparr>"

text \<open>
  \<open>transition\<close> checks the record's current state and updates it; the caller then writes further
  fields through the reference it returns, here the function \<open>upd\<close>. Error messages are rendered
  without the effect id they interpolate.
\<close>

definition transition ::
  "EffectId \<Rightarrow> EffectState list \<Rightarrow> EffectState \<Rightarrow> (EffectRecord \<Rightarrow> EffectRecord) \<Rightarrow>
   InMemoryEffectStore \<Rightarrow> unit effect_call" where
  "transition i allowed_from to upd st =
     (case states st i of
        None \<Rightarrow> (Err (NotFound i), st)
      | Some r \<Rightarrow>
          if er_state r \<notin> set allowed_from then (Err (InvalidTransition i (er_state r) to), st)
          else (Ok (), st\<lparr>states := (states st)(i \<mapsto> upd (r\<lparr>er_state := to\<rparr>))\<rparr>))"

definition EffectStore_accept :: "AcceptedEffect \<Rightarrow> InMemoryEffectStore \<Rightarrow> unit effect_call" where
  "EffectStore_accept effect st =
     (case states st (ae_id effect) of
        Some existing \<Rightarrow>
          if er_tenant existing = ae_tenant effect \<and> er_description existing = ae_description effect
          then (Ok (), st)
          else (Err (Conflict ''effect already accepted with different tenant/description''), st)
      | None \<Rightarrow>
          (Ok (), st\<lparr>states := (states st)(ae_id effect \<mapsto>
             \<lparr>er_tenant = ae_tenant effect, er_description = ae_description effect,
              er_state = Pending, er_attempt = ae_attempt effect, er_next_at = None,
              er_terminal_reason = None\<rparr>)\<rparr>))"

definition EffectStore_mark_in_flight :: "EffectId \<Rightarrow> InMemoryEffectStore \<Rightarrow> unit effect_call" where
  "EffectStore_mark_in_flight i = transition i [Pending, RetryableFailed] InFlight id"

definition EffectStore_mark_succeeded :: "EffectId \<Rightarrow> InMemoryEffectStore \<Rightarrow> unit effect_call" where
  "EffectStore_mark_succeeded i = transition i [InFlight] Succeeded id"

definition EffectStore_mark_retryable ::
  "EffectId \<Rightarrow> nat \<Rightarrow> timestamp \<Rightarrow> InMemoryEffectStore \<Rightarrow> unit effect_call" where
  "EffectStore_mark_retryable i attempt next_at =
     transition i [InFlight] RetryableFailed
       (\<lambda>r. r\<lparr>er_attempt := attempt, er_next_at := Some next_at\<rparr>)"

definition EffectStore_mark_terminal ::
  "EffectId \<Rightarrow> TerminalReason \<Rightarrow> InMemoryEffectStore \<Rightarrow> unit effect_call" where
  "EffectStore_mark_terminal i reason =
     transition i [InFlight, RetryableFailed] TerminalFailed
       (\<lambda>r. r\<lparr>er_terminal_reason := Some reason\<rparr>)"

definition is_due :: "timestamp \<Rightarrow> InMemoryEffectStore \<Rightarrow> EffectId \<Rightarrow> bool" where
  "is_due now st i =
     (case states st i of
        None \<Rightarrow> False
      | Some r \<Rightarrow>
          (er_state r = Pending \<or> er_state r = RetryableFailed) \<and>
          (case er_next_at r of None \<Rightarrow> True | Some next_at \<Rightarrow> next_at \<le> now))"

definition stored_effect :: "timestamp \<Rightarrow> EffectId \<Rightarrow> EffectRecord \<Rightarrow> StoredEffect" where
  "stored_effect now i r =
     \<lparr>se_id = i, se_tenant = er_tenant r, se_description = er_description r,
      se_attempt = er_attempt r, se_state = er_state r,
      se_next_at = (case er_next_at r of None \<Rightarrow> now | Some next_at \<Rightarrow> next_at)\<rparr>"

definition EffectStore_claim_due ::
  "EffectId list \<Rightarrow> timestamp \<Rightarrow> nat \<Rightarrow> InMemoryEffectStore \<Rightarrow> StoredEffect list effect_call" where
  "EffectStore_claim_due order now limit st =
     (Ok (map (\<lambda>i. stored_effect now i (the (states st i)))
            (take limit (filter (is_due now st) order))), st)"

definition recovered :: "timestamp \<Rightarrow> EffectRecord \<Rightarrow> EffectRecord" where
  "recovered now r =
     (if er_state r = InFlight then r\<lparr>er_state := Pending, er_next_at := Some now\<rparr> else r)"

definition EffectStore_recover_in_flight ::
  "EffectId list \<Rightarrow> timestamp \<Rightarrow> InMemoryEffectStore \<Rightarrow> nat effect_call" where
  "EffectStore_recover_in_flight order now st =
     (Ok (length (filter (\<lambda>i. map_option er_state (states st i) = Some InFlight) order)),
      st\<lparr>states := \<lambda>i. map_option (recovered now) (states st i)\<rparr>)"

definition EffectStore_reserve ::
  "DedupScope \<Rightarrow> EffectId \<Rightarrow> EffectFingerprint \<Rightarrow> InMemoryEffectStore \<Rightarrow> DedupOutcome effect_call" where
  "EffectStore_reserve scope effect_id fingerprint st =
     (case dedup st scope of
        None \<Rightarrow>
          (Ok Fresh, st\<lparr>dedup := (dedup st)(scope \<mapsto>
             \<lparr>rr_effect_id = effect_id, rr_fingerprint = fingerprint, rr_succeeded = False\<rparr>)\<rparr>)
      | Some existing \<Rightarrow>
          (Ok (if rr_fingerprint existing \<noteq> fingerprint then DedupConflict
               else if rr_effect_id existing = effect_id
                 then (if rr_succeeded existing then OwnedSucceeded else OwnedInProgress)
               else (if rr_succeeded existing then OtherSucceeded else OtherInProgress)), st))"

definition EffectStore_commit_success :: "DedupScope \<Rightarrow> InMemoryEffectStore \<Rightarrow> unit effect_call" where
  "EffectStore_commit_success scope st =
     (Ok (), st\<lparr>dedup := (dedup st)(scope :=
        map_option (\<lambda>r. r\<lparr>rr_succeeded := True\<rparr>) (dedup st scope))\<rparr>)"

definition EffectStore_release :: "DedupScope \<Rightarrow> InMemoryEffectStore \<Rightarrow> unit effect_call" where
  "EffectStore_release scope st = (Ok (), st\<lparr>dedup := (dedup st)(scope := None)\<rparr>)"

lemmas [store_defs] =
  EffectStore_accept_def EffectStore_mark_in_flight_def EffectStore_mark_succeeded_def
  EffectStore_mark_retryable_def EffectStore_mark_terminal_def EffectStore_claim_due_def
  EffectStore_recover_in_flight_def EffectStore_reserve_def EffectStore_commit_success_def
  EffectStore_release_def transition_def

lemma se_id_stored_effect [simp]: "se_id (stored_effect now i r) = i"
  by (simp add: stored_effect_def)

lemma recovered_not_InFlight [simp]: "er_state (recovered now r) \<noteq> InFlight"
  by (simp add: recovered_def)

section \<open>The state machine of one effect\<close>

text \<open>
  The specified life of an effect. \<open>Succeeded\<close> and \<open>TerminalFailed\<close> have no way out.
\<close>

inductive effect_move :: "EffectState option \<Rightarrow> EffectState option \<Rightarrow> bool" where
  stay: "effect_move s s"
| accepted: "effect_move None (Some Pending)"
| start: "s \<in> {Pending, RetryableFailed} \<Longrightarrow> effect_move (Some s) (Some InFlight)"
| succeed: "effect_move (Some InFlight) (Some Succeeded)"
| fail: "effect_move (Some InFlight) (Some RetryableFailed)"
| give_up: "s \<in> {InFlight, RetryableFailed} \<Longrightarrow> effect_move (Some s) (Some TerminalFailed)"
| recover: "effect_move (Some InFlight) (Some Pending)"

inductive_simps effect_move_from_Succeeded: "effect_move (Some Succeeded) s"
inductive_simps effect_move_from_TerminalFailed: "effect_move (Some TerminalFailed) s"

datatype effect_op =
  Accept AcceptedEffect
| MarkInFlight EffectId
| MarkSucceeded EffectId
| MarkRetryable EffectId nat timestamp
| MarkTerminal EffectId TerminalReason
| ClaimDue "EffectId list" timestamp nat
| RecoverInFlight "EffectId list" timestamp
| DedupReserve DedupScope EffectId EffectFingerprint
| CommitSuccess DedupScope
| Release DedupScope

fun EffectStore_exec :: "effect_op \<Rightarrow> InMemoryEffectStore \<Rightarrow> InMemoryEffectStore" where
  "EffectStore_exec (Accept e) st = snd (EffectStore_accept e st)"
| "EffectStore_exec (MarkInFlight i) st = snd (EffectStore_mark_in_flight i st)"
| "EffectStore_exec (MarkSucceeded i) st = snd (EffectStore_mark_succeeded i st)"
| "EffectStore_exec (MarkRetryable i a t) st = snd (EffectStore_mark_retryable i a t st)"
| "EffectStore_exec (MarkTerminal i r) st = snd (EffectStore_mark_terminal i r st)"
| "EffectStore_exec (ClaimDue order now n) st = snd (EffectStore_claim_due order now n st)"
| "EffectStore_exec (RecoverInFlight order now) st = snd (EffectStore_recover_in_flight order now st)"
| "EffectStore_exec (DedupReserve sc i fp) st = snd (EffectStore_reserve sc i fp st)"
| "EffectStore_exec (CommitSuccess sc) st = snd (EffectStore_commit_success sc st)"
| "EffectStore_exec (Release sc) st = snd (EffectStore_release sc st)"

abbreviation state_of :: "InMemoryEffectStore \<Rightarrow> EffectId \<Rightarrow> EffectState option" where
  "state_of st i \<equiv> map_option er_state (states st i)"

lemma transition_move:
  assumes "\<And>s. s \<in> set from \<Longrightarrow> effect_move (Some s) (Some to)" "\<And>r. er_state (upd r) = er_state r"
  shows "effect_move (state_of st j) (state_of (snd (transition i from to upd st)) j)"
  using assms by (auto simp: transition_def stay split: option.splits)

lemma EffectStore_exec_move: "effect_move (state_of st i) (state_of (EffectStore_exec op st) i)"
proof (cases op)
  case (RecoverInFlight order now)
  then show ?thesis
    by (cases "states st i")
      (auto simp: EffectStore_recover_in_flight_def recovered_def intro: effect_move.intros)
qed (auto simp: EffectStore_accept_def EffectStore_mark_in_flight_def EffectStore_mark_succeeded_def
    EffectStore_mark_retryable_def EffectStore_mark_terminal_def EffectStore_claim_due_def
    EffectStore_reserve_def EffectStore_commit_success_def EffectStore_release_def
    intro: effect_move.intros intro!: transition_move split: option.splits)

section \<open>The framing of a fingerprint\<close>

lemma digits_unique:
  fixes n m :: nat
  assumes "n < 256 ^ k" "m < 256 ^ k" "\<And>i. i < k \<Longrightarrow> n div 256 ^ i mod 256 = m div 256 ^ i mod 256"
  shows "n = m"
  using assms
proof (induction k arbitrary: n m)
  case (Suc k)
  have "n div 256 = m div 256"
  proof (rule Suc.IH)
    show "n div 256 < 256 ^ k" "m div 256 < 256 ^ k"
      using Suc.prems(1,2) by (simp_all add: less_mult_imp_div_less mult.commute)
    show "n div 256 div 256 ^ i mod 256 = m div 256 div 256 ^ i mod 256" if "i < k" for i
      using Suc.prems(3) [of "Suc i"] that by (simp add: div_mult2_eq)
  qed
  moreover have "n mod 256 = m mod 256" using Suc.prems(3) [of 0] by simp
  ultimately show ?case by (metis div_mult_mod_eq)
qed simp

lemma of_nat_byte_eq: "(of_nat a :: 8 word) = of_nat b \<longleftrightarrow> a mod 256 = b mod 256"
  by (simp add: word_of_nat_eq_iff take_bit_nat_def)

lemma length_to_be_bytes [simp]: "length (to_be_bytes n) = 8"
  by (simp add: to_be_bytes_def)

lemma to_be_bytes_inj:
  assumes "n < 2 ^ 64" "m < 2 ^ 64" "to_be_bytes n = to_be_bytes m"
  shows "n = m"
proof (rule digits_unique [of _ 8])
  show "n < 256 ^ 8" "m < 256 ^ 8" using assms(1,2) by simp_all
  fix i :: nat assume "i < 8"
  then have "i \<in> set [7, 6, 5, 4, 3, 2, 1, 0]" by auto
  then show "n div 256 ^ i mod 256 = m div 256 ^ i mod 256"
    using assms(3) unfolding to_be_bytes_def map_eq_conv of_nat_byte_eq by blast
qed

lemma length_as_bytes [simp]: "length (as_bytes s) = length s"
  by (simp add: as_bytes_def)

lemma as_bytes_inj: "as_bytes s = as_bytes t \<longleftrightarrow> s = t"
proof -
  have "inj (\<lambda>c :: char. of_nat (of_char c) :: 8 word)"
  proof (rule injI)
    fix c d :: char
    assume "(of_nat (of_char c) :: 8 word) = of_nat (of_char d)"
    then have "(of_char c :: nat) mod 256 = of_char d mod 256" unfolding of_nat_byte_eq .
    then show "c = d" by (metis char_of_mod_256 char_of_char)
  qed
  then show ?thesis by (simp add: as_bytes_def inj_map_eq_map)
qed

lemma fingerprint_input_inj:
  assumes "length p < 2 ^ 64" "length p' < 2 ^ 64"
    and "fingerprint_input p d = fingerprint_input p' d'"
  shows "p = p' \<and> d = d'"
proof -
  have "to_be_bytes (length p) = to_be_bytes (length p')"
    and rest: "p @ to_be_bytes (length (as_bytes d)) @ as_bytes d =
          p' @ to_be_bytes (length (as_bytes d')) @ as_bytes d'"
    using assms(3) by (simp_all add: fingerprint_input_def)
  then have "length p = length p'" using to_be_bytes_inj assms(1,2) by blast
  with rest show ?thesis by (simp add: as_bytes_inj)
qed

section \<open>A sample store\<close>

definition ex_description :: ExternalEffectDescription where
  "ex_description = \<lparr>ed_idempotency_key = IdempotencyKey ''uow-1:0'', ed_effect_type = ''http_post'',
                     ed_payload = [1, 2], ed_destination = ''dest''\<rparr>"

definition ex_effects :: "EffectState \<Rightarrow> InMemoryEffectStore" where
  "ex_effects s =
     \<lparr>states = [EffectId 1 \<mapsto>
        \<lparr>er_tenant = TenantId ''acme'', er_description = ex_description, er_state = s,
         er_attempt = 0, er_next_at = None, er_terminal_reason = None\<rparr>],
      dedup = Map.empty\<rparr>"

lemma ex_effects_enumerates: "enumerates [EffectId 1] (states (ex_effects s))"
  by (simp add: enumerates_def ex_effects_def)

section \<open>Properties\<close>

text \<open>Terminal states are absorbing. Whatever calls are made on the two ports, in whatever order,
  an effect that is \<open>Succeeded\<close> or \<open>TerminalFailed\<close> keeps that state.\<close>

theorem terminal_states_absorbing:
  assumes "state_of st i = Some s" "s = Succeeded \<or> s = TerminalFailed"
  shows "state_of (fold EffectStore_exec ops st) i = Some s"
  using assms
proof (induction ops arbitrary: st)
  case (Cons op ops)
  then have "state_of (EffectStore_exec op st) i = Some s"
    using EffectStore_exec_move [of st i op]
    by (auto simp: effect_move_from_Succeeded effect_move_from_TerminalFailed)
  then show ?case using Cons by simp
qed simp

theorem terminal_states_absorbing_witness:
  "state_of (fold EffectStore_exec [MarkInFlight (EffectId 1), RecoverInFlight [EffectId 1] 9]
     (ex_effects Succeeded)) (EffectId 1) = Some Succeeded"
  by (rule terminal_states_absorbing) (simp_all add: ex_effects_def)

text \<open>Claiming. \<open>claim_due\<close> changes nothing, and whatever the iteration order of the map, returns
  without repetition the stored rows of effects that are \<open>Pending\<close> or \<open>RetryableFailed\<close> and whose
  \<open>next_at\<close> has passed, as many of them as the limit allows.\<close>

theorem claim_due_exact:
  assumes "enumerates order (states st)"
  shows "\<exists>claimed. EffectStore_claim_due order now limit st = (Ok claimed, st) \<and>
           distinct (map se_id claimed) \<and>
           length claimed = min limit (card {i. is_due now st i}) \<and>
           (\<forall>e \<in> set claimed. is_due now st (se_id e) \<and>
              (\<exists>r. states st (se_id e) = Some r \<and> e = stored_effect now (se_id e) r))"
proof -
  let ?due = "filter (is_due now st) order"
  let ?claimed = "map (\<lambda>i. stored_effect now i (the (states st i))) (take limit ?due)"
  have due_stored: "is_due now st i \<Longrightarrow> \<exists>r. states st i = Some r" for i
    by (auto simp: is_due_def split: option.splits)
  then have due: "distinct ?due" "set ?due = {i. is_due now st i}"
    using assms by (auto simp: enumerates_mem enumerates_distinct)
  have "length ?claimed = min limit (card {i. is_due now st i})"
    using distinct_card [OF due(1)] unfolding due(2) by simp
  moreover have ids: "map se_id ?claimed = take limit ?due"
    by (simp add: o_def)
  moreover have "distinct (map se_id ?claimed)"
    unfolding ids using due(1) by (rule distinct_take)
  moreover have "\<forall>e \<in> set ?claimed. is_due now st (se_id e) \<and>
      (\<exists>r. states st (se_id e) = Some r \<and> e = stored_effect now (se_id e) r)"
  proof
    fix e assume "e \<in> set ?claimed"
    then obtain i where "e = stored_effect now i (the (states st i))" "is_due now st i"
      by (auto dest: in_set_takeD)
    then show "is_due now st (se_id e) \<and>
      (\<exists>r. states st (se_id e) = Some r \<and> e = stored_effect now (se_id e) r)"
      using due_stored [of i] by auto
  qed
  moreover have "EffectStore_claim_due order now limit st = (Ok ?claimed, st)"
    by (simp add: EffectStore_claim_due_def)
  ultimately show ?thesis by (intro exI [of _ ?claimed] conjI) assumption+
qed

theorem claim_due_exact_witness:
  "\<exists>claimed. EffectStore_claim_due [EffectId 1] 5 32 (ex_effects RetryableFailed) =
       (Ok claimed, ex_effects RetryableFailed) \<and> length claimed = 1"
proof -
  have "{i. is_due 5 (ex_effects RetryableFailed) i} = {EffectId 1}"
    by (auto simp: is_due_def ex_effects_def split: option.splits if_splits)
  then show ?thesis using claim_due_exact [OF ex_effects_enumerates, of 5 32 RetryableFailed] by auto
qed

text \<open>Crash recovery. \<open>recover_in_flight\<close> leaves no effect \<open>InFlight\<close>: exactly the stranded ones,
  which it counts, become \<open>Pending\<close> and due at once, keeping attempt count and content, and every
  other row and every dedup reservation stays as it was.\<close>

theorem recover_in_flight_exact:
  assumes "enumerates order (states st)"
  shows "\<exists>n st'. EffectStore_recover_in_flight order now st = (Ok n, st') \<and>
           n = card {i. state_of st i = Some InFlight} \<and> dedup st' = dedup st \<and>
           (\<forall>i. states st' i =
              (case states st i of
                 None \<Rightarrow> None
               | Some r \<Rightarrow> Some (if er_state r = InFlight
                   then r\<lparr>er_state := Pending, er_next_at := Some now\<rparr> else r))) \<and>
           (\<forall>i. state_of st' i \<noteq> Some InFlight \<and> (state_of st i \<noteq> Some InFlight \<or> is_due now st' i))"
proof -
  let ?fl = "filter (\<lambda>i. state_of st i = Some InFlight) order"
  have fl: "distinct ?fl" "set ?fl = {i. state_of st i = Some InFlight}"
    using assms by (auto simp: enumerates_mem enumerates_distinct)
  have "length ?fl = card {i. state_of st i = Some InFlight}"
    using distinct_card [OF fl(1)] unfolding fl(2) by simp
  moreover let ?st' = "st\<lparr>states := \<lambda>i. map_option (recovered now) (states st i)\<rparr>"
  have "state_of st i \<noteq> Some InFlight \<or> is_due now ?st' i" for i
    by (auto simp: is_due_def recovered_def)
  moreover have "state_of ?st' i \<noteq> Some InFlight" for i by auto
  ultimately show ?thesis
    by (intro exI [of _ "length ?fl"] exI [of _ ?st'])
      (auto simp: EffectStore_recover_in_flight_def recovered_def [abs_def] split: option.splits)
qed

theorem recover_in_flight_exact_witness:
  "\<exists>st'. EffectStore_recover_in_flight [EffectId 1] 7 (ex_effects InFlight) = (Ok 1, st') \<and>
         is_due 7 st' (EffectId 1)"
proof -
  have "{i. state_of (ex_effects InFlight) i = Some InFlight} = {EffectId 1}"
    by (auto simp: ex_effects_def split: if_splits)
  moreover have "state_of (ex_effects InFlight) (EffectId 1) = Some InFlight"
    by (simp add: ex_effects_def)
  ultimately show ?thesis
    using recover_in_flight_exact [OF ex_effects_enumerates, of 7 InFlight] by fastforce
qed

text \<open>Fingerprints tell contents apart. The length-prefixed framing that is hashed determines
  payload and destination, so two effects share a fingerprint only if they have the same content or
  SHA-256 collides on their framings.\<close>

theorem fingerprint_separates_contents:
  assumes "length p < 2 ^ 64" "length p' < 2 ^ 64"
    and "EffectFingerprint_compute sha256 p d = EffectFingerprint_compute sha256 p' d'"
  shows "p = p' \<and> d = d' \<or>
         fingerprint_input p d \<noteq> fingerprint_input p' d' \<and>
         sha256 (fingerprint_input p d) = sha256 (fingerprint_input p' d')"
  using assms fingerprint_input_inj [OF assms(1,2)] by (auto simp: EffectFingerprint_compute_def)

theorem fingerprint_separates_contents_witness:
  "fingerprint_input [1] ''ab'' \<noteq> fingerprint_input [1, 2] ''b'' \<and>
   take 7 (fingerprint_input [1] ''ab'') = take 7 (fingerprint_input [1, 2] ''b'')"
  using fingerprint_separates_contents [of "[1]" "[1, 2]" "take 7" "''ab''" "''b''"]
  by (simp add: EffectFingerprint_compute_def fingerprint_input_def to_be_bytes_def)

end
