(* ===== verification/Ego_Effect_Policy.thy ===== *)
theory Ego_Effect_Policy
  imports Ego_Effect_Store
begin

text \<open>
  Retry policy, delivery configuration and the executor registry
  (\<open>crates/runtime/src/effects/{policy,executor,registry}.rs\<close>).

  Full jitter multiplies by a fraction computed in \<open>f64\<close>; the model computes it exactly and rounds
  down. The eight entropy bytes of the v4 uuid are the argument \<open>numerator\<close>.
\<close>

section \<open>Retry policy\<close>

text \<open>\<open>std::time::Duration::MAX\<close>, in nanoseconds.\<close>

definition DURATION_MAX :: duration where
  "DURATION_MAX = 2 ^ 64 * 10 ^ 9 - 1"

definition from_millis :: "nat \<Rightarrow> duration" where
  "from_millis n = n * 10 ^ 6"

definition from_secs :: "nat \<Rightarrow> duration" where
  "from_secs n = n * 10 ^ 9"

definition DEFAULT_MAX_ATTEMPTS :: nat where
  "DEFAULT_MAX_ATTEMPTS = 3"

definition DEFAULT_BASE_BACKOFF :: duration where
  "DEFAULT_BASE_BACKOFF = from_millis 100"

definition DEFAULT_MAX_BACKOFF :: duration where
  "DEFAULT_MAX_BACKOFF = from_secs 10"

record RetryPolicy =
  max_attempts :: nat
  base_backoff :: duration
  max_backoff :: duration

definition RetryPolicy_default :: RetryPolicy where
  "RetryPolicy_default =
     \<lparr>max_attempts = DEFAULT_MAX_ATTEMPTS, base_backoff = DEFAULT_BASE_BACKOFF,
      max_backoff = DEFAULT_MAX_BACKOFF\<rparr>"

definition RetryPolicy_none :: RetryPolicy where
  "RetryPolicy_none = \<lparr>max_attempts = 0, base_backoff = 0, max_backoff = 0\<rparr>"

definition allows_retry :: "RetryPolicy \<Rightarrow> nat \<Rightarrow> bool" where
  "allows_retry policy attempt = (attempt < max_attempts policy)"

definition full_jitter :: "u64 \<Rightarrow> duration \<Rightarrow> duration" where
  "full_jitter numerator capped =
     (if capped = 0 then 0 else capped * unat numerator div (2 ^ 64 - 1))"

definition saturating_mul :: "duration \<Rightarrow> nat \<Rightarrow> duration" where
  "saturating_mul d n = min (d * n) DURATION_MAX"

definition backoff :: "u64 \<Rightarrow> RetryPolicy \<Rightarrow> nat \<Rightarrow> duration" where
  "backoff numerator policy attempt =
     (if base_backoff policy = 0 then 0
      else let shift = min (attempt - 1) 30;
               multiplier = (if shift < 32 then 2 ^ shift else 2 ^ 32 - 1);
               exponential = saturating_mul (base_backoff policy) multiplier;
               capped = min exponential (max_backoff policy)
           in full_jitter numerator capped)"

record RetryPolicies =
  default_retry :: RetryPolicy
  retry_overrides :: "string \<rightharpoonup> RetryPolicy"

definition RetryPolicies_new :: "RetryPolicy \<Rightarrow> RetryPolicies" where
  "RetryPolicies_new d = \<lparr>default_retry = d, retry_overrides = Map.empty\<rparr>"

definition with_override :: "string \<Rightarrow> RetryPolicy \<Rightarrow> RetryPolicies \<Rightarrow> RetryPolicies" where
  "with_override effect_type policy ps =
     ps\<lparr>retry_overrides := (retry_overrides ps)(effect_type \<mapsto> policy)\<rparr>"

definition policy_for :: "RetryPolicies \<Rightarrow> string \<Rightarrow> RetryPolicy" where
  "policy_for ps effect_type =
     (case retry_overrides ps effect_type of Some p \<Rightarrow> p | None \<Rightarrow> default_retry ps)"

datatype RunnerMode = Deferred | Inline

record DeliveryConfig =
  queue_capacity :: nat
  retry :: RetryPolicy
  runner_mode :: RunnerMode

definition DEFAULT_QUEUE_CAPACITY :: nat where
  "DEFAULT_QUEUE_CAPACITY = 256"

definition DeliveryConfig_default :: DeliveryConfig where
  "DeliveryConfig_default =
     \<lparr>queue_capacity = DEFAULT_QUEUE_CAPACITY, retry = RetryPolicy_default, runner_mode = Deferred\<rparr>"

definition DeliveryConfig_immediate :: DeliveryConfig where
  "DeliveryConfig_immediate =
     \<lparr>queue_capacity = 1, retry = RetryPolicy_none, runner_mode = Inline\<rparr>"

section \<open>Executors\<close>

datatype AttemptOutcome = Success | RetryableFailure string | TerminalFailure string

record EffectContext =
  ctx_effect_id :: EffectId
  ctx_tenant :: TenantId
  ctx_attempt :: nat
  ctx_idempotency_key :: IdempotencyKey

datatype DuplicateEffectType = AlreadyRegistered string

text \<open>A registry maps each effect type to its one executor, of whatever kind \<open>'x\<close> executors are.\<close>

type_synonym 'x ExecutorRegistry = "string \<rightharpoonup> 'x"

definition ExecutorRegistry_new :: "'x ExecutorRegistry" where
  "ExecutorRegistry_new = Map.empty"

definition ExecutorRegistry_is_empty :: "'x ExecutorRegistry \<Rightarrow> bool" where
  "ExecutorRegistry_is_empty reg \<longleftrightarrow> reg = Map.empty"

definition ExecutorRegistry_register ::
  "string \<Rightarrow> 'x \<Rightarrow> 'x ExecutorRegistry \<Rightarrow> (unit, DuplicateEffectType) result \<times> 'x ExecutorRegistry" where
  "ExecutorRegistry_register effect_type executor reg =
     (if reg effect_type \<noteq> None then (Err (AlreadyRegistered effect_type), reg)
      else (Ok (), reg(effect_type \<mapsto> executor)))"

definition ExecutorRegistry_get :: "'x ExecutorRegistry \<Rightarrow> string \<Rightarrow> 'x option" where
  "ExecutorRegistry_get reg effect_type = reg effect_type"

text \<open>A sequence of registrations, as a builder performs them.\<close>

fun register_all :: "(string \<times> 'x) list \<Rightarrow> 'x ExecutorRegistry \<Rightarrow> 'x ExecutorRegistry" where
  "register_all [] reg = reg"
| "register_all ((ty, x) # rs) reg = register_all rs (snd (ExecutorRegistry_register ty x reg))"

section \<open>Properties\<close>

lemma u64_max: "(2 :: nat) ^ 64 - 1 > 0" "unat (- 1 :: u64) = 2 ^ 64 - 1"
  by (simp_all add: unsigned_minus_1_eq_mask mask_eq_exp_minus_1)

lemma full_jitter_le: "full_jitter n d \<le> d"
proof -
  have "unat n \<le> 2 ^ 64 - 1" using unsigned_less [where ?'a = nat, of n] by simp
  then have "d * unat n div (2 ^ 64 - 1) \<le> d * (2 ^ 64 - 1) div (2 ^ 64 - 1)"
    by (intro div_le_mono mult_le_mono2)
  also have "\<dots> = d" using u64_max(1) by (rule nonzero_mult_div_cancel_right [OF gr_implies_not_zero])
  finally show ?thesis unfolding full_jitter_def by simp
qed

lemma full_jitter_max: "full_jitter (- 1) d = d"
  using nonzero_mult_div_cancel_right [OF gr_implies_not_zero [OF u64_max(1)], of d]
  unfolding full_jitter_def u64_max(2) by simp

lemma full_jitter_zero [simp]: "full_jitter 0 d = 0" "full_jitter n 0 = 0"
  by (simp_all add: full_jitter_def)

lemma backoff_eq:
  "backoff n p attempt =
     full_jitter n (min (min (base_backoff p * 2 ^ min (attempt - 1) 30) DURATION_MAX) (max_backoff p))"
proof -
  have "min (attempt - 1) 30 < 32" by simp
  then show ?thesis by (simp only: backoff_def saturating_mul_def Let_def if_True) simp
qed

text \<open>Backoff is bounded and exponential. Whatever the entropy, a backoff lies between zero and
  the base doubled once per further attempt (thirty times at most) and never exceeds \<open>max_backoff\<close>;
  both ends of that range are reached.\<close>

theorem backoff_bounds:
  "let cap = min (min (base_backoff p * 2 ^ min (attempt - 1) 30) DURATION_MAX) (max_backoff p)
   in backoff n p attempt \<le> cap \<and> cap \<le> max_backoff p \<and>
      backoff 0 p attempt = 0 \<and> backoff (- 1) p attempt = cap"
  unfolding Let_def backoff_eq by (intro conjI full_jitter_le) (simp_all add: full_jitter_max)

lemma register_all_keeps: "reg ty = Some x \<Longrightarrow> register_all rs reg ty = Some x"
proof (induction rs reg rule: register_all.induct)
  case (2 ty' x' rs reg)
  then show ?case by (cases "ty' = ty") (auto simp: ExecutorRegistry_register_def)
qed simp

text \<open>One owner per effect type. After any sequence of registrations a type is owned by the
  executor that was registered for it first, and by none if none was.\<close>

theorem first_registration_wins:
  "ExecutorRegistry_get (register_all rs ExecutorRegistry_new) ty = map_of rs ty"
proof -
  have "register_all rs reg ty = (case reg ty of None \<Rightarrow> map_of rs ty | Some x \<Rightarrow> Some x)" for reg
    by (induction rs reg rule: register_all.induct)
      (auto simp: ExecutorRegistry_register_def register_all_keeps split: option.splits)
  then show ?thesis by (simp add: ExecutorRegistry_get_def ExecutorRegistry_new_def)
qed

end
