(* ===== verification/Ego_Effect_Runner.thy ===== *)
theory Ego_Effect_Runner
  imports Ego_Effect_Policy
begin

text \<open>
  \<open>DeliveryRunner\<close> (\<open>crates/runtime/src/effects/runner.rs\<close>), the pipeline an accepted effect goes
  through: claim, reserve the idempotency scope, execute, record the outcome.

  The runner reaches everything through trait objects, so the model is parametric in the world
  \<open>'s\<close> they act on: a port is a record of functions \<open>'s \<Rightarrow> result \<times> 's\<close>, an executor is a world
  transformer, and clock, entropy and sleep are world transformers too. Every branch of the code,
  the ones taken only when a store misbehaves included, is a branch of the model. Log output is left
  out.

  \<open>chrono::Duration::from_std\<close> is third-party code and a field of the runner.
\<close>

section \<open>Ports\<close>

type_synonym ('s, 'a) port_call = "'s \<Rightarrow> ('a, EffectStoreError) result \<times> 's"

record 's EffectStateStore =
  port_accept :: "AcceptedEffect \<Rightarrow> ('s, unit) port_call"
  port_mark_in_flight :: "EffectId \<Rightarrow> ('s, unit) port_call"
  port_mark_succeeded :: "EffectId \<Rightarrow> ('s, unit) port_call"
  port_mark_retryable :: "EffectId \<Rightarrow> nat \<Rightarrow> timestamp \<Rightarrow> ('s, unit) port_call"
  port_mark_terminal :: "EffectId \<Rightarrow> TerminalReason \<Rightarrow> ('s, unit) port_call"
  port_claim_due :: "timestamp \<Rightarrow> nat \<Rightarrow> ('s, StoredEffect list) port_call"
  port_recover_in_flight :: "timestamp \<Rightarrow> ('s, nat) port_call"

record 's EffectDedupStore =
  port_reserve :: "DedupScope \<Rightarrow> EffectId \<Rightarrow> EffectFingerprint \<Rightarrow> ('s, DedupOutcome) port_call"
  port_commit_success :: "DedupScope \<Rightarrow> ('s, unit) port_call"
  port_release :: "DedupScope \<Rightarrow> ('s, unit) port_call"

text \<open>How a spawned executor task ends: with its outcome, by a panic, or aborted.\<close>

datatype join_result = Joined AttemptOutcome | JoinPanic | JoinCancelled

type_synonym 's executor =
  "ExternalEffectDescription \<Rightarrow> EffectContext \<Rightarrow> 's \<Rightarrow> join_result \<times> 's"

record 's DeliveryRunner =
  dr_state :: "'s EffectStateStore"
  dr_dedup :: "'s EffectDedupStore"
  dr_registry :: "'s executor ExecutorRegistry"
  dr_retry :: RetryPolicies
  dr_now :: "'s \<Rightarrow> timestamp \<times> 's"
  dr_entropy :: "'s \<Rightarrow> u64 \<times> 's"
  dr_sleep :: "duration \<Rightarrow> 's \<Rightarrow> 's"
  dr_from_std :: "duration \<Rightarrow> int option"
  dr_sha256 :: "8 word list \<Rightarrow> 8 word list"

section \<open>Time\<close>

definition BOOKKEEPING_RETRY_ATTEMPTS :: nat where
  "BOOKKEEPING_RETRY_ATTEMPTS = 3"

definition RECLAIM_BATCH_LIMIT :: nat where
  "RECLAIM_BATCH_LIMIT = 32"

definition saturated_backoff_fallback :: int where
  "saturated_backoff_fallback = 365 * 100 * 86400 * 10 ^ 9"

definition timestamp_after :: "'s DeliveryRunner \<Rightarrow> duration \<Rightarrow> 's \<Rightarrow> timestamp \<times> 's" where
  "timestamp_after R d s =
     (let chrono_duration = (case dr_from_std R d of Some c \<Rightarrow> c | None \<Rightarrow> saturated_backoff_fallback);
          (now, s1) = dr_now R s
      in (now + chrono_duration, s1))"

definition draw_backoff :: "'s DeliveryRunner \<Rightarrow> RetryPolicy \<Rightarrow> nat \<Rightarrow> 's \<Rightarrow> duration \<times> 's" where
  "draw_backoff R policy attempt s =
     (case dr_entropy R s of (n, s1) \<Rightarrow> (backoff n policy attempt, s1))"

section \<open>Bookkeeping with bounded retries\<close>

text \<open>The loop shape shared by \<open>mark_in_flight_with_retry\<close> and \<open>mark_retryable_with_retry\<close>.\<close>

fun bounded_retry :: "nat \<Rightarrow> ('s, unit) port_call \<Rightarrow> 's \<Rightarrow> (unit, unit) result \<times> 's" where
  "bounded_retry 0 call s = (Err (), s)"
| "bounded_retry (Suc n) call s =
     (case call s of
        (Inr _, s1) \<Rightarrow> (Ok (), s1)
      | (Inl (TemporarilyUnavailable _), s1) \<Rightarrow> bounded_retry n call s1
      | (Inl _, s1) \<Rightarrow> (Err (), s1))"

definition mark_in_flight_with_retry ::
  "'s DeliveryRunner \<Rightarrow> EffectId \<Rightarrow> 's \<Rightarrow> (unit, unit) result \<times> 's" where
  "mark_in_flight_with_retry R i =
     bounded_retry BOOKKEEPING_RETRY_ATTEMPTS (port_mark_in_flight (dr_state R) i)"

definition mark_retryable_with_retry ::
  "'s DeliveryRunner \<Rightarrow> EffectId \<Rightarrow> nat \<Rightarrow> timestamp \<Rightarrow> 's \<Rightarrow> (unit, unit) result \<times> 's" where
  "mark_retryable_with_retry R i attempt next_at =
     bounded_retry BOOKKEEPING_RETRY_ATTEMPTS (port_mark_retryable (dr_state R) i attempt next_at)"

function reserve_loop ::
  "'s DeliveryRunner \<Rightarrow> RetryPolicy \<Rightarrow> DedupScope \<Rightarrow> EffectId \<Rightarrow> EffectFingerprint \<Rightarrow> nat \<Rightarrow> 's \<Rightarrow>
   (DedupOutcome, unit) result \<times> 's" where
  "reserve_loop R policy scope i fp attempt s =
     (case port_reserve (dr_dedup R) scope i fp s of
        (Inr outcome, s1) \<Rightarrow> (Ok outcome, s1)
      | (Inl (TemporarilyUnavailable _), s1) \<Rightarrow>
          if \<not> allows_retry policy attempt then (Err (), s1)
          else (let (b, s2) = draw_backoff R policy (attempt + 1) s1;
                    s3 = (if b = 0 then s2 else dr_sleep R b s2)
                in reserve_loop R policy scope i fp (attempt + 1) s3)
      | (Inl _, s1) \<Rightarrow> (Err (), s1))"
  by pat_completeness auto

termination
  by (relation "measure (\<lambda>(R, policy, scope, i, fp, attempt, s). max_attempts policy - attempt)")
    (auto simp: allows_retry_def)

declare reserve_loop.simps [simp del]

definition reserve_with_retry ::
  "'s DeliveryRunner \<Rightarrow> DedupScope \<Rightarrow> EffectId \<Rightarrow> EffectFingerprint \<Rightarrow> 's \<Rightarrow>
   (DedupOutcome, unit) result \<times> 's" where
  "reserve_with_retry R scope i fp s =
     reserve_loop R (policy_for (dr_retry R) (ds_effect_type scope)) scope i fp 0 s"

section \<open>Outcomes of an attempt\<close>

definition abandon :: "'s DeliveryRunner \<Rightarrow> EffectId \<Rightarrow> TerminalReason \<Rightarrow> 's \<Rightarrow> 's" where
  "abandon R i reason s = snd (port_mark_terminal (dr_state R) i reason s)"

definition abandon_and_release ::
  "'s DeliveryRunner \<Rightarrow> EffectId \<Rightarrow> TerminalReason \<Rightarrow> DedupScope \<Rightarrow> 's \<Rightarrow> 's" where
  "abandon_and_release R i reason scope s =
     (case port_mark_terminal (dr_state R) i reason s of
        (Inr _, s1) \<Rightarrow> snd (port_release (dr_dedup R) scope s1)
      | (Inl _, s1) \<Rightarrow> s1)"

definition finish_already_satisfied :: "'s DeliveryRunner \<Rightarrow> EffectId \<Rightarrow> 's \<Rightarrow> 's" where
  "finish_already_satisfied R i s = snd (port_mark_succeeded (dr_state R) i s)"

text \<open>The confirmation loop of \<open>finish_success\<close>: did both writes succeed within \<open>n\<close> rounds?\<close>

fun confirm_loop :: "nat \<Rightarrow> 's DeliveryRunner \<Rightarrow> DedupScope \<Rightarrow> EffectId \<Rightarrow> 's \<Rightarrow> bool \<times> 's" where
  "confirm_loop 0 R scope i s = (False, s)"
| "confirm_loop (Suc n) R scope i s =
     (case port_commit_success (dr_dedup R) scope s of
        (Inr _, s1) \<Rightarrow>
          (case port_mark_succeeded (dr_state R) i s1 of
             (Inr _, s2) \<Rightarrow> (True, s2)
           | (Inl _, s2) \<Rightarrow> confirm_loop n R scope i s2)
      | (Inl _, s1) \<Rightarrow> confirm_loop n R scope i s1)"

definition finish_success :: "'s DeliveryRunner \<Rightarrow> AcceptedEffect \<Rightarrow> DedupScope \<Rightarrow> 's \<Rightarrow> 's" where
  "finish_success R effect scope s =
     (case confirm_loop BOOKKEEPING_RETRY_ATTEMPTS R scope (ae_id effect) s of
        (True, s1) \<Rightarrow> s1
      | (False, s1) \<Rightarrow>
          let next_attempt = ae_attempt effect + 1;
              policy = policy_for (dr_retry R) (ds_effect_type scope);
              (b, s2) = draw_backoff R policy (max next_attempt 1) s1;
              (next_at, s3) = timestamp_after R b s2
          in snd (mark_retryable_with_retry R (ae_id effect) next_attempt next_at s3))"

definition retry_or_give_up :: "'s DeliveryRunner \<Rightarrow> AcceptedEffect \<Rightarrow> DedupScope \<Rightarrow> 's \<Rightarrow> 's" where
  "retry_or_give_up R effect scope s =
     (let policy = policy_for (dr_retry R) (ds_effect_type scope)
      in if \<not> allows_retry policy (ae_attempt effect)
         then abandon_and_release R (ae_id effect) (Other ''attempt cap exceeded'') scope s
         else (let dispatched_attempt = ae_attempt effect + 1;
                   (b, s1) = draw_backoff R policy dispatched_attempt s;
                   (next_at, s2) = timestamp_after R b s1
               in case mark_retryable_with_retry R (ae_id effect) dispatched_attempt next_at s2 of
                    (Inr _, s3) \<Rightarrow> s3
                  | (Inl _, s3) \<Rightarrow>
                      abandon_and_release R (ae_id effect)
                        (Other ''retry bookkeeping exhausted: store unavailable'') scope s3))"

definition requeue_without_charging_attempt :: "'s DeliveryRunner \<Rightarrow> AcceptedEffect \<Rightarrow> 's \<Rightarrow> 's" where
  "requeue_without_charging_attempt R effect s =
     (case dr_now R s of
        (now, s1) \<Rightarrow> snd (mark_retryable_with_retry R (ae_id effect) (ae_attempt effect) now s1))"

section \<open>One attempt\<close>

datatype ExecutionOutcome = Outcome AttemptOutcome | CancelledForShutdown

fun classify_join_result :: "join_result \<Rightarrow> ExecutionOutcome" where
  "classify_join_result (Joined outcome) = Outcome outcome"
| "classify_join_result JoinPanic = Outcome (RetryableFailure ''executor panicked'')"
| "classify_join_result JoinCancelled = CancelledForShutdown"

definition execute_catching_panics ::
  "'s executor \<Rightarrow> ExternalEffectDescription \<Rightarrow> EffectContext \<Rightarrow> 's \<Rightarrow> ExecutionOutcome \<times> 's" where
  "execute_catching_panics executor description ctx s =
     (case executor description ctx s of (jr, s1) \<Rightarrow> (classify_join_result jr, s1))"

definition effect_scope :: "AcceptedEffect \<Rightarrow> DedupScope" where
  "effect_scope effect =
     \<lparr>ds_tenant = ae_tenant effect, ds_effect_type = ed_effect_type (ae_description effect),
      ds_key = ed_idempotency_key (ae_description effect)\<rparr>"

definition effect_fingerprint :: "'s DeliveryRunner \<Rightarrow> AcceptedEffect \<Rightarrow> EffectFingerprint" where
  "effect_fingerprint R effect =
     EffectFingerprint_compute (dr_sha256 R) (ed_payload (ae_description effect))
       (ed_destination (ae_description effect))"

definition effect_context :: "AcceptedEffect \<Rightarrow> EffectContext" where
  "effect_context effect =
     \<lparr>ctx_effect_id = ae_id effect, ctx_tenant = ae_tenant effect, ctx_attempt = ae_attempt effect + 1,
      ctx_idempotency_key = ed_idempotency_key (ae_description effect)\<rparr>"

text \<open>The part of \<open>dispatch_in_flight\<close> after the reservation was granted: look up, execute, record.\<close>

definition attempt_delivery :: "'s DeliveryRunner \<Rightarrow> AcceptedEffect \<Rightarrow> DedupScope \<Rightarrow> 's \<Rightarrow> 's" where
  "attempt_delivery R effect scope s =
     (case ExecutorRegistry_get (dr_registry R) (ed_effect_type (ae_description effect)) of
        None \<Rightarrow> abandon_and_release R (ae_id effect) ExecutorMissing scope s
      | Some executor \<Rightarrow>
          (case execute_catching_panics executor (ae_description effect) (effect_context effect) s of
             (Outcome Success, s1) \<Rightarrow> finish_success R effect scope s1
           | (Outcome (RetryableFailure _), s1) \<Rightarrow> retry_or_give_up R effect scope s1
           | (Outcome (TerminalFailure reason), s1) \<Rightarrow>
               abandon_and_release R (ae_id effect) (Other reason) scope s1
           | (CancelledForShutdown, s1) \<Rightarrow> requeue_without_charging_attempt R effect s1))"

definition dispatch_in_flight :: "'s DeliveryRunner \<Rightarrow> AcceptedEffect \<Rightarrow> 's \<Rightarrow> 's" where
  "dispatch_in_flight R effect s =
     (let scope = effect_scope effect;
          fingerprint = effect_fingerprint R effect
      in case reserve_with_retry R scope (ae_id effect) fingerprint s of
           (Inr outcome, s1) \<Rightarrow>
             (case outcome of
                Fresh \<Rightarrow> attempt_delivery R effect scope s1
              | OwnedInProgress \<Rightarrow> attempt_delivery R effect scope s1
              | OtherSucceeded \<Rightarrow> finish_already_satisfied R (ae_id effect) s1
              | OwnedSucceeded \<Rightarrow> finish_already_satisfied R (ae_id effect) s1
              | OtherInProgress \<Rightarrow> requeue_without_charging_attempt R effect s1
              | DedupConflict \<Rightarrow>
                  abandon R (ae_id effect) (InvalidEffect ''dedup scope conflict'') s1)
         | (Inl _, s1) \<Rightarrow> abandon R (ae_id effect) (Other ''dedup store unavailable'') s1)"

definition drain_one :: "'s DeliveryRunner \<Rightarrow> AcceptedEffect \<Rightarrow> 's \<Rightarrow> 's" where
  "drain_one R effect s =
     (case mark_in_flight_with_retry R (ae_id effect) s of
        (Inl _, s1) \<Rightarrow> s1
      | (Inr _, s1) \<Rightarrow> dispatch_in_flight R effect s1)"

definition drain_reclaimed :: "'s DeliveryRunner \<Rightarrow> AcceptedEffect \<Rightarrow> 's \<Rightarrow> 's" where
  "drain_reclaimed R effect s = dispatch_in_flight R effect s"

section \<open>The drain loop\<close>

text \<open>
  \<open>acquire_permit_and_spawn\<close> either spawns a tracked task or reports that shutdown fired first. A
  batch of reclaimed effects is turned into tasks one by one; \<open>permits\<close> is the number of permits
  obtained before shutdown fires (\<open>None\<close>: it does not fire during this call). The spawned tasks are
  the first component of the result: they run later, in any order.
\<close>

fun reclaim_loop ::
  "'s DeliveryRunner \<Rightarrow> nat option \<Rightarrow> StoredEffect list \<Rightarrow> 's \<Rightarrow> (AcceptedEffect list \<times> bool) \<times> 's" where
  "reclaim_loop R permits [] s = (([], True), s)"
| "reclaim_loop R permits (stored # due) s =
     (case port_mark_in_flight (dr_state R) (se_id stored) s of
        (Inl _, s1) \<Rightarrow> reclaim_loop R permits due s1
      | (Inr _, s1) \<Rightarrow>
          if permits = Some 0 then (([], False), s1)
          else (let effect = \<lparr>ae_id = se_id stored, ae_tenant = se_tenant stored,
                              ae_attempt = se_attempt stored, ae_description = se_description stored\<rparr>;
                    ((spawned, more), s2) = reclaim_loop R (map_option (\<lambda>n. n - 1) permits) due s1
                in ((effect # spawned, more), s2)))"

definition reclaim_due ::
  "'s DeliveryRunner \<Rightarrow> nat option \<Rightarrow> 's \<Rightarrow> (AcceptedEffect list \<times> bool) \<times> 's" where
  "reclaim_due R permits s =
     (let (now, s1) = dr_now R s
      in case port_claim_due (dr_state R) now RECLAIM_BATCH_LIMIT s1 of
           (Inl _, s2) \<Rightarrow> (([], True), s2)
         | (Inr due, s2) \<Rightarrow> reclaim_loop R permits due s2)"

text \<open>The counters of \<open>record_claim_metrics\<close>: acquired and reclaimed rows of a claimed batch.\<close>

definition record_claim_metrics :: "StoredEffect list \<Rightarrow> nat \<times> nat" where
  "record_claim_metrics due =
     fold (\<lambda>stored (acquired, reclaimed).
             case se_state stored of
               InFlight \<Rightarrow> (acquired, reclaimed + 1)
             | _ \<Rightarrow> (acquired + 1, reclaimed)) due (0, 0)"

section \<open>The destructive release is gated\<close>

abbreviation (input) with_release :: "(DedupScope \<Rightarrow> ('s, unit) port_call) \<Rightarrow> 's DeliveryRunner \<Rightarrow> 's DeliveryRunner" where
  "with_release rel R \<equiv> R\<lparr>dr_dedup := (dr_dedup R)\<lparr>port_release := rel\<rparr>\<rparr>"

lemma helpers_with_release:
  "draw_backoff (with_release rel R) = draw_backoff R"
  "timestamp_after (with_release rel R) = timestamp_after R"
  "mark_retryable_with_retry (with_release rel R) = mark_retryable_with_retry R"
  "effect_fingerprint (with_release rel R) = effect_fingerprint R"
  "dr_retry (with_release rel R) = dr_retry R" "dr_registry (with_release rel R) = dr_registry R"
  "dr_now (with_release rel R) = dr_now R" "dr_state (with_release rel R) = dr_state R"
  by (simp_all add: draw_backoff_def timestamp_after_def mark_retryable_with_retry_def
      effect_fingerprint_def fun_eq_iff)

lemma reserve_loop_with_release:
  "reserve_loop (with_release rel R) p sc i fp a s = reserve_loop R p sc i fp a s"
proof (induction "max_attempts p - a" arbitrary: a s rule: less_induct)
  case less
  have IH: "allows_retry p a \<Longrightarrow> reserve_loop (with_release rel R) p sc i fp (Suc a) s' =
      reserve_loop R p sc i fp (Suc a) s'" for s'
    using less [of "Suc a" s'] by (simp add: allows_retry_def)
  show ?case
    by (subst (1 2) reserve_loop.simps)
      (simp add: IH helpers_with_release Let_def split: prod.splits sum.splits EffectStoreError.splits)
qed

lemma confirm_loop_with_release:
  "confirm_loop n (with_release rel R) sc i s = confirm_loop n R sc i s"
  by (induction n arbitrary: s) (simp_all split: prod.splits sum.splits)

lemma abandon_and_release_gated:
  assumes "\<And>i rs s. \<not> is_ok (fst (port_mark_terminal (dr_state R) i rs s))"
  shows "abandon_and_release (with_release rel R) i rs sc s = abandon_and_release R i rs sc s"
  using assms [of i rs s] by (auto simp: abandon_and_release_def split: prod.splits sum.splits)

section \<open>Properties\<close>

text \<open>A superseded attempt cannot release a reservation. Over arbitrary stores, executors and
  clocks: as long as \<open>mark_terminal\<close> is refused, a dispatch behaves exactly the same whatever
  \<open>release\<close> would do, so it does not call it. Only a dispatch that has just recorded its effect as
  terminally failed deletes the idempotency reservation.\<close>

theorem release_only_after_terminal:
  assumes "\<And>i rs s. \<not> is_ok (fst (port_mark_terminal (dr_state R) i rs s))"
  shows "dispatch_in_flight (R\<lparr>dr_dedup := (dr_dedup R)\<lparr>port_release := rel\<rparr>\<rparr>) e s = dispatch_in_flight R e s"
proof -
  note gate = abandon_and_release_gated [OF assms, where rel = rel]
  have rg: "retry_or_give_up (with_release rel R) e sc s = retry_or_give_up R e sc s" for sc s
    unfolding retry_or_give_up_def gate helpers_with_release ..
  have fs: "finish_success (with_release rel R) e sc s = finish_success R e sc s" for sc s
    unfolding finish_success_def confirm_loop_with_release helpers_with_release ..
  have rq: "requeue_without_charging_attempt (with_release rel R) e s = requeue_without_charging_attempt R e s" for s
    unfolding requeue_without_charging_attempt_def helpers_with_release ..
  have ad: "attempt_delivery (with_release rel R) e sc s = attempt_delivery R e sc s" for sc s
    unfolding attempt_delivery_def gate helpers_with_release rg fs rq ..
  show ?thesis
    unfolding dispatch_in_flight_def reserve_with_retry_def reserve_loop_with_release helpers_with_release
      ad rq abandon_def finish_already_satisfied_def ..
qed

text \<open>A runner over a store that refuses every \<open>mark_terminal\<close>, counting the calls to \<open>release\<close>.\<close>

definition refusing_runner :: "nat DeliveryRunner" where
  "refusing_runner =
     \<lparr>dr_state = \<lparr>port_accept = (\<lambda>_ n. (Ok (), n)), port_mark_in_flight = (\<lambda>_ n. (Ok (), n)),
        port_mark_succeeded = (\<lambda>_ n. (Ok (), n)), port_mark_retryable = (\<lambda>_ _ _ n. (Ok (), n)),
        port_mark_terminal = (\<lambda>_ _ n. (Err (Backend ''down''), n)), port_claim_due = (\<lambda>_ _ n. (Ok [], n)),
        port_recover_in_flight = (\<lambda>_ n. (Ok 0, n))\<rparr>,
      dr_dedup = \<lparr>port_reserve = (\<lambda>_ _ _ n. (Ok Fresh, n)), port_commit_success = (\<lambda>_ n. (Ok (), n)),
        port_release = (\<lambda>_ n. (Ok (), Suc n))\<rparr>,
      dr_registry = ExecutorRegistry_new,
      dr_retry = RetryPolicies_new \<lparr>max_attempts = 1, base_backoff = 0, max_backoff = 0\<rparr>,
      dr_now = (\<lambda>n. (0, n)), dr_entropy = (\<lambda>n. (0, n)), dr_sleep = (\<lambda>_ n. n),
      dr_from_std = (\<lambda>d. Some (int d)), dr_sha256 = (\<lambda>bs. bs)\<rparr>"

theorem release_only_after_terminal_witness:
  "dispatch_in_flight (refusing_runner\<lparr>dr_dedup := (dr_dedup refusing_runner)\<lparr>port_release := \<lambda>_ n. (Ok (), n)\<rparr>\<rparr>)
     \<lparr>ae_id = EffectId 1, ae_tenant = TenantId ''acme'', ae_attempt = 0, ae_description = ex_description\<rparr> 0 =
   dispatch_in_flight refusing_runner
     \<lparr>ae_id = EffectId 1, ae_tenant = TenantId ''acme'', ae_attempt = 0, ae_description = ex_description\<rparr> 0"
  by (rule release_only_after_terminal) (simp add: refusing_runner_def)

end
