(* ===== verification/Ego_Effect_Delivery.thy ===== *)
theory Ego_Effect_Delivery
  imports Ego_Effect_Runner
begin

text \<open>
  What the delivery runner guarantees, from what its ports promise.

  The contract of a port is stated relative to the in-memory store: a call either answers as that
  store would, or fails, and a failed call may or may not have taken effect (a lost request, or a
  lost response). A crash in the middle of a dispatch is covered by the same contract, since to the
  stores it looks like every later call having failed. The locale \<open>effect_world\<close> collects the
  contracts; \<open>effect_world_exact\<close> adds that calls do not fail.

  \<open>log_of\<close> is a ghost: the executor runs so far, with how each ended.
\<close>

section \<open>Contracts\<close>

definition answers ::
  "'a effect_call \<Rightarrow> ('a, EffectStoreError) result \<Rightarrow> InMemoryEffectStore \<Rightarrow> InMemoryEffectStore \<Rightarrow> bool" where
  "answers m r st st' \<longleftrightarrow>
     r = fst m \<and> st' = snd m \<or> (\<exists>e. r = Err e \<and> (st' = st \<or> st' = snd m))"

definition port_law ::
  "('s \<Rightarrow> InMemoryEffectStore) \<Rightarrow> ('s \<Rightarrow> 'l) \<Rightarrow> (InMemoryEffectStore \<Rightarrow> 'a effect_call) \<Rightarrow>
   ('s, 'a) port_call \<Rightarrow> bool" where
  "port_law view lg op call \<longleftrightarrow>
     (\<forall>s. answers (op (view s)) (fst (call s)) (view s) (view (snd (call s))) \<and>
          lg (snd (call s)) = lg s)"

definition port_exact ::
  "('s \<Rightarrow> InMemoryEffectStore) \<Rightarrow> (InMemoryEffectStore \<Rightarrow> 'a effect_call) \<Rightarrow> ('s, 'a) port_call \<Rightarrow> bool" where
  "port_exact view op call \<longleftrightarrow>
     (\<forall>s. fst (call s) = fst (op (view s)) \<and> view (snd (call s)) = snd (op (view s)))"

lemma port_law_log: "port_law view lg op call \<Longrightarrow> lg (snd (call s)) = lg s"
  by (simp add: port_law_def)

lemma port_law_keeps:
  "port_law view lg op call \<Longrightarrow> P (view s) \<Longrightarrow> P (snd (op (view s))) \<Longrightarrow> P (view (snd (call s)))"
  unfolding port_law_def answers_def by metis

lemma port_law_Ok:
  "port_law view lg op call \<Longrightarrow> call s = (Ok v, s') \<Longrightarrow> op (view s) = (Ok v, view s')"
  by (force simp: port_law_def answers_def dest: spec [of _ s])

text \<open>A call that keeps a property, and so does repeating it.\<close>

lemma bounded_retry_keeps:
  assumes "\<And>s. P s \<Longrightarrow> P (snd (call s))" "P s"
  shows "P (snd (bounded_retry n call s))"
  using assms(2)
proof (induction n arbitrary: s)
  case (Suc n)
  then show ?case using assms(1) [of s]
    by (auto split: prod.splits sum.splits EffectStoreError.splits)
qed simp

section \<open>Views of a store\<close>

definition content :: "InMemoryEffectStore \<Rightarrow> EffectId \<Rightarrow> (TenantId \<times> ExternalEffectDescription) option" where
  "content st i = map_option (\<lambda>r. (er_tenant r, er_description r)) (states st i)"

definition content_scope :: "TenantId \<times> ExternalEffectDescription \<Rightarrow> DedupScope" where
  "content_scope = (\<lambda>(t, d). \<lparr>ds_tenant = t, ds_effect_type = ed_effect_type d, ds_key = ed_idempotency_key d\<rparr>)"

definition content_fingerprint ::
  "(8 word list \<Rightarrow> 8 word list) \<Rightarrow> TenantId \<times> ExternalEffectDescription \<Rightarrow> EffectFingerprint" where
  "content_fingerprint sha = (\<lambda>(t, d). EffectFingerprint_compute sha (ed_payload d) (ed_destination d))"

type_synonym delivery_log = "(DedupScope \<times> EffectFingerprint \<times> join_result) list"

text \<open>
  The invariant: a \<open>Succeeded\<close> row is backed by a succeeded reservation for its scope and content,
  and a succeeded reservation by an executor run that succeeded.
\<close>

definition delivery_inv :: "(8 word list \<Rightarrow> 8 word list) \<Rightarrow> InMemoryEffectStore \<Rightarrow> delivery_log \<Rightarrow> bool" where
  "delivery_inv sha st lg \<longleftrightarrow>
     (\<forall>i c. content st i = Some c \<longrightarrow> state_of st i = Some Succeeded \<longrightarrow>
        (\<exists>rr. dedup st (content_scope c) = Some rr \<and> rr_succeeded rr \<and>
              rr_fingerprint rr = content_fingerprint sha c)) \<and>
     (\<forall>sc rr. dedup st sc = Some rr \<longrightarrow> rr_succeeded rr \<longrightarrow>
        (sc, rr_fingerprint rr, Joined Success) \<in> set lg)"

lemma delivery_inv_log:
  "delivery_inv sha st lg \<Longrightarrow> set lg \<subseteq> set lg' \<Longrightarrow> delivery_inv sha st lg'"
  unfolding delivery_inv_def by blast

lemma dedup_transition [frame_simps]: "dedup (snd (transition i from to upd st)) = dedup st"
  by (simp add: transition_def split: option.splits)

lemma content_transition:
  assumes "\<And>r. er_tenant (upd r) = er_tenant r" "\<And>r. er_description (upd r) = er_description r"
  shows "content (snd (transition i from to upd st)) = content st"
  using assms by (auto simp: transition_def content_def split: option.splits)

lemma content_ops [frame_simps]:
  "content (snd (EffectStore_mark_in_flight i st)) = content st"
  "content (snd (EffectStore_mark_succeeded i st)) = content st"
  "content (snd (EffectStore_mark_retryable i a t st)) = content st"
  "content (snd (EffectStore_mark_terminal i rs st)) = content st"
  "content (snd (EffectStore_reserve sc i fp st)) = content st"
  "content (snd (EffectStore_commit_success sc st)) = content st"
  "content (snd (EffectStore_release sc st)) = content st"
  unfolding EffectStore_mark_in_flight_def EffectStore_mark_succeeded_def
    EffectStore_mark_retryable_def EffectStore_mark_terminal_def
  by (auto intro!: content_transition
      simp: EffectStore_reserve_def EffectStore_commit_success_def EffectStore_release_def content_def
      split: option.splits)

lemma dedup_ops [frame_simps]:
  "dedup (snd (EffectStore_mark_in_flight i st)) = dedup st"
  "dedup (snd (EffectStore_mark_succeeded i st)) = dedup st"
  "dedup (snd (EffectStore_mark_retryable i a t st)) = dedup st"
  "dedup (snd (EffectStore_mark_terminal i rs st)) = dedup st"
  "dedup (snd (EffectStore_accept e st)) = dedup st"
  "dedup (snd (EffectStore_recover_in_flight order now st)) = dedup st"
  by (simp_all add: store_defs split: option.splits)

lemma state_ops [frame_simps]:
  "states (snd (EffectStore_reserve sc i fp st)) = states st"
  "states (snd (EffectStore_commit_success sc st)) = states st"
  "states (snd (EffectStore_release sc st)) = states st"
  by (simp_all add: store_defs split: option.splits)

section \<open>The in-memory operations and the invariant\<close>

text \<open>A transition away from \<open>Succeeded\<close>, or of a row that is not there, needs nothing.\<close>

lemma delivery_inv_states:
  assumes "delivery_inv sha st lg" "content st' = content st" "dedup st' = dedup st"
    and "\<And>i. state_of st' i = Some Succeeded \<Longrightarrow> state_of st i = Some Succeeded"
  shows "delivery_inv sha st' lg"
  using assms unfolding delivery_inv_def by metis

lemma transition_not_Succeeded:
  assumes "to \<noteq> Succeeded" "\<And>r. er_state (upd r) = er_state r"
    and "state_of (snd (transition i from to upd st)) j = Some Succeeded"
  shows "state_of st j = Some Succeeded"
  using assms by (auto simp: transition_def split: option.splits if_splits)

lemma mark_not_Succeeded:
  "state_of (snd (EffectStore_mark_in_flight i st)) j = Some Succeeded \<Longrightarrow> state_of st j = Some Succeeded"
  "state_of (snd (EffectStore_mark_retryable i a t st)) j = Some Succeeded \<Longrightarrow> state_of st j = Some Succeeded"
  "state_of (snd (EffectStore_mark_terminal i rs st)) j = Some Succeeded \<Longrightarrow> state_of st j = Some Succeeded"
  unfolding EffectStore_mark_in_flight_def EffectStore_mark_retryable_def EffectStore_mark_terminal_def
  by (erule transition_not_Succeeded [rotated 2]; simp)+

lemma delivery_inv_marks [inv_intros]:
  assumes "delivery_inv sha st lg"
  shows "delivery_inv sha (snd (EffectStore_mark_in_flight i st)) lg"
    and "delivery_inv sha (snd (EffectStore_mark_retryable i a t st)) lg"
    and "delivery_inv sha (snd (EffectStore_mark_terminal i rs st)) lg"
  by (rule delivery_inv_states [OF assms]; (simp only: frame_simps | erule mark_not_Succeeded))+

lemma delivery_inv_mark_succeeded:
  assumes "delivery_inv sha st lg" "content st i = Some c"
    and "dedup st (content_scope c) = Some rr" "rr_succeeded rr"
    and "rr_fingerprint rr = content_fingerprint sha c"
  shows "delivery_inv sha (snd (EffectStore_mark_succeeded i st)) lg"
proof -
  have "state_of (snd (EffectStore_mark_succeeded i st)) j = Some Succeeded \<Longrightarrow>
      j = i \<or> state_of st j = Some Succeeded" for j
    by (auto simp: EffectStore_mark_succeeded_def transition_def split: option.splits if_splits)
  then show ?thesis
    using assms unfolding delivery_inv_def frame_simps by (metis option.inject)
qed

lemma delivery_inv_dedup:
  assumes inv: "delivery_inv sha st lg" and same: "states st' = states st"
    and kept: "\<And>sc rr. dedup st sc = Some rr \<Longrightarrow> rr_succeeded rr \<Longrightarrow>
        \<exists>rr'. dedup st' sc = Some rr' \<and> rr_succeeded rr' \<and> rr_fingerprint rr' = rr_fingerprint rr"
    and backed: "\<And>sc rr. dedup st' sc = Some rr \<Longrightarrow> rr_succeeded rr \<Longrightarrow>
        (sc, rr_fingerprint rr, Joined Success) \<in> set lg"
  shows "delivery_inv sha st' lg"
proof -
  have "content st' = content st" using same by (simp add: content_def [abs_def])
  then show ?thesis
    using inv kept backed unfolding delivery_inv_def same by metis
qed

lemma delivery_inv_backed:
  "delivery_inv sha st lg \<Longrightarrow> dedup st sc = Some rr \<Longrightarrow> rr_succeeded rr \<Longrightarrow>
     (sc, rr_fingerprint rr, Joined Success) \<in> set lg"
  by (simp add: delivery_inv_def)

lemma delivery_inv_reserve [inv_intros]:
  assumes "delivery_inv sha st lg"
  shows "delivery_inv sha (snd (EffectStore_reserve sc i fp st)) lg"
  using delivery_inv_backed [OF assms]
  by (intro delivery_inv_dedup [OF assms])
    (auto simp: EffectStore_reserve_def split: option.splits if_splits)

lemma delivery_inv_commit_success:
  assumes "delivery_inv sha st lg"
    and "\<And>rr. dedup st sc = Some rr \<Longrightarrow> (sc, rr_fingerprint rr, Joined Success) \<in> set lg"
  shows "delivery_inv sha (snd (EffectStore_commit_success sc st)) lg"
  using delivery_inv_backed [OF assms(1)] assms(2)
  by (intro delivery_inv_dedup [OF assms(1)])
    (auto simp: EffectStore_commit_success_def split: if_splits)

lemma delivery_inv_release:
  assumes "delivery_inv sha st lg" "\<And>rr. dedup st sc = Some rr \<Longrightarrow> \<not> rr_succeeded rr"
  shows "delivery_inv sha (snd (EffectStore_release sc st)) lg"
  using delivery_inv_backed [OF assms(1)] assms(2)
  by (intro delivery_inv_dedup [OF assms(1)])
    (auto simp: EffectStore_release_def split: if_splits)

lemma delivery_inv_accept [inv_intros]:
  assumes "delivery_inv sha st lg"
  shows "delivery_inv sha (snd (EffectStore_accept e st)) lg"
  using assms unfolding delivery_inv_def frame_simps
  by (auto simp: EffectStore_accept_def content_def split: option.splits if_splits)

lemma delivery_inv_recover [inv_intros]:
  assumes "delivery_inv sha st lg"
  shows "delivery_inv sha (snd (EffectStore_recover_in_flight order now st)) lg"
proof (rule delivery_inv_states [OF assms])
  show "content (snd (EffectStore_recover_in_flight order now st)) = content st"
    by (auto simp: EffectStore_recover_in_flight_def content_def recovered_def option.map_comp o_def
        intro!: ext option.map_cong)
qed (auto simp: EffectStore_recover_in_flight_def recovered_def split: if_splits)

lemma reserve_granted:
  assumes "EffectStore_reserve sc i fp st0 = (Ok out, st)"
  shows "out = Fresh \<or> out = OwnedInProgress \<Longrightarrow>
           \<exists>rr. dedup st sc = Some rr \<and> rr_fingerprint rr = fp \<and> rr_effect_id rr = i \<and> \<not> rr_succeeded rr"
    and "out = OtherSucceeded \<or> out = OwnedSucceeded \<Longrightarrow>
           \<exists>rr. dedup st sc = Some rr \<and> rr_fingerprint rr = fp \<and> rr_succeeded rr"
  using assms by (auto simp: EffectStore_reserve_def split: option.splits if_splits)

section \<open>The world of a runner\<close>

locale effect_world =
  fixes store_of :: "'s \<Rightarrow> InMemoryEffectStore"
    and log_of :: "'s \<Rightarrow> delivery_log"
    and order :: "InMemoryEffectStore \<Rightarrow> EffectId list"
    and R :: "'s DeliveryRunner"
  assumes accept_law: "port_law store_of log_of (EffectStore_accept e) (port_accept (dr_state R) e)"
    and in_flight_law:
      "port_law store_of log_of (EffectStore_mark_in_flight i) (port_mark_in_flight (dr_state R) i)"
    and succeeded_law:
      "port_law store_of log_of (EffectStore_mark_succeeded i) (port_mark_succeeded (dr_state R) i)"
    and retryable_law:
      "port_law store_of log_of (EffectStore_mark_retryable i a t) (port_mark_retryable (dr_state R) i a t)"
    and terminal_law:
      "port_law store_of log_of (EffectStore_mark_terminal i rs) (port_mark_terminal (dr_state R) i rs)"
    and claim_law:
      "port_law store_of log_of (\<lambda>st. EffectStore_claim_due (order st) now n st)
         (port_claim_due (dr_state R) now n)"
    and recover_law:
      "port_law store_of log_of (\<lambda>st. EffectStore_recover_in_flight (order st) now st)
         (port_recover_in_flight (dr_state R) now)"
    and reserve_law:
      "port_law store_of log_of (EffectStore_reserve sc i fp) (port_reserve (dr_dedup R) sc i fp)"
    and commit_law:
      "port_law store_of log_of (EffectStore_commit_success sc) (port_commit_success (dr_dedup R) sc)"
    and release_law:
      "port_law store_of log_of (EffectStore_release sc) (port_release (dr_dedup R) sc)"
    and quiet:
      "store_of (snd (dr_now R s)) = store_of s" "log_of (snd (dr_now R s)) = log_of s"
      "store_of (snd (dr_entropy R s)) = store_of s" "log_of (snd (dr_entropy R s)) = log_of s"
      "store_of (dr_sleep R w s) = store_of s" "log_of (dr_sleep R w s) = log_of s"
    and executor_law:
      "dr_registry R ty = Some x \<Longrightarrow>
         store_of (snd (x d c s)) = store_of s \<and>
         log_of (snd (x d c s)) = log_of s @
           [(content_scope (ctx_tenant c, d), content_fingerprint (dr_sha256 R) (ctx_tenant c, d), fst (x d c s))]"
begin

text \<open>A property of store and log that an operation keeps is kept by the port call.\<close>

lemma call_keeps:
  assumes "port_law store_of log_of op call" "Q (store_of s) (log_of s)"
    and "\<And>st lg. Q st lg \<Longrightarrow> Q (snd (op st)) lg"
  shows "Q (store_of (snd (call s))) (log_of (snd (call s)))"
  using port_law_keeps [OF assms(1), of "\<lambda>st. Q st (log_of s)"] assms port_law_log [OF assms(1)]
  by simp

lemma retry_keeps:
  assumes "port_law store_of log_of op call" "Q (store_of s) (log_of s)"
    and "\<And>st lg. Q st lg \<Longrightarrow> Q (snd (op st)) lg"
  shows "Q (store_of (snd (bounded_retry n call s))) (log_of (snd (bounded_retry n call s)))"
  by (rule bounded_retry_keeps [where P = "\<lambda>s. Q (store_of s) (log_of s)"])
    (auto intro: assms(2) call_keeps [OF assms(1)] assms(3))

lemma draw_backoff_quiet [simp]:
  "store_of (snd (draw_backoff R p a s)) = store_of s" "log_of (snd (draw_backoff R p a s)) = log_of s"
  using quiet(3,4) [of s] by (auto simp: draw_backoff_def split: prod.splits)

lemma timestamp_after_quiet [simp]:
  "store_of (snd (timestamp_after R d s)) = store_of s" "log_of (snd (timestamp_after R d s)) = log_of s"
  using quiet(1,2) [of s] by (auto simp: timestamp_after_def Let_def split: prod.splits)

lemma reserve_loop_keeps:
  assumes "\<And>st lg. Q st lg \<Longrightarrow> Q (snd (EffectStore_reserve sc i fp st)) lg"
    and "Q (store_of s) (log_of s)"
  shows "Q (store_of (snd (reserve_loop R p sc i fp a s))) (log_of (snd (reserve_loop R p sc i fp a s)))"
  using assms(2)
proof (induction "max_attempts p - a" arbitrary: a s rule: less_induct)
  case less
  obtain r s1 where c: "port_reserve (dr_dedup R) sc i fp s = (r, s1)" by fastforce
  have Q1: "Q (store_of s1) (log_of s1)"
    using call_keeps [where Q = Q, OF reserve_law less.prems assms(1)] c by (metis snd_conv)
  obtain b s2 where d: "draw_backoff R p (a + 1) s1 = (b, s2)" by fastforce
  then have Q3: "Q (store_of (if b = 0 then s2 else dr_sleep R b s2)) (log_of (if b = 0 then s2 else dr_sleep R b s2))"
    using Q1 draw_backoff_quiet [of p "a + 1" s1] by (simp add: quiet)
  show ?case
    using Q1 less.hyps [OF _ Q3, of "a + 1"] c d
    by (subst (1 2) reserve_loop.simps)
      (auto simp: allows_retry_def Let_def split: sum.splits EffectStoreError.splits)
qed

lemma reserve_loop_Ok:
  assumes "reserve_loop R p sc i fp a s = (Ok out, s')"
  shows "\<exists>st0. EffectStore_reserve sc i fp st0 = (Ok out, store_of s')"
  using assms
proof (induction "max_attempts p - a" arbitrary: a s rule: less_induct)
  case less
  obtain r s1 where c: "port_reserve (dr_dedup R) sc i fp s = (r, s1)" by fastforce
  obtain b s2 where d: "draw_backoff R p (a + 1) s1 = (b, s2)" by fastforce
  let ?s3 = "if b = 0 then s2 else dr_sleep R b s2"
  show ?case
    using less.prems less.hyps [of "a + 1" ?s3] c d port_law_Ok [OF reserve_law, of sc i fp s]
    by (subst (asm) reserve_loop.simps)
      (auto simp: allows_retry_def Let_def split: sum.splits EffectStoreError.splits if_splits)
qed

end

section \<open>No false success\<close>

context effect_world
begin

abbreviation inv :: "'s \<Rightarrow> bool" where
  "inv s \<equiv> delivery_inv (dr_sha256 R) (store_of s) (log_of s)"

text \<open>The content of every row stays \<open>C\<close>.\<close>

abbreviation (input) kept :: "(EffectId \<Rightarrow> (TenantId \<times> ExternalEffectDescription) option) \<Rightarrow>
    InMemoryEffectStore \<Rightarrow> delivery_log \<Rightarrow> bool" where
  "kept C st lg \<equiv> delivery_inv (dr_sha256 R) st lg \<and> content st = C"

abbreviation (input) unsucceeded where
  "unsucceeded C sc st lg \<equiv> kept C st lg \<and> (\<forall>rr. dedup st sc = Some rr \<longrightarrow> \<not> rr_succeeded rr)"

abbreviation (input) delivered where
  "delivered C sc fp st lg \<equiv>
     kept C st lg \<and> (\<exists>rr. dedup st sc = Some rr \<and> rr_fingerprint rr = fp) \<and> (sc, fp, Joined Success) \<in> set lg"

lemma mark_retryable_keeps:
  assumes "\<And>st lg a t. Q st lg \<Longrightarrow> Q (snd (EffectStore_mark_retryable i a t st)) lg"
    and "Q (store_of s) (log_of s)"
  shows "Q (store_of (snd (mark_retryable_with_retry R i a t s))) (log_of (snd (mark_retryable_with_retry R i a t s)))"
  unfolding mark_retryable_with_retry_def
  by (rule retry_keeps [where Q = Q, OF retryable_law]) (use assms in auto)

lemma requeue_keeps:
  assumes "\<And>st lg a t. Q st lg \<Longrightarrow> Q (snd (EffectStore_mark_retryable (ae_id e) a t st)) lg"
    and "Q (store_of s) (log_of s)"
  shows "Q (store_of (requeue_without_charging_attempt R e s)) (log_of (requeue_without_charging_attempt R e s))"
proof -
  obtain now s1 where n: "dr_now R s = (now, s1)" by fastforce
  then have "Q (store_of s1) (log_of s1)" using assms(2) quiet(1,2) [of s] by simp
  then show ?thesis
    using mark_retryable_keeps [where Q = Q, OF assms(1)]
    by (simp add: requeue_without_charging_attempt_def n)
qed

lemma abandon_keeps:
  assumes "\<And>st lg. Q st lg \<Longrightarrow> Q (snd (EffectStore_mark_terminal i rs st)) lg"
    and "Q (store_of s) (log_of s)"
  shows "Q (store_of (abandon R i rs s)) (log_of (abandon R i rs s))"
  unfolding abandon_def by (rule call_keeps [where Q = Q, OF terminal_law assms(2,1)])

lemma abandon_and_release_keeps:
  assumes "\<And>st lg. Q st lg \<Longrightarrow> Q (snd (EffectStore_mark_terminal i rs st)) lg"
    and "\<And>st lg. Q st lg \<Longrightarrow> Q (snd (EffectStore_release sc st)) lg"
    and "Q (store_of s) (log_of s)"
  shows "Q (store_of (abandon_and_release R i rs sc s)) (log_of (abandon_and_release R i rs sc s))"
proof -
  obtain r s1 where t: "port_mark_terminal (dr_state R) i rs s = (r, s1)" by fastforce
  then have Q1: "Q (store_of s1) (log_of s1)"
    using call_keeps [where Q = Q, OF terminal_law assms(3,1)] by (metis snd_conv)
  then show ?thesis
    using call_keeps [where Q = Q, OF release_law Q1 assms(2)]
    by (auto simp: abandon_and_release_def t split: sum.splits)
qed

lemma retry_or_give_up_keeps:
  assumes "\<And>st lg a t. Q st lg \<Longrightarrow> Q (snd (EffectStore_mark_retryable (ae_id e) a t st)) lg"
    and "\<And>st lg rs. Q st lg \<Longrightarrow> Q (snd (EffectStore_mark_terminal (ae_id e) rs st)) lg"
    and "\<And>st lg. Q st lg \<Longrightarrow> Q (snd (EffectStore_release sc st)) lg"
    and "Q (store_of s) (log_of s)"
  shows "Q (store_of (retry_or_give_up R e sc s)) (log_of (retry_or_give_up R e sc s))"
proof -
  let ?p = "policy_for (dr_retry R) (ds_effect_type sc)"
  obtain b s1 where b: "draw_backoff R ?p (ae_attempt e + 1) s = (b, s1)" by fastforce
  obtain t s2 where t: "timestamp_after R b s1 = (t, s2)" by fastforce
  obtain r s3 where m: "mark_retryable_with_retry R (ae_id e) (ae_attempt e + 1) t s2 = (r, s3)" by fastforce
  have "Q (store_of s2) (log_of s2)"
    using assms(4) b t draw_backoff_quiet timestamp_after_quiet by (metis snd_conv)
  then have Q3: "Q (store_of s3) (log_of s3)"
    using mark_retryable_keeps [where Q = Q, OF assms(1)] m by (metis snd_conv)
  show ?thesis
    unfolding retry_or_give_up_def Let_def b t m prod.case
    using abandon_and_release_keeps [where Q = Q, OF assms(2,3)] Q3 assms(4)
    by (auto split: sum.splits)
qed

lemma confirm_loop_keeps:
  assumes "\<And>st lg. Q st lg \<Longrightarrow> Q (snd (EffectStore_commit_success sc st)) lg"
    and "\<And>st lg st0. Q st lg \<Longrightarrow> st = snd (EffectStore_commit_success sc st0) \<Longrightarrow>
           Q (snd (EffectStore_mark_succeeded i st)) lg"
    and "Q (store_of s) (log_of s)"
  shows "Q (store_of (snd (confirm_loop n R sc i s))) (log_of (snd (confirm_loop n R sc i s)))"
  using assms(3)
proof (induction n arbitrary: s)
  case (Suc n)
  obtain r s1 where c: "port_commit_success (dr_dedup R) sc s = (r, s1)" by fastforce
  have Q1: "Q (store_of s1) (log_of s1)"
    using call_keeps [where Q = Q, OF commit_law Suc.prems assms(1)] c by (metis snd_conv)
  show ?case
  proof (cases r)
    case (Inr u)
    then have st1: "store_of s1 = snd (EffectStore_commit_success sc (store_of s))"
      using port_law_Ok [OF commit_law, of sc s u s1] c by simp
    obtain r' s2 where m: "port_mark_succeeded (dr_state R) i s1 = (r', s2)" by fastforce
    have "Q (store_of s2) (log_of s2)"
      using port_law_keeps [OF succeeded_law, of "\<lambda>st. Q st (log_of s1)" s1 i]
        assms(2) [OF Q1 st1] Q1 port_law_log [OF succeeded_law, of i s1] m by simp
    then show ?thesis using Suc.IH [of s2] by (auto simp: c m Inr split: sum.splits)
  qed (use Suc.IH [OF Q1] c in simp)
qed simp

lemma finish_success_keeps:
  assumes "\<And>st lg. Q st lg \<Longrightarrow> Q (snd (EffectStore_commit_success sc st)) lg"
    and "\<And>st lg st0. Q st lg \<Longrightarrow> st = snd (EffectStore_commit_success sc st0) \<Longrightarrow>
           Q (snd (EffectStore_mark_succeeded (ae_id e) st)) lg"
    and "\<And>st lg a t. Q st lg \<Longrightarrow> Q (snd (EffectStore_mark_retryable (ae_id e) a t st)) lg"
    and "Q (store_of s) (log_of s)"
  shows "Q (store_of (finish_success R e sc s)) (log_of (finish_success R e sc s))"
proof -
  let ?p = "policy_for (dr_retry R) (ds_effect_type sc)"
  obtain ok s1 where c: "confirm_loop BOOKKEEPING_RETRY_ATTEMPTS R sc (ae_id e) s = (ok, s1)" by fastforce
  have Q1: "Q (store_of s1) (log_of s1)"
    using confirm_loop_keeps [where Q = Q and n = BOOKKEEPING_RETRY_ATTEMPTS, OF assms(1,2,4)] c by simp
  obtain b s2 where b: "draw_backoff R ?p (max (ae_attempt e + 1) 1) s1 = (b, s2)" by fastforce
  obtain t s3 where t: "timestamp_after R b s2 = (t, s3)" by fastforce
  have "Q (store_of s3) (log_of s3)"
    using Q1 b t draw_backoff_quiet timestamp_after_quiet by (metis snd_conv)
  from mark_retryable_keeps [where Q = Q, OF assms(3) this] Q1 show ?thesis
    unfolding finish_success_def Let_def c b t prod.case by (simp split: bool.splits)
qed

lemma unsucceeded_marks:
  assumes "unsucceeded C sc st lg"
  shows "unsucceeded C sc (snd (EffectStore_mark_retryable i a t st)) lg"
    and "unsucceeded C sc (snd (EffectStore_mark_terminal i rs st)) lg"
    and "unsucceeded C sc (snd (EffectStore_release sc st)) lg"
  using assms
  by (simp_all add: frame_simps inv_intros delivery_inv_release)
    (simp add: EffectStore_release_def)

lemma unsucceeded_outcomes:
  assumes "unsucceeded C sc (store_of s) (log_of s)"
  shows "unsucceeded C sc (store_of (abandon_and_release R i rs sc s)) (log_of (abandon_and_release R i rs sc s))"
    and "unsucceeded C sc (store_of (retry_or_give_up R e sc s)) (log_of (retry_or_give_up R e sc s))"
    and "unsucceeded C sc (store_of (requeue_without_charging_attempt R e s))
           (log_of (requeue_without_charging_attempt R e s))"
  by (rule abandon_and_release_keeps [where Q = "unsucceeded C sc", OF _ _ assms],
        (rule unsucceeded_marks, assumption)+)
    (rule retry_or_give_up_keeps [where Q = "unsucceeded C sc", OF _ _ _ assms],
        (rule unsucceeded_marks, assumption)+,
     rule requeue_keeps [where Q = "unsucceeded C sc", OF _ assms], rule unsucceeded_marks, assumption)

lemma delivered_marks:
  assumes "delivered C sc fp st lg"
  shows "delivered C sc fp (snd (EffectStore_commit_success sc st)) lg"
    and "delivered C sc fp (snd (EffectStore_mark_retryable i a t st)) lg"
proof -
  have "delivery_inv (dr_sha256 R) (snd (EffectStore_commit_success sc st)) lg"
    using assms by (intro delivery_inv_commit_success) auto
  then show "delivered C sc fp (snd (EffectStore_commit_success sc st)) lg"
    using assms by (auto simp: frame_simps EffectStore_commit_success_def content_def [abs_def])
  show "delivered C sc fp (snd (EffectStore_mark_retryable i a t st)) lg"
    using assms by (simp add: frame_simps inv_intros)
qed

lemma delivered_mark_succeeded:
  assumes "delivered C (content_scope c) (content_fingerprint (dr_sha256 R) c) st lg" "C i = Some c"
    and "st = snd (EffectStore_commit_success (content_scope c) st0)"
  shows "delivered C (content_scope c) (content_fingerprint (dr_sha256 R) c) (snd (EffectStore_mark_succeeded i st)) lg"
proof -
  obtain rr where rr: "dedup st (content_scope c) = Some rr"
      "rr_fingerprint rr = content_fingerprint (dr_sha256 R) c"
    using assms(1) by blast
  then have "rr_succeeded rr" using assms(3) by (auto simp: EffectStore_commit_success_def)
  then have "delivery_inv (dr_sha256 R) (snd (EffectStore_mark_succeeded i st)) lg"
    using assms(1,2) rr by (intro delivery_inv_mark_succeeded [where c = c and rr = rr]) auto
  then show ?thesis using assms(1) by (simp add: frame_simps)
qed

lemma effect_scope_content: "effect_scope e = content_scope (ae_tenant e, ae_description e)"
  by (simp add: effect_scope_def content_scope_def)

lemma effect_fingerprint_content:
  "effect_fingerprint R e = content_fingerprint (dr_sha256 R) (ae_tenant e, ae_description e)"
  by (simp add: effect_fingerprint_def content_fingerprint_def)

lemma execute_log:
  assumes "dr_registry R ty = Some x"
    and "execute_catching_panics x (ae_description e) (effect_context e) s = (out, s1)"
  shows "store_of s1 = store_of s \<and>
    (\<exists>jr. out = classify_join_result jr \<and>
       log_of s1 = log_of s @ [(effect_scope e, effect_fingerprint R e, jr)])"
  using executor_law [OF assms(1), of "ae_description e" "effect_context e" s] assms(2)
  by (auto simp: execute_catching_panics_def effect_scope_content effect_fingerprint_content
      effect_context_def split: prod.splits)

lemma classify_Success [simp]: "classify_join_result jr = Outcome Success \<longleftrightarrow> jr = Joined Success"
  by (cases jr) auto

lemma classify_cases [case_names success retry terminal cancelled]:
  obtains "out = Outcome Success" | m where "out = Outcome (RetryableFailure m)"
  | m where "out = Outcome (TerminalFailure m)" | "out = CancelledForShutdown"
  by (cases out; cases "case out of Outcome a \<Rightarrow> a") auto

lemma attempt_delivery_safe:
  assumes kept: "kept C (store_of s) (log_of s)"
    and mine: "C (ae_id e) = Some (ae_tenant e, ae_description e)"
    and rr: "dedup (store_of s) (effect_scope e) = Some rr" "rr_fingerprint rr = effect_fingerprint R e"
      "\<not> rr_succeeded rr"
  shows "kept C (store_of (attempt_delivery R e (effect_scope e) s))
           (log_of (attempt_delivery R e (effect_scope e) s))"
proof (cases "dr_registry R (ed_effect_type (ae_description e))")
  case None
  have "unsucceeded C (effect_scope e) (store_of s) (log_of s)" using kept rr by simp
  from unsucceeded_outcomes(1) [OF this] None show ?thesis
    by (simp add: attempt_delivery_def ExecutorRegistry_get_def)
next
  case (Some x)
  obtain out s1 where ex: "execute_catching_panics x (ae_description e) (effect_context e) s = (out, s1)"
    by fastforce
  from execute_log [OF Some ex] obtain jr
    where st1: "store_of s1 = store_of s" and jr: "out = classify_join_result jr"
      and lg1: "log_of s1 = log_of s @ [(effect_scope e, effect_fingerprint R e, jr)]"
    by blast
  have kept1: "kept C (store_of s1) (log_of s1)"
    using kept lg1 by (auto simp: st1 intro: delivery_inv_log)
  then have un: "unsucceeded C (effect_scope e) (store_of s1) (log_of s1)" using rr by (simp add: st1)
  show ?thesis
  proof (cases "out = Outcome Success")
    case True
    then have "delivered C (effect_scope e) (effect_fingerprint R e) (store_of s1) (log_of s1)"
      using kept1 rr jr lg1 by (auto simp: st1)
    then have "delivered C (effect_scope e) (effect_fingerprint R e)
        (store_of (finish_success R e (effect_scope e) s1)) (log_of (finish_success R e (effect_scope e) s1))"
      unfolding effect_scope_content effect_fingerprint_content
      by (intro finish_success_keeps [where Q = "delivered C (content_scope (ae_tenant e, ae_description e))
             (content_fingerprint (dr_sha256 R) (ae_tenant e, ae_description e))"]
          delivered_marks delivered_mark_succeeded mine)
    then show ?thesis using True by (simp add: attempt_delivery_def ExecutorRegistry_get_def Some ex)
  next
    case False
    note do = attempt_delivery_def ExecutorRegistry_get_def Some ex
    from False show ?thesis
    proof (cases out rule: classify_cases)
      case (retry m)
      then show ?thesis using unsucceeded_outcomes(2) [OF un, of e] by (simp add: do)
    next
      case (terminal m)
      then show ?thesis using unsucceeded_outcomes(1) [OF un, of "ae_id e" "Other m"] by (simp add: do)
    next
      case cancelled
      then show ?thesis using unsucceeded_outcomes(3) [OF un, of e] by (simp add: do)
    qed simp
  qed
qed

lemma dispatch_safe:
  assumes "inv s" "content (store_of s) (ae_id e) = Some (ae_tenant e, ae_description e)"
  shows "inv (dispatch_in_flight R e s) \<and> content (store_of (dispatch_in_flight R e s)) = content (store_of s)"
proof -
  define C where "C = content (store_of s)"
  have k: "kept C (store_of s) (log_of s)" using assms(1) by (simp add: C_def)
  obtain r s1 where res: "reserve_with_retry R (effect_scope e) (ae_id e) (effect_fingerprint R e) s = (r, s1)"
    by fastforce
  have k1: "kept C (store_of s1) (log_of s1)"
    using reserve_loop_keeps [where Q = "kept C", of "effect_scope e" "ae_id e" "effect_fingerprint R e" s
        "policy_for (dr_retry R) (ds_effect_type (effect_scope e))" 0] k res
    by (simp add: reserve_with_retry_def frame_simps inv_intros)
  have gone: "kept C (store_of (abandon R (ae_id e) rs s1)) (log_of (abandon R (ae_id e) rs s1))" for rs
    using k1 by (intro abandon_keeps [where Q = "kept C"]) (simp_all add: frame_simps inv_intros)
  have "kept C (store_of (dispatch_in_flight R e s)) (log_of (dispatch_in_flight R e s))"
  proof (cases r)
    case (Inl u)
    then show ?thesis using gone by (simp add: dispatch_in_flight_def res)
  next
    case (Inr out)
    have granted: "\<exists>st0. EffectStore_reserve (effect_scope e) (ae_id e) (effect_fingerprint R e) st0 = (Ok out, store_of s1)"
      using reserve_loop_Ok res unfolding reserve_with_retry_def Inr by blast
    show ?thesis
    proof (cases "out = Fresh \<or> out = OwnedInProgress")
      case True
      with granted obtain rr where "dedup (store_of s1) (effect_scope e) = Some rr"
          "rr_fingerprint rr = effect_fingerprint R e" "\<not> rr_succeeded rr"
        using reserve_granted(1) by blast
      with k1 assms(2) have "kept C (store_of (attempt_delivery R e (effect_scope e) s1))
          (log_of (attempt_delivery R e (effect_scope e) s1))"
        by (intro attempt_delivery_safe) (auto simp: C_def)
      then show ?thesis using True by (auto simp: dispatch_in_flight_def res Inr)
    next
      case False
      have req: "kept C (store_of (requeue_without_charging_attempt R e s1))
          (log_of (requeue_without_charging_attempt R e s1))"
        using k1 by (intro requeue_keeps [where Q = "kept C"]) (simp_all add: frame_simps inv_intros)
      have sat: "kept C (store_of (finish_already_satisfied R (ae_id e) s1))
          (log_of (finish_already_satisfied R (ae_id e) s1))"
        if out: "out = OtherSucceeded \<or> out = OwnedSucceeded"
      proof -
        from granted out obtain rr where "dedup (store_of s1) (effect_scope e) = Some rr"
            "rr_fingerprint rr = effect_fingerprint R e" "rr_succeeded rr"
          using reserve_granted(2) by blast
        then have "kept C (snd (EffectStore_mark_succeeded (ae_id e) (store_of s1))) (log_of s1)"
          using k1 assms(2) delivery_inv_mark_succeeded [of "dr_sha256 R" "store_of s1" "log_of s1" "ae_id e"]
          by (auto simp: frame_simps C_def effect_scope_content effect_fingerprint_content)
        then show ?thesis
          using port_law_keeps [OF succeeded_law, of "\<lambda>st. kept C st (log_of s1)" s1 "ae_id e"] k1
            port_law_log [OF succeeded_law, of "ae_id e" s1]
          by (simp add: finish_already_satisfied_def)
      qed
      show ?thesis
        using False req sat gone by (cases out) (simp_all add: dispatch_in_flight_def res Inr)
    qed
  qed
  then show ?thesis by (simp add: C_def)
qed

lemma drain_one_safe:
  assumes "inv s" "content (store_of s) (ae_id e) = Some (ae_tenant e, ae_description e)"
  shows "inv (drain_one R e s) \<and> content (store_of (drain_one R e s)) = content (store_of s)"
proof -
  obtain r s1 where m: "mark_in_flight_with_retry R (ae_id e) s = (r, s1)" by fastforce
  have "kept (content (store_of s)) (store_of s1) (log_of s1)"
    using retry_keeps [where Q = "kept (content (store_of s))", OF in_flight_law [of "ae_id e"], of s
        BOOKKEEPING_RETRY_ATTEMPTS] assms(1) m
    by (simp add: mark_in_flight_with_retry_def frame_simps inv_intros)
  then show ?thesis
    using dispatch_safe [of s1 e] assms(2) by (auto simp: drain_one_def m split: sum.splits)
qed

end

end
