(* ===== verification/Ego_Effect_System.thy ===== *)
theory Ego_Effect_System
  imports Ego_Effect_Delivery
begin

text \<open>
  The delivery pipeline as a whole: effects are accepted into the store and queued, the drain loop
  turns queue entries and reclaimed rows into tasks, tasks run in any order, the process may crash
  and recover. \<open>system_step\<close> is that machine for an arbitrary runner; the in-memory store, behind a
  transport that may lose requests and responses, is the instance the theorems are stated for.

  A task is one step of the machine, so two tasks do not interleave their port calls.
\<close>

section \<open>The machine\<close>

datatype effect_task = FreshTask AcceptedEffect | ReclaimedTask AcceptedEffect

fun run_task :: "'s DeliveryRunner \<Rightarrow> effect_task \<Rightarrow> 's \<Rightarrow> 's" where
  "run_task R (FreshTask e) s = drain_one R e s"
| "run_task R (ReclaimedTask e) s = drain_reclaimed R e s"

fun task_effect :: "effect_task \<Rightarrow> AcceptedEffect" where
  "task_effect (FreshTask e) = e"
| "task_effect (ReclaimedTask e) = e"

record 's effect_system =
  sys_world :: 's
  sys_queue :: "AcceptedEffect list"
  sys_tasks :: "effect_task list"

text \<open>
  \<open>sys_queue\<close> holds what was accepted and not dispatched yet, in the order of acceptance: concurrent
  callers may enter the channel in another order, so any of it may be next, and the shutdown deadline
  may cut an entry off (\<open>Ego_Effect_Acceptor\<close> has the callers and the channel apart).

  \<open>accept_refused\<close> also covers a response that was lost: the row may be in the store although the
  caller was told otherwise. \<open>crash\<close> loses the queue and the tasks, which live in memory.
\<close>

inductive system_step :: "'s DeliveryRunner \<Rightarrow> 's effect_system \<Rightarrow> 's effect_system \<Rightarrow> bool" for R where
  accept:
    "port_accept (dr_state R) e w = (Ok (), w') \<Longrightarrow>
     system_step R \<lparr>sys_world = w, sys_queue = q, sys_tasks = ts\<rparr>
       \<lparr>sys_world = w', sys_queue = q @ [e], sys_tasks = ts\<rparr>"
| accept_refused:
    "port_accept (dr_state R) e w = (Err err, w') \<Longrightarrow>
     system_step R \<lparr>sys_world = w, sys_queue = q, sys_tasks = ts\<rparr>
       \<lparr>sys_world = w', sys_queue = q, sys_tasks = ts\<rparr>"
| dequeue:
    "system_step R \<lparr>sys_world = w, sys_queue = q @ e # q', sys_tasks = ts\<rparr>
       \<lparr>sys_world = w, sys_queue = q @ q', sys_tasks = ts @ [FreshTask e]\<rparr>"
| drop_queued:
    "system_step R \<lparr>sys_world = w, sys_queue = q @ e # q', sys_tasks = ts\<rparr>
       \<lparr>sys_world = w, sys_queue = q @ q', sys_tasks = ts\<rparr>"
| reclaim:
    "reclaim_due R permits w = ((es, cont), w') \<Longrightarrow>
     system_step R \<lparr>sys_world = w, sys_queue = q, sys_tasks = ts\<rparr>
       \<lparr>sys_world = w', sys_queue = q, sys_tasks = ts @ map ReclaimedTask es\<rparr>"
| run:
    "system_step R \<lparr>sys_world = w, sys_queue = q, sys_tasks = ts @ t # ts'\<rparr>
       \<lparr>sys_world = run_task R t w, sys_queue = q, sys_tasks = ts @ ts'\<rparr>"
| abort_task:
    "system_step R \<lparr>sys_world = w, sys_queue = q, sys_tasks = ts @ t # ts'\<rparr>
       \<lparr>sys_world = w, sys_queue = q, sys_tasks = ts @ ts'\<rparr>"
| crash:
    "system_step R \<lparr>sys_world = w, sys_queue = q, sys_tasks = ts\<rparr>
       \<lparr>sys_world = w, sys_queue = [], sys_tasks = []\<rparr>"
| recover:
    "port_recover_in_flight (dr_state R) now w = (r, w') \<Longrightarrow>
     system_step R \<lparr>sys_world = w, sys_queue = [], sys_tasks = []\<rparr>
       \<lparr>sys_world = w', sys_queue = [], sys_tasks = []\<rparr>"

definition in_hand :: "'s effect_system \<Rightarrow> AcceptedEffect list" where
  "in_hand y = sys_queue y @ map task_effect (sys_tasks y)"

lemma content_accept:
  assumes "content st i = Some c"
  shows "content (snd (EffectStore_accept e st)) i = Some c"
  using assms by (auto simp: EffectStore_accept_def content_def split: option.splits)

lemma content_accepted:
  assumes "EffectStore_accept e st = (Ok (), st')"
  shows "content st' (ae_id e) = Some (ae_tenant e, ae_description e)"
  using assms by (auto simp: EffectStore_accept_def content_def split: option.splits if_splits)

lemma content_recover [simp]: "content (snd (EffectStore_recover_in_flight order now st)) = content st"
  by (auto simp: EffectStore_recover_in_flight_def content_def recovered_def option.map_comp o_def
      intro!: ext option.map_cong)

lemma claim_due_result:
  assumes "EffectStore_claim_due order now n st = (Ok due, st')"
  shows "due = map (\<lambda>i. stored_effect now i (the (states st i))) (take n (filter (is_due now st) order)) \<and> st' = st"
  using assms by (auto simp: EffectStore_claim_due_def)

context effect_world
begin

text \<open>Rows are backed, and whatever is queued or spawned is in the store with the same content.\<close>

definition system_inv :: "'s effect_system \<Rightarrow> bool" where
  "system_inv y \<longleftrightarrow>
     inv (sys_world y) \<and>
     (\<forall>e \<in> set (in_hand y).
        content (store_of (sys_world y)) (ae_id e) = Some (ae_tenant e, ae_description e))"

lemma claim_content:
  assumes "port_claim_due (dr_state R) now n s = (Ok due, s')" "e \<in> set due"
  shows "content (store_of s') (se_id e) = Some (se_tenant e, se_description e)"
proof -
  have "EffectStore_claim_due (order (store_of s)) now n (store_of s) = (Ok due, store_of s')"
    using port_law_Ok [OF claim_law, of now n s due s'] assms(1) by simp
  from claim_due_result [OF this] have due: "due = map (\<lambda>i. stored_effect now i (the (states (store_of s) i)))
      (take n (filter (is_due now (store_of s)) (order (store_of s))))" and st: "store_of s' = store_of s"
    by blast+
  from due assms(2) obtain i where "e = stored_effect now i (the (states (store_of s) i))"
      "is_due now (store_of s) i"
    by (auto dest: in_set_takeD)
  then show ?thesis
    by (auto simp: st content_def stored_effect_def is_due_def split: option.splits)
qed

lemma reclaim_loop_safe:
  assumes "inv s" "\<forall>e \<in> set due. content (store_of s) (se_id e) = Some (se_tenant e, se_description e)"
    and "reclaim_loop R permits due s = ((es, cont), s')"
  shows "inv s' \<and> content (store_of s') = content (store_of s) \<and>
         (\<forall>e \<in> set es. content (store_of s') (ae_id e) = Some (ae_tenant e, ae_description e))"
  using assms
proof (induction due arbitrary: permits s es cont s')
  case (Cons stored due)
  obtain r s1 where m: "port_mark_in_flight (dr_state R) (se_id stored) s = (r, s1)" by fastforce
  have "kept (content (store_of s)) (store_of s1) (log_of s1)"
    using call_keeps [where Q = "kept (content (store_of s))", OF in_flight_law [of "se_id stored"], of s]
      Cons.prems(1) m by (simp add: frame_simps inv_intros)
  then have s1: "inv s1" "content (store_of s1) = content (store_of s)" by simp_all
  obtain es2 cont2 s2 where l2: "reclaim_loop R (map_option (\<lambda>n. n - Suc 0) permits) due s1 = ((es2, cont2), s2)"
    by (metis surj_pair)
  have due: "\<forall>e \<in> set due. content (store_of s1) (se_id e) = Some (se_tenant e, se_description e)"
    using Cons.prems(2) s1 by simp
  show ?case
  proof (cases r)
    case (Inl err)
    then have "reclaim_loop R permits due s1 = ((es, cont), s')" using Cons.prems(3) by (simp add: m)
    from Cons.IH [OF s1(1) due this] s1(2) show ?thesis by metis
  next
    case (Inr u)
    then show ?thesis
      using Cons.IH [OF s1(1) due l2] Cons.prems(2,3) s1 by (auto simp: m l2 split: if_splits)
  qed
qed simp

lemma reclaim_due_safe:
  assumes "inv s" "reclaim_due R permits s = ((es, cont), s')"
  shows "inv s' \<and> content (store_of s') = content (store_of s) \<and>
         (\<forall>e \<in> set es. content (store_of s') (ae_id e) = Some (ae_tenant e, ae_description e))"
proof -
  obtain now s1 where n: "dr_now R s = (now, s1)" by fastforce
  obtain r s2 where c: "port_claim_due (dr_state R) now RECLAIM_BATCH_LIMIT s1 = (r, s2)" by fastforce
  have s1: "store_of s1 = store_of s" "log_of s1 = log_of s" using quiet(1,2) [of s] n by simp_all
  have "kept (content (store_of s)) (store_of s2) (log_of s2)"
    using call_keeps [where Q = "kept (content (store_of s))", OF claim_law, of s1 now RECLAIM_BATCH_LIMIT]
      assms(1) c s1 by (simp add: EffectStore_claim_due_def)
  then have s2: "inv s2" "content (store_of s2) = content (store_of s)" by simp_all
  show ?thesis
  proof (cases r)
    case (Inl err)
    then show ?thesis using assms(2) s2 by (auto simp: reclaim_due_def n c)
  next
    case (Inr due)
    have "\<forall>e \<in> set due. content (store_of s2) (se_id e) = Some (se_tenant e, se_description e)"
      using claim_content [of now RECLAIM_BATCH_LIMIT s1 due s2] c Inr by blast
    moreover have "reclaim_loop R permits due s2 = ((es, cont), s')"
      using assms(2) by (simp add: reclaim_due_def n c Inr)
    ultimately show ?thesis using reclaim_loop_safe [OF s2(1), of due permits es cont s'] s2(2) by metis
  qed
qed

lemma run_task_safe:
  assumes "inv s"
    and "content (store_of s) (ae_id (task_effect t)) = Some (ae_tenant (task_effect t), ae_description (task_effect t))"
  shows "inv (run_task R t s) \<and> content (store_of (run_task R t s)) = content (store_of s)"
  using assms dispatch_safe drain_one_safe by (cases t) (simp_all add: drain_reclaimed_def)

lemma system_inv_step:
  assumes "system_step R y y'" "system_inv y"
  shows "system_inv y'"
  using assms
proof (induction rule: system_step.induct)
  case (accept e w w' q ts)
  have acc: "EffectStore_accept e (store_of w) = (Ok (), store_of w')"
    using port_law_Ok [OF accept_law accept(1)] .
  then have "log_of w' = log_of w" using port_law_log [OF accept_law, of e w] accept(1) by simp
  then show ?case
    using accept(2) acc content_accepted [OF acc] content_accept [of "store_of w" _ _ e]
      delivery_inv_accept [of _ "store_of w" "log_of w" e]
    by (auto simp: system_inv_def in_hand_def)
next
  case (accept_refused e w err w' q ts)
  have "delivery_inv (dr_sha256 R) (store_of w') (log_of w') \<and>
      (\<forall>i c. content (store_of w) i = Some c \<longrightarrow> content (store_of w') i = Some c)"
    using call_keeps [where Q = "\<lambda>st lg. delivery_inv (dr_sha256 R) st lg \<and>
          (\<forall>i c. content (store_of w) i = Some c \<longrightarrow> content st i = Some c)", OF accept_law, of w e]
      accept_refused by (auto simp: system_inv_def inv_intros content_accept)
  then show ?case using accept_refused(2) by (auto simp: system_inv_def in_hand_def)
next
  case (reclaim permits w es cont w' q ts)
  then show ?case using reclaim_due_safe [of w permits es cont w'] by (auto simp: system_inv_def in_hand_def)
next
  case (run w q ts t ts')
  then show ?case using run_task_safe [of w t] by (auto simp: system_inv_def in_hand_def)
next
  case (recover now w r w')
  have "kept (content (store_of w)) (store_of w') (log_of w')"
    using call_keeps [where Q = "kept (content (store_of w))", OF recover_law, of w now] recover
    by (auto simp: system_inv_def inv_intros)
  then show ?case by (simp add: system_inv_def in_hand_def)
qed (auto simp: system_inv_def in_hand_def)

lemma system_inv_reachable:
  "(system_step R)\<^sup>*\<^sup>* y y' \<Longrightarrow> system_inv y \<Longrightarrow> system_inv y'"
  by (induction rule: rtranclp_induct) (auto intro: system_inv_step)

end

section \<open>The in-memory store as the world of a runner\<close>

text \<open>
  Executors, clock, entropy and sleep act on the rest of the world, \<open>'w\<close>. Each call to a store may
  meet a fault of the transport in front of it: the request is lost, or the response.
\<close>

record 'w memory_world =
  mw_store :: InMemoryEffectStore
  mw_log :: delivery_log
  mw_faults :: "fault list"
  mw_env :: 'w

record 'w runner_env =
  re_registry :: "'w executor ExecutorRegistry"
  re_retry :: RetryPolicies
  re_now :: "'w \<Rightarrow> timestamp \<times> 'w"
  re_entropy :: "'w \<Rightarrow> u64 \<times> 'w"
  re_sleep :: "duration \<Rightarrow> 'w \<Rightarrow> 'w"
  re_from_std :: "duration \<Rightarrow> int option"
  re_sha256 :: "8 word list \<Rightarrow> 8 word list"

definition call_memory :: "(InMemoryEffectStore \<Rightarrow> 'a effect_call) \<Rightarrow> ('w memory_world, 'a) port_call" where
  "call_memory op s = (case op (mw_store s) of (r, st) \<Rightarrow> (r, s\<lparr>mw_store := st\<rparr>))"

definition call_transport :: "(InMemoryEffectStore \<Rightarrow> 'a effect_call) \<Rightarrow> ('w memory_world, 'a) port_call" where
  "call_transport op s =
     (case mw_faults s of
        [] \<Rightarrow> call_memory op s
      | NoFault # fs \<Rightarrow> call_memory op (s\<lparr>mw_faults := fs\<rparr>)
      | LostRequest # fs \<Rightarrow> (Err (TemporarilyUnavailable ''request lost''), s\<lparr>mw_faults := fs\<rparr>)
      | LostResponse # fs \<Rightarrow>
          (Err (TemporarilyUnavailable ''response lost''), snd (call_memory op (s\<lparr>mw_faults := fs\<rparr>))))"

definition env_call :: "('w \<Rightarrow> 'a \<times> 'w) \<Rightarrow> 'w memory_world \<Rightarrow> 'a \<times> 'w memory_world" where
  "env_call f s = (case f (mw_env s) of (a, w) \<Rightarrow> (a, s\<lparr>mw_env := w\<rparr>))"

definition logged_executor ::
  "(8 word list \<Rightarrow> 8 word list) \<Rightarrow> 'w executor \<Rightarrow> 'w memory_world executor" where
  "logged_executor sha x d c s =
     (case x d c (mw_env s) of (jr, w) \<Rightarrow>
        (jr, s\<lparr>mw_env := w, mw_log := mw_log s @
           [(content_scope (ctx_tenant c, d), content_fingerprint sha (ctx_tenant c, d), jr)]\<rparr>))"

definition runner_with ::
  "'w memory_world EffectStateStore \<Rightarrow> 'w memory_world EffectDedupStore \<Rightarrow> 'w runner_env \<Rightarrow>
   'w memory_world DeliveryRunner" where
  "runner_with st dd env =
     \<lparr>dr_state = st, dr_dedup = dd,
      dr_registry = (\<lambda>ty. map_option (logged_executor (re_sha256 env)) (re_registry env ty)),
      dr_retry = re_retry env, dr_now = env_call (re_now env), dr_entropy = env_call (re_entropy env),
      dr_sleep = (\<lambda>d s. s\<lparr>mw_env := re_sleep env d (mw_env s)\<rparr>),
      dr_from_std = re_from_std env, dr_sha256 = re_sha256 env\<rparr>"

definition memory_runner ::
  "(InMemoryEffectStore \<Rightarrow> EffectId list) \<Rightarrow> 'w runner_env \<Rightarrow> 'w memory_world DeliveryRunner" where
  "memory_runner order = runner_with
     \<lparr>port_accept = (\<lambda>e. call_memory (EffectStore_accept e)),
      port_mark_in_flight = (\<lambda>i. call_memory (EffectStore_mark_in_flight i)),
      port_mark_succeeded = (\<lambda>i. call_memory (EffectStore_mark_succeeded i)),
      port_mark_retryable = (\<lambda>i a t. call_memory (EffectStore_mark_retryable i a t)),
      port_mark_terminal = (\<lambda>i rs. call_memory (EffectStore_mark_terminal i rs)),
      port_claim_due = (\<lambda>now n. call_memory (\<lambda>st. EffectStore_claim_due (order st) now n st)),
      port_recover_in_flight = (\<lambda>now. call_memory (\<lambda>st. EffectStore_recover_in_flight (order st) now st))\<rparr>
     \<lparr>port_reserve = (\<lambda>sc i fp. call_memory (EffectStore_reserve sc i fp)),
      port_commit_success = (\<lambda>sc. call_memory (EffectStore_commit_success sc)),
      port_release = (\<lambda>sc. call_memory (EffectStore_release sc))\<rparr>"

definition transport_runner ::
  "(InMemoryEffectStore \<Rightarrow> EffectId list) \<Rightarrow> 'w runner_env \<Rightarrow> 'w memory_world DeliveryRunner" where
  "transport_runner order = runner_with
     \<lparr>port_accept = (\<lambda>e. call_transport (EffectStore_accept e)),
      port_mark_in_flight = (\<lambda>i. call_transport (EffectStore_mark_in_flight i)),
      port_mark_succeeded = (\<lambda>i. call_transport (EffectStore_mark_succeeded i)),
      port_mark_retryable = (\<lambda>i a t. call_transport (EffectStore_mark_retryable i a t)),
      port_mark_terminal = (\<lambda>i rs. call_transport (EffectStore_mark_terminal i rs)),
      port_claim_due = (\<lambda>now n. call_transport (\<lambda>st. EffectStore_claim_due (order st) now n st)),
      port_recover_in_flight = (\<lambda>now. call_transport (\<lambda>st. EffectStore_recover_in_flight (order st) now st))\<rparr>
     \<lparr>port_reserve = (\<lambda>sc i fp. call_transport (EffectStore_reserve sc i fp)),
      port_commit_success = (\<lambda>sc. call_transport (EffectStore_commit_success sc)),
      port_release = (\<lambda>sc. call_transport (EffectStore_release sc))\<rparr>"

lemma call_memory_law: "port_law mw_store mw_log op (call_memory op)"
  by (auto simp: port_law_def answers_def call_memory_def split: prod.splits)

lemma call_memory_exact: "port_exact mw_store op (call_memory op)"
  by (auto simp: port_exact_def call_memory_def split: prod.splits)

lemma call_transport_law: "port_law mw_store mw_log op (call_transport op)"
  unfolding port_law_def answers_def
  by (auto simp: call_transport_def call_memory_def split: list.splits fault.splits prod.splits)

lemma env_call_quiet [simp]:
  "mw_store (snd (env_call f s)) = mw_store s" "mw_log (snd (env_call f s)) = mw_log s"
  by (auto simp: env_call_def split: prod.splits)

lemma logged_executor_law:
  "mw_store (snd (logged_executor sha x d c s)) = mw_store s"
  "mw_log (snd (logged_executor sha x d c s)) = mw_log s @
     [(content_scope (ctx_tenant c, d), content_fingerprint sha (ctx_tenant c, d), fst (logged_executor sha x d c s))]"
  by (auto simp: logged_executor_def split: prod.splits)

interpretation transport: effect_world mw_store mw_log order "transport_runner order env" for order env
  by unfold_locales
    (auto simp: transport_runner_def runner_with_def call_transport_law logged_executor_law)

interpretation memory: effect_world mw_store mw_log order "memory_runner order env" for order env
  by unfold_locales
    (auto simp: memory_runner_def runner_with_def call_memory_law logged_executor_law)

definition initial_system :: "fault list \<Rightarrow> 'w \<Rightarrow> 'w memory_world effect_system" where
  "initial_system faults w =
     \<lparr>sys_world = \<lparr>mw_store = EffectStore_new, mw_log = [], mw_faults = faults, mw_env = w\<rparr>,
      sys_queue = [], sys_tasks = []\<rparr>"

lemma runner_sha256 [simp]:
  "dr_sha256 (transport_runner order env) = re_sha256 env"
  "dr_sha256 (memory_runner order env) = re_sha256 env"
  by (simp_all add: transport_runner_def memory_runner_def runner_with_def)

lemma initial_system_inv: "transport.system_inv order env (initial_system faults w)"
  by (simp add: transport.system_inv_def initial_system_def in_hand_def delivery_inv_def EffectStore_new_def
      content_def)

section \<open>A sample run\<close>

definition ex_env :: "join_result \<Rightarrow> unit runner_env" where
  "ex_env jr =
     \<lparr>re_registry = [''http_post'' \<mapsto> (\<lambda>d c w. (jr, w))],
      re_retry = RetryPolicies_new \<lparr>max_attempts = 1, base_backoff = 0, max_backoff = 0\<rparr>,
      re_now = (\<lambda>w. (0, w)), re_entropy = (\<lambda>w. (0, w)), re_sleep = (\<lambda>d w. w),
      re_from_std = (\<lambda>d. Some (int d)), re_sha256 = (\<lambda>bs. bs)\<rparr>"

definition ex_accepted :: AcceptedEffect where
  "ex_accepted = \<lparr>ae_id = EffectId 1, ae_tenant = TenantId ''acme'', ae_attempt = 0, ae_description = ex_description\<rparr>"

lemma accept_and_run:
  assumes "port_accept (dr_state R) e w = (Ok (), w1)"
  shows "(system_step R)\<^sup>*\<^sup>* \<lparr>sys_world = w, sys_queue = [], sys_tasks = []\<rparr>
           \<lparr>sys_world = drain_one R e w1, sys_queue = [], sys_tasks = []\<rparr>"
proof -
  have "system_step R \<lparr>sys_world = w, sys_queue = [], sys_tasks = []\<rparr>
      \<lparr>sys_world = w1, sys_queue = [e], sys_tasks = []\<rparr>"
    using system_step.accept [OF assms, of "[]" "[]"] by simp
  moreover have "system_step R \<lparr>sys_world = w1, sys_queue = [e], sys_tasks = []\<rparr>
      \<lparr>sys_world = w1, sys_queue = [], sys_tasks = [FreshTask e]\<rparr>"
    using system_step.dequeue [of R w1 "[]" e "[]" "[]"] by simp
  moreover have "system_step R \<lparr>sys_world = w1, sys_queue = [], sys_tasks = [FreshTask e]\<rparr>
      \<lparr>sys_world = drain_one R e w1, sys_queue = [], sys_tasks = []\<rparr>"
    using system_step.run [of R w1 "[]" "[]" "FreshTask e" "[]"] by simp
  ultimately show ?thesis by (meson converse_rtranclp_into_rtranclp rtranclp.rtrancl_refl)
qed

lemmas run_defs =
  drain_one_def drain_reclaimed_def mark_in_flight_with_retry_def mark_retryable_with_retry_def
  BOOKKEEPING_RETRY_ATTEMPTS_def numeral_3_eq_3 runner_with_def call_memory_def dispatch_in_flight_def
  reserve_with_retry_def reserve_loop.simps attempt_delivery_def ExecutorRegistry_get_def
  execute_catching_panics_def logged_executor_def finish_success_def retry_or_give_up_def
  abandon_and_release_def requeue_without_charging_attempt_def env_call_def draw_backoff_def
  timestamp_after_def policy_for_def allows_retry_def effect_scope_def effect_context_def
  effect_fingerprint_def backoff_def

section \<open>Properties\<close>

text \<open>C5: no false success. In every state the delivery pipeline can reach from an empty store,
  through any interleaving of acceptances, dispatches, reclaims, crashes and recoveries, and whatever
  requests and responses to the stores are lost on the way, an effect recorded as \<open>Succeeded\<close> was
  delivered: some executor run for its tenant, effect type, idempotency key and content ended in
  success. The environment (executors, their panics and cancellations, clock, retry policy) is
  arbitrary.\<close>

theorem no_false_success:
  assumes "(system_step (transport_runner order env))\<^sup>*\<^sup>* (initial_system faults w) y"
    and "states (mw_store (sys_world y)) i = Some r" "er_state r = Succeeded"
  shows "(content_scope (er_tenant r, er_description r),
          content_fingerprint (re_sha256 env) (er_tenant r, er_description r),
          Joined Success) \<in> set (mw_log (sys_world y))"
proof -
  have "transport.system_inv order env y"
    using transport.system_inv_reachable [OF assms(1) initial_system_inv] .
  then have "delivery_inv (re_sha256 env) (mw_store (sys_world y)) (mw_log (sys_world y))"
    by (simp add: transport.system_inv_def)
  then show ?thesis
    using assms(2,3) unfolding delivery_inv_def by (force simp: content_def)
qed

theorem no_false_success_witness:
  "(content_scope (TenantId ''acme'', ex_description),
    content_fingerprint (re_sha256 (ex_env (Joined Success))) (TenantId ''acme'', ex_description),
    Joined Success)
   \<in> set (mw_log (drain_one (transport_runner (\<lambda>_. []) (ex_env (Joined Success))) ex_accepted
        (snd (port_accept (dr_state (transport_runner (\<lambda>_. []) (ex_env (Joined Success)))) ex_accepted
          (sys_world (initial_system [NoFault, LostRequest, NoFault, LostResponse] ()))))))"
proof -
  let ?R = "transport_runner (\<lambda>_. []) (ex_env (Joined Success))"
  let ?y = "initial_system [NoFault, LostRequest, NoFault, LostResponse] ()"
  let ?w = "snd (port_accept (dr_state ?R) ex_accepted (sys_world ?y))"
  note defs = transport_runner_def call_transport_def run_defs store_defs initial_system_def EffectStore_new_def
    ex_env_def ex_accepted_def RetryPolicies_new_def ex_description_def
  have "port_accept (dr_state ?R) ex_accepted (sys_world ?y) = (Ok (), ?w)" by (simp add: defs)
  from accept_and_run [OF this] have "(system_step ?R)\<^sup>*\<^sup>* ?y \<lparr>sys_world = drain_one ?R ex_accepted ?w, sys_queue = [], sys_tasks = []\<rparr>"
    by (simp add: initial_system_def)
  note * = no_false_success [OF this, of "EffectId 1"]
  have "\<exists>r. states (mw_store (drain_one ?R ex_accepted ?w)) (EffectId 1) = Some r \<and> er_state r = Succeeded \<and>
      er_tenant r = TenantId ''acme'' \<and> er_description r = ex_description"
    by (simp add: defs)
  then show ?thesis using * by auto
qed

end
