(* ===== verification/Ego_Event_Store.thy ===== *)
theory Ego_Event_Store
  imports Ego_Identity "HOL-Library.Char_ord" "HOL-Library.List_Lexorder" "HOL-Library.Product_Lexorder"
begin

text \<open>
  The event store port (\<open>crates/persistence-api/src/persistence\<close>) as a record of functions, and the
  in-memory store of \<open>crates/persistent-entity/src/persistence.rs\<close> with its staging unit of work.

  A store's methods lock one mutex, so each is one function on the committed state. A unit of work
  lives beside the store: its methods read the committed state and write its own staging area, and
  only \<open>commit\<close> writes the committed state. \<open>i64\<close> versions are \<open>int\<close>.
\<close>

section \<open>Stored events and the port\<close>

record 'e StoredEvent =
  stored_event :: 'e
  stored_operation_key :: "OperationKey option"

definition StoredEvent_new :: "'e \<Rightarrow> 'e StoredEvent" where
  "StoredEvent_new e = \<lparr>stored_event = e, stored_operation_key = None\<rparr>"

definition with_operation_key :: "OperationKey \<Rightarrow> 'e StoredEvent \<Rightarrow> 'e StoredEvent" where
  "with_operation_key k se = se\<lparr>stored_operation_key := Some k\<rparr>"

type_synonym StreamKey = "string \<times> string \<times> string option"
type_synonym ReceiptKey = "string \<times> string \<times> string option \<times> string"
type_synonym OffsetKey = "string \<times> string"

text \<open>The handle of an open unit of work is of some type \<open>'u\<close>.\<close>

record ('s, 'u, 'e) EventStore =
  es_append :: "string \<Rightarrow> string \<Rightarrow> string option \<Rightarrow> int \<Rightarrow> 'e StoredEvent list \<Rightarrow> 's \<Rightarrow>
                (int, PersistenceError) result \<times> 's"
  es_load :: "string \<Rightarrow> string \<Rightarrow> string option \<Rightarrow> 's \<Rightarrow> ('e StoredEvent list, PersistenceError) result"
  es_begin :: "'s \<Rightarrow> ('u, PersistenceError) result"
  es_find_receipt :: "string \<Rightarrow> string \<Rightarrow> string option \<Rightarrow> string \<Rightarrow> 's \<Rightarrow>
                      (OperationReceipt option, PersistenceError) result"
  es_stream_version_offset :: "string \<Rightarrow> string \<Rightarrow> string option \<Rightarrow> 's \<Rightarrow> nat"
  uow_append :: "string \<Rightarrow> string \<Rightarrow> string option \<Rightarrow> int \<Rightarrow> 'e StoredEvent list \<Rightarrow> 's \<Rightarrow> 'u \<Rightarrow>
                 (int, PersistenceError) result \<times> 'u"
  uow_confirm_receipt :: "OperationReceipt \<Rightarrow> 's \<Rightarrow> 'u \<Rightarrow> (unit, PersistenceError) result \<times> 'u"
  uow_commit :: "'u \<Rightarrow> 's \<Rightarrow> (unit, PersistenceError) result \<times> 's"

text \<open>\<open>format!("{aggregate_type}-{aggregate_id}")\<close>.\<close>

definition joined_id :: "string \<Rightarrow> string \<Rightarrow> string" where
  "joined_id ty i = ty @ ''-'' @ i"

section \<open>The in-memory event store\<close>

record 'e Committed =
  streams :: "StreamKey \<rightharpoonup> 'e StoredEvent list"
  receipts :: "ReceiptKey \<rightharpoonup> OperationReceipt"

definition Committed_default :: "'e Committed" where
  "Committed_default = \<lparr>streams = Map.empty, receipts = Map.empty\<rparr>"

definition receipt_key :: "OperationReceipt \<Rightarrow> ReceiptKey" where
  "receipt_key r =
     (or_aggregate_type r, or_aggregate_id r, map_option tenant_str (or_tenant r),
      key_str (or_operation_key r))"

definition reconcile_receipt ::
  "OperationReceipt option \<Rightarrow> OperationReceipt \<Rightarrow> (unit, PersistenceError) result" where
  "reconcile_receipt existing incoming =
     (case existing of
        Some found \<Rightarrow>
          if or_fingerprint found \<noteq> or_fingerprint incoming
          then Err (Conflict (joined_id (or_aggregate_type incoming) (or_aggregate_id incoming)) 0 0)
          else Ok ()
      | None \<Rightarrow> Ok ())"

record 'e InMemoryEventStore =
  store_state :: "'e Committed"
  version_offsets :: "OffsetKey \<rightharpoonup> int"

definition EventStore_new :: "'e InMemoryEventStore" where
  "EventStore_new = \<lparr>store_state = Committed_default, version_offsets = Map.empty\<rparr>"

definition with_version_offset ::
  "string \<Rightarrow> string \<Rightarrow> int \<Rightarrow> 'e InMemoryEventStore \<Rightarrow> 'e InMemoryEventStore" where
  "with_version_offset ty i off st = st\<lparr>version_offsets := (version_offsets st)((ty, i) \<mapsto> off)\<rparr>"

definition offset_of :: "(OffsetKey \<rightharpoonup> int) \<Rightarrow> string \<Rightarrow> string \<Rightarrow> int" where
  "offset_of offs ty i = (case offs (ty, i) of Some off \<Rightarrow> off | None \<Rightarrow> 0)"

definition stream_at :: "(StreamKey \<rightharpoonup> 'e StoredEvent list) \<Rightarrow> StreamKey \<Rightarrow> 'e StoredEvent list" where
  "stream_at m key = (case m key of Some es \<Rightarrow> es | None \<Rightarrow> [])"

text \<open>\<open>entry(key).or_default()\<close> creates the stream before the version is compared.\<close>

definition EventStore_append ::
  "string \<Rightarrow> string \<Rightarrow> string option \<Rightarrow> int \<Rightarrow> 'e StoredEvent list \<Rightarrow> 'e InMemoryEventStore \<Rightarrow>
   (int, PersistenceError) result \<times> 'e InMemoryEventStore" where
  "EventStore_append ty i tenant_id expected_version events st =
     (case resolve_tenant tenant_id of
        Inl e \<Rightarrow> (Err e, st)
      | Inr tenant \<Rightarrow>
          let offset = offset_of (version_offsets st) ty i;
              key = (ty, i, tenant);
              stream = stream_at (streams (store_state st)) key;
              current_version = int (length stream) + offset
          in if current_version \<noteq> expected_version
             then (Err (Conflict (joined_id ty i) expected_version current_version),
                   st\<lparr>store_state := (store_state st)\<lparr>streams := (streams (store_state st))(key \<mapsto> stream)\<rparr>\<rparr>)
             else (Ok (int (length (stream @ events)) + offset),
                   st\<lparr>store_state := (store_state st)\<lparr>streams :=
                        (streams (store_state st))(key \<mapsto> stream @ events)\<rparr>\<rparr>))"

definition EventStore_load ::
  "string \<Rightarrow> string \<Rightarrow> string option \<Rightarrow> 'e InMemoryEventStore \<Rightarrow>
   ('e StoredEvent list, PersistenceError) result" where
  "EventStore_load ty i tenant_id st =
     (case resolve_tenant tenant_id of
        Inl e \<Rightarrow> Err e
      | Inr tenant \<Rightarrow>
          (case streams (store_state st) (ty, i, tenant) of
             Some events \<Rightarrow> Ok events
           | None \<Rightarrow> Err (NotFound (joined_id ty i))))"

text \<open>\<open>order\<close> is the iteration order of the map; pairs of strings are sorted lexicographically.\<close>

definition EventStore_list_aggregate_ids ::
  "StreamKey list \<Rightarrow> string option \<Rightarrow> 'e InMemoryEventStore \<Rightarrow> ((string \<times> string) list, PersistenceError) result" where
  "EventStore_list_aggregate_ids order tenant_id st =
     (case resolve_tenant tenant_id of
        Inl e \<Rightarrow> Err e
      | Inr tenant \<Rightarrow>
          Ok (sort (map (\<lambda>(ty, i, _). (ty, i)) (filter (\<lambda>(_, _, t). t = tenant) order))))"

definition EventStore_find_receipt ::
  "string \<Rightarrow> string \<Rightarrow> string option \<Rightarrow> string \<Rightarrow> 'e InMemoryEventStore \<Rightarrow>
   (OperationReceipt option, PersistenceError) result" where
  "EventStore_find_receipt ty i tenant_id operation_key st =
     (case resolve_tenant tenant_id of
        Inl e \<Rightarrow> Err e
      | Inr tenant \<Rightarrow> Ok (receipts (store_state st) (ty, i, tenant, operation_key)))"

definition EventStore_stream_version_offset ::
  "string \<Rightarrow> string \<Rightarrow> string option \<Rightarrow> 'e InMemoryEventStore \<Rightarrow> nat" where
  "EventStore_stream_version_offset ty i tenant_id st = nat (max (offset_of (version_offsets st) ty i) 0)"

record 'e StagingUnitOfWork =
  uow_version_offsets :: "OffsetKey \<rightharpoonup> int"
  staged :: "StreamKey \<rightharpoonup> 'e StoredEvent list"
  staged_receipts :: "ReceiptKey \<rightharpoonup> OperationReceipt"

definition EventStore_begin :: "'e InMemoryEventStore \<Rightarrow> ('e StagingUnitOfWork, PersistenceError) result" where
  "EventStore_begin st =
     Ok \<lparr>uow_version_offsets = version_offsets st, staged = Map.empty, staged_receipts = Map.empty\<rparr>"

definition StagingUnitOfWork_append ::
  "string \<Rightarrow> string \<Rightarrow> string option \<Rightarrow> int \<Rightarrow> 'e StoredEvent list \<Rightarrow> 'e InMemoryEventStore \<Rightarrow>
   'e StagingUnitOfWork \<Rightarrow> (int, PersistenceError) result \<times> 'e StagingUnitOfWork" where
  "StagingUnitOfWork_append ty i tenant_id expected_version events st u =
     (case resolve_tenant tenant_id of
        Inl e \<Rightarrow> (Err e, u)
      | Inr tenant \<Rightarrow>
          let key = (ty, i, tenant);
              current = offset_of (uow_version_offsets u) ty i +
                        int (length (stream_at (streams (store_state st)) key)) +
                        int (length (stream_at (staged u) key))
          in if current \<noteq> expected_version
             then (Err (Conflict (joined_id ty i) expected_version current), u)
             else (Ok (current + int (length events)),
                   u\<lparr>staged := (staged u)(key \<mapsto> stream_at (staged u) key @ events)\<rparr>))"

definition StagingUnitOfWork_confirm_receipt ::
  "OperationReceipt \<Rightarrow> 'e InMemoryEventStore \<Rightarrow> 'e StagingUnitOfWork \<Rightarrow>
   (unit, PersistenceError) result \<times> 'e StagingUnitOfWork" where
  "StagingUnitOfWork_confirm_receipt receipt st u =
     (let key = receipt_key receipt
      in case reconcile_receipt (receipts (store_state st) key) receipt of
           Inl e \<Rightarrow> (Err e, u)
         | Inr _ \<Rightarrow>
             (case reconcile_receipt (staged_receipts u key) receipt of
                Inl e \<Rightarrow> (Err e, u)
              | Inr _ \<Rightarrow> (Ok (), u\<lparr>staged_receipts := (staged_receipts u)(key \<mapsto> receipt)\<rparr>)))"

text \<open>The staging maps have distinct keys, so the order in which \<open>commit\<close> visits them is immaterial.\<close>

definition publish_streams ::
  "(StreamKey \<rightharpoonup> 'e StoredEvent list) \<Rightarrow> (StreamKey \<rightharpoonup> 'e StoredEvent list) \<Rightarrow> (StreamKey \<rightharpoonup> 'e StoredEvent list)" where
  "publish_streams new old =
     (\<lambda>key. case new key of None \<Rightarrow> old key | Some events \<Rightarrow> Some (stream_at old key @ events))"

definition StagingUnitOfWork_commit ::
  "'e StagingUnitOfWork \<Rightarrow> 'e InMemoryEventStore \<Rightarrow> (unit, PersistenceError) result \<times> 'e InMemoryEventStore" where
  "StagingUnitOfWork_commit u st =
     (Ok (), st\<lparr>store_state :=
        \<lparr>streams = publish_streams (staged u) (streams (store_state st)),
         receipts = receipts (store_state st) ++ staged_receipts u\<rparr>\<rparr>)"

definition entity_event_store :: "('e InMemoryEventStore, 'e StagingUnitOfWork, 'e) EventStore" where
  "entity_event_store =
     \<lparr>es_append = EventStore_append, es_load = EventStore_load, es_begin = EventStore_begin,
      es_find_receipt = EventStore_find_receipt,
      es_stream_version_offset = EventStore_stream_version_offset,
      uow_append = StagingUnitOfWork_append, uow_confirm_receipt = StagingUnitOfWork_confirm_receipt,
      uow_commit = StagingUnitOfWork_commit\<rparr>"

section \<open>The contract of an event store\<close>

text \<open>
  Seen through \<open>stream\<close>, \<open>receipt\<close> and \<open>base\<close>, what each method does. A unit of work is seen through
  what it has staged. Failures leave what is committed as it was.
\<close>

locale event_store =
  fixes P :: "('s, 'u, 'e) EventStore"
    and stream :: "'s \<Rightarrow> StreamKey \<Rightarrow> 'e StoredEvent list"
    and receipt :: "'s \<Rightarrow> ReceiptKey \<rightharpoonup> OperationReceipt"
    and base :: "'s \<Rightarrow> string \<Rightarrow> string \<Rightarrow> int"
    and pending :: "'u \<Rightarrow> StreamKey \<Rightarrow> 'e StoredEvent list"
    and pending_receipt :: "'u \<Rightarrow> ReceiptKey \<rightharpoonup> OperationReceipt"
    and opened :: "'s \<Rightarrow> 'u \<Rightarrow> bool"
  assumes append_Ok:
      "resolve_tenant t = Ok sc \<Longrightarrow> v = base s ty i + int (length (stream s (ty, i, sc))) \<Longrightarrow>
       \<exists>s'. es_append P ty i t v es s = (Ok (v + int (length es)), s') \<and>
            stream s' = (stream s)((ty, i, sc) := stream s (ty, i, sc) @ es) \<and>
            receipt s' = receipt s \<and> base s' = base s"
    and append_conflict:
      "resolve_tenant t = Ok sc \<Longrightarrow> v \<noteq> base s ty i + int (length (stream s (ty, i, sc))) \<Longrightarrow>
       \<exists>s'. es_append P ty i t v es s =
              (Err (Conflict (joined_id ty i) v (base s ty i + int (length (stream s (ty, i, sc))))), s') \<and>
            stream s' = stream s \<and> receipt s' = receipt s \<and> base s' = base s"
    and append_tenant: "resolve_tenant t = Err e \<Longrightarrow> es_append P ty i t v es s = (Err e, s)"
    and load_tenant: "resolve_tenant t = Err e \<Longrightarrow> es_load P ty i t s = Err e"
    and load_stream:
      "resolve_tenant t = Ok sc \<Longrightarrow>
       es_load P ty i t s = Ok (stream s (ty, i, sc)) \<or>
       stream s (ty, i, sc) = [] \<and> es_load P ty i t s = Err (NotFound (joined_id ty i))"
    and find_receipt:
      "es_find_receipt P ty i t k s =
         (case resolve_tenant t of Inl e \<Rightarrow> Err e | Inr sc \<Rightarrow> Ok (receipt s (ty, i, sc, k)))"
    and offset: "int (es_stream_version_offset P ty i t s) = max 0 (base s ty i)"
    and begin_empty:
      "\<exists>u. es_begin P s = Ok u \<and> opened s u \<and> pending u = (\<lambda>_. []) \<and> pending_receipt u = Map.empty"
    and uow_append_Ok:
      "opened s u \<Longrightarrow> resolve_tenant t = Ok sc \<Longrightarrow>
       v = base s ty i + int (length (stream s (ty, i, sc))) + int (length (pending u (ty, i, sc))) \<Longrightarrow>
       \<exists>u'. uow_append P ty i t v es s u = (Ok (v + int (length es)), u') \<and> opened s u' \<and>
            pending u' = (pending u)((ty, i, sc) := pending u (ty, i, sc) @ es) \<and>
            pending_receipt u' = pending_receipt u"
    and uow_append_conflict:
      "opened s u \<Longrightarrow> resolve_tenant t = Ok sc \<Longrightarrow>
       v \<noteq> base s ty i + int (length (stream s (ty, i, sc))) + int (length (pending u (ty, i, sc))) \<Longrightarrow>
       \<exists>e. uow_append P ty i t v es s u = (Err e, u)"
    and uow_append_tenant: "resolve_tenant t = Err e \<Longrightarrow> uow_append P ty i t v es s u = (Err e, u)"
    and confirm_Ok:
      "opened s u \<Longrightarrow> (\<forall>f. receipt s (receipt_key r) = Some f \<or> pending_receipt u (receipt_key r) = Some f \<longrightarrow>
          or_fingerprint f = or_fingerprint r) \<Longrightarrow>
       \<exists>u'. uow_confirm_receipt P r s u = (Ok (), u') \<and> opened s u' \<and> pending u' = pending u \<and>
            pending_receipt u' = (pending_receipt u)(receipt_key r \<mapsto> r)"
    and confirm_conflict:
      "receipt s (receipt_key r) = Some f \<Longrightarrow> or_fingerprint f \<noteq> or_fingerprint r \<Longrightarrow>
       \<exists>e. uow_confirm_receipt P r s u = (Err e, u)"
    and commit:
      "\<exists>s'. uow_commit P u s = (Ok (), s') \<and>
            stream s' = (\<lambda>k. stream s k @ pending u k) \<and> receipt s' = receipt s ++ pending_receipt u \<and>
            base s' = base s"

section \<open>The in-memory store keeps the contract\<close>

abbreviation entity_stream :: "'e InMemoryEventStore \<Rightarrow> StreamKey \<Rightarrow> 'e StoredEvent list" where
  "entity_stream st \<equiv> stream_at (streams (store_state st))"

abbreviation entity_receipt :: "'e InMemoryEventStore \<Rightarrow> ReceiptKey \<rightharpoonup> OperationReceipt" where
  "entity_receipt st \<equiv> receipts (store_state st)"

abbreviation entity_base :: "'e InMemoryEventStore \<Rightarrow> string \<Rightarrow> string \<Rightarrow> int" where
  "entity_base st \<equiv> offset_of (version_offsets st)"

lemma stream_at_upd [simp]: "stream_at (m(k \<mapsto> es)) = (stream_at m)(k := es)"
  by (auto simp: stream_at_def fun_eq_iff)

lemma stream_at_empty [simp]: "stream_at Map.empty = (\<lambda>_. [])"
  by (simp add: stream_at_def fun_eq_iff)

lemma stream_at_publish [simp]: "stream_at (publish_streams new old) = (\<lambda>k. stream_at old k @ stream_at new k)"
  by (auto simp: publish_streams_def stream_at_def fun_eq_iff split: option.splits)

lemma reconcile_receipt_Ok:
  "reconcile_receipt ex r = Ok () \<longleftrightarrow> (\<forall>f. ex = Some f \<longrightarrow> or_fingerprint f = or_fingerprint r)"
  by (auto simp: reconcile_receipt_def split: option.splits)

lemma reconcile_receipt_cases:
  obtains "reconcile_receipt ex r = Ok ()" | e where "reconcile_receipt ex r = Err e"
  by (cases "reconcile_receipt ex r") auto

lemmas entity_store_defs =
  EventStore_append_def EventStore_load_def EventStore_begin_def EventStore_find_receipt_def
  EventStore_stream_version_offset_def StagingUnitOfWork_append_def StagingUnitOfWork_confirm_receipt_def
  StagingUnitOfWork_commit_def

interpretation entity: event_store entity_event_store entity_stream entity_receipt entity_base
  "\<lambda>u. stream_at (staged u)" staged_receipts "\<lambda>st u. uow_version_offsets u = version_offsets st"
proof (unfold_locales, goal_cases)
  case (5 t sc ty i s)
  then show ?case
    by (auto simp: entity_event_store_def EventStore_load_def stream_at_def split: option.splits)
next
  case (12 s u r)
  then have "reconcile_receipt (receipts (store_state s) (receipt_key r)) r = Ok ()"
      "reconcile_receipt (staged_receipts u (receipt_key r)) r = Ok ()"
    by (auto simp: reconcile_receipt_Ok)
  then show ?case using 12 by (simp add: entity_event_store_def StagingUnitOfWork_confirm_receipt_def)
next
  case (13 s r f u)
  then show ?case
    by (auto simp: entity_event_store_def StagingUnitOfWork_confirm_receipt_def reconcile_receipt_def)
qed (auto simp: entity_event_store_def entity_store_defs Let_def split: sum.splits)

end
