(* ===== verification/Ego_Event_Store_Memory.thy ===== *)
theory Ego_Event_Store_Memory
  imports Ego_Event_Store
begin

text \<open>
  The adapters of \<open>crates/persistence-memory/src/persistence\<close>: a second in-memory event store with
  its unit of work (no version offsets), the tenant-keyed snapshot store, and the repository. The
  event store keeps the same contract, \<open>event_store\<close>.
\<close>

section \<open>Event store\<close>

record 'e MemoryCommitted =
  mem_streams :: "StreamKey \<rightharpoonup> 'e StoredEvent list"
  mem_receipts :: "ReceiptKey \<rightharpoonup> OperationReceipt"

definition MemoryEventStore_new :: "'e MemoryCommitted" where
  "MemoryEventStore_new = \<lparr>mem_streams = Map.empty, mem_receipts = Map.empty\<rparr>"

definition reconcile :: "OperationReceipt option \<Rightarrow> OperationReceipt \<Rightarrow> (unit, PersistenceError) result" where
  "reconcile existing incoming =
     (case existing of
        Some found \<Rightarrow>
          if or_fingerprint found \<noteq> or_fingerprint incoming
          then Err (Conflict (joined_id (or_aggregate_type incoming) (or_aggregate_id incoming)) 0 0)
          else Ok ()
      | None \<Rightarrow> Ok ())"

definition memory_receipt_key :: "OperationReceipt \<Rightarrow> ReceiptKey" where
  "memory_receipt_key r =
     (or_aggregate_type r, or_aggregate_id r, map_option tenant_str (or_tenant r),
      key_str (or_operation_key r))"

definition MemoryEventStore_append ::
  "string \<Rightarrow> string \<Rightarrow> string option \<Rightarrow> int \<Rightarrow> 'e StoredEvent list \<Rightarrow> 'e MemoryCommitted \<Rightarrow>
   (int, PersistenceError) result \<times> 'e MemoryCommitted" where
  "MemoryEventStore_append ty i tenant_id expected_version events st =
     (case resolve_tenant tenant_id of
        Inl e \<Rightarrow> (Err e, st)
      | Inr tenant \<Rightarrow>
          let key = (ty, i, tenant);
              stream = stream_at (mem_streams st) key;
              current = int (length stream)
          in if current \<noteq> expected_version
             then (Err (Conflict (joined_id ty i) expected_version current),
                   st\<lparr>mem_streams := (mem_streams st)(key \<mapsto> stream)\<rparr>)
             else (Ok (current + int (length events)),
                   st\<lparr>mem_streams := (mem_streams st)(key \<mapsto> stream @ events)\<rparr>))"

definition MemoryEventStore_load ::
  "string \<Rightarrow> string \<Rightarrow> string option \<Rightarrow> 'e MemoryCommitted \<Rightarrow> ('e StoredEvent list, PersistenceError) result" where
  "MemoryEventStore_load ty i tenant_id st =
     (case resolve_tenant tenant_id of
        Inl e \<Rightarrow> Err e
      | Inr tenant \<Rightarrow>
          (case mem_streams st (ty, i, tenant) of
             Some events \<Rightarrow> Ok events
           | None \<Rightarrow> Err (NotFound (joined_id ty i))))"

definition MemoryEventStore_list_aggregate_ids ::
  "StreamKey list \<Rightarrow> string option \<Rightarrow> 'e MemoryCommitted \<Rightarrow> ((string \<times> string) list, PersistenceError) result" where
  "MemoryEventStore_list_aggregate_ids order tenant_id st =
     (case resolve_tenant tenant_id of
        Inl e \<Rightarrow> Err e
      | Inr tenant \<Rightarrow>
          Ok (sort (map (\<lambda>(ty, i, _). (ty, i)) (filter (\<lambda>(_, _, t). t = tenant) order))))"

definition MemoryEventStore_find_receipt ::
  "string \<Rightarrow> string \<Rightarrow> string option \<Rightarrow> string \<Rightarrow> 'e MemoryCommitted \<Rightarrow>
   (OperationReceipt option, PersistenceError) result" where
  "MemoryEventStore_find_receipt ty i tenant_id operation_key st =
     (case resolve_tenant tenant_id of
        Inl e \<Rightarrow> Err e
      | Inr tenant \<Rightarrow> Ok (mem_receipts st (ty, i, tenant, operation_key)))"

record 'e MemoryUnitOfWork =
  mem_staged :: "StreamKey \<rightharpoonup> 'e StoredEvent list"
  mem_staged_receipts :: "ReceiptKey \<rightharpoonup> OperationReceipt"

definition MemoryEventStore_begin :: "'e MemoryCommitted \<Rightarrow> ('e MemoryUnitOfWork, PersistenceError) result" where
  "MemoryEventStore_begin st = Ok \<lparr>mem_staged = Map.empty, mem_staged_receipts = Map.empty\<rparr>"

definition MemoryUnitOfWork_append ::
  "string \<Rightarrow> string \<Rightarrow> string option \<Rightarrow> int \<Rightarrow> 'e StoredEvent list \<Rightarrow> 'e MemoryCommitted \<Rightarrow>
   'e MemoryUnitOfWork \<Rightarrow> (int, PersistenceError) result \<times> 'e MemoryUnitOfWork" where
  "MemoryUnitOfWork_append ty i tenant_id expected_version events st u =
     (case resolve_tenant tenant_id of
        Inl e \<Rightarrow> (Err e, u)
      | Inr tenant \<Rightarrow>
          let key = (ty, i, tenant);
              current = int (length (stream_at (mem_streams st) key)) + int (length (stream_at (mem_staged u) key))
          in if current \<noteq> expected_version
             then (Err (Conflict (joined_id ty i) expected_version current), u)
             else (Ok (current + int (length events)),
                   u\<lparr>mem_staged := (mem_staged u)(key \<mapsto> stream_at (mem_staged u) key @ events)\<rparr>))"

definition MemoryUnitOfWork_confirm_receipt ::
  "OperationReceipt \<Rightarrow> 'e MemoryCommitted \<Rightarrow> 'e MemoryUnitOfWork \<Rightarrow>
   (unit, PersistenceError) result \<times> 'e MemoryUnitOfWork" where
  "MemoryUnitOfWork_confirm_receipt receipt st u =
     (let key = memory_receipt_key receipt
      in case reconcile (mem_receipts st key) receipt of
           Inl e \<Rightarrow> (Err e, u)
         | Inr _ \<Rightarrow>
             (case reconcile (mem_staged_receipts u key) receipt of
                Inl e \<Rightarrow> (Err e, u)
              | Inr _ \<Rightarrow> (Ok (), u\<lparr>mem_staged_receipts := (mem_staged_receipts u)(key \<mapsto> receipt)\<rparr>)))"

definition MemoryUnitOfWork_commit ::
  "'e MemoryUnitOfWork \<Rightarrow> 'e MemoryCommitted \<Rightarrow> (unit, PersistenceError) result \<times> 'e MemoryCommitted" where
  "MemoryUnitOfWork_commit u st =
     (Ok (), \<lparr>mem_streams = publish_streams (mem_staged u) (mem_streams st),
              mem_receipts = mem_receipts st ++ mem_staged_receipts u\<rparr>)"

text \<open>The port's default for \<open>stream_version_offset\<close> is zero.\<close>

definition memory_event_store :: "('e MemoryCommitted, 'e MemoryUnitOfWork, 'e) EventStore" where
  "memory_event_store =
     \<lparr>es_append = MemoryEventStore_append, es_load = MemoryEventStore_load, es_begin = MemoryEventStore_begin,
      es_find_receipt = MemoryEventStore_find_receipt, es_stream_version_offset = (\<lambda>_ _ _ _. 0),
      uow_append = MemoryUnitOfWork_append, uow_confirm_receipt = MemoryUnitOfWork_confirm_receipt,
      uow_commit = MemoryUnitOfWork_commit\<rparr>"

lemmas memory_store_defs =
  MemoryEventStore_append_def MemoryEventStore_load_def MemoryEventStore_begin_def
  MemoryEventStore_find_receipt_def MemoryUnitOfWork_append_def MemoryUnitOfWork_confirm_receipt_def
  MemoryUnitOfWork_commit_def

lemma reconcile_Ok:
  "reconcile ex r = Ok () \<longleftrightarrow> (\<forall>f. ex = Some f \<longrightarrow> or_fingerprint f = or_fingerprint r)"
  by (auto simp: reconcile_def split: option.splits)

lemma memory_receipt_key_eq: "memory_receipt_key = receipt_key"
  by (simp add: memory_receipt_key_def receipt_key_def fun_eq_iff)

interpretation memory: event_store memory_event_store "\<lambda>st. stream_at (mem_streams st)" mem_receipts
  "\<lambda>_ _ _. 0" "\<lambda>u. stream_at (mem_staged u)" mem_staged_receipts "\<lambda>_ _. True"
proof (unfold_locales, goal_cases)
  case (5 t sc ty i s)
  then show ?case
    by (auto simp: memory_event_store_def MemoryEventStore_load_def stream_at_def split: option.splits)
next
  case (12 s u r)
  then have "reconcile (mem_receipts s (receipt_key r)) r = Ok ()"
      "reconcile (mem_staged_receipts u (receipt_key r)) r = Ok ()"
    by (auto simp: reconcile_Ok)
  then show ?case
    by (simp add: memory_event_store_def MemoryUnitOfWork_confirm_receipt_def memory_receipt_key_eq)
next
  case (13 s r f u)
  then show ?case
    by (auto simp: memory_event_store_def MemoryUnitOfWork_confirm_receipt_def memory_receipt_key_eq reconcile_def)
qed (auto simp: memory_event_store_def memory_store_defs Let_def split: sum.splits)

section \<open>Snapshots\<close>

type_synonym 'v memory_snapshots = "string \<times> string option \<rightharpoonup> int \<times> 'v"

definition MemorySnapshotStore_new :: "'v memory_snapshots" where
  "MemorySnapshotStore_new = Map.empty"

definition MemorySnapshotStore_save_snapshot ::
  "string \<Rightarrow> string option \<Rightarrow> int \<Rightarrow> 'v \<Rightarrow> 'v memory_snapshots \<Rightarrow>
   (unit, PersistenceError) result \<times> 'v memory_snapshots" where
  "MemorySnapshotStore_save_snapshot i tenant_id version payload m =
     (case resolve_tenant tenant_id of
        Inl e \<Rightarrow> (Err e, m)
      | Inr tenant \<Rightarrow> (Ok (), m((i, tenant) \<mapsto> (version, payload))))"

definition MemorySnapshotStore_load_snapshot ::
  "string \<Rightarrow> string option \<Rightarrow> 'v memory_snapshots \<Rightarrow> ((int \<times> 'v) option, PersistenceError) result" where
  "MemorySnapshotStore_load_snapshot i tenant_id m =
     (case resolve_tenant tenant_id of Inl e \<Rightarrow> Err e | Inr tenant \<Rightarrow> Ok (m (i, tenant)))"

section \<open>Repository\<close>

type_synonym 'a repository = "string \<times> string option \<rightharpoonup> 'a \<times> int"

definition Repository_new :: "'a repository" where
  "Repository_new = Map.empty"

definition Repository_save ::
  "string \<Rightarrow> 'a \<Rightarrow> string option \<Rightarrow> int \<Rightarrow> 'a repository \<Rightarrow> (int, PersistenceError) result \<times> 'a repository" where
  "Repository_save i aggregate tenant_id expected_version m =
     (case resolve_tenant tenant_id of
        Inl e \<Rightarrow> (Err e, m)
      | Inr tenant \<Rightarrow>
          let key = (i, tenant);
              current = (case m key of Some (_, v) \<Rightarrow> v | None \<Rightarrow> 0)
          in if current \<noteq> expected_version then (Err (Conflict i expected_version current), m)
             else (Ok (current + 1), m(key \<mapsto> (aggregate, current + 1))))"

definition Repository_load :: "string \<Rightarrow> string option \<Rightarrow> 'a repository \<Rightarrow> ('a, PersistenceError) result" where
  "Repository_load i tenant_id m =
     (case resolve_tenant tenant_id of
        Inl e \<Rightarrow> Err e
      | Inr tenant \<Rightarrow> (case m (i, tenant) of Some (agg, _) \<Rightarrow> Ok agg | None \<Rightarrow> Err (NotFound i)))"

definition Repository_delete ::
  "string \<Rightarrow> string option \<Rightarrow> 'a repository \<Rightarrow> (unit, PersistenceError) result \<times> 'a repository" where
  "Repository_delete i tenant_id m =
     (case resolve_tenant tenant_id of
        Inl e \<Rightarrow> (Err e, m)
      | Inr tenant \<Rightarrow>
          (case m (i, tenant) of
             Some _ \<Rightarrow> (Ok (), m((i, tenant) := None))
           | None \<Rightarrow> (Err (NotFound i), m)))"

section \<open>Properties\<close>

text \<open>The repository is an optimistic register per aggregate and tenant. A save succeeds exactly
  when the expected version is the current one (zero if absent), is then what a load returns, bumps
  the version by one and touches no other aggregate or tenant; a refused save changes nothing.\<close>

theorem repository_optimistic:
  assumes "resolve_tenant t = Ok sc"
  shows "let current = (case m (i, sc) of Some (_, v) \<Rightarrow> v | None \<Rightarrow> 0);
             (r, m') = Repository_save i a t v m
         in if v = current
            then r = Ok (v + 1) \<and> Repository_load i t m' = Ok a \<and> m' (i, sc) = Some (a, v + 1) \<and>
                 (\<forall>k. k \<noteq> (i, sc) \<longrightarrow> m' k = m k)
            else r = Err (Conflict i v current) \<and> m' = m"
  using assms by (simp add: Repository_save_def Repository_load_def Let_def)

theorem repository_optimistic_witness:
  "Repository_load ''a'' (Some ''t'') (snd (Repository_save ''a'' (7 :: nat) (Some ''t'') 0 Repository_new)) = Ok 7"
  using repository_optimistic [of "Some ''t''" "Some ''t''" Repository_new "''a''" "7 :: nat" 0]
  by (simp add: Repository_new_def Let_def case_prod_beta)

text \<open>Tenants do not share snapshots. In the tenant-keyed store, what one tenant loads depends
  only on what was saved for that tenant and aggregate: a save is read back by its own tenant and
  invisible to every other.\<close>

theorem snapshot_isolated_by_tenant:
  assumes "resolve_tenant t = Ok sc" "resolve_tenant t' = Ok sc'"
  shows "MemorySnapshotStore_load_snapshot i' t' (snd (MemorySnapshotStore_save_snapshot i t v p m)) =
           (if (i', sc') = (i, sc) then Ok (Some (v, p)) else MemorySnapshotStore_load_snapshot i' t' m)"
  using assms by (auto simp: MemorySnapshotStore_load_snapshot_def MemorySnapshotStore_save_snapshot_def)

theorem snapshot_isolated_by_tenant_witness:
  "MemorySnapshotStore_load_snapshot ''a'' (Some ''u'')
     (snd (MemorySnapshotStore_save_snapshot ''a'' (Some ''t'') 3 (5 :: nat) MemorySnapshotStore_new)) = Ok None"
  using snapshot_isolated_by_tenant [of "Some ''t''" "Some ''t''" "Some ''u''" "Some ''u''" "''a''" "''a''" 3 5
      MemorySnapshotStore_new]
  by (simp add: MemorySnapshotStore_load_snapshot_def MemorySnapshotStore_new_def)

end
