(* ===== verification/Ego_Entity_Persistence.thy ===== *)
theory Ego_Entity_Persistence
  imports Ego_Event_Store_Memory
begin

text \<open>
  \<open>PersistenceFacade\<close> (\<open>crates/persistent-entity/src/persistence.rs\<close>), the actor's one way to its
  stores, the no-op stores it falls back to, the actor crate's own snapshot store, and the snapshot
  strategies. The facade renders a store error as a string; the model keeps the error it renders.
  \<open>u64\<close> versions are \<open>nat\<close>, and the casts between \<open>u64\<close> and \<open>i64\<close> are written out where the
  value comes from a store.
\<close>

section \<open>Snapshots and facade\<close>

record ('n, 'v) SnapshotPort =
  snap_save :: "string \<Rightarrow> string option \<Rightarrow> int \<Rightarrow> 'v \<Rightarrow> 'n \<Rightarrow> (unit, PersistenceError) result \<times> 'n"
  snap_load :: "string \<Rightarrow> string option \<Rightarrow> 'n \<Rightarrow> ((int \<times> 'v) option, PersistenceError) result"

record 'v SnapshotData =
  sd_data :: 'v
  sd_version :: nat

record 'e StoredEventRow =
  row_event :: 'e
  row_version :: nat

record ('s, 'u, 'e, 'n, 'v) PersistenceFacade =
  pf_event_store :: "('s, 'u, 'e) EventStore"
  pf_snapshot_store :: "('n, 'v) SnapshotPort"

definition PersistenceFacade_with_stores ::
  "('s, 'u, 'e) EventStore \<Rightarrow> ('n, 'v) SnapshotPort \<Rightarrow> ('s, 'u, 'e, 'n, 'v) PersistenceFacade" where
  "PersistenceFacade_with_stores es ss = \<lparr>pf_event_store = es, pf_snapshot_store = ss\<rparr>"

text \<open>\<open>v as u64\<close> of an \<open>i64\<close>: the value itself, or its two's complement if it is negative.\<close>

definition as_u64 :: "int \<Rightarrow> nat" where
  "as_u64 v = (if 0 \<le> v then nat v else nat (v + 2 ^ 64))"

definition load_for_recovery ::
  "('s, 'u, 'e, 'n, 'v) PersistenceFacade \<Rightarrow> string \<Rightarrow> string \<Rightarrow> string option \<Rightarrow> 's \<Rightarrow> 'n \<Rightarrow>
   ('v SnapshotData option \<times> 'e StoredEventRow list, PersistenceError) result" where
  "load_for_recovery F ty i tenant_id s n =
     (case snap_load (pf_snapshot_store F) (joined_id ty i) tenant_id n of
        Inl e \<Rightarrow> Err e
      | Inr snap \<Rightarrow>
          let snap_data = map_option (\<lambda>(version, data). \<lparr>sd_data = data, sd_version = as_u64 version\<rparr>) snap;
              snap_version = (case snap_data of Some sd \<Rightarrow> sd_version sd | None \<Rightarrow> 0);
              loaded = (case es_load (pf_event_store F) ty i tenant_id s of
                          Inr events \<Rightarrow> Ok events
                        | Inl (NotFound _) \<Rightarrow> Ok []
                        | Inl other \<Rightarrow> Err other)
          in (case loaded of
                Inl e \<Rightarrow> Err e
              | Inr stored \<Rightarrow>
                  let stored_base = es_stream_version_offset (pf_event_store F) ty i tenant_id s;
                      rows = map (\<lambda>(idx, se). \<lparr>row_event = stored_event se, row_version = idx + stored_base + 1\<rparr>)
                               (filter (\<lambda>(idx, _). snap_version \<le> idx + stored_base) (List.enumerate 0 stored))
                  in Ok (snap_data, rows)))"

definition persist_events ::
  "('s, 'u, 'e, 'n, 'v) PersistenceFacade \<Rightarrow> string \<Rightarrow> string \<Rightarrow> string option \<Rightarrow> nat \<Rightarrow> 'e list \<Rightarrow> 's \<Rightarrow>
   (nat, PersistenceError) result \<times> 's" where
  "persist_events F ty i tenant_id version events s =
     (case es_append (pf_event_store F) ty i tenant_id (int version) (map StoredEvent_new events) s of
        (Inl e, s1) \<Rightarrow> (Err e, s1)
      | (Inr new_version, s1) \<Rightarrow> (Ok (as_u64 new_version), s1))"

definition persist_events_with_receipt ::
  "('s, 'u, 'e, 'n, 'v) PersistenceFacade \<Rightarrow> string \<Rightarrow> string \<Rightarrow> string option \<Rightarrow> nat \<Rightarrow> 'e list \<Rightarrow>
   OperationReceipt \<Rightarrow> 's \<Rightarrow> (nat, PersistenceError) result \<times> 's" where
  "persist_events_with_receipt F ty i tenant_id version events receipt s =
     (let P = pf_event_store F; stored = map StoredEvent_new events
      in case es_begin P s of
           Inl e \<Rightarrow> (Err e, s)
         | Inr u0 \<Rightarrow>
             (case (if stored = [] then (Ok (int version), u0)
                    else uow_append P ty i tenant_id (int version) stored s u0) of
                (Inl e, _) \<Rightarrow> (Err e, s)
              | (Inr new_version, u1) \<Rightarrow>
                  (case uow_confirm_receipt P receipt s u1 of
                     (Inl e, _) \<Rightarrow> (Err e, s)
                   | (Inr _, u2) \<Rightarrow>
                       (case uow_commit P u2 s of
                          (Inl e, s1) \<Rightarrow> (Err e, s1)
                        | (Inr _, s1) \<Rightarrow> (Ok (as_u64 new_version), s1)))))"

definition facade_find_receipt ::
  "('s, 'u, 'e, 'n, 'v) PersistenceFacade \<Rightarrow> string \<Rightarrow> string \<Rightarrow> string option \<Rightarrow> string \<Rightarrow> 's \<Rightarrow>
   (OperationReceipt option, PersistenceError) result" where
  "facade_find_receipt F ty i tenant_id operation_key s =
     es_find_receipt (pf_event_store F) ty i tenant_id operation_key s"

definition store_snapshot ::
  "('s, 'u, 'e, 'n, 'v) PersistenceFacade \<Rightarrow> string \<Rightarrow> string option \<Rightarrow> nat \<Rightarrow> 'v \<Rightarrow> 'n \<Rightarrow>
   (unit, PersistenceError) result \<times> 'n" where
  "store_snapshot F entity_id tenant_id version data n =
     snap_save (pf_snapshot_store F) entity_id tenant_id (int version) data n"

section \<open>Fallback stores\<close>

definition noop_event_store :: "(unit, unit, 'e) EventStore" where
  "noop_event_store =
     \<lparr>es_append = (\<lambda>_ _ _ _ _ s. (Ok 0, s)), es_load = (\<lambda>_ _ _ _. Ok []), es_begin = (\<lambda>_. Ok ()),
      es_find_receipt = (\<lambda>_ _ _ _ _. Ok None), es_stream_version_offset = (\<lambda>_ _ _ _. 0),
      uow_append = (\<lambda>_ _ _ expected_version events _ u. (Ok (expected_version + int (length events)), u)),
      uow_confirm_receipt = (\<lambda>_ _ u. (Ok (), u)), uow_commit = (\<lambda>_ s. (Ok (), s))\<rparr>"

definition noop_snapshot_store :: "(unit, 'v) SnapshotPort" where
  "noop_snapshot_store = \<lparr>snap_save = (\<lambda>_ _ _ _ n. (Ok (), n)), snap_load = (\<lambda>_ _ _. Ok None)\<rparr>"

section \<open>The actor crate's snapshot store\<close>

type_synonym 'v entity_snapshots = "string \<rightharpoonup> int \<times> 'v"

definition EntitySnapshotStore_new :: "'v entity_snapshots" where
  "EntitySnapshotStore_new = Map.empty"

definition EntitySnapshotStore_save_snapshot ::
  "string \<Rightarrow> string option \<Rightarrow> int \<Rightarrow> 'v \<Rightarrow> 'v entity_snapshots \<Rightarrow>
   (unit, PersistenceError) result \<times> 'v entity_snapshots" where
  "EntitySnapshotStore_save_snapshot stream_id tenant_id version payload m =
     (Ok (), m(stream_id \<mapsto> (version, payload)))"

definition EntitySnapshotStore_load_snapshot ::
  "string \<Rightarrow> string option \<Rightarrow> 'v entity_snapshots \<Rightarrow> ((int \<times> 'v) option, PersistenceError) result" where
  "EntitySnapshotStore_load_snapshot stream_id tenant_id m = Ok (m stream_id)"

definition entity_snapshot_store :: "('v entity_snapshots, 'v) SnapshotPort" where
  "entity_snapshot_store =
     \<lparr>snap_save = EntitySnapshotStore_save_snapshot, snap_load = EntitySnapshotStore_load_snapshot\<rparr>"

definition memory_snapshot_store :: "('v memory_snapshots, 'v) SnapshotPort" where
  "memory_snapshot_store =
     \<lparr>snap_save = MemorySnapshotStore_save_snapshot, snap_load = MemorySnapshotStore_load_snapshot\<rparr>"

section \<open>Snapshot strategies\<close>

text \<open>\<open>version % 0\<close> panics; the model returns \<open>None\<close> for a panic.\<close>

definition PeriodicSnapshotStrategy_should_take :: "nat \<Rightarrow> nat \<Rightarrow> nat \<Rightarrow> bool option" where
  "PeriodicSnapshotStrategy_should_take events_between_snapshots version event_count =
     Some (events_between_snapshots \<le> event_count)"

definition VersionBasedSnapshotStrategy_should_take :: "nat \<Rightarrow> nat \<Rightarrow> nat \<Rightarrow> bool option" where
  "VersionBasedSnapshotStrategy_should_take version_interval version event_count =
     (if version_interval = 0 then None else Some (version mod version_interval = 0))"

definition NoSnapshot_should_take :: "nat \<Rightarrow> nat \<Rightarrow> bool option" where
  "NoSnapshot_should_take version event_count = Some False"

section \<open>What the facade makes of an event store\<close>

lemma as_u64_int [simp]: "as_u64 (int n) = n"
  by (simp add: as_u64_def)

lemma as_u64_add [simp]: "as_u64 (int m + int n) = m + n"
  using as_u64_int [of "m + n"] by simp

lemma rows_drop:
  "map row_event (map (\<lambda>(idx, se). \<lparr>row_event = stored_event se, row_version = idx + b + 1\<rparr>)
     (filter (\<lambda>(idx, _). k \<le> idx + b) (List.enumerate n es))) =
   map stored_event (drop (k - b - n) es)"
proof (induction es arbitrary: n)
  case (Cons e es)
  show ?case
  proof (cases "k \<le> n + b")
    case True
    then have "k - b - n = 0" "k - b - Suc n = 0" by simp_all
    then show ?thesis using Cons [of "Suc n"] True by simp
  next
    case False
    then have "k - b - n = Suc (k - b - Suc n)" by simp
    then show ?thesis using Cons [of "Suc n"] False by simp
  qed
qed simp

context event_store
begin

text \<open>
  Both ways of persisting, for a command of an actor at \<open>version\<close>: success means exactly these
  events at the end of exactly this stream (and the receipt, where there is one), failure means
  nothing was written.
\<close>

lemma persist_events_cases:
  assumes "resolve_tenant t = Ok sc" "pf_event_store F = P"
  shows "int v = base s ty i + int (length (stream s (ty, i, sc))) \<Longrightarrow>
           \<exists>s'. persist_events F ty i t v es s = (Ok (v + length es), s') \<and>
             stream s' = (stream s)((ty, i, sc) := stream s (ty, i, sc) @ map StoredEvent_new es) \<and>
             receipt s' = receipt s \<and> base s' = base s"
    and "int v \<noteq> base s ty i + int (length (stream s (ty, i, sc))) \<Longrightarrow>
           \<exists>e s'. persist_events F ty i t v es s = (Err e, s') \<and>
             stream s' = stream s \<and> receipt s' = receipt s \<and> base s' = base s"
proof -
  assume v: "int v = base s ty i + int (length (stream s (ty, i, sc)))"
  from append_Ok [OF assms(1) v, of "map StoredEvent_new es"] obtain s'
    where "es_append P ty i t (int v) (map StoredEvent_new es) s = (Ok (int v + int (length es)), s')"
      "stream s' = (stream s)((ty, i, sc) := stream s (ty, i, sc) @ map StoredEvent_new es)"
      "receipt s' = receipt s" "base s' = base s" by auto
  then show "\<exists>s'. persist_events F ty i t v es s = (Ok (v + length es), s') \<and>
       stream s' = (stream s)((ty, i, sc) := stream s (ty, i, sc) @ map StoredEvent_new es) \<and>
       receipt s' = receipt s \<and> base s' = base s"
    by (simp add: persist_events_def assms(2))
next
  assume "int v \<noteq> base s ty i + int (length (stream s (ty, i, sc)))"
  from append_conflict [OF assms(1) this, of "map StoredEvent_new es"]
  show "\<exists>e s'. persist_events F ty i t v es s = (Err e, s') \<and>
       stream s' = stream s \<and> receipt s' = receipt s \<and> base s' = base s"
    by (auto simp: persist_events_def assms(2))
qed

lemma persist_with_receipt_Ok:
  assumes "resolve_tenant t = Ok sc" "pf_event_store F = P"
    and "es = [] \<or> int v = base s ty i + int (length (stream s (ty, i, sc)))"
    and "\<And>f. receipt s (receipt_key r) = Some f \<Longrightarrow> or_fingerprint f = or_fingerprint r"
  shows "\<exists>s'. persist_events_with_receipt F ty i t v es r s = (Ok (v + length es), s') \<and>
           stream s' = (stream s)((ty, i, sc) := stream s (ty, i, sc) @ map StoredEvent_new es) \<and>
           receipt s' = (receipt s)(receipt_key r \<mapsto> r) \<and> base s' = base s"
proof -
  obtain u0 where u0: "es_begin P s = Ok u0" "opened s u0" "pending u0 = (\<lambda>_. [])" "pending_receipt u0 = Map.empty"
    using begin_empty by blast
  let ?es = "map StoredEvent_new es"
  obtain u1 where u1: "(if ?es = [] then (Ok (int v), u0) else uow_append P ty i t (int v) ?es s u0) =
        (Ok (int v + int (length es)), u1)" "opened s u1"
      "pending u1 = (\<lambda>_. [])((ty, i, sc) := ?es)" "pending_receipt u1 = Map.empty"
  proof (cases "es = []")
    case True
    then show ?thesis using u0 that [of u0] by (simp add: fun_upd_idem)
  next
    case False
    then show ?thesis
      using uow_append_Ok [OF u0(2) assms(1), of "int v" ty i ?es] u0 assms(3) that by auto
  qed
  have "\<forall>f. receipt s (receipt_key r) = Some f \<or> pending_receipt u1 (receipt_key r) = Some f \<longrightarrow>
      or_fingerprint f = or_fingerprint r"
    using assms(4) u1(4) by simp
  from confirm_Ok [OF u1(2) this] obtain u2 where u2: "uow_confirm_receipt P r s u1 = (Ok (), u2)"
      "pending u2 = pending u1" "pending_receipt u2 = (pending_receipt u1)(receipt_key r \<mapsto> r)" by blast
  from commit [of u2 s] obtain s' where s': "uow_commit P u2 s = (Ok (), s')"
      "stream s' = (\<lambda>k. stream s k @ pending u2 k)" "receipt s' = receipt s ++ pending_receipt u2" "base s' = base s"
    by blast
  have "stream s' = (stream s)((ty, i, sc) := stream s (ty, i, sc) @ ?es)"
    unfolding s'(2) u2(2) u1(3) by (simp add: fun_eq_iff)
  moreover have "receipt s' = (receipt s)(receipt_key r \<mapsto> r)"
    unfolding s'(3) u2(3) u1(4) by simp
  moreover have "persist_events_with_receipt F ty i t v es r s = (Ok (v + length es), s')"
    unfolding persist_events_with_receipt_def Let_def assms(2) u0(1) sum.case u1(1) prod.case u2(1) s'(1)
    by (simp add: as_u64_add)
  ultimately show ?thesis using s'(4) by blast
qed

lemma persist_with_receipt_Err:
  assumes "pf_event_store F = P" "persist_events_with_receipt F ty i t v es r s = (Err e, s')"
  shows "s' = s"
proof -
  have "fst (uow_commit P u s) = Ok ()" for u using commit [of u s] by auto
  then show ?thesis using assms
    by (auto simp: persist_events_with_receipt_def Let_def
        split: sum.splits prod.splits if_splits dest: arg_cong [where f = fst])
qed

lemma persist_with_receipt_refused:
  assumes "resolve_tenant t = Ok sc" "pf_event_store F = P"
    and "\<not> ((es = [] \<or> int v = base s ty i + int (length (stream s (ty, i, sc)))) \<and>
            (\<forall>f. receipt s (receipt_key r) = Some f \<longrightarrow> or_fingerprint f = or_fingerprint r))"
  shows "\<exists>e. persist_events_with_receipt F ty i t v es r s = (Err e, s)"
proof -
  obtain u0 where u0: "es_begin P s = Ok u0" "opened s u0" "pending u0 = (\<lambda>_. [])" using begin_empty by blast
  let ?es = "map StoredEvent_new es"
  obtain w u1 where w: "(if ?es = [] then (Ok (int v), u0) else uow_append P ty i t (int v) ?es s u0) = (w, u1)"
    by fastforce
  show ?thesis
  proof (cases w)
    case (Inl e)
    then show ?thesis
      unfolding persist_events_with_receipt_def Let_def assms(2) u0(1) sum.case w prod.case by simp
  next
    case (Inr nv)
    then have "es = [] \<or> int v = base s ty i + int (length (stream s (ty, i, sc)))"
      using uow_append_conflict [OF u0(2) assms(1), of "int v" ty i ?es] u0(3) w by (auto split: if_splits)
    then obtain f where "receipt s (receipt_key r) = Some f" "or_fingerprint f \<noteq> or_fingerprint r"
      using assms(3) by blast
    from confirm_conflict [OF this, of u1] obtain e where c: "uow_confirm_receipt P r s u1 = (Err e, u1)" ..
    show ?thesis
      unfolding persist_events_with_receipt_def Let_def assms(2) u0(1) sum.case w prod.case Inr c by simp
  qed
qed

end

section \<open>Properties\<close>

text \<open>Events and receipt are one write. Persisting a command's events with its receipt either
  appends all the events to the stream of that aggregate and tenant and files the receipt, or writes
  nothing at all. It succeeds exactly when the actor's version is the stream's (or there are no events
  to write) and no receipt with another fingerprint is filed under the same key.\<close>

theorem receipt_and_events_atomic:
  assumes "resolve_tenant t = Ok sc"
  shows "let F = PersistenceFacade_with_stores entity_event_store ss;
             current = entity_base s ty i + int (length (entity_stream s (ty, i, sc)));
             (r, s') = persist_events_with_receipt F ty i t v es rc s
         in if (es = [] \<or> int v = current) \<and>
               (\<forall>f. entity_receipt s (receipt_key rc) = Some f \<longrightarrow> or_fingerprint f = or_fingerprint rc)
            then r = Ok (v + length es) \<and>
                 entity_stream s' = (entity_stream s)((ty, i, sc) := entity_stream s (ty, i, sc) @ map StoredEvent_new es) \<and>
                 entity_receipt s' = (entity_receipt s)(receipt_key rc \<mapsto> rc)
            else (\<exists>e. r = Err e) \<and> s' = s"
proof -
  let ?F = "PersistenceFacade_with_stores entity_event_store ss"
  have F: "pf_event_store ?F = entity_event_store" by (simp add: PersistenceFacade_with_stores_def)
  show ?thesis
    using entity.persist_with_receipt_Ok [OF assms F, of es v s ty i rc]
      entity.persist_with_receipt_refused [OF assms F, of es v s ty i rc]
    unfolding Let_def by (auto simp: case_prod_beta)
qed

theorem receipt_and_events_atomic_witness:
  "let rc = OperationReceipt_new ''order'' ''1'' (Some (TenantId ''acme'')) (OperationKey ''k'')
              (OperationFingerprint ''f'') (Events 1 1);
       s' = snd (persist_events_with_receipt
                   (PersistenceFacade_with_stores entity_event_store
                      (entity_snapshot_store :: (nat entity_snapshots, nat) SnapshotPort))
                   ''order'' ''1'' (Some ''acme'') 0 [True] rc EventStore_new)
   in entity_receipt s' (''order'', ''1'', Some ''acme'', ''k'') = Some rc \<and>
      length (entity_stream s' (''order'', ''1'', Some ''acme'')) = 1"
  using receipt_and_events_atomic [of "Some ''acme''" "Some ''acme''"
      "entity_snapshot_store :: (nat entity_snapshots, nat) SnapshotPort" EventStore_new "''order''"
      "''1''" 0 "[True]" "OperationReceipt_new ''order'' ''1'' (Some (TenantId ''acme'')) (OperationKey ''k'')
              (OperationFingerprint ''f'') (Events 1 1)"]
  by (simp add: Let_def case_prod_beta EventStore_new_def Committed_default_def offset_of_def
      OperationReceipt_new_def receipt_key_def)

text \<open>Units of work do not exclude each other. Two units of work opened on the same stream at the
  same expected version both commit: \<open>append\<close> compares the version when it is called, \<open>commit\<close> does
  not compare again. The second commit appends after the first although its expected version has
  passed, and its receipt replaces a receipt with another fingerprint.\<close>

theorem interleaved_units_of_work_both_commit:
  "let st = MemoryEventStore_new;
       rc = (\<lambda>f. OperationReceipt_new ''order'' ''1'' (Some (TenantId ''acme'')) (OperationKey ''k'')
                   (OperationFingerprint f) (Events 1 1));
       work = (\<lambda>e f. case MemoryEventStore_begin st of
                 Inr u \<Rightarrow> snd (MemoryUnitOfWork_confirm_receipt (rc f) st
                   (snd (MemoryUnitOfWork_append ''order'' ''1'' (Some ''acme'') 0 [StoredEvent_new e] st u))));
       st1 = snd (MemoryUnitOfWork_commit (work True ''f'') st);
       (r2, st2) = MemoryUnitOfWork_commit (work False ''g'') st1
   in r2 = Ok () \<and>
      MemoryEventStore_load ''order'' ''1'' (Some ''acme'') st2 = Ok [StoredEvent_new True, StoredEvent_new False] \<and>
      mem_receipts st1 (''order'', ''1'', Some ''acme'', ''k'') = Some (rc ''f'') \<and>
      mem_receipts st2 (''order'', ''1'', Some ''acme'', ''k'') = Some (rc ''g'')"
  by (simp add: Let_def memory_store_defs MemoryEventStore_new_def memory_receipt_key_def reconcile_def
      OperationReceipt_new_def publish_streams_def stream_at_def)

end
