(* ===== verification/Ego_Entity_Actor.thy ===== *)
theory Ego_Entity_Actor
  imports Ego_Entity_Persistence Ego_Effect
begin

text \<open>
  The persistent entity actor (\<open>crates/persistent-entity/src/actor.rs\<close>) with its lifecycle
  (\<open>lifecycle.rs\<close>), identity (\<open>scheduler.rs\<close>), command context, results and errors.

  The handler is user code: a record of functions. JSON (de)serialisation of the state is
  \<open>serde_json\<close>'s and two more functions of that record. Publisher, effect acceptor, scheduler bus,
  registry and metrics act on a world \<open>'w\<close>. Errors carry the error they render instead of the rendered text.
\<close>

section \<open>Lifecycle and errors\<close>

datatype EntityState = Recovering | Active | Passivating | Passivated | Failed

datatype EntityError =
    EntityNotFound
  | EntityAlreadyActive
  | EntityNotActive
  | PersistenceFailure message
  | EventPublishingError message
  | SnapshottingError message
  | RecoveryError message
  | InternalError message
  | OperationConflict string
  | VersionConflict nat nat
  | MailboxClosed
  and message = Text string | FromStore PersistenceError | FromEntity EntityError

text \<open>\<open>LifecycleStateMachine\<close> is its \<open>current_state\<close>.\<close>

definition LifecycleStateMachine_new :: EntityState where
  "LifecycleStateMachine_new = Recovering"

fun transition_to :: "EntityState \<Rightarrow> EntityState \<Rightarrow> (unit, EntityError) result \<times> EntityState" where
  "transition_to Recovering Active = (Ok (), Active)"
| "transition_to Active Passivating = (Ok (), Passivating)"
| "transition_to Passivating Passivated = (Ok (), Passivated)"
| "transition_to Passivated Active = (Ok (), Active)"
| "transition_to current Failed = (Ok (), Failed)"
| "transition_to current state = (Err (InternalError (Text ''Invalid state transition'')), current)"

definition is_active :: "EntityState \<Rightarrow> bool" where
  "is_active s = (s = Active)"

definition is_passivated :: "EntityState \<Rightarrow> bool" where
  "is_passivated s = (s = Passivated)"

definition is_recoverable :: "EntityState \<Rightarrow> bool" where
  "is_recoverable s = (s = Recovering \<or> s = Passivated)"

lemma transition_to_Failed [simp]: "transition_to s Failed = (Ok (), Failed)"
  by (cases s) simp_all

section \<open>Identity, commands and results\<close>

record EntityTriple =
  et_tenant_id :: string
  et_entity_type :: string
  et_entity_id :: string

definition aggregate_id :: "EntityTriple \<Rightarrow> string" where
  "aggregate_id t = joined_id (et_entity_type t) (et_entity_id t)"

record CommandContext =
  cc_tenant_id :: "string option"
  cc_entity_type :: string
  cc_entity_id :: string
  cc_expected_version :: "nat option"
  cc_causation_id :: "string option"
  cc_metadata :: "string \<rightharpoonup> string"
  cc_identity :: "OperationIdentity option"

definition CommandContext_new :: "string \<Rightarrow> CommandContext" where
  "CommandContext_new ty =
     \<lparr>cc_tenant_id = None, cc_entity_type = ty, cc_entity_id = [], cc_expected_version = None,
      cc_causation_id = None, cc_metadata = Map.empty, cc_identity = None\<rparr>"

definition carrying :: "OperationIdentity option \<Rightarrow> CommandContext \<Rightarrow> CommandContext" where
  "carrying i c = c\<lparr>cc_identity := i\<rparr>"

datatype EffectAcceptanceError =
  RetriesExhausted string nat IdempotencyKey
| Permanent string nat IdempotencyKey

datatype ('e, 'st) CommandResult =
  CommandEvents 'st "'e list"
| CommandNoEvents 'st
| CommandReplayed AggregateOutcome
| CommandEffectsAcceptanceFailed 'st "'e list" EffectAcceptanceError

datatype SchedulerEvent =
  SlotFreed
| CommandArrived EntityTriple
| CircuitBreakerExpired EntityTriple
| ExecutionCompleted EntityTriple nat
| EntityStateUpdated EntityTriple nat
| RecoveryCompleted EntityTriple nat

record ('c, 'e, 'st, 'v) PersistentEntity =
  initial_state :: 'st
  handle_command :: "'c \<Rightarrow> 'st \<Rightarrow> CommandContext \<Rightarrow> ('e list, EntityError) result"
  apply_events :: "'st \<Rightarrow> 'e list \<Rightarrow> ('st, EntityError) result"
  external_effects :: "'c \<Rightarrow> 'st \<Rightarrow> 'e list \<Rightarrow> CommandContext \<Rightarrow> ExternalEffectDescription list"
  to_value :: "'st \<Rightarrow> 'v option"
  from_value :: "'v \<Rightarrow> 'st option"
  null_value :: 'v

record ('e, 'w) actor_env =
  env_publish :: "'e list \<Rightarrow> 'w \<Rightarrow> 'w"
  env_acceptor :: "(TenantId \<Rightarrow> ExternalEffectDescription list \<Rightarrow> 'w \<Rightarrow> (unit, EffectAcceptanceError) result \<times> 'w) option"
  env_emit :: "SchedulerEvent \<Rightarrow> 'w \<Rightarrow> 'w"
  env_counter :: "string \<Rightarrow> 'w \<Rightarrow> 'w"
  env_should_snapshot :: "nat \<Rightarrow> nat \<Rightarrow> (bool, EntityError) result"
  env_mark_passivated :: "EntityTriple \<Rightarrow> nat \<Rightarrow> 'w \<Rightarrow> 'w"

record 'st EntityActor =
  actor_entity :: EntityTriple
  actor_state :: "'st option"
  actor_version :: nat
  actor_lifecycle :: EntityState

record ('s, 'n, 'w) actor_world =
  aw_events :: 's
  aw_snapshots :: 'n
  aw_env :: 'w

type_synonym ('st, 's, 'n, 'w) actor_config = "'st EntityActor \<times> ('s, 'n, 'w) actor_world"
type_synonym ('e, 'st) reply = "(('e, 'st) CommandResult, EntityError) result"

definition transition :: "EntityState \<Rightarrow> 'st EntityActor \<Rightarrow> 'st EntityActor" where
  "transition state a = a\<lparr>actor_lifecycle := snd (transition_to (actor_lifecycle a) state)\<rparr>"

abbreviation on_env :: "('w \<Rightarrow> 'w) \<Rightarrow> ('s, 'n, 'w) actor_world \<Rightarrow> ('s, 'n, 'w) actor_world" where
  "on_env f w \<equiv> w\<lparr>aw_env := f (aw_env w)\<rparr>"

section \<open>Recovery\<close>

definition rebuild_state_from_persistence ::
  "('c, 'e, 'st, 'v) PersistentEntity \<Rightarrow> ('s, 'u, 'e, 'n, 'v) PersistenceFacade \<Rightarrow> EntityTriple \<Rightarrow>
   's \<Rightarrow> 'n \<Rightarrow> ('st \<times> nat, message) result" where
  "rebuild_state_from_persistence H F t s n =
     (case load_for_recovery F (et_entity_type t) (et_entity_id t) (Some (et_tenant_id t)) s n of
        Inl e \<Rightarrow> Err (FromStore e)
      | Inr (snap_data, stored_events) \<Rightarrow>
          let (state, snap_version) =
                (case snap_data of
                   Some snap \<Rightarrow>
                     ((case from_value H (sd_data snap) of Some st \<Rightarrow> st | None \<Rightarrow> initial_state H), sd_version snap)
                 | None \<Rightarrow> (initial_state H, 0))
          in if stored_events = [] then Ok (state, snap_version)
             else (case apply_events H state (map row_event stored_events) of
                     Inl e \<Rightarrow> Err (FromEntity e)
                   | Inr new_state \<Rightarrow> Ok (new_state, snap_version + length stored_events)))"

definition recover_state ::
  "('c, 'e, 'st, 'v) PersistentEntity \<Rightarrow> ('s, 'u, 'e, 'n, 'v) PersistenceFacade \<Rightarrow> ('e, 'w) actor_env \<Rightarrow>
   ('st, 's, 'n, 'w) actor_config \<Rightarrow> ('st, 's, 'n, 'w) actor_config" where
  "recover_state H F N = (\<lambda>(a, w).
     case rebuild_state_from_persistence H F (actor_entity a) (aw_events w) (aw_snapshots w) of
       Inr (state, version) \<Rightarrow>
         (transition Active (a\<lparr>actor_state := Some state, actor_version := version\<rparr>),
          on_env (env_emit N (RecoveryCompleted (actor_entity a) version)) w)
     | Inl _ \<Rightarrow> (transition Failed a, w))"

section \<open>Executing a command\<close>

text \<open>A snapshot of \<open>state\<close> at \<open>version\<close>; a state that does not serialise is stored as \<open>null\<close>.\<close>

definition take_snapshot ::
  "('c, 'e, 'st, 'v) PersistentEntity \<Rightarrow> ('s, 'u, 'e, 'n, 'v) PersistenceFacade \<Rightarrow> EntityTriple \<Rightarrow> nat \<Rightarrow> 'st \<Rightarrow>
   ('s, 'n, 'w) actor_world \<Rightarrow> ('s, 'n, 'w) actor_world" where
  "take_snapshot H F t version state w =
     w\<lparr>aw_snapshots := snd (store_snapshot F (aggregate_id t) (Some (et_tenant_id t)) version
         (case to_value H state of Some v \<Rightarrow> v | None \<Rightarrow> null_value H) (aw_snapshots w))\<rparr>"

text \<open>The acceptance of the effects a committed command describes.\<close>

definition accept_effects ::
  "('e, 'w) actor_env \<Rightarrow> EntityTriple \<Rightarrow> ExternalEffectDescription list \<Rightarrow> 'w \<Rightarrow>
   (unit, EffectAcceptanceError) result \<times> 'w" where
  "accept_effects N t described w =
     (let first_key = ed_idempotency_key (hd described)
      in case env_acceptor N of
           Some acceptor \<Rightarrow>
             (case TenantId_new (et_tenant_id t) of
                Inr tenant \<Rightarrow> acceptor tenant described w
              | Inl _ \<Rightarrow> (Err (Permanent ''invalid tenant identity for effect acceptance'' 0 first_key), w))
         | None \<Rightarrow>
             (Err (Permanent ''external effects were described but no EffectAcceptor is configured'' 0 first_key), w))"

text \<open>What follows a successful append: apply, announce, snapshot, publish, accept effects, reply.\<close>

definition after_commit ::
  "('c, 'e, 'st, 'v) PersistentEntity \<Rightarrow> ('s, 'u, 'e, 'n, 'v) PersistenceFacade \<Rightarrow> ('e, 'w) actor_env \<Rightarrow>
   'c \<Rightarrow> CommandContext \<Rightarrow> bool \<Rightarrow> 'st \<Rightarrow> 'e list \<Rightarrow> nat \<Rightarrow> ('st, 's, 'n, 'w) actor_config \<Rightarrow>
   ('e, 'st) reply \<times> ('st, 's, 'n, 'w) actor_config" where
  "after_commit H F N command context confirms current_state events new_version = (\<lambda>(a, w).
     let t = actor_entity a;
         w1 = (if confirms then on_env (env_counter N ''confirmed'') w else w)
     in case apply_events H current_state events of
          Inl e \<Rightarrow> (Err (PersistenceFailure (FromEntity e)), (transition Failed a, w1))
        | Inr state \<Rightarrow>
            let a1 = a\<lparr>actor_state := Some state, actor_version := new_version\<rparr>;
                w2 = on_env (env_emit N (ExecutionCompleted t new_version)) w1;
                w3 = on_env (env_emit N (EntityStateUpdated t new_version)) w2;
                should_snapshot = (case env_should_snapshot N new_version (length events) of Inr b \<Rightarrow> b | Inl _ \<Rightarrow> False);
                w4 = (if should_snapshot then take_snapshot H F t new_version state w3 else w3);
                w5 = on_env (env_publish N events) w4;
                described = external_effects H command state events context
            in if described = [] then (Ok (CommandEvents state events), (a1, w5))
               else (case accept_effects N t described (aw_env w5) of
                       (Inr _, e6) \<Rightarrow> (Ok (CommandEvents state events), (a1, w5\<lparr>aw_env := e6\<rparr>))
                     | (Inl err, e6) \<Rightarrow>
                         (Ok (CommandEffectsAcceptanceFailed state events err), (a1, w5\<lparr>aw_env := e6\<rparr>))))"

definition receipt_for :: "EntityTriple \<Rightarrow> OperationIdentity \<Rightarrow> AggregateOutcome \<Rightarrow> OperationReceipt" where
  "receipt_for t identity outcome =
     OperationReceipt_new (et_entity_type t) (et_entity_id t)
       (case TenantId_new (et_tenant_id t) of Inr tenant \<Rightarrow> Some tenant | Inl _ \<Rightarrow> None)
       (oi_key identity) (oi_fingerprint identity) outcome"

text \<open>A command whose handler emitted no events: confirm a receipt if it has an identity.\<close>

definition commit_no_events ::
  "('s, 'u, 'e, 'n, 'v) PersistenceFacade \<Rightarrow> ('e, 'w) actor_env \<Rightarrow> CommandContext \<Rightarrow> 'st \<Rightarrow>
   ('st, 's, 'n, 'w) actor_config \<Rightarrow> ('e, 'st) reply \<times> ('st, 's, 'n, 'w) actor_config" where
  "commit_no_events F N context current_state = (\<lambda>(a, w).
     let t = actor_entity a
     in case cc_identity context of
          None \<Rightarrow> (Ok (CommandNoEvents current_state), (a, w))
        | Some identity \<Rightarrow>
            (case persist_events_with_receipt F (et_entity_type t) (et_entity_id t) (Some (et_tenant_id t))
                    (actor_version a) [] (receipt_for t identity NoEvents) (aw_events w) of
               (Inl e, s1) \<Rightarrow> (Err (PersistenceFailure (FromStore e)), (a, w\<lparr>aw_events := s1\<rparr>))
             | (Inr _, s1) \<Rightarrow>
                 (Ok (CommandNoEvents current_state),
                  (a, on_env (env_counter N ''confirmed'') (w\<lparr>aw_events := s1\<rparr>)))))"

text \<open>
  A command whose handler emitted events: persist them, with a receipt if it has an identity. The
  version range of the receipt can be neither empty nor inverted here, and \<open>version + 1\<close> does not
  underflow; the branches for it are the code's.
\<close>

definition commit_events ::
  "('c, 'e, 'st, 'v) PersistentEntity \<Rightarrow> ('s, 'u, 'e, 'n, 'v) PersistenceFacade \<Rightarrow> ('e, 'w) actor_env \<Rightarrow>
   'c \<Rightarrow> CommandContext \<Rightarrow> 'st \<Rightarrow> 'e list \<Rightarrow> ('st, 's, 'n, 'w) actor_config \<Rightarrow>
   ('e, 'st) reply \<times> ('st, 's, 'n, 'w) actor_config" where
  "commit_events H F N command context current_state events = (\<lambda>(a, w).
     let t = actor_entity a; v = actor_version a;
         persisted = (\<lambda>(r, s1).
           case r of
             Inr new_version \<Rightarrow>
               after_commit H F N command context (cc_identity context \<noteq> None) current_state events new_version
                 (a, w\<lparr>aw_events := s1\<rparr>)
           | Inl e \<Rightarrow> (Err (PersistenceFailure (FromStore e)), (transition Failed a, w\<lparr>aw_events := s1\<rparr>)))
     in case cc_identity context of
          None \<Rightarrow>
            persisted (persist_events F (et_entity_type t) (et_entity_id t) (Some (et_tenant_id t)) v events (aw_events w))
        | Some identity \<Rightarrow>
            (case AggregateOutcome_events (int v + 1) (int v + int (length events)) of
               Some (Inr outcome) \<Rightarrow>
                 persisted (persist_events_with_receipt F (et_entity_type t) (et_entity_id t)
                   (Some (et_tenant_id t)) v events (receipt_for t identity outcome) (aw_events w))
             | _ \<Rightarrow> (Err (InternalError (Text ''the appended version range is not encodable'')), (a, w))))"

definition execute_command ::
  "('c, 'e, 'st, 'v) PersistentEntity \<Rightarrow> ('s, 'u, 'e, 'n, 'v) PersistenceFacade \<Rightarrow> ('e, 'w) actor_env \<Rightarrow>
   'c \<Rightarrow> CommandContext \<Rightarrow> ('st, 's, 'n, 'w) actor_config \<Rightarrow>
   ('e, 'st) reply \<times> ('st, 's, 'n, 'w) actor_config" where
  "execute_command H F N command context = (\<lambda>(a, w).
     case actor_state a of
       None \<Rightarrow> (Err EntityNotActive, (a, w))
     | Some current_state \<Rightarrow>
         let t = actor_entity a;
             dispatch = (case handle_command H command current_state context of
                           Inl e \<Rightarrow> (Err (InternalError (FromEntity e)), (a, w))
                         | Inr events \<Rightarrow>
                             if events = [] then commit_no_events F N context current_state (a, w)
                             else commit_events H F N command context current_state events (a, w))
         in case cc_identity context of
              None \<Rightarrow> dispatch
            | Some identity \<Rightarrow>
                (case facade_find_receipt F (et_entity_type t) (et_entity_id t) (Some (et_tenant_id t))
                        (key_str (oi_key identity)) (aw_events w) of
                   Inl e \<Rightarrow> (Err (PersistenceFailure (FromStore e)), (a, w))
                 | Inr None \<Rightarrow> dispatch
                 | Inr (Some receipt) \<Rightarrow>
                     if or_fingerprint receipt = oi_fingerprint identity
                     then (Ok (CommandReplayed (or_outcome receipt)), (a, on_env (env_counter N ''already_applied'') w))
                     else (Err (OperationConflict (key_str (oi_key identity))),
                           (a, on_env (env_counter N ''conflict'') w))))"

section \<open>The actor's loop\<close>

text \<open>
  The branches the \<open>select!\<close> of \<open>process_commands\<close> takes are its input, in order. The result lists the
  replies sent, in order; a list that ends early means the actor is still waiting.
\<close>

datatype 'c select_arm = Received 'c CommandContext | RecvError | PassivationSignal

fun process_commands ::
  "('c, 'e, 'st, 'v) PersistentEntity \<Rightarrow> ('s, 'u, 'e, 'n, 'v) PersistenceFacade \<Rightarrow> ('e, 'w) actor_env \<Rightarrow>
   'c select_arm list \<Rightarrow> ('st, 's, 'n, 'w) actor_config \<Rightarrow>
   ('e, 'st) reply list \<times> ('st, 's, 'n, 'w) actor_config" where
  "process_commands H F N [] cfg = ([], cfg)"
| "process_commands H F N (Received command context # arms) cfg =
     (let (r, cfg1) = execute_command H F N command context cfg
      in if \<not> is_active (actor_lifecycle (fst cfg1)) then ([r], cfg1)
         else (let (rs, cfg2) = process_commands H F N arms cfg1 in (r # rs, cfg2)))"
| "process_commands H F N (RecvError # arms) cfg = ([], cfg)"
| "process_commands H F N (PassivationSignal # arms) cfg = ([], cfg)"

text \<open>Every command still in the closed mailbox is answered with the error.\<close>

definition drain_mailbox_with_error :: "EntityError \<Rightarrow> ('c \<times> CommandContext) list \<Rightarrow> ('e, 'st) reply list" where
  "drain_mailbox_with_error err mailbox = map (\<lambda>_. Err err) mailbox"

fun drain_commands ::
  "('c, 'e, 'st, 'v) PersistentEntity \<Rightarrow> ('s, 'u, 'e, 'n, 'v) PersistenceFacade \<Rightarrow> ('e, 'w) actor_env \<Rightarrow>
   ('c \<times> CommandContext) list \<Rightarrow> ('st, 's, 'n, 'w) actor_config \<Rightarrow>
   ('e, 'st) reply list \<times> ('st, 's, 'n, 'w) actor_config" where
  "drain_commands H F N [] cfg = ([], cfg)"
| "drain_commands H F N ((command, context) # mailbox) cfg =
     (let (r, cfg1) = execute_command H F N command context cfg
      in if actor_lifecycle (fst cfg1) = Failed
         then (r # drain_mailbox_with_error
                     (PersistenceFailure (Text ''actor failed during passivation drain'')) mailbox, cfg1)
         else (let (rs, cfg2) = drain_commands H F N mailbox cfg1 in (r # rs, cfg2)))"

definition passivate ::
  "('c, 'e, 'st, 'v) PersistentEntity \<Rightarrow> ('s, 'u, 'e, 'n, 'v) PersistenceFacade \<Rightarrow> ('e, 'w) actor_env \<Rightarrow>
   ('c \<times> CommandContext) list \<Rightarrow> ('st, 's, 'n, 'w) actor_config \<Rightarrow>
   ('e, 'st) reply list \<times> ('st, 's, 'n, 'w) actor_config" where
  "passivate H F N mailbox cfg =
     (let (rs, (a, w)) = drain_commands H F N mailbox cfg;
          mark = on_env (env_mark_passivated N (actor_entity a) (actor_version a))
      in if mailbox \<noteq> [] \<and> actor_lifecycle a = Failed then (rs, (a, mark w))
         else (let a1 = transition Passivating a;
                   w1 = (case actor_state a of
                           Some state \<Rightarrow> take_snapshot H F (actor_entity a) (actor_version a) state w
                         | None \<Rightarrow> w)
               in (rs, (transition Passivated a1, mark w1))))"

text \<open>\<open>mailbox\<close> is what the mailbox holds when the actor closes it.\<close>

definition run ::
  "('c, 'e, 'st, 'v) PersistentEntity \<Rightarrow> ('s, 'u, 'e, 'n, 'v) PersistenceFacade \<Rightarrow> ('e, 'w) actor_env \<Rightarrow>
   'c select_arm list \<Rightarrow> ('c \<times> CommandContext) list \<Rightarrow> ('st, 's, 'n, 'w) actor_config \<Rightarrow>
   ('e, 'st) reply list \<times> ('st, 's, 'n, 'w) actor_config" where
  "run H F N arms mailbox cfg =
     (let cfg1 = recover_state H F N cfg
      in if actor_lifecycle (fst cfg1) = Failed
         then (drain_mailbox_with_error EntityNotActive mailbox, cfg1)
         else (let (rs, cfg2) = process_commands H F N arms cfg1
               in if actor_lifecycle (fst cfg2) = Failed
                  then (rs @ drain_mailbox_with_error
                          (PersistenceFailure (Text ''actor entered failed state during command processing'')) mailbox, cfg2)
                  else (let (rs', cfg3) = passivate H F N mailbox cfg2 in (rs @ rs', cfg3))))"

end
