(* ===== verification/Ego_Effect_Acceptor.thy ===== *)
theory Ego_Effect_Acceptor
  imports Ego_Effect_System Ego_Entity_Actor "HOL-Library.Multiset"
begin

text \<open>
  \<open>RuntimeEffectAcceptor\<close> (\<open>crates/runtime/src/effects/acceptor.rs\<close>) and the admission queue
  (\<open>queue.rs\<close>): concurrent \<open>accept\<close> calls that record a batch of effects and hand them to the runner,
  and the shutdown that has to let them finish.

  Every \<open>accept\<close> call is a process of its own whose program counter is its \<open>call_phase\<close>; calls, runner
  and shutdown take steps in any order on the shared state \<open>acceptor\<close>. Time is a counter that any step
  may find advanced. The channel under the queue is tokio's and is a parameter.
\<close>

section \<open>Queue\<close>

text \<open>
  A bounded channel. \<open>ch_send\<close> and \<open>ch_recv\<close> are one poll of the futures of the same name: \<open>None\<close> is
  pending, a \<open>send\<close> to a channel whose receiver is gone gives the message back.
\<close>

record 'c channel =
  ch_new :: "nat \<Rightarrow> 'c"
  ch_send :: "AcceptedEffect \<Rightarrow> 'c \<Rightarrow> (unit, AcceptedEffect) result option \<times> 'c"
  ch_recv :: "'c \<Rightarrow> AcceptedEffect option option \<times> 'c"
  ch_capacity :: "'c \<Rightarrow> nat"
  ch_max_capacity :: "'c \<Rightarrow> nat"

record 'c EffectQueue =
  q_channel :: 'c
  q_pending_since :: "EffectId \<rightharpoonup> nat"

definition EffectQueue_bounded :: "'c channel \<Rightarrow> nat \<Rightarrow> 'c EffectQueue" where
  "EffectQueue_bounded C capacity = \<lparr>q_channel = ch_new C capacity, q_pending_since = Map.empty\<rparr>"

text \<open>\<open>PendingGuard::drop\<close>, armed.\<close>

definition forget_pending :: "EffectId \<Rightarrow> 'c EffectQueue \<Rightarrow> 'c EffectQueue" where
  "forget_pending i q = q\<lparr>q_pending_since := (q_pending_since q)(i := None)\<rparr>"

text \<open>\<open>send\<close> up to its await, one poll of the await, and the end of a send that is cancelled there.\<close>

definition EffectQueue_send_begin :: "nat \<Rightarrow> AcceptedEffect \<Rightarrow> 'c EffectQueue \<Rightarrow> 'c EffectQueue" where
  "EffectQueue_send_begin now effect q = q\<lparr>q_pending_since := (q_pending_since q)(ae_id effect \<mapsto> now)\<rparr>"

definition EffectQueue_send_poll ::
  "'c channel \<Rightarrow> AcceptedEffect \<Rightarrow> 'c EffectQueue \<Rightarrow> (unit, AcceptedEffect) result option \<times> 'c EffectQueue" where
  "EffectQueue_send_poll C effect q =
     (case ch_send C effect (q_channel q) of
        (None, c) \<Rightarrow> (None, q\<lparr>q_channel := c\<rparr>)
      | (Some (Inr _), c) \<Rightarrow> (Some (Ok ()), q\<lparr>q_channel := c\<rparr>)
      | (Some (Inl queued), c) \<Rightarrow> (Some (Err queued), forget_pending (ae_id effect) (q\<lparr>q_channel := c\<rparr>)))"

definition EffectQueue_send_cancel :: "AcceptedEffect \<Rightarrow> 'c EffectQueue \<Rightarrow> 'c EffectQueue" where
  "EffectQueue_send_cancel effect q = forget_pending (ae_id effect) q"

definition EffectQueue_recv :: "'c channel \<Rightarrow> 'c EffectQueue \<Rightarrow> AcceptedEffect option option \<times> 'c EffectQueue" where
  "EffectQueue_recv C q =
     (case ch_recv C (q_channel q) of
        (Some (Some effect), c) \<Rightarrow> (Some (Some effect), forget_pending (ae_id effect) (q\<lparr>q_channel := c\<rparr>))
      | (r, c) \<Rightarrow> (r, q\<lparr>q_channel := c\<rparr>))"

definition EffectQueue_depth :: "'c channel \<Rightarrow> 'c EffectQueue \<Rightarrow> nat" where
  "EffectQueue_depth C q = ch_max_capacity C (q_channel q) - ch_capacity C (q_channel q)"

text \<open>\<open>order\<close> is an iteration order of the map.\<close>

definition oldest_pending_age :: "EffectId list \<Rightarrow> nat \<Rightarrow> 'c EffectQueue \<Rightarrow> nat option" where
  "oldest_pending_age order now q =
     (case List.map_filter (q_pending_since q) order of
        [] \<Rightarrow> None
      | t # ts \<Rightarrow> Some (now - foldl min t ts))"

section \<open>Lifecycle gate\<close>

datatype LifecycleState = GateRunning | GateDraining nat | GateClosed

datatype DrainOutcome = AllDrained | DeadlineElapsed

record LifecycleGate =
  gate_state :: LifecycleState
  gate_in_flight :: nat

definition LifecycleGate_new :: LifecycleGate where
  "LifecycleGate_new = \<lparr>gate_state = GateRunning, gate_in_flight = 0\<rparr>"

definition gate_enter :: "LifecycleGate \<Rightarrow> (unit, unit) result \<times> LifecycleGate" where
  "gate_enter g =
     (case gate_state g of
        GateRunning \<Rightarrow> (Ok (), g\<lparr>gate_in_flight := gate_in_flight g + 1\<rparr>)
      | GateDraining _ \<Rightarrow> (Err (), g)
      | GateClosed \<Rightarrow> (Err (), g))"

text \<open>\<open>InFlightGuard::drop\<close>.\<close>

definition gate_exit :: "LifecycleGate \<Rightarrow> LifecycleGate" where
  "gate_exit g = g\<lparr>gate_in_flight := gate_in_flight g - 1\<rparr>"

definition begin_draining :: "nat \<Rightarrow> LifecycleGate \<Rightarrow> LifecycleGate" where
  "begin_draining deadline g = g\<lparr>gate_state := GateDraining deadline\<rparr>"

definition gate_close :: "LifecycleGate \<Rightarrow> LifecycleGate" where
  "gate_close g = g\<lparr>gate_state := GateClosed\<rparr>"

text \<open>One turn of the loop; \<open>None\<close> keeps waiting.\<close>

definition wait_until_drained :: "nat \<Rightarrow> LifecycleGate \<Rightarrow> DrainOutcome option" where
  "wait_until_drained now g =
     (case gate_state g of
        GateDraining deadline \<Rightarrow>
          if gate_in_flight g = 0 then Some AllDrained
          else if deadline \<le> now then Some DeadlineElapsed
          else None
      | GateRunning \<Rightarrow> Some AllDrained
      | GateClosed \<Rightarrow> Some AllDrained)"

section \<open>Acceptor\<close>

record ('c, 's) RuntimeEffectAcceptor =
  ra_runner :: "'s DeliveryRunner"
  ra_accept_retry :: RetryPolicy
  ra_runner_mode :: RunnerMode
  ra_channel :: "'c channel"

datatype call_phase =
  Looping
| Storing AcceptedEffect nat
| BackingOff AcceptedEffect nat
| Locking AcceptedEffect
| Sending AcceptedEffect
| Receiving AcceptedEffect
| Dispatching AcceptedEffect AcceptedEffect
| Panicked
| Returned "(unit, EffectAcceptanceError) result"

text \<open>\<open>cl_done\<close> are the effects whose \<open>accept_one\<close> returned \<open>Ok\<close>, so its length is the loop's index.\<close>

record call =
  cl_tenant :: TenantId
  cl_batch :: "ExternalEffectDescription list"
  cl_done :: "AcceptedEffect list"
  cl_phase :: call_phase

datatype shutdown_stage =
  Serving
| AwaitingCalls nat
| Stopping DrainOutcome
| ShutDown DrainOutcome

record ('c, 's) acceptor =
  ap_world :: 's
  ap_queue :: "'c EffectQueue"
  ap_locked :: bool
  ap_gate :: LifecycleGate
  ap_deadline :: "nat option"
  ap_shutdown :: bool
  ap_now :: nat
  ap_calls :: "call list"
  ap_tasks :: "effect_task list"
  ap_stage :: shutdown_stage

text \<open>\<open>with_clock_and_observability\<close>: what the acceptor keeps of its configuration, and its first state.\<close>

definition acceptor_config :: "'c channel \<Rightarrow> 's DeliveryRunner \<Rightarrow> DeliveryConfig \<Rightarrow> ('c, 's) RuntimeEffectAcceptor" where
  "acceptor_config C R config =
     \<lparr>ra_runner = R\<lparr>dr_retry := RetryPolicies_new (retry config)\<rparr>, ra_accept_retry = retry config,
      ra_runner_mode = runner_mode config, ra_channel = C\<rparr>"

definition acceptor_new :: "'c channel \<Rightarrow> DeliveryConfig \<Rightarrow> 's \<Rightarrow> ('c, 's) acceptor" where
  "acceptor_new C config w =
     \<lparr>ap_world = w, ap_queue = EffectQueue_bounded C (queue_capacity config), ap_locked = False,
      ap_gate = LifecycleGate_new, ap_deadline = None, ap_shutdown = False, ap_now = 0, ap_calls = [],
      ap_tasks = [], ap_stage = Serving\<rparr>"

definition DEADLINE_MSG :: string where
  "DEADLINE_MSG = ''effect acceptance interrupted by shutdown deadline''"

definition SHUTDOWN_REJECTED_MSG :: string where
  "SHUTDOWN_REJECTED_MSG = ''effect acceptor is shutting down; new acceptance calls are rejected''"

text \<open>\<open>Display\<close> of a store error, without the ids and states it interpolates.\<close>

fun store_error_text :: "EffectStoreError \<Rightarrow> string" where
  "store_error_text (NotFound _) = ''effect not found''"
| "store_error_text (InvalidTransition _ _ _) = ''invalid transition for effect''"
| "store_error_text (Conflict m) = ''conflict: '' @ m"
| "store_error_text (TemporarilyUnavailable m) = ''backend temporarily unavailable: '' @ m"
| "store_error_text (Backend m) = ''backend error: '' @ m"

text \<open>\<open>wait_for_deadline\<close> is ready.\<close>

definition deadline_reached :: "('c, 's) acceptor \<Rightarrow> bool" where
  "deadline_reached w = (case ap_deadline w of Some instant \<Rightarrow> instant \<le> ap_now w | None \<Rightarrow> False)"

subsection \<open>Steps of an accept call\<close>

definition effect_key :: "AcceptedEffect \<Rightarrow> IdempotencyKey" where
  "effect_key effect = ed_idempotency_key (ae_description effect)"

definition return_call ::
  "(unit, EffectAcceptanceError) result \<Rightarrow> ('c, 's) acceptor \<Rightarrow> call \<Rightarrow> ('c, 's) acceptor \<times> call" where
  "return_call r w c = (w\<lparr>ap_gate := gate_exit (ap_gate w)\<rparr>, c\<lparr>cl_phase := Returned r\<rparr>)"

definition return_deadline :: "AcceptedEffect \<Rightarrow> ('c, 's) acceptor \<Rightarrow> call \<Rightarrow> ('c, 's) acceptor \<times> call" where
  "return_deadline effect w c =
     return_call (Err (RetriesExhausted DEADLINE_MSG (length (cl_done c)) (effect_key effect))) w c"

definition accept_enter :: "TenantId \<Rightarrow> ExternalEffectDescription list \<Rightarrow> ('c, 's) acceptor \<Rightarrow> ('c, 's) acceptor" where
  "accept_enter tenant effects w =
     (case gate_enter (ap_gate w) of
        (Inr _, g) \<Rightarrow>
          w\<lparr>ap_gate := g, ap_calls := ap_calls w @
            [\<lparr>cl_tenant = tenant, cl_batch = effects, cl_done = [], cl_phase = Looping\<rparr>]\<rparr>
      | (Inl _, g) \<Rightarrow>
          (let key = (case effects of d # _ \<Rightarrow> ed_idempotency_key d
                      | [] \<Rightarrow> IdempotencyKey ''shutdown-rejected-empty-batch'')
           in w\<lparr>ap_gate := g, ap_calls := ap_calls w @
                [\<lparr>cl_tenant = tenant, cl_batch = effects, cl_done = [],
                  cl_phase = Returned (Err (Permanent SHUTDOWN_REJECTED_MSG 0 key))\<rparr>]\<rparr>))"

text \<open>The loop of \<open>accept\<close>: \<open>i\<close> is what \<open>EffectId::new\<close> mints.\<close>

definition accept_next :: "EffectId \<Rightarrow> ('c, 's) acceptor \<Rightarrow> call \<Rightarrow> ('c, 's) acceptor \<times> call" where
  "accept_next i w c =
     (case drop (length (cl_done c)) (cl_batch c) of
        [] \<Rightarrow> return_call (Ok ()) w c
      | description # _ \<Rightarrow>
          (w, c\<lparr>cl_phase := Storing
             \<lparr>ae_id = i, ae_tenant = cl_tenant c, ae_attempt = 0, ae_description = description\<rparr> 0\<rparr>))"

definition accept_one_ok :: "AcceptedEffect \<Rightarrow> ('c, 's) acceptor \<Rightarrow> call \<Rightarrow> ('c, 's) acceptor \<times> call" where
  "accept_one_ok effect w c = (w, c\<lparr>cl_done := cl_done c @ [effect], cl_phase := Looping\<rparr>)"

definition send_begin :: "AcceptedEffect \<Rightarrow> ('c, 's) acceptor \<Rightarrow> call \<Rightarrow> ('c, 's) acceptor \<times> call" where
  "send_begin effect w c =
     (w\<lparr>ap_queue := EffectQueue_send_begin (ap_now w) effect (ap_queue w)\<rparr>, c\<lparr>cl_phase := Sending effect\<rparr>)"

text \<open>\<open>accept_one\<close> after the store.\<close>

definition accept_one_stored ::
  "('c, 's) RuntimeEffectAcceptor \<Rightarrow> AcceptedEffect \<Rightarrow> ('c, 's) acceptor \<Rightarrow> call \<Rightarrow> ('c, 's) acceptor \<times> call" where
  "accept_one_stored A effect w c =
     (case ra_runner_mode A of
        Deferred \<Rightarrow> send_begin effect w c
      | Inline \<Rightarrow> (w, c\<lparr>cl_phase := Locking effect\<rparr>))"

text \<open>A turn of the loop of \<open>accept_into_store\<close> that ends with the store's answer; \<open>n\<close> is the entropy of the jitter.\<close>

definition accept_into_store ::
  "('c, 's) RuntimeEffectAcceptor \<Rightarrow> u64 \<Rightarrow> AcceptedEffect \<Rightarrow> nat \<Rightarrow> ('c, 's) acceptor \<Rightarrow> call \<Rightarrow> ('c, 's) acceptor \<times> call" where
  "accept_into_store A n effect attempt w c =
     (case port_accept (dr_state (ra_runner A)) effect (ap_world w) of
        (r, s) \<Rightarrow>
          (let w1 = w\<lparr>ap_world := s\<rparr>
           in case r of
                Inr _ \<Rightarrow> accept_one_stored A effect w1 c
              | Inl (TemporarilyUnavailable msg) \<Rightarrow>
                  if \<not> allows_retry (ra_accept_retry A) attempt
                  then return_call (Err (RetriesExhausted msg (length (cl_done c)) (effect_key effect))) w1 c
                  else if backoff n (ra_accept_retry A) (attempt + 1) = 0
                  then (w1, c\<lparr>cl_phase := Storing effect (attempt + 1)\<rparr>)
                  else (w1, c\<lparr>cl_phase := BackingOff effect attempt\<rparr>)
              | Inl other \<Rightarrow>
                  return_call (Err (Permanent (store_error_text other) (length (cl_done c)) (effect_key effect))) w1 c))"

text \<open>
  The deadline wins the race: the call to the store is cancelled, before (\<open>performed = False\<close>) or after
  it reached the store.
\<close>

definition accept_into_store_cut ::
  "('c, 's) RuntimeEffectAcceptor \<Rightarrow> bool \<Rightarrow> AcceptedEffect \<Rightarrow> ('c, 's) acceptor \<Rightarrow> call \<Rightarrow> ('c, 's) acceptor \<times> call" where
  "accept_into_store_cut A performed effect w c =
     return_deadline effect
       (if performed then w\<lparr>ap_world := snd (port_accept (dr_state (ra_runner A)) effect (ap_world w))\<rparr> else w) c"

definition unlock :: "('c, 's) RuntimeEffectAcceptor \<Rightarrow> ('c, 's) acceptor \<Rightarrow> ('c, 's) acceptor" where
  "unlock A w = (case ra_runner_mode A of Deferred \<Rightarrow> w | Inline \<Rightarrow> w\<lparr>ap_locked := False\<rparr>)"

definition send_to_queue ::
  "('c, 's) RuntimeEffectAcceptor \<Rightarrow> AcceptedEffect \<Rightarrow> ('c, 's) acceptor \<Rightarrow> call \<Rightarrow> ('c, 's) acceptor \<times> call" where
  "send_to_queue A effect w c =
     (case EffectQueue_send_poll (ra_channel A) effect (ap_queue w) of
        (r, q) \<Rightarrow>
          (let w1 = w\<lparr>ap_queue := q\<rparr>
           in case r of
                None \<Rightarrow> (w1, c)
              | Some (Inr _) \<Rightarrow>
                  (case ra_runner_mode A of
                     Deferred \<Rightarrow> accept_one_ok effect w1 c
                   | Inline \<Rightarrow> (w1, c\<lparr>cl_phase := Receiving effect\<rparr>))
              | Some (Inl queued) \<Rightarrow>
                  return_call (Err (Permanent ''effect queue closed'' (length (cl_done c)) (effect_key queued)))
                    (unlock A w1) c))"

definition send_to_queue_cut ::
  "('c, 's) RuntimeEffectAcceptor \<Rightarrow> AcceptedEffect \<Rightarrow> ('c, 's) acceptor \<Rightarrow> call \<Rightarrow> ('c, 's) acceptor \<times> call" where
  "send_to_queue_cut A effect w c =
     return_deadline effect (unlock A (w\<lparr>ap_queue := EffectQueue_send_cancel effect (ap_queue w)\<rparr>)) c"

text \<open>The rest of \<open>accept_one\<close> in \<open>Inline\<close> mode. The \<open>expect\<close> panics when the channel is closed.\<close>

definition inline_receive ::
  "('c, 's) RuntimeEffectAcceptor \<Rightarrow> AcceptedEffect \<Rightarrow> ('c, 's) acceptor \<Rightarrow> call \<Rightarrow> ('c, 's) acceptor \<times> call" where
  "inline_receive A sent w c =
     (case EffectQueue_recv (ra_channel A) (ap_queue w) of
        (None, q) \<Rightarrow> (w\<lparr>ap_queue := q\<rparr>, c)
      | (Some None, q) \<Rightarrow>
          (unlock A (w\<lparr>ap_queue := q, ap_gate := gate_exit (ap_gate w)\<rparr>), c\<lparr>cl_phase := Panicked\<rparr>)
      | (Some (Some dispatched), q) \<Rightarrow> (w\<lparr>ap_queue := q\<rparr>, c\<lparr>cl_phase := Dispatching sent dispatched\<rparr>))"

definition inline_dispatch ::
  "('c, 's) RuntimeEffectAcceptor \<Rightarrow> AcceptedEffect \<Rightarrow> AcceptedEffect \<Rightarrow> ('c, 's) acceptor \<Rightarrow> call \<Rightarrow> ('c, 's) acceptor \<times> call" where
  "inline_dispatch A sent dispatched w c =
     accept_one_ok sent (unlock A (w\<lparr>ap_world := drain_one (ra_runner A) dispatched (ap_world w)\<rparr>)) c"

text \<open>A call moves on.\<close>

inductive call_step ::
  "('c, 's) RuntimeEffectAcceptor \<Rightarrow> ('c, 's) acceptor \<Rightarrow> call \<Rightarrow> ('c, 's) acceptor \<times> call \<Rightarrow> bool" for A w c where
  next_effect: "cl_phase c = Looping \<Longrightarrow> call_step A w c (accept_next i w c)"
| store_answers: "cl_phase c = Storing e attempt \<Longrightarrow> call_step A w c (accept_into_store A n e attempt w c)"
| store_cut: "cl_phase c = Storing e attempt \<Longrightarrow> deadline_reached w \<Longrightarrow>
    call_step A w c (accept_into_store_cut A performed e w c)"
| backoff_over: "cl_phase c = BackingOff e attempt \<Longrightarrow> call_step A w c (w, c\<lparr>cl_phase := Storing e (attempt + 1)\<rparr>)"
| backoff_cut: "cl_phase c = BackingOff e attempt \<Longrightarrow> deadline_reached w \<Longrightarrow> call_step A w c (return_deadline e w c)"
| lock: "cl_phase c = Locking e \<Longrightarrow> \<not> ap_locked w \<Longrightarrow> call_step A w c (send_begin e (w\<lparr>ap_locked := True\<rparr>) c)"
| send: "cl_phase c = Sending e \<Longrightarrow> call_step A w c (send_to_queue A e w c)"
| send_cut: "cl_phase c = Sending e \<Longrightarrow> deadline_reached w \<Longrightarrow> call_step A w c (send_to_queue_cut A e w c)"
| receive: "cl_phase c = Receiving e \<Longrightarrow> call_step A w c (inline_receive A e w c)"
| dispatch: "cl_phase c = Dispatching sent e \<Longrightarrow> call_step A w c (inline_dispatch A sent e w c)"

subsection \<open>Shutdown\<close>

datatype EffectRuntimeShutdownError = Timeout | RunnerPanicked | RunnerCancelled

text \<open>How awaiting the runner's task ends.\<close>

datatype runner_end = RunnerFinished | RunnerPanic | RunnerCancel | RunnerTimeout

text \<open>
  \<open>DeliveryRunner::drain_tasks_locked\<close>: whether the lock on the tasks was acquired, joining them timed
  out, and an executor was still running.
\<close>

definition drain_tasks_locked :: "bool \<Rightarrow> bool \<Rightarrow> bool \<Rightarrow> bool" where
  "drain_tasks_locked acquired timed_out lingering_executor =
     (if \<not> acquired then False else if \<not> timed_out \<and> \<not> lingering_executor then True else False)"

text \<open>The result of \<open>shutdown_and_wait\<close>.\<close>

definition shutdown_result :: "runner_end option \<Rightarrow> bool \<Rightarrow> (unit, EffectRuntimeShutdownError) result" where
  "shutdown_result runner_task drained_cleanly =
     (let runner_task_result =
            (case runner_task of
               None \<Rightarrow> Ok ()
             | Some RunnerFinished \<Rightarrow> Ok ()
             | Some RunnerPanic \<Rightarrow> Err RunnerPanicked
             | Some RunnerCancel \<Rightarrow> Err RunnerCancelled
             | Some RunnerTimeout \<Rightarrow> Err Timeout)
      in case runner_task_result of
           Inr _ \<Rightarrow> if drained_cleanly then Ok () else Err Timeout
         | Inl err \<Rightarrow> Err err)"

definition shutdown_begin :: "nat \<Rightarrow> ('c, 's) acceptor \<Rightarrow> ('c, 's) acceptor" where
  "shutdown_begin deadline w =
     (let elapses_at = ap_now w + deadline
      in w\<lparr>ap_deadline := Some elapses_at, ap_gate := begin_draining elapses_at (ap_gate w),
           ap_stage := AwaitingCalls elapses_at\<rparr>)"

definition shutdown_stop :: "DrainOutcome \<Rightarrow> ('c, 's) acceptor \<Rightarrow> ('c, 's) acceptor" where
  "shutdown_stop outcome w = w\<lparr>ap_shutdown := True, ap_stage := Stopping outcome\<rparr>"

definition shutdown_close :: "DrainOutcome \<Rightarrow> ('c, 's) acceptor \<Rightarrow> ('c, 's) acceptor" where
  "shutdown_close outcome w = w\<lparr>ap_gate := gate_close (ap_gate w), ap_stage := ShutDown outcome\<rparr>"

subsection \<open>The whole\<close>

text \<open>
  The runner's loop (\<open>run_inner\<close>) receives until it is shut down, and drops what it received when the
  shutdown beats the permit; its tasks run in any order, each to its end, or are aborted by the shutdown.
\<close>

inductive acceptor_step ::
  "('c, 's) RuntimeEffectAcceptor \<Rightarrow> ('c, 's) acceptor \<Rightarrow> ('c, 's) acceptor \<Rightarrow> bool" for A where
  entering: "acceptor_step A w (accept_enter tenant effects w)"
| calling: "ap_calls w = cs @ c # cs' \<Longrightarrow> call_step A w c (w', c') \<Longrightarrow>
    acceptor_step A w (w'\<lparr>ap_calls := cs @ c' # cs'\<rparr>)"
| dequeuing: "ra_runner_mode A = Deferred \<Longrightarrow> EffectQueue_recv (ra_channel A) (ap_queue w) = (Some (Some e), q) \<Longrightarrow>
    acceptor_step A w (w\<lparr>ap_queue := q, ap_tasks := ap_tasks w @ [FreshTask e]\<rparr>)"
| dropping: "ra_runner_mode A = Deferred \<Longrightarrow> ap_shutdown w \<Longrightarrow>
    EffectQueue_recv (ra_channel A) (ap_queue w) = (Some (Some e), q) \<Longrightarrow> acceptor_step A w (w\<lparr>ap_queue := q\<rparr>)"
| reclaiming: "ra_runner_mode A = Deferred \<Longrightarrow> reclaim_due (ra_runner A) permits (ap_world w) = ((es, cont), s) \<Longrightarrow>
    acceptor_step A w (w\<lparr>ap_world := s, ap_tasks := ap_tasks w @ map ReclaimedTask es\<rparr>)"
| running: "ap_tasks w = ts @ t # ts' \<Longrightarrow>
    acceptor_step A w (w\<lparr>ap_world := run_task (ra_runner A) t (ap_world w), ap_tasks := ts @ ts'\<rparr>)"
| aborting: "ap_shutdown w \<Longrightarrow> ap_tasks w = ts @ t # ts' \<Longrightarrow> acceptor_step A w (w\<lparr>ap_tasks := ts @ ts'\<rparr>)"
| shutting: "ap_stage w = Serving \<Longrightarrow> acceptor_step A w (shutdown_begin deadline w)"
| stopping: "ap_stage w = AwaitingCalls d \<Longrightarrow> wait_until_drained (ap_now w) (ap_gate w) = Some outcome \<Longrightarrow>
    acceptor_step A w (shutdown_stop outcome w)"
| closing: "ap_stage w = Stopping outcome \<Longrightarrow> (drain_tasks_locked acquired timed_out lingering \<longrightarrow> ap_tasks w = []) \<Longrightarrow>
    acceptor_step A w (shutdown_close outcome w)"
| ticking: "ap_now w \<le> t \<Longrightarrow> acceptor_step A w (w\<lparr>ap_now := t\<rparr>)"

section \<open>The channel\<close>

text \<open>What tokio documents of its channel: messages leave in the order they came in, and only these.\<close>

definition fifo_channel :: "'c channel \<Rightarrow> ('c \<Rightarrow> AcceptedEffect list) \<Rightarrow> bool" where
  "fifo_channel C contents \<longleftrightarrow>
     (\<forall>n. contents (ch_new C n) = []) \<and>
     (\<forall>e c r c'. ch_send C e c = (r, c') \<longrightarrow>
        contents c' = (if r = Some (Ok ()) then contents c @ [e] else contents c) \<and> (\<forall>e'. r = Some (Err e') \<longrightarrow> e' = e)) \<and>
     (\<forall>c r c'. ch_recv C c = (r, c') \<longrightarrow>
        (case r of Some (Some e) \<Rightarrow> contents c = e # contents c' | _ \<Rightarrow> contents c' = contents c) \<and>
        (r = Some None \<or> r = None \<longrightarrow> contents c = []))"

definition queued :: "('c \<Rightarrow> AcceptedEffect list) \<Rightarrow> ('c, 's) acceptor \<Rightarrow> AcceptedEffect list" where
  "queued contents w = contents (q_channel (ap_queue w))"

lemma queue_send_begin_channel [simp]: "q_channel (EffectQueue_send_begin now e q) = q_channel q"
  by (simp add: EffectQueue_send_begin_def)

lemma queue_cancel_channel [simp]: "q_channel (EffectQueue_send_cancel e q) = q_channel q"
  by (simp add: EffectQueue_send_cancel_def forget_pending_def)

lemma queue_send_channel:
  assumes "fifo_channel C contents" "EffectQueue_send_poll C e q = (r, q')"
  shows "contents (q_channel q') = (if r = Some (Ok ()) then contents (q_channel q) @ [e] else contents (q_channel q))
         \<and> (\<forall>e'. r = Some (Err e') \<longrightarrow> e' = e)"
proof -
  obtain r1 c1 where "ch_send C e (q_channel q) = (r1, c1)" by fastforce
  moreover from this have "contents c1 = (if r1 = Some (Ok ()) then contents (q_channel q) @ [e] else contents (q_channel q))"
      "\<forall>e'. r1 = Some (Err e') \<longrightarrow> e' = e"
    using assms(1) unfolding fifo_channel_def by blast+
  ultimately show ?thesis
    using assms(2) by (auto simp: EffectQueue_send_poll_def forget_pending_def split: option.splits sum.splits)
qed

lemma queue_recv_channel:
  assumes "fifo_channel C contents" "EffectQueue_recv C q = (r, q')"
  shows "case r of Some (Some e) \<Rightarrow> contents (q_channel q) = e # contents (q_channel q')
         | _ \<Rightarrow> contents (q_channel q') = [] \<and> contents (q_channel q) = []"
proof -
  obtain r1 c1 where rc: "ch_recv C (q_channel q) = (r1, c1)" by fastforce
  then have "case r1 of Some (Some e) \<Rightarrow> contents (q_channel q) = e # contents c1 | _ \<Rightarrow> contents c1 = contents (q_channel q)"
      "r1 = Some None \<or> r1 = None \<longrightarrow> contents (q_channel q) = []"
    using assms(1) unfolding fifo_channel_def by blast+
  then show ?thesis
    using assms(2) rc by (auto simp: EffectQueue_recv_def forget_pending_def split: option.splits)
qed

end
