(* ===== verification/Ego_Effect_Once.thy ===== *)
theory Ego_Effect_Once
  imports Ego_Effect_System
begin

text \<open>
  What the runner guarantees when store calls do not fail: every dispatch settles its effect, an
  idempotency scope is delivered at most once, and the retry budget is respected. The locale
  \<open>effect_world_exact\<close> extends \<open>effect_world\<close> with that assumption and is interpreted on the
  in-memory store.
\<close>

section \<open>Counting deliveries\<close>

definition successes :: "DedupScope \<Rightarrow> delivery_log \<Rightarrow> nat" where
  "successes sc lg = length (filter (\<lambda>(sc', _, jr). sc' = sc \<and> jr = Joined Success) lg)"

definition once_inv :: "InMemoryEffectStore \<Rightarrow> delivery_log \<Rightarrow> bool" where
  "once_inv st lg \<longleftrightarrow>
     (\<forall>sc. successes sc lg = 0 \<or>
        successes sc lg = 1 \<and> (\<exists>rr. dedup st sc = Some rr \<and> rr_succeeded rr))"

lemma successes_snoc:
  "successes sc (lg @ [(sc', fp, jr)]) = successes sc lg + (if sc' = sc \<and> jr = Joined Success then 1 else 0)"
  by (simp add: successes_def)

lemma once_inv_dedup: "dedup st' = dedup st \<Longrightarrow> once_inv st lg \<Longrightarrow> once_inv st' lg"
  by (simp add: once_inv_def)

section \<open>Ports that do not fail\<close>

lemma reserve_frame:
  assumes "EffectStore_reserve sc i fp st = (Ok out, st')"
  shows "sc' \<noteq> sc \<Longrightarrow> dedup st' sc' = dedup st sc'"
    and "out = Fresh \<or> out = OwnedInProgress \<Longrightarrow> dedup st sc = Some rr \<Longrightarrow> \<not> rr_succeeded rr"
    and "\<not> (out = Fresh \<or> out = OwnedInProgress) \<Longrightarrow> st' = st"
  using assms by (auto simp: EffectStore_reserve_def split: option.splits if_splits)

locale effect_world_exact = effect_world +
  assumes succeeded_exact:
      "port_exact store_of (EffectStore_mark_succeeded i) (port_mark_succeeded (dr_state R) i)"
    and retryable_exact:
      "port_exact store_of (EffectStore_mark_retryable i a t) (port_mark_retryable (dr_state R) i a t)"
    and terminal_exact:
      "port_exact store_of (EffectStore_mark_terminal i rs) (port_mark_terminal (dr_state R) i rs)"
    and reserve_exact:
      "port_exact store_of (EffectStore_reserve sc i fp) (port_reserve (dr_dedup R) sc i fp)"
    and commit_exact:
      "port_exact store_of (EffectStore_commit_success sc) (port_commit_success (dr_dedup R) sc)"
    and release_exact:
      "port_exact store_of (EffectStore_release sc) (port_release (dr_dedup R) sc)"
begin

lemma exact_call:
  assumes "port_exact store_of op call" "op (store_of s) = (r, st)"
  obtains s' where "call s = (r, s')" "store_of s' = st"
  using assms unfolding port_exact_def by (metis fst_conv snd_conv surj_pair)

lemma reserve_exactly:
  obtains out s1 where "reserve_with_retry R sc i fp s = (Ok out, s1)"
    "EffectStore_reserve sc i fp (store_of s) = (Ok out, store_of s1)" "log_of s1 = log_of s"
proof -
  obtain out st where m: "EffectStore_reserve sc i fp (store_of s) = (Ok out, st)"
    by (cases "dedup (store_of s) sc") (auto simp: EffectStore_reserve_def)
  from exact_call [OF reserve_exact this] obtain s1
    where c: "port_reserve (dr_dedup R) sc i fp s = (Ok out, s1)" "store_of s1 = st" .
  have "log_of s1 = log_of s" using port_law_log [OF reserve_law, of sc i fp s] c by simp
  with m c show ?thesis by (intro that [of out s1]) (simp_all add: reserve_with_retry_def reserve_loop.simps)
qed

text \<open>The idempotency scope after each way an attempt can end.\<close>

abbreviation (input) succeeded_in :: "DedupScope \<Rightarrow> (DedupScope \<rightharpoonup> ReservationRecord) \<Rightarrow> (DedupScope \<rightharpoonup> ReservationRecord)" where
  "succeeded_in sc D \<equiv> D(sc := map_option (\<lambda>r. r\<lparr>rr_succeeded := True\<rparr>) (D sc))"

lemma confirm_commits:
  "dedup (store_of (snd (confirm_loop (Suc n) R sc i s))) = succeeded_in sc (dedup (store_of s)) \<and>
   log_of (snd (confirm_loop (Suc n) R sc i s)) = log_of s"
proof -
  let ?Q = "\<lambda>st lg. dedup st = succeeded_in sc (dedup (store_of s)) \<and> lg = log_of s"
  obtain s1 where c: "port_commit_success (dr_dedup R) sc s = (Ok (), s1)"
      "store_of s1 = snd (EffectStore_commit_success sc (store_of s))"
    using exact_call [OF commit_exact, of sc s "Ok ()"] by (metis EffectStore_commit_success_def snd_conv)
  have "log_of s1 = log_of s" using port_law_log [OF commit_law, of sc s] c by simp
  then have Q1: "?Q (store_of s1) (log_of s1)" using c by (simp add: EffectStore_commit_success_def)
  obtain r s2 where m: "port_mark_succeeded (dr_state R) i s1 = (r, s2)" by fastforce
  have "?Q (store_of s2) (log_of s2)"
    using call_keeps [where Q = ?Q, OF succeeded_law [of i] Q1] m by (simp add: frame_simps)
  then have "?Q (store_of (snd (confirm_loop n R sc i s2))) (log_of (snd (confirm_loop n R sc i s2)))"
    by (rule confirm_loop_keeps [where Q = ?Q, rotated 2])
      (auto simp: frame_simps EffectStore_commit_success_def option.map_comp o_def)
  then show ?thesis
    using \<open>?Q (store_of s2) (log_of s2)\<close> by (auto simp: c m split: sum.splits)
qed

lemma finish_success_commits:
  "dedup (store_of (finish_success R e sc s)) = succeeded_in sc (dedup (store_of s)) \<and>
   log_of (finish_success R e sc s) = log_of s"
proof -
  let ?Q = "\<lambda>st lg. dedup st = succeeded_in sc (dedup (store_of s)) \<and> lg = log_of s"
  let ?p = "policy_for (dr_retry R) (ds_effect_type sc)"
  obtain ok s1 where c: "confirm_loop BOOKKEEPING_RETRY_ATTEMPTS R sc (ae_id e) s = (ok, s1)" by fastforce
  have Q1: "?Q (store_of s1) (log_of s1)"
    using confirm_commits [of 2 sc "ae_id e" s] c by (simp add: BOOKKEEPING_RETRY_ATTEMPTS_def numeral_3_eq_3)
  obtain b s2 where b: "draw_backoff R ?p (max (ae_attempt e + 1) 1) s1 = (b, s2)" by fastforce
  obtain t s3 where t: "timestamp_after R b s2 = (t, s3)" by fastforce
  have "?Q (store_of s3) (log_of s3)"
    using Q1 b t draw_backoff_quiet timestamp_after_quiet by (metis snd_conv)
  then have "?Q (store_of (snd (mark_retryable_with_retry R (ae_id e) (ae_attempt e + 1) t s3)))
      (log_of (snd (mark_retryable_with_retry R (ae_id e) (ae_attempt e + 1) t s3)))"
    by (rule mark_retryable_keeps [where Q = ?Q, rotated]) (simp add: frame_simps)
  with Q1 show ?thesis
    unfolding finish_success_def Let_def c b t prod.case by (simp split: bool.splits)
qed

text \<open>The failing outcomes touch the scope at most to release it; the others leave it alone.\<close>

abbreviation (input) released where
  "released sc D L st lg \<equiv>
     (\<forall>sc'. sc' \<noteq> sc \<longrightarrow> dedup st sc' = D sc') \<and> (dedup st sc = D sc \<or> dedup st sc = None) \<and> lg = L"

lemma released_marks:
  assumes "released sc D L st lg"
  shows "released sc D L (snd (EffectStore_mark_retryable i a t st)) lg"
    and "released sc D L (snd (EffectStore_mark_terminal i rs st)) lg"
    and "released sc D L (snd (EffectStore_release sc st)) lg"
  using assms by (simp_all add: frame_simps) (simp add: EffectStore_release_def)

lemma released_outcomes:
  "released sc (dedup (store_of s)) (log_of s) (store_of (abandon_and_release R i rs sc s))
     (log_of (abandon_and_release R i rs sc s))"
  "released sc (dedup (store_of s)) (log_of s) (store_of (retry_or_give_up R e sc s))
     (log_of (retry_or_give_up R e sc s))"
proof -
  have *: "released sc (dedup (store_of s)) (log_of s) (store_of s) (log_of s)" by simp
  show "released sc (dedup (store_of s)) (log_of s) (store_of (abandon_and_release R i rs sc s))
     (log_of (abandon_and_release R i rs sc s))"
    by (rule abandon_and_release_keeps [where Q = "released sc (dedup (store_of s)) (log_of s)", OF _ _ *])
      (rule released_marks, assumption)+
  show "released sc (dedup (store_of s)) (log_of s) (store_of (retry_or_give_up R e sc s))
     (log_of (retry_or_give_up R e sc s))"
    by (rule retry_or_give_up_keeps [where Q = "released sc (dedup (store_of s)) (log_of s)", OF _ _ _ *])
      (rule released_marks, assumption)+
qed

lemma untouched_outcomes:
  "dedup (store_of (requeue_without_charging_attempt R e s)) = dedup (store_of s) \<and>
   log_of (requeue_without_charging_attempt R e s) = log_of s"
  "dedup (store_of (abandon R i rs s)) = dedup (store_of s) \<and> log_of (abandon R i rs s) = log_of s"
  "dedup (store_of (finish_already_satisfied R i s)) = dedup (store_of s) \<and>
   log_of (finish_already_satisfied R i s) = log_of s"
proof -
  let ?Q = "\<lambda>st lg. dedup st = dedup (store_of s) \<and> lg = log_of s"
  show "?Q (store_of (requeue_without_charging_attempt R e s)) (log_of (requeue_without_charging_attempt R e s))"
    by (rule requeue_keeps [where Q = ?Q]) (simp_all add: frame_simps)
  show "?Q (store_of (abandon R i rs s)) (log_of (abandon R i rs s))"
    by (rule abandon_keeps [where Q = ?Q]) (simp_all add: frame_simps)
  show "?Q (store_of (finish_already_satisfied R i s)) (log_of (finish_already_satisfied R i s))"
    unfolding finish_already_satisfied_def
    by (rule call_keeps [where Q = ?Q, OF succeeded_law]) (simp_all add: frame_simps)
qed

text \<open>
  One dispatch, seen from the idempotency scopes. Either no executor ran, and a succeeded scope is
  as it was; or one did, on a scope that had not succeeded, and if it succeeded the scope has now.
\<close>

abbreviation (input) accounted where
  "accounted sc fp D L D' L' \<equiv>
     (\<forall>sc'. sc' \<noteq> sc \<longrightarrow> D' sc' = D sc') \<and>
     (L' = L \<and> (\<forall>rr. D sc = Some rr \<longrightarrow> rr_succeeded rr \<longrightarrow> D' sc = Some rr) \<or>
      (\<exists>jr. L' = L @ [(sc, fp, jr)] \<and> (\<forall>rr. D sc = Some rr \<longrightarrow> \<not> rr_succeeded rr) \<and>
         (jr = Joined Success \<longrightarrow> (\<exists>rr. D' sc = Some rr \<and> rr_succeeded rr))))"

lemma attempt_accounted:
  assumes "dedup (store_of s) (effect_scope e) = Some rr" "\<not> rr_succeeded rr"
  shows "accounted (effect_scope e) (effect_fingerprint R e) (dedup (store_of s)) (log_of s)
           (dedup (store_of (attempt_delivery R e (effect_scope e) s)))
           (log_of (attempt_delivery R e (effect_scope e) s))"
proof (cases "dr_registry R (ed_effect_type (ae_description e))")
  case None
  then show ?thesis
    using released_outcomes(1) [where sc = "effect_scope e" and s = s and i = "ae_id e" and rs = ExecutorMissing] assms
    by (auto simp: attempt_delivery_def ExecutorRegistry_get_def)
next
  case (Some x)
  obtain out s1 where ex: "execute_catching_panics x (ae_description e) (effect_context e) s = (out, s1)"
    by fastforce
  from execute_log [OF Some ex] obtain jr
    where st1: "store_of s1 = store_of s" and jr: "out = classify_join_result jr"
      and lg1: "log_of s1 = log_of s @ [(effect_scope e, effect_fingerprint R e, jr)]"
    by blast
  note do = attempt_delivery_def ExecutorRegistry_get_def Some ex
  show ?thesis
  proof (cases out rule: classify_cases)
    case success
    then show ?thesis
      using finish_success_commits [of e "effect_scope e" s1] assms jr by (auto simp: do st1 lg1)
  next
    case (retry m)
    then show ?thesis
      using released_outcomes(2) [where sc = "effect_scope e" and s = s1 and e = e] assms jr by (auto simp: do st1 lg1)
  next
    case (terminal m)
    then show ?thesis
      using released_outcomes(1) [where sc = "effect_scope e" and s = s1 and i = "ae_id e" and rs = "Other m"] assms jr
      by (auto simp: do st1 lg1)
  next
    case cancelled
    then show ?thesis
      using untouched_outcomes(1) [of e s1] assms jr by (auto simp: do st1 lg1)
  qed
qed

lemma dispatch_accounted:
  "accounted (effect_scope e) (effect_fingerprint R e) (dedup (store_of s)) (log_of s)
     (dedup (store_of (dispatch_in_flight R e s))) (log_of (dispatch_in_flight R e s))"
proof -
  from reserve_exactly obtain out s1
    where res: "reserve_with_retry R (effect_scope e) (ae_id e) (effect_fingerprint R e) s = (Ok out, s1)"
      and mem: "EffectStore_reserve (effect_scope e) (ae_id e) (effect_fingerprint R e) (store_of s) = (Ok out, store_of s1)"
      and lg: "log_of s1 = log_of s" .
  note do = dispatch_in_flight_def res
  show ?thesis
  proof (cases "out = Fresh \<or> out = OwnedInProgress")
    case True
    from reserve_granted(1) [OF mem this] obtain rr
      where rr: "dedup (store_of s1) (effect_scope e) = Some rr" "\<not> rr_succeeded rr" by blast
    have "dispatch_in_flight R e s = attempt_delivery R e (effect_scope e) s1"
      using True by (auto simp: do)
    moreover have "\<forall>sc'. sc' \<noteq> effect_scope e \<longrightarrow> dedup (store_of s1) sc' = dedup (store_of s) sc'"
      and "\<forall>rr. dedup (store_of s) (effect_scope e) = Some rr \<longrightarrow> \<not> rr_succeeded rr"
      using reserve_frame(1,2) [OF mem] True by blast+
    ultimately show ?thesis using attempt_accounted [OF rr] rr by (simp add: lg)
  next
    case False
    then have same: "store_of s1 = store_of s" using reserve_frame(3) [OF mem] by blast
    show ?thesis
      using False untouched_outcomes [where s = s1] by (cases out) (auto simp: do same lg)
  qed
qed

abbreviation once :: "'a \<Rightarrow> bool" where
  "once s \<equiv> once_inv (store_of s) (log_of s)"

lemma dispatch_once:
  assumes "once s"
  shows "once (dispatch_in_flight R e s)"
  unfolding once_inv_def
proof
  fix sc
  note acc = dispatch_accounted [of e s]
  have old: "successes sc (log_of s) = 0 \<or>
      successes sc (log_of s) = 1 \<and> (\<exists>rr. dedup (store_of s) sc = Some rr \<and> rr_succeeded rr)"
    using assms by (simp add: once_inv_def)
  show "successes sc (log_of (dispatch_in_flight R e s)) = 0 \<or>
      successes sc (log_of (dispatch_in_flight R e s)) = 1 \<and>
      (\<exists>rr. dedup (store_of (dispatch_in_flight R e s)) sc = Some rr \<and> rr_succeeded rr)"
  proof (cases "sc = effect_scope e")
    case True
    then show ?thesis using acc old by (auto simp: successes_snoc split: if_splits)
  next
    case False
    then show ?thesis using acc old by (auto simp: successes_snoc)
  qed
qed

lemma mark_in_flight_quiet:
  "dedup (store_of (snd (mark_in_flight_with_retry R i s))) = dedup (store_of s) \<and>
   log_of (snd (mark_in_flight_with_retry R i s)) = log_of s"
  unfolding mark_in_flight_with_retry_def
  by (rule retry_keeps [where Q = "\<lambda>st lg. dedup st = dedup (store_of s) \<and> lg = log_of s", OF in_flight_law])
    (simp_all add: frame_simps)

lemma run_task_once: "once s \<Longrightarrow> once (run_task R t s)"
proof (cases t)
  case (FreshTask e)
  obtain r s1 where m: "mark_in_flight_with_retry R (ae_id e) s = (r, s1)" by fastforce
  assume "once s"
  then have "once s1" using mark_in_flight_quiet [of "ae_id e" s] m by (simp add: once_inv_def)
  then show ?thesis using dispatch_once FreshTask by (auto simp: drain_one_def m split: sum.splits)
qed (simp add: drain_reclaimed_def dispatch_once)

lemma reclaim_loop_quiet:
  "dedup (store_of (snd (reclaim_loop R permits due s))) = dedup (store_of s) \<and>
   log_of (snd (reclaim_loop R permits due s)) = log_of s"
proof (induction due arbitrary: permits s)
  case (Cons stored due)
  obtain r s1 where m: "port_mark_in_flight (dr_state R) (se_id stored) s = (r, s1)" by fastforce
  have "dedup (store_of s1) = dedup (store_of s) \<and> log_of s1 = log_of s"
    using call_keeps [where Q = "\<lambda>st lg. dedup st = dedup (store_of s) \<and> lg = log_of s",
        OF in_flight_law [of "se_id stored"], of s] m by (simp add: frame_simps)
  then show ?case
    using Cons.IH [of permits s1] Cons.IH [of "map_option (\<lambda>n. n - 1) permits" s1]
    by (auto simp: m split: sum.splits prod.splits)
qed simp

lemma reclaim_due_quiet:
  "dedup (store_of (snd (reclaim_due R permits s))) = dedup (store_of s) \<and>
   log_of (snd (reclaim_due R permits s)) = log_of s"
proof -
  obtain now s1 where n: "dr_now R s = (now, s1)" by fastforce
  obtain r s2 where c: "port_claim_due (dr_state R) now RECLAIM_BATCH_LIMIT s1 = (r, s2)" by fastforce
  have "dedup (store_of s2) = dedup (store_of s) \<and> log_of s2 = log_of s"
    using call_keeps [where Q = "\<lambda>st lg. dedup st = dedup (store_of s) \<and> lg = log_of s", OF claim_law,
        of s1 now RECLAIM_BATCH_LIMIT] quiet(1,2) [of s] n c
    by (simp add: EffectStore_claim_due_def)
  then show ?thesis
    using reclaim_loop_quiet [of permits _ s2] by (auto simp: reclaim_due_def n c split: sum.splits)
qed

lemma system_step_once:
  assumes "system_step R y y'" "once (sys_world y)"
  shows "once (sys_world y')"
  using assms
proof (induction rule: system_step.induct)
  case (accept e w w' q ts)
  then show ?case
    using call_keeps [where Q = once_inv, OF accept_law [of e], of w]
    by (simp add: once_inv_dedup frame_simps)
next
  case (accept_refused e w err w' q ts)
  then show ?case
    using call_keeps [where Q = once_inv, OF accept_law [of e], of w]
    by (simp add: once_inv_dedup frame_simps)
next
  case (reclaim permits w es cont w' q ts)
  then show ?case using reclaim_due_quiet [of permits w] by (simp add: once_inv_def)
next
  case (run w q ts t ts')
  then show ?case by (simp add: run_task_once)
next
  case (recover now w r w')
  then show ?case
    using call_keeps [where Q = once_inv, OF recover_law [of now], of w]
    by (simp add: once_inv_dedup frame_simps)
qed simp_all

lemma reachable_once:
  "(system_step R)\<^sup>*\<^sup>* y y' \<Longrightarrow> once (sys_world y) \<Longrightarrow> once (sys_world y')"
  by (induction rule: rtranclp_induct) (auto intro: system_step_once)

end

interpretation memory: effect_world_exact mw_store mw_log order "memory_runner order env" for order env
  by unfold_locales (simp_all add: memory_runner_def runner_with_def call_memory_exact)

section \<open>Every dispatch settles its effect\<close>

text \<open>What a dispatch of \<open>e\<close> may make of its row \<open>r\<close>.\<close>

definition settled :: "RetryPolicy \<Rightarrow> AcceptedEffect \<Rightarrow> EffectRecord \<Rightarrow> EffectRecord \<Rightarrow> bool" where
  "settled p e r r' \<longleftrightarrow>
     er_tenant r' = er_tenant r \<and> er_description r' = er_description r \<and>
     (er_state r' = Succeeded \<or>
      er_state r' = TerminalFailed \<and> er_terminal_reason r' \<noteq> None \<or>
      er_state r' = RetryableFailed \<and> er_next_at r' \<noteq> None \<and>
        (er_attempt r' = ae_attempt e \<or> er_attempt r' = ae_attempt e + 1 \<and> allows_retry p (ae_attempt e)))"

definition settles ::
  "RetryPolicy \<Rightarrow> AcceptedEffect \<Rightarrow> EffectRecord \<Rightarrow> (EffectId \<rightharpoonup> EffectRecord) \<Rightarrow> (EffectId \<rightharpoonup> EffectRecord) \<Rightarrow> bool" where
  "settles p e r m m' \<longleftrightarrow> (\<exists>r'. m' = m(ae_id e \<mapsto> r') \<and> settled p e r r')"

lemma settlesI: "m' = m(ae_id e \<mapsto> r') \<Longrightarrow> settled p e r r' \<Longrightarrow> settles p e r m m'"
  by (auto simp: settles_def)

context effect_world_exact
begin

lemma transition_InFlight:
  assumes "states st i = Some r" "er_state r = InFlight" "InFlight \<in> set from"
  shows "transition i from to upd st = (Ok (), st\<lparr>states := (states st)(i \<mapsto> upd (r\<lparr>er_state := to\<rparr>))\<rparr>)"
  using assms by (simp add: transition_def)

lemma marks_InFlight:
  assumes "states (store_of s) i = Some r" "er_state r = InFlight"
  shows "\<exists>s1. port_mark_retryable (dr_state R) i a t s = (Ok (), s1) \<and>
           states (store_of s1) = (states (store_of s))(i \<mapsto>
             r\<lparr>er_state := RetryableFailed, er_attempt := a, er_next_at := Some t\<rparr>)"
    and "\<exists>s1. port_mark_terminal (dr_state R) i rs s = (Ok (), s1) \<and>
           states (store_of s1) = (states (store_of s))(i \<mapsto>
             r\<lparr>er_state := TerminalFailed, er_terminal_reason := Some rs\<rparr>)"
    and "\<exists>s1. port_mark_succeeded (dr_state R) i s = (Ok (), s1) \<and>
           states (store_of s1) = (states (store_of s))(i \<mapsto> r\<lparr>er_state := Succeeded\<rparr>)"
proof -
  note tr = transition_InFlight [OF assms]
  have "EffectStore_mark_retryable i a t (store_of s) = (Ok (), (store_of s)\<lparr>states := (states (store_of s))(i \<mapsto>
      r\<lparr>er_state := RetryableFailed, er_attempt := a, er_next_at := Some t\<rparr>)\<rparr>)"
    by (simp add: EffectStore_mark_retryable_def tr)
  from exact_call [OF retryable_exact this]
  show "\<exists>s1. port_mark_retryable (dr_state R) i a t s = (Ok (), s1) \<and>
           states (store_of s1) = (states (store_of s))(i \<mapsto>
             r\<lparr>er_state := RetryableFailed, er_attempt := a, er_next_at := Some t\<rparr>)" by force
  have "EffectStore_mark_terminal i rs (store_of s) = (Ok (), (store_of s)\<lparr>states := (states (store_of s))(i \<mapsto>
      r\<lparr>er_state := TerminalFailed, er_terminal_reason := Some rs\<rparr>)\<rparr>)"
    by (simp add: EffectStore_mark_terminal_def tr)
  from exact_call [OF terminal_exact this]
  show "\<exists>s1. port_mark_terminal (dr_state R) i rs s = (Ok (), s1) \<and>
           states (store_of s1) = (states (store_of s))(i \<mapsto>
             r\<lparr>er_state := TerminalFailed, er_terminal_reason := Some rs\<rparr>)" by force
  have "EffectStore_mark_succeeded i (store_of s) = (Ok (), (store_of s)\<lparr>states := (states (store_of s))(i \<mapsto>
      r\<lparr>er_state := Succeeded\<rparr>)\<rparr>)"
    by (simp add: EffectStore_mark_succeeded_def tr)
  from exact_call [OF succeeded_exact this]
  show "\<exists>s1. port_mark_succeeded (dr_state R) i s = (Ok (), s1) \<and>
           states (store_of s1) = (states (store_of s))(i \<mapsto> r\<lparr>er_state := Succeeded\<rparr>)" by force
qed

abbreviation (input) flying :: "AcceptedEffect \<Rightarrow> EffectRecord \<Rightarrow> 'a \<Rightarrow> bool" where
  "flying e r s \<equiv> states (store_of s) (ae_id e) = Some r \<and> er_state r = InFlight"

lemma mark_retryable_InFlight:
  assumes "flying e r s"
  obtains s1 where "mark_retryable_with_retry R (ae_id e) a t s = (Ok (), s1)"
    "states (store_of s1) = (states (store_of s))(ae_id e \<mapsto>
       r\<lparr>er_state := RetryableFailed, er_attempt := a, er_next_at := Some t\<rparr>)"
  using marks_InFlight(1) [of s "ae_id e" r a t] assms
  by (auto simp: mark_retryable_with_retry_def BOOKKEEPING_RETRY_ATTEMPTS_def numeral_3_eq_3)

lemma requeue_settles:
  assumes "flying e r s"
  shows "settles p e r (states (store_of s)) (states (store_of (requeue_without_charging_attempt R e s)))"
proof -
  obtain now s0 where n: "dr_now R s = (now, s0)" by fastforce
  then have st: "store_of s0 = store_of s" using quiet(1) [of s] by simp
  then have "flying e r s0" using assms by simp
  from mark_retryable_InFlight [OF this] obtain s1
    where "mark_retryable_with_retry R (ae_id e) (ae_attempt e) now s0 = (Ok (), s1)"
      "states (store_of s1) = (states (store_of s0))(ae_id e \<mapsto>
        r\<lparr>er_state := RetryableFailed, er_attempt := ae_attempt e, er_next_at := Some now\<rparr>)" .
  then show ?thesis
    by (intro settlesI) (auto simp: requeue_without_charging_attempt_def n st settled_def)
qed

lemma abandon_settles:
  assumes "flying e r s"
  shows "settles p e r (states (store_of s)) (states (store_of (abandon R (ae_id e) rs s)))"
    and "settles p e r (states (store_of s)) (states (store_of (abandon_and_release R (ae_id e) rs sc s)))"
proof -
  obtain s1 where t: "port_mark_terminal (dr_state R) (ae_id e) rs s = (Ok (), s1)"
      "states (store_of s1) = (states (store_of s))(ae_id e \<mapsto>
        r\<lparr>er_state := TerminalFailed, er_terminal_reason := Some rs\<rparr>)"
    using marks_InFlight(2) [of s "ae_id e" r rs] assms by blast
  then show "settles p e r (states (store_of s)) (states (store_of (abandon R (ae_id e) rs s)))"
    by (intro settlesI) (auto simp: abandon_def settled_def)
  have "states (store_of (snd (port_release (dr_dedup R) sc s1))) = states (store_of s1)"
    using release_exact [of sc] by (simp add: port_exact_def frame_simps)
  then show "settles p e r (states (store_of s)) (states (store_of (abandon_and_release R (ae_id e) rs sc s)))"
    using t by (intro settlesI) (auto simp: abandon_and_release_def settled_def)
qed

lemma finish_success_settles:
  assumes "flying e r s"
  shows "settles p e r (states (store_of s)) (states (store_of (finish_success R e sc s)))"
proof -
  obtain s1 where c: "port_commit_success (dr_dedup R) sc s = (Ok (), s1)"
      "store_of s1 = snd (EffectStore_commit_success sc (store_of s))"
    using exact_call [OF commit_exact, of sc s "Ok ()"] by (metis EffectStore_commit_success_def snd_conv)
  then have "flying e r s1" using assms by (simp add: frame_simps)
  with marks_InFlight(3) [of s1 "ae_id e" r] obtain s2
    where m: "port_mark_succeeded (dr_state R) (ae_id e) s1 = (Ok (), s2)"
      "states (store_of s2) = (states (store_of s1))(ae_id e \<mapsto> r\<lparr>er_state := Succeeded\<rparr>)" by blast
  have "finish_success R e sc s = s2"
    by (simp add: finish_success_def BOOKKEEPING_RETRY_ATTEMPTS_def numeral_3_eq_3 c m)
  then show ?thesis using c m by (intro settlesI) (auto simp: frame_simps settled_def)
qed

lemma retry_or_give_up_settles:
  assumes "flying e r s"
  shows "settles (policy_for (dr_retry R) (ds_effect_type sc)) e r (states (store_of s))
           (states (store_of (retry_or_give_up R e sc s)))"
proof (cases "allows_retry (policy_for (dr_retry R) (ds_effect_type sc)) (ae_attempt e)")
  case False
  then show ?thesis using abandon_settles(2) [OF assms] by (simp add: retry_or_give_up_def)
next
  case True
  let ?p = "policy_for (dr_retry R) (ds_effect_type sc)"
  obtain b s1 where b: "draw_backoff R ?p (ae_attempt e + 1) s = (b, s1)" by fastforce
  obtain t s2 where t: "timestamp_after R b s1 = (t, s2)" by fastforce
  have st: "store_of s2 = store_of s"
    using b t draw_backoff_quiet(1) timestamp_after_quiet(1) by (metis snd_conv)
  then have "flying e r s2" using assms by simp
  from mark_retryable_InFlight [OF this] obtain s3
    where m: "mark_retryable_with_retry R (ae_id e) (ae_attempt e + 1) t s2 = (Ok (), s3)"
      "states (store_of s3) = (states (store_of s2))(ae_id e \<mapsto>
         r\<lparr>er_state := RetryableFailed, er_attempt := ae_attempt e + 1, er_next_at := Some t\<rparr>)" .
  have "retry_or_give_up R e sc s = s3"
    unfolding retry_or_give_up_def Let_def b t m(1) prod.case using True by simp
  then show ?thesis using True m(2) st by (intro settlesI) (auto simp: settled_def)
qed

lemma attempt_settles:
  assumes "flying e r s" "scope = effect_scope e"
  shows "settles (policy_for (dr_retry R) (ed_effect_type (ae_description e))) e r
           (states (store_of s)) (states (store_of (attempt_delivery R e scope s)))"
proof (cases "dr_registry R (ed_effect_type (ae_description e))")
  case None
  then show ?thesis
    using abandon_settles(2) [OF assms(1)] by (simp add: attempt_delivery_def ExecutorRegistry_get_def)
next
  case (Some x)
  obtain out s1 where ex: "execute_catching_panics x (ae_description e) (effect_context e) s = (out, s1)"
    by fastforce
  have st: "store_of s1 = store_of s" using execute_log [OF Some ex] by blast
  have fl: "flying e r s1" using assms st by simp
  note do = attempt_delivery_def ExecutorRegistry_get_def Some ex
  show ?thesis
    using finish_success_settles [OF fl, of _ scope] abandon_settles(2) [OF fl, of _ _ scope]
      requeue_settles [OF fl] retry_or_give_up_settles [OF fl, of scope]
    by (cases out rule: classify_cases) (simp_all add: do st assms(2) effect_scope_def)
qed

lemma dispatch_settles:
  assumes "flying e r s"
  shows "settles (policy_for (dr_retry R) (ed_effect_type (ae_description e))) e r
           (states (store_of s)) (states (store_of (dispatch_in_flight R e s)))"
proof -
  from reserve_exactly obtain out s1
    where res: "reserve_with_retry R (effect_scope e) (ae_id e) (effect_fingerprint R e) s = (Ok out, s1)"
      and mem: "EffectStore_reserve (effect_scope e) (ae_id e) (effect_fingerprint R e) (store_of s) = (Ok out, store_of s1)" .
  have st: "states (store_of s1) = states (store_of s)"
    using frame_simps by (metis mem snd_conv)
  then have fl: "flying e r s1" using assms by simp
  have sat: "settles p e r (states (store_of s1)) (states (store_of (finish_already_satisfied R (ae_id e) s1)))" for p
    using marks_InFlight(3) [of s1 "ae_id e" r] fl
    by (auto simp: finish_already_satisfied_def settled_def intro!: settlesI)
  show ?thesis
    using attempt_settles [OF fl refl] sat requeue_settles [OF fl] abandon_settles(1) [OF fl]
    by (cases out) (simp_all add: dispatch_in_flight_def res st)
qed

end

section \<open>Properties\<close>



text \<open>C34: no effect is left stranded. When the stores do not fail, a dispatch of an effect that is
  \<open>InFlight\<close> ends with its row \<open>Succeeded\<close>, \<open>TerminalFailed\<close> with a reason, or \<open>RetryableFailed\<close> with
  a due time, whatever the executor does (panic and cancellation included); no other row changes. A
  retry is charged at most one attempt, and only while the policy of the effect's type allows one.\<close>

theorem dispatch_settles_effect:
  assumes "states (mw_store s) (ae_id e) = Some r" "er_state r = InFlight"
  shows "settles (policy_for (re_retry env) (ed_effect_type (ae_description e))) e r
           (states (mw_store s)) (states (mw_store (dispatch_in_flight (memory_runner order env) e s)))"
  using memory.dispatch_settles [of s e r order env] assms
  by (simp add: memory_runner_def runner_with_def)

theorem dispatch_settles_effect_witness:
  "\<exists>r'. states (mw_store (dispatch_in_flight (memory_runner (\<lambda>_. []) (ex_env JoinPanic)) ex_accepted
          \<lparr>mw_store = ex_effects InFlight, mw_log = [], mw_faults = [], mw_env = ()\<rparr>)) (EffectId 1) = Some r' \<and>
        er_state r' \<noteq> InFlight"
proof -
  let ?s = "\<lparr>mw_store = ex_effects InFlight, mw_log = [], mw_faults = [], mw_env = ()\<rparr>"
  obtain r where r: "states (mw_store ?s) (ae_id ex_accepted) = Some r" "er_state r = InFlight"
    by (simp add: ex_effects_def ex_accepted_def)
  from dispatch_settles_effect [of ?s, OF r, of "ex_env JoinPanic" "\<lambda>_. []"] show ?thesis
    by (auto simp: settles_def settled_def ex_accepted_def)
qed

text \<open>A stale queue entry escapes the retry budget. The reclaim loop may claim and dispatch a
  \<open>Pending\<close> effect whose acceptance is still waiting in the admission queue. When that entry is
  dequeued later, \<open>drain_one\<close> dispatches it with the attempt number of its acceptance, not the stored
  one, and \<open>mark_in_flight\<close> accepts it from \<open>RetryableFailed\<close> whatever its due time: the stored
  attempt count falls back and the executor runs more often than the policy's retries allow. Here
  one retry is allowed (two attempts), and the executor runs three times for one acceptance.\<close>

theorem stale_queue_entry_exceeds_budget:
  "\<exists>y. (system_step (memory_runner (\<lambda>_. [EffectId 1]) (ex_env (Joined (RetryableFailure ''down'')))))\<^sup>*\<^sup>*
         (initial_system [] ()) y \<and>
       max_attempts (policy_for (re_retry (ex_env (Joined (RetryableFailure ''down'')))) ''http_post'') = 1 \<and>
       length (mw_log (sys_world y)) = 3 \<and>
       states (mw_store (sys_world y)) \<noteq> Map.empty \<and> dom (states (mw_store (sys_world y))) = {EffectId 1}"
proof -
  let ?R = "memory_runner (\<lambda>_. [EffectId 1]) (ex_env (Joined (RetryableFailure ''down'')))"
  let ?y0 = "initial_system [] ()"
  let ?w1 = "snd (port_accept (dr_state ?R) ex_accepted (sys_world ?y0))"
  let ?w2 = "snd (reclaim_due ?R None ?w1)"
  let ?w3 = "drain_reclaimed ?R ex_accepted ?w2"
  let ?w4 = "drain_one ?R ex_accepted ?w3"
  let ?e1 = "ex_accepted\<lparr>ae_attempt := 1\<rparr>"
  let ?w5 = "snd (reclaim_due ?R None ?w4)"
  let ?w6 = "drain_reclaimed ?R ?e1 ?w5"
  let ?sys = "\<lambda>w q ts. \<lparr>sys_world = w, sys_queue = q, sys_tasks = ts\<rparr>"
  note defs = memory_runner_def run_defs store_defs initial_system_def EffectStore_new_def ex_env_def
    ex_accepted_def RetryPolicies_new_def ex_description_def reclaim_due_def RECLAIM_BATCH_LIMIT_def
    is_due_def stored_effect_def
  have "system_step ?R ?y0 (?sys ?w1 [ex_accepted] [])"
    using system_step.accept [of ?R ex_accepted "sys_world ?y0" ?w1 "[]" "[]"] by (simp add: defs)
  moreover have "system_step ?R (?sys ?w1 [ex_accepted] []) (?sys ?w2 [ex_accepted] [ReclaimedTask ex_accepted])"
    using system_step.reclaim [of ?R None ?w1 "[ex_accepted]" True ?w2 "[ex_accepted]" "[]"]
    by (simp add: defs)
  moreover have "system_step ?R (?sys ?w2 [ex_accepted] [ReclaimedTask ex_accepted]) (?sys ?w3 [ex_accepted] [])"
    using system_step.run [of ?R ?w2 "[ex_accepted]" "[]" "ReclaimedTask ex_accepted" "[]"] by simp
  moreover have "system_step ?R (?sys ?w3 [ex_accepted] []) (?sys ?w3 [] [FreshTask ex_accepted])"
    using system_step.dequeue [of ?R ?w3 "[]" ex_accepted "[]" "[]"] by simp
  moreover have "system_step ?R (?sys ?w3 [] [FreshTask ex_accepted]) (?sys ?w4 [] [])"
    using system_step.run [of ?R ?w3 "[]" "[]" "FreshTask ex_accepted" "[]"] by simp
  moreover have "system_step ?R (?sys ?w4 [] []) (?sys ?w5 [] [ReclaimedTask ?e1])"
    using system_step.reclaim [of ?R None ?w4 "[?e1]" True ?w5 "[]" "[]"] by (simp add: defs)
  moreover have "system_step ?R (?sys ?w5 [] [ReclaimedTask ?e1]) (?sys ?w6 [] [])"
    using system_step.run [of ?R ?w5 "[]" "[]" "ReclaimedTask ?e1" "[]"] by simp
  ultimately have "(system_step ?R)\<^sup>*\<^sup>* ?y0 (?sys ?w6 [] [])"
    by (meson converse_rtranclp_into_rtranclp rtranclp.rtrancl_refl)
  moreover have "length (mw_log ?w6) = 3" "dom (states (mw_store ?w6)) = {EffectId 1}"
    by (simp_all add: defs)
  ultimately show ?thesis
    by (intro exI [of _ "?sys ?w6 [] []"]) (auto simp: ex_env_def policy_for_def RetryPolicies_new_def)
qed

end
