(* ===== verification/Ego_Effect_Acceptance.thy ===== *)
theory Ego_Effect_Acceptance
  imports Ego_Effect_Acceptor Ego_Effect_Once
begin

text \<open>
  The acceptor with its concurrent calls, channel, runner and shutdown refines the delivery pipeline of
  \<open>Ego_Effect_System\<close>, and what a call has worked off is a prefix of its batch that is in the store.
\<close>

section \<open>Refinement of the delivery pipeline\<close>

fun carried :: "call_phase \<Rightarrow> AcceptedEffect multiset" where
  "carried (Locking e) = {#e#}"
| "carried (Sending e) = {#e#}"
| "carried (Dispatching sent e) = {#e#}"
| "carried _ = {#}"

definition in_transit :: "('c \<Rightarrow> AcceptedEffect list) \<Rightarrow> ('c, 's) acceptor \<Rightarrow> AcceptedEffect multiset" where
  "in_transit contents w = mset (queued contents w) + (\<Sum>c\<in>#mset (ap_calls w). carried (cl_phase c))"

definition pipelined :: "('c \<Rightarrow> AcceptedEffect list) \<Rightarrow> ('c, 's) acceptor \<Rightarrow> 's effect_system \<Rightarrow> bool" where
  "pipelined contents w y \<longleftrightarrow>
     sys_world y = ap_world w \<and> sys_tasks y = ap_tasks w \<and> in_transit contents w \<subseteq># mset (sys_queue y)"

text \<open>What a step of one call does to the world and to what it and the channel hold.\<close>

inductive call_effect ::
  "('c, 's) RuntimeEffectAcceptor \<Rightarrow> 's \<Rightarrow> AcceptedEffect multiset \<Rightarrow> 's \<Rightarrow> AcceptedEffect multiset \<Rightarrow> bool" for A where
  quiet: "b' \<subseteq># b \<Longrightarrow> call_effect A s b s b'"
| stored: "port_accept (dr_state (ra_runner A)) e s = (Ok (), s') \<Longrightarrow> b' \<subseteq># b + {#e#} \<Longrightarrow> call_effect A s b s' b'"
| not_stored: "port_accept (dr_state (ra_runner A)) e s = (Err err, s') \<Longrightarrow> b' \<subseteq># b \<Longrightarrow> call_effect A s b s' b'"
| delivered: "b = add_mset e b' \<Longrightarrow> call_effect A s b (drain_one (ra_runner A) e s) b'"

definition share :: "('c \<Rightarrow> AcceptedEffect list) \<Rightarrow> ('c, 's) acceptor \<times> call \<Rightarrow> AcceptedEffect multiset" where
  "share contents wc = mset (queued contents (fst wc)) + carried (cl_phase (snd wc))"

lemmas call_ops =
  return_call_def return_deadline_def accept_next_def accept_one_ok_def send_begin_def accept_one_stored_def
  accept_into_store_cut_def unlock_def send_to_queue_cut_def

text \<open>No step of a call touches tasks, clock, deadline or stage.\<close>

definition call_frame :: "('c, 's) acceptor \<Rightarrow> ('c, 's) acceptor \<Rightarrow> bool" where
  "call_frame w w' \<longleftrightarrow>
     ap_tasks w' = ap_tasks w \<and> ap_now w' = ap_now w \<and> ap_deadline w' = ap_deadline w \<and>
     ap_stage w' = ap_stage w \<and> ap_shutdown w' = ap_shutdown w \<and> ap_calls w' = ap_calls w \<and>
     gate_state (ap_gate w') = gate_state (ap_gate w)"

lemma call_step_frame:
  assumes "call_step A w c (w', c')"
  shows "call_frame w w'"
  using assms
  by (cases rule: call_step.cases)
     (auto simp: call_frame_def call_ops accept_into_store_def send_to_queue_def inline_receive_def inline_dispatch_def
        gate_exit_def Let_def split: prod.splits sum.splits option.splits list.splits RunnerMode.splits
        EffectStoreError.splits if_splits)

lemma store_effect:
  assumes "accept_into_store A n e attempt w c = (w', c')" "cl_phase c = Storing e attempt"
  shows "call_effect A (ap_world w) (share contents (w, c)) (ap_world w') (share contents (w', c'))"
proof -
  obtain r s where p: "port_accept (dr_state (ra_runner A)) e (ap_world w) = (r, s)" by fastforce
  show ?thesis
  proof (cases r)
    case (Inr u)
    then have "ap_world w' = s" "share contents (w', c') = share contents (w, c) + {#e#}"
      using assms p by (auto simp: accept_into_store_def call_ops share_def queued_def Let_def split: RunnerMode.splits)
    then show ?thesis using p Inr stored by (metis (full_types) old.unit.exhaust subset_mset.order_refl)
  next
    case (Inl err)
    then have "ap_world w' = s" "share contents (w', c') = share contents (w, c)"
      using assms p
      by (auto simp: accept_into_store_def call_ops share_def queued_def Let_def split: EffectStoreError.splits if_splits)
    then show ?thesis using p Inl not_stored by (metis subset_mset.order_refl)
  qed
qed

lemma store_cut_effect:
  assumes "accept_into_store_cut A performed e w c = (w', c')" "cl_phase c = Storing e attempt"
  shows "call_effect A (ap_world w) (share contents (w, c)) (ap_world w') (share contents (w', c'))"
proof -
  obtain r s where p: "port_accept (dr_state (ra_runner A)) e (ap_world w) = (r, s)" by fastforce
  have sh: "share contents (w', c') = share contents (w, c)"
    and wd: "ap_world w' = (if performed then s else ap_world w)"
    using assms p by (auto simp: call_ops share_def queued_def)
  show ?thesis
  proof (cases "performed")
    case True
    show ?thesis
    proof (cases r)
      case (Inr u)
      then show ?thesis using p sh wd True stored [of A e "ap_world w" s] by simp
    next
      case (Inl err)
      then show ?thesis using p sh wd True not_stored [of A e "ap_world w" err s] by simp
    qed
  qed (simp add: sh wd quiet)
qed

lemma call_step_effect:
  assumes "fifo_channel (ra_channel A) contents" "call_step A w c (w', c')"
  shows "call_effect A (ap_world w) (share contents (w, c)) (ap_world w') (share contents (w', c'))"
  using assms(2)
proof (cases rule: call_step.cases)
  case (store_answers e attempt n)
  then show ?thesis using store_effect by metis
next
  case (store_cut e attempt performed)
  then show ?thesis using store_cut_effect by metis
next
  case (send e)
  obtain r q where p: "EffectQueue_send_poll (ra_channel A) e (ap_queue w) = (r, q)" by fastforce
  note queue_send_channel [OF assms(1) p]
  then have "ap_world w' = ap_world w" "share contents (w', c') \<subseteq># share contents (w, c)"
    using send p
    by (auto simp: send_to_queue_def call_ops share_def queued_def Let_def split: option.splits sum.splits RunnerMode.splits)
  then show ?thesis by (metis quiet)
next
  case (receive e)
  obtain r q where p: "EffectQueue_recv (ra_channel A) (ap_queue w) = (r, q)" by fastforce
  note queue_recv_channel [OF assms(1) p]
  then have "ap_world w' = ap_world w" "share contents (w', c') \<subseteq># share contents (w, c)"
    using receive p
    by (auto simp: inline_receive_def call_ops share_def queued_def split: option.splits RunnerMode.splits)
  then show ?thesis by (metis quiet)
next
  case (dispatch sent e)
  then have "ap_world w' = drain_one (ra_runner A) e (ap_world w)" "share contents (w, c) = add_mset e (share contents (w', c'))"
    by (auto simp: inline_dispatch_def call_ops share_def queued_def split: RunnerMode.splits)
  then show ?thesis by (metis delivered)
qed (auto simp: call_ops share_def queued_def split: list.splits RunnerMode.splits intro!: quiet)


text \<open>The pipeline follows: \<open>M\<close> is what the other calls carry.\<close>

lemma queue_split:
  assumes "e \<in># mset q"
  obtains q1 q2 where "q = q1 @ e # q2"
  using assms by (auto dest: split_list)

lemma pipeline_dispatch:
  assumes "add_mset e b \<subseteq># mset (sys_queue y)"
  shows "\<exists>y'. (system_step R)\<^sup>*\<^sup>* y y' \<and> sys_world y' = drain_one R e (sys_world y) \<and> sys_tasks y' = sys_tasks y
              \<and> b \<subseteq># mset (sys_queue y')"
proof -
  obtain s q ts where y: "y = \<lparr>sys_world = s, sys_queue = q, sys_tasks = ts\<rparr>" by (cases y)
  have "e \<in># mset q" using assms by (metis y effect_system.select_convs(2) insert_subset_eq_iff)
  then obtain q1 q2 where q: "q = q1 @ e # q2" by (rule queue_split)
  have "system_step R y \<lparr>sys_world = s, sys_queue = q1 @ q2, sys_tasks = ts @ [FreshTask e]\<rparr>"
    unfolding y q by (rule system_step.dequeue)
  moreover have "system_step R \<lparr>sys_world = s, sys_queue = q1 @ q2, sys_tasks = ts @ [FreshTask e]\<rparr>
      \<lparr>sys_world = drain_one R e s, sys_queue = q1 @ q2, sys_tasks = ts\<rparr>"
    using system_step.run [of R s "q1 @ q2" ts "FreshTask e" "[]"] by simp
  ultimately have "(system_step R)\<^sup>*\<^sup>* y \<lparr>sys_world = drain_one R e s, sys_queue = q1 @ q2, sys_tasks = ts\<rparr>" by simp
  moreover have "b \<subseteq># mset (q1 @ q2)" using assms by (simp add: y q)
  ultimately show ?thesis by (auto simp: y)
qed

lemma call_effect_pipelined:
  assumes "call_effect A s b s' b'" "sys_world y = s" "b + M \<subseteq># mset (sys_queue y)"
  shows "\<exists>y'. (system_step (ra_runner A))\<^sup>*\<^sup>* y y' \<and> sys_world y' = s' \<and> sys_tasks y' = sys_tasks y
              \<and> b' + M \<subseteq># mset (sys_queue y')"
  using assms
proof (induction rule: call_effect.induct)
  case (quiet b' b s)
  then have "b' + M \<subseteq># mset (sys_queue y)" by (meson subset_mset.add_right_mono subset_mset.order_trans)
  then show ?case using quiet by blast
next
  case (stored e s s' b' b)
  obtain q ts where y: "y = \<lparr>sys_world = s, sys_queue = q, sys_tasks = ts\<rparr>" using stored(3) by (cases y) simp
  let ?y' = "\<lparr>sys_world = s', sys_queue = q @ [e], sys_tasks = ts\<rparr>"
  have "(system_step (ra_runner A))\<^sup>*\<^sup>* y ?y'" unfolding y using system_step.accept [OF stored(1)] by blast
  moreover have "b' + M \<subseteq># mset (q @ [e])"
  proof -
    have "b' + M \<subseteq># (b + M) + {#e#}" using stored(2) by (simp add: union_commute subset_mset.add_right_mono)
    also have "\<dots> \<subseteq># mset q + {#e#}" using stored(4) y by simp
    finally show ?thesis by simp
  qed
  ultimately show ?case by (intro exI [of _ ?y']) (simp add: y)
next
  case (not_stored e s err s' b' b)
  obtain q ts where y: "y = \<lparr>sys_world = s, sys_queue = q, sys_tasks = ts\<rparr>" using not_stored(3) by (cases y) simp
  let ?y' = "\<lparr>sys_world = s', sys_queue = q, sys_tasks = ts\<rparr>"
  have "(system_step (ra_runner A))\<^sup>*\<^sup>* y ?y'" unfolding y using system_step.accept_refused [OF not_stored(1)] by blast
  moreover have "b' + M \<subseteq># mset q" using not_stored(2,4) y by (metis effect_system.select_convs(2) subset_mset.add_right_mono subset_mset.order_trans)
  ultimately show ?case by (intro exI [of _ ?y']) (simp add: y)
next
  case (delivered b e b' s)
  then show ?case using pipeline_dispatch [of e "b' + M" y "ra_runner A"] by auto
qed

lemma in_transit_split:
  "ap_calls w = cs @ c # cs' \<Longrightarrow>
     in_transit contents w = share contents (w, c) + (\<Sum>c\<in>#mset (cs @ cs'). carried (cl_phase c))"
  by (simp add: in_transit_def share_def ac_simps)

lemma calling_pipelined:
  assumes "fifo_channel (ra_channel A) contents" "ap_calls w = cs @ c # cs'" "call_step A w c (w', c')"
    and "pipelined contents w y"
  shows "\<exists>y'. (system_step (ra_runner A))\<^sup>*\<^sup>* y y' \<and> pipelined contents (w'\<lparr>ap_calls := cs @ c' # cs'\<rparr>) y'"
proof -
  let ?M = "\<Sum>c\<in>#mset (cs @ cs'). carried (cl_phase c)" and ?w = "w'\<lparr>ap_calls := cs @ c' # cs'\<rparr>"
  have sh: "in_transit contents ?w = share contents (w', c') + ?M"
    using in_transit_split [of ?w cs c' cs' contents] by (simp add: share_def queued_def)
  have y: "sys_world y = ap_world w" "sys_tasks y = ap_tasks w" "share contents (w, c) + ?M \<subseteq># mset (sys_queue y)"
    using assms(4) in_transit_split [OF assms(2), of contents] by (simp_all add: pipelined_def)
  obtain y' where y': "(system_step (ra_runner A))\<^sup>*\<^sup>* y y'" "sys_world y' = ap_world w'" "sys_tasks y' = sys_tasks y"
      "share contents (w', c') + ?M \<subseteq># mset (sys_queue y')"
    using call_effect_pipelined [OF call_step_effect [OF assms(1,3)] y(1,3)] by blast
  have "ap_tasks w' = ap_tasks w" using call_step_frame [OF assms(3)] by (simp add: call_frame_def)
  then have "pipelined contents ?w y'" using y' y(2) sh by (simp add: pipelined_def)
  then show ?thesis using y'(1) by blast
qed

lemma recv_pipelined:
  assumes "fifo_channel (ra_channel A) contents" "EffectQueue_recv (ra_channel A) (ap_queue w) = (Some (Some e), q)"
    and "pipelined contents w y"
  obtains q1 q2 where "sys_queue y = q1 @ e # q2"
    "in_transit contents (w\<lparr>ap_queue := q\<rparr>) \<subseteq># mset (q1 @ q2)"
proof -
  have "queued contents w = e # contents (q_channel q)"
    using queue_recv_channel [OF assms(1,2)] by (simp add: queued_def)
  then have t: "in_transit contents w = add_mset e (in_transit contents (w\<lparr>ap_queue := q\<rparr>))"
    by (simp add: in_transit_def queued_def)
  then have "e \<in># mset (sys_queue y)" using assms(3) by (metis pipelined_def insert_subset_eq_iff)
  then obtain q1 q2 where "sys_queue y = q1 @ e # q2" by (rule queue_split)
  moreover have "in_transit contents (w\<lparr>ap_queue := q\<rparr>) \<subseteq># mset (q1 @ q2)"
    using assms(3) t calculation by (simp add: pipelined_def)
  ultimately show ?thesis using that by blast
qed

text \<open>Steps that touch neither the world nor what is in transit.\<close>

lemma pipelined_same:
  assumes "pipelined contents w y" "ap_world w' = ap_world w" "ap_tasks w' = ap_tasks w"
    and "q_channel (ap_queue w') = q_channel (ap_queue w)"
    and "(\<Sum>c\<in>#mset (ap_calls w'). carried (cl_phase c)) = (\<Sum>c\<in>#mset (ap_calls w). carried (cl_phase c))"
  shows "pipelined contents w' y"
  using assms by (simp add: pipelined_def in_transit_def queued_def)

lemma acceptor_step_pipelined:
  assumes "fifo_channel (ra_channel A) contents" "acceptor_step A w w'" "pipelined contents w y"
  shows "\<exists>y'. (system_step (ra_runner A))\<^sup>*\<^sup>* y y' \<and> pipelined contents w' y'"
  using assms(2)
proof (cases rule: acceptor_step.cases)
  case (entering tenant effects)
  have "pipelined contents w' y"
    by (rule pipelined_same [OF assms(3)])
       (auto simp: entering accept_enter_def gate_enter_def Let_def split: LifecycleState.splits)
  then show ?thesis by blast
next
  case (calling cs c cs' w'' c')
  then show ?thesis using calling_pipelined [OF assms(1) calling(2,3) assms(3)] by simp
next
  case (dequeuing e q)
  obtain q1 q2 where q: "sys_queue y = q1 @ e # q2" "in_transit contents (w\<lparr>ap_queue := q\<rparr>) \<subseteq># mset (q1 @ q2)"
    using recv_pipelined [OF assms(1) dequeuing(3) assms(3)] by blast
  obtain s ts where y: "y = \<lparr>sys_world = s, sys_queue = q1 @ e # q2, sys_tasks = ts\<rparr>" using q(1) by (cases y) simp
  have "system_step (ra_runner A) y \<lparr>sys_world = s, sys_queue = q1 @ q2, sys_tasks = ts @ [FreshTask e]\<rparr>"
    unfolding y by (rule system_step.dequeue)
  moreover have "pipelined contents w' \<lparr>sys_world = s, sys_queue = q1 @ q2, sys_tasks = ts @ [FreshTask e]\<rparr>"
    using assms(3) q(2) dequeuing(1) y by (simp add: pipelined_def in_transit_def queued_def)
  ultimately show ?thesis by blast
next
  case (dropping e q)
  obtain q1 q2 where q: "sys_queue y = q1 @ e # q2" "in_transit contents (w\<lparr>ap_queue := q\<rparr>) \<subseteq># mset (q1 @ q2)"
    using recv_pipelined [OF assms(1) dropping(4) assms(3)] by blast
  obtain s ts where y: "y = \<lparr>sys_world = s, sys_queue = q1 @ e # q2, sys_tasks = ts\<rparr>" using q(1) by (cases y) simp
  have "system_step (ra_runner A) y \<lparr>sys_world = s, sys_queue = q1 @ q2, sys_tasks = ts\<rparr>"
    unfolding y by (rule system_step.drop_queued)
  moreover have "pipelined contents w' \<lparr>sys_world = s, sys_queue = q1 @ q2, sys_tasks = ts\<rparr>"
    using assms(3) q(2) dropping(1) y by (simp add: pipelined_def in_transit_def queued_def)
  ultimately show ?thesis by blast
next
  case (reclaiming permits es cont s)
  obtain q ts where y: "y = \<lparr>sys_world = ap_world w, sys_queue = q, sys_tasks = ts\<rparr>"
    using assms(3) by (cases y) (simp add: pipelined_def)
  have "system_step (ra_runner A) y \<lparr>sys_world = s, sys_queue = q, sys_tasks = ts @ map ReclaimedTask es\<rparr>"
    unfolding y by (rule system_step.reclaim [OF reclaiming(3)])
  moreover have "pipelined contents w' \<lparr>sys_world = s, sys_queue = q, sys_tasks = ts @ map ReclaimedTask es\<rparr>"
    using assms(3) reclaiming(1) y by (simp add: pipelined_def in_transit_def queued_def)
  ultimately show ?thesis by blast
next
  case (running ts t ts')
  obtain q where y: "y = \<lparr>sys_world = ap_world w, sys_queue = q, sys_tasks = ts @ t # ts'\<rparr>"
    using assms(3) running(2) by (cases y) (simp add: pipelined_def)
  have "system_step (ra_runner A) y \<lparr>sys_world = run_task (ra_runner A) t (ap_world w), sys_queue = q, sys_tasks = ts @ ts'\<rparr>"
    unfolding y by (rule system_step.run)
  moreover have "pipelined contents w' \<lparr>sys_world = run_task (ra_runner A) t (ap_world w), sys_queue = q, sys_tasks = ts @ ts'\<rparr>"
    using assms(3) running(1) y by (simp add: pipelined_def in_transit_def queued_def)
  ultimately show ?thesis by blast
next
  case (aborting ts t ts')
  obtain q where y: "y = \<lparr>sys_world = ap_world w, sys_queue = q, sys_tasks = ts @ t # ts'\<rparr>"
    using assms(3) aborting(3) by (cases y) (simp add: pipelined_def)
  have "system_step (ra_runner A) y \<lparr>sys_world = ap_world w, sys_queue = q, sys_tasks = ts @ ts'\<rparr>"
    unfolding y by (rule system_step.abort_task)
  moreover have "pipelined contents w' \<lparr>sys_world = ap_world w, sys_queue = q, sys_tasks = ts @ ts'\<rparr>"
    using assms(3) aborting(1) y by (simp add: pipelined_def in_transit_def queued_def)
  ultimately show ?thesis by blast
qed (use assms(3) in \<open>auto intro!: exI [of _ y] pipelined_same [OF assms(3)]
       simp: shutdown_begin_def shutdown_stop_def shutdown_close_def Let_def\<close>)


lemma acceptor_run_pipelined:
  assumes "fifo_channel (ra_channel A) contents" "(acceptor_step A)\<^sup>*\<^sup>* w w'" "pipelined contents w y"
  shows "\<exists>y'. (system_step (ra_runner A))\<^sup>*\<^sup>* y y' \<and> pipelined contents w' y'"
  using assms(2)
proof (induction rule: rtranclp_induct)
  case base
  then show ?case using assms(3) by blast
next
  case (step w1 w2)
  then show ?case using acceptor_step_pipelined [OF assms(1)] by (meson rtranclp_trans)
qed

lemma acceptor_new_pipelined:
  "fifo_channel C contents \<Longrightarrow>
     pipelined contents (acceptor_new C config s) \<lparr>sys_world = s, sys_queue = [], sys_tasks = []\<rparr>"
  by (simp add: pipelined_def in_transit_def queued_def acceptor_new_def EffectQueue_bounded_def fifo_channel_def)

section \<open>What a call reports\<close>

fun error_index :: "EffectAcceptanceError \<Rightarrow> nat" where
  "error_index (RetriesExhausted m i k) = i"
| "error_index (Permanent m i k) = i"

fun error_key :: "EffectAcceptanceError \<Rightarrow> IdempotencyKey" where
  "error_key (RetriesExhausted m i k) = k"
| "error_key (Permanent m i k) = k"

text \<open>The effect a call is working on, and those of them that are in the store already.\<close>

fun current :: "call_phase \<Rightarrow> AcceptedEffect list" where
  "current (Storing e n) = [e]"
| "current (BackingOff e n) = [e]"
| "current (Locking e) = [e]"
| "current (Sending e) = [e]"
| "current (Receiving e) = [e]"
| "current (Dispatching sent e) = [sent]"
| "current _ = []"

fun current_stored :: "call_phase \<Rightarrow> AcceptedEffect list" where
  "current_stored (Locking e) = [e]"
| "current_stored (Sending e) = [e]"
| "current_stored (Receiving e) = [e]"
| "current_stored (Dispatching sent e) = [sent]"
| "current_stored _ = []"

definition effects_for :: "call \<Rightarrow> AcceptedEffect list \<Rightarrow> bool" where
  "effects_for c es \<longleftrightarrow>
     map ae_description es = take (length es) (cl_batch c) \<and> (\<forall>e \<in> set es. ae_tenant e = cl_tenant c)"

text \<open>
  The call has worked off a prefix of its batch, is at the next one, and if it has returned then with
  the index and key of the one after the prefix.
\<close>

definition well_called :: "call \<Rightarrow> bool" where
  "well_called c \<longleftrightarrow>
     effects_for c (cl_done c @ current (cl_phase c)) \<and>
     (case cl_phase c of
        Returned (Inr _) \<Rightarrow> length (cl_done c) = length (cl_batch c)
      | Returned (Inl err) \<Rightarrow>
          error_index err = length (cl_done c) \<and>
          (if length (cl_done c) < length (cl_batch c)
           then error_key err = ed_idempotency_key (cl_batch c ! length (cl_done c))
           else cl_batch c = [])
      | _ \<Rightarrow> True)"

lemma effects_for_prefix: "effects_for c (es @ es') \<Longrightarrow> effects_for c es"
proof -
  assume *: "effects_for c (es @ es')"
  then have "take (length es) (map ae_description (es @ es')) = take (length es) (take (length (es @ es')) (cl_batch c))"
    unfolding effects_for_def by metis
  then show ?thesis using * by (simp add: effects_for_def min_def)
qed

lemma effects_for_next:
  assumes "effects_for c (es @ [e])"
  shows "length es < length (cl_batch c) \<and> ed_idempotency_key (cl_batch c ! length es) = effect_key e"
proof -
  have eq: "map ae_description es @ [ae_description e] = take (Suc (length es)) (cl_batch c)"
    using assms by (simp add: effects_for_def)
  then have len: "Suc (length es) = length (take (Suc (length es)) (cl_batch c))"
    by (metis length_append_singleton length_map)
  moreover have "cl_batch c ! length es = ae_description e"
    using arg_cong [OF eq, of "\<lambda>xs. xs ! length es"] len by (simp add: nth_append)
  ultimately show ?thesis by (auto simp: effect_key_def)
qed

lemma effects_for_more:
  assumes "effects_for c es" "drop (length es) (cl_batch c) = d # ds"
  shows "effects_for c (es @ [\<lparr>ae_id = i, ae_tenant = cl_tenant c, ae_attempt = 0, ae_description = d\<rparr>])"
proof -
  have "length es < length (cl_batch c)" "cl_batch c ! length es = d"
    using assms(2) by (metis drop_all linorder_not_le list.discI, metis hd_drop_conv_nth drop_all linorder_not_le list.discI list.sel(1))
  then show ?thesis using assms(1) by (simp add: effects_for_def take_Suc_conv_app_nth)
qed

lemma effects_for_all: "effects_for c es \<Longrightarrow> drop (length es) (cl_batch c) = [] \<Longrightarrow> length es = length (cl_batch c)"
  unfolding effects_for_def by (metis drop_eq_Nil length_map length_take min_def)


lemma effects_for_same: "cl_batch c' = cl_batch c \<Longrightarrow> cl_tenant c' = cl_tenant c \<Longrightarrow> effects_for c' es = effects_for c es"
  by (simp add: effects_for_def)

lemma well_called_return:
  assumes "well_called c" "current (cl_phase c) = [e]" "error_index err = length (cl_done c)" "error_key err = effect_key e"
  shows "well_called (c\<lparr>cl_phase := Returned (Err err)\<rparr>)"
proof -
  have *: "effects_for c (cl_done c @ [e])" using assms(1,2) by (simp add: well_called_def)
  note effects_for_next [OF *] effects_for_prefix [OF *]
  then show ?thesis using assms(3,4) by (simp add: well_called_def effects_for_same [of "c\<lparr>cl_phase := _\<rparr>" c])
qed

lemma well_called_move:
  assumes "well_called c" "current (cl_phase c) = [e]" "current ph = [e]"
  shows "well_called (c\<lparr>cl_phase := ph\<rparr>)"
  using assms by (cases ph) (simp_all add: well_called_def effects_for_same [of "c\<lparr>cl_phase := _\<rparr>" c])

lemma well_called_ok:
  assumes "well_called c" "current (cl_phase c) = [e]"
  shows "well_called (c\<lparr>cl_done := cl_done c @ [e], cl_phase := Looping\<rparr>)"
  using assms by (simp add: well_called_def effects_for_same [of "c\<lparr>cl_done := _, cl_phase := _\<rparr>" c])

lemma well_called_panic: "well_called c \<Longrightarrow> well_called (c\<lparr>cl_phase := Panicked\<rparr>)"
  using effects_for_prefix [of c "cl_done c" "current (cl_phase c)"]
  by (simp add: well_called_def effects_for_same [of "c\<lparr>cl_phase := _\<rparr>" c])

lemma well_called_next:
  assumes "well_called c" "cl_phase c = Looping" "accept_next i w c = (w', c')"
  shows "well_called c'"
proof (cases "drop (length (cl_done c)) (cl_batch c)")
  case Nil
  have "effects_for c (cl_done c)" using assms(1,2) by (simp add: well_called_def)
  moreover from this have "length (cl_done c) = length (cl_batch c)" using effects_for_all Nil by blast
  moreover have "c' = c\<lparr>cl_phase := Returned (Ok ())\<rparr>" using assms(3) Nil by (simp add: accept_next_def return_call_def)
  ultimately show ?thesis
    by (simp add: well_called_def effects_for_same [of "c\<lparr>cl_phase := _\<rparr>" c])
next
  case (Cons d ds)
  moreover have "effects_for c (cl_done c)" using assms(1,2) by (simp add: well_called_def)
  ultimately show ?thesis
    using assms effects_for_more [of c "cl_done c" d ds i]
    by (auto simp: accept_next_def well_called_def effects_for_same [of "c\<lparr>cl_phase := _\<rparr>" c])
qed

lemma well_called_step:
  assumes "fifo_channel (ra_channel A) contents" "call_step A w c (w', c')" "well_called c"
  shows "well_called c'"
  using assms(2)
proof (cases rule: call_step.cases)
  case (next_effect i)
  then show ?thesis using well_called_next assms(3) by metis
next
  case (store_answers e attempt n)
  then show ?thesis
    using assms(3)
    by (auto simp: accept_into_store_def call_ops Let_def intro: well_called_return [where e = e] well_called_move [where e = e]
        split: prod.splits sum.splits EffectStoreError.splits if_splits RunnerMode.splits)
next
  case (send e)
  obtain r q where p: "EffectQueue_send_poll (ra_channel A) e (ap_queue w) = (r, q)" by fastforce
  note queue_send_channel [OF assms(1) p]
  then show ?thesis
    using assms(3) send p
    by (auto simp: send_to_queue_def call_ops Let_def intro: well_called_return [where e = e] well_called_move [where e = e] well_called_ok
        split: option.splits sum.splits RunnerMode.splits)
next
  case (receive e)
  then show ?thesis
    using assms(3)
    by (auto simp: inline_receive_def call_ops intro!: well_called_panic well_called_move [where e = e]
        split: prod.splits option.splits RunnerMode.splits)
next
  case (store_cut e attempt performed)
  then show ?thesis using assms(3) by (auto simp: call_ops intro!: well_called_return [where e = e] split: if_splits)
next
  case (backoff_over e attempt)
  then show ?thesis using assms(3) by (auto intro!: well_called_move [where e = e])
next
  case (backoff_cut e attempt)
  then show ?thesis using assms(3) by (auto simp: call_ops intro!: well_called_return [where e = e])
next
  case (lock e)
  then show ?thesis using assms(3) by (auto simp: call_ops intro!: well_called_move [where e = e])
next
  case (send_cut e)
  then show ?thesis using assms(3) by (auto simp: call_ops intro!: well_called_return [where e = e])
next
  case (dispatch sent e)
  then show ?thesis using assms(3) by (auto simp: call_ops inline_dispatch_def intro!: well_called_ok)
qed


lemma well_called_enter:
  "well_called \<lparr>cl_tenant = t, cl_batch = ds, cl_done = [], cl_phase = Looping\<rparr>"
  "well_called \<lparr>cl_tenant = t, cl_batch = ds, cl_done = [],
     cl_phase = Returned (Err (Permanent m 0 (case ds of d # _ \<Rightarrow> ed_idempotency_key d | [] \<Rightarrow> k)))\<rparr>"
  by (auto simp: well_called_def effects_for_def split: list.splits)

lemma well_called_run:
  assumes "fifo_channel (ra_channel A) contents" "acceptor_step A w w'" "\<forall>c \<in> set (ap_calls w). well_called c"
  shows "\<forall>c \<in> set (ap_calls w'). well_called c"
  using assms(2)
proof (cases rule: acceptor_step.cases)
  case (calling cs c cs' w1 c1)
  then show ?thesis using well_called_step [OF assms(1) calling(3)] assms(3) by auto
next
  case (entering tenant effects)
  then show ?thesis
    using assms(3) well_called_enter
    by (auto simp: accept_enter_def gate_enter_def Let_def split: LifecycleState.splits)
qed (use assms(3) in \<open>auto simp: shutdown_begin_def shutdown_stop_def shutdown_close_def Let_def\<close>)

definition stored_effects :: "call \<Rightarrow> AcceptedEffect set" where
  "stored_effects c = set (cl_done c) \<union> set (current_stored (cl_phase c))"

lemma call_step_stored:
  assumes "call_step A w c (w', c')"
  shows "stored_effects c' \<subseteq> stored_effects c \<or>
         (\<exists>e. port_accept (dr_state (ra_runner A)) e (ap_world w) = (Ok (), ap_world w') \<and>
              stored_effects c' = insert e (stored_effects c))"
  using assms
proof (cases rule: call_step.cases)
  case (store_answers e attempt n)
  obtain r s where p: "port_accept (dr_state (ra_runner A)) e (ap_world w) = (r, s)" by fastforce
  show ?thesis
  proof (cases r)
    case (Inr u)
    then have "ap_world w' = s \<and> stored_effects c' = insert e (stored_effects c)"
      using store_answers p
      by (auto simp: accept_into_store_def call_ops stored_effects_def Let_def split: RunnerMode.splits)
    then show ?thesis using p Inr by auto
  next
    case (Inl err)
    then have "stored_effects c' \<subseteq> stored_effects c"
      using store_answers p
      by (auto simp: accept_into_store_def call_ops stored_effects_def Let_def split: EffectStoreError.splits if_splits)
    then show ?thesis by blast
  qed
qed (auto simp: call_ops stored_effects_def send_to_queue_def inline_receive_def inline_dispatch_def Let_def
       split: list.splits RunnerMode.splits prod.splits option.splits sum.splits if_splits)

context effect_world
begin

lemma system_step_content:
  assumes "system_step R y y'" "system_inv y" "content (store_of (sys_world y)) i = Some x"
  shows "content (store_of (sys_world y')) i = Some x"
  using assms
proof (induction rule: system_step.induct)
  case (accept e w w' q ts)
  then show ?case
    using port_law_Ok [OF accept_law accept(1)] content_accept [of "store_of w" i x e] by simp
next
  case (accept_refused e w err w' q ts)
  then show ?case
    using call_keeps [where Q = "\<lambda>st lg. content st i = Some x", OF accept_law, of w e] content_accept
    by simp
next
  case (reclaim permits w es cont w' q ts)
  then show ?case using reclaim_due_safe [of w permits es cont w'] by (simp add: system_inv_def)
next
  case (run w q ts t ts')
  then show ?case using run_task_safe [of w t] by (simp add: system_inv_def in_hand_def)
next
  case (recover now w r w')
  have "kept (content (store_of w)) (store_of w') (log_of w')"
    using call_keeps [where Q = "kept (content (store_of w))", OF recover_law, of w now] recover
    by (auto simp: system_inv_def inv_intros)
  then show ?case using recover by simp
qed simp_all

lemma reachable_content:
  assumes "(system_step R)\<^sup>*\<^sup>* y y'" "system_inv y" "content (store_of (sys_world y)) i = Some x"
  shows "content (store_of (sys_world y')) i = Some x"
  using assms(1)
proof (induction rule: rtranclp_induct)
  case (step y1 y2)
  then show ?case using system_step_content system_inv_reachable [OF step(1) assms(2)] by blast
qed (rule assms(3))

definition durable :: "('c, 's) acceptor \<Rightarrow> bool" where
  "durable w \<longleftrightarrow>
     (\<forall>c \<in> set (ap_calls w). \<forall>e \<in> stored_effects c.
        content (store_of (ap_world w)) (ae_id e) = Some (ae_tenant e, ae_description e))"

lemma durable_step:
  assumes "fifo_channel (ra_channel A) contents" "ra_runner A = R" "acceptor_step A w w'"
    and "pipelined contents w y" "system_inv y" "durable w"
  shows "durable w'"
proof -
  obtain y' where y': "(system_step R)\<^sup>*\<^sup>* y y'" "pipelined contents w' y'"
    using acceptor_step_pipelined [OF assms(1,3,4)] assms(2) by auto
  have mono: "content (store_of (ap_world w')) i = Some x" if "content (store_of (ap_world w)) i = Some x" for i x
    using reachable_content [OF y'(1) assms(5)] that assms(4) y'(2) by (simp add: pipelined_def)
  show ?thesis
    using assms(3)
  proof (cases rule: acceptor_step.cases)
    case (calling cs c cs' w1 c1)
    have old: "content (store_of (ap_world w')) (ae_id e) = Some (ae_tenant e, ae_description e)"
      if "d \<in> set (ap_calls w)" "e \<in> stored_effects d" for d e
      using assms(6) that mono by (auto simp: durable_def)
    have "content (store_of (ap_world w')) (ae_id e) = Some (ae_tenant e, ae_description e)"
      if "e \<in> stored_effects c1" for e
      using call_step_stored [OF calling(3)]
    proof
      assume "stored_effects c1 \<subseteq> stored_effects c"
      then show ?thesis using old [of c] that calling(2) by auto
    next
      assume "\<exists>e. port_accept (dr_state (ra_runner A)) e (ap_world w) = (Ok (), ap_world w1) \<and>
          stored_effects c1 = insert e (stored_effects c)"
      then obtain e' where e': "port_accept (dr_state R) e' (ap_world w) = (Ok (), ap_world w1)"
          "stored_effects c1 = insert e' (stored_effects c)"
        using assms(2) by auto
      have "content (store_of (ap_world w1)) (ae_id e') = Some (ae_tenant e', ae_description e')"
        using content_accepted [OF port_law_Ok [OF accept_law e'(1)]] .
      then show ?thesis using e'(2) that old [of c] calling(1,2) by auto
    qed
    then show ?thesis using old calling(1,2) by (auto simp: durable_def)
  qed (use assms(6) mono in \<open>auto simp: durable_def accept_enter_def gate_enter_def shutdown_begin_def shutdown_stop_def
         shutdown_close_def stored_effects_def Let_def split: LifecycleState.splits\<close>)
qed

end

end
