(* ===== verification/Ego_Effect_Acceptance_Properties.thy ===== *)
theory Ego_Effect_Acceptance_Properties
  imports Ego_Effect_Acceptance
begin

text \<open>
  What acceptance guarantees: the refinement of the pipeline, that a call reports exactly what it did, that
  inline dispatch hands each caller its own effect, and that a shutdown waits for the calls it admitted.
\<close>

section \<open>Shutdown and inline dispatch\<close>

fun active_phase :: "call_phase \<Rightarrow> bool" where
  "active_phase (Returned r) = False"
| "active_phase Panicked = False"
| "active_phase _ = True"

definition active_calls :: "('c, 's) acceptor \<Rightarrow> call list" where
  "active_calls w = filter (\<lambda>c. active_phase (cl_phase c)) (ap_calls w)"

text \<open>The gate counts the active calls, and a shutdown that saw none can rely on it.\<close>

definition gated :: "('c, 's) acceptor \<Rightarrow> bool" where
  "gated w \<longleftrightarrow>
     gate_in_flight (ap_gate w) = length (active_calls w) \<and>
     (case ap_stage w of
        Serving \<Rightarrow> True
      | AwaitingCalls d \<Rightarrow> gate_state (ap_gate w) = GateDraining d
      | Stopping outcome \<Rightarrow> gate_state (ap_gate w) \<noteq> GateRunning \<and> (outcome = AllDrained \<longrightarrow> active_calls w = [])
      | ShutDown outcome \<Rightarrow> gate_state (ap_gate w) \<noteq> GateRunning \<and> (outcome = AllDrained \<longrightarrow> active_calls w = []))"

lemma call_step_gate:
  assumes "call_step A w c (w', c')"
  shows "active_phase (cl_phase c) \<and>
         gate_in_flight (ap_gate w') = gate_in_flight (ap_gate w) - (if active_phase (cl_phase c') then 0 else 1)"
  using assms
  by (cases rule: call_step.cases)
     (auto simp: call_ops accept_into_store_def send_to_queue_def inline_receive_def inline_dispatch_def
        gate_exit_def Let_def split: prod.splits sum.splits option.splits list.splits RunnerMode.splits
        EffectStoreError.splits if_splits)

lemma gated_step:
  assumes "acceptor_step A w w'" "gated w"
  shows "gated w'"
  using assms(1)
proof (cases rule: acceptor_step.cases)
  case (calling cs c cs' w1 c1)
  have act: "active_phase (cl_phase c)"
    and n: "gate_in_flight (ap_gate w1) = gate_in_flight (ap_gate w) - (if active_phase (cl_phase c1) then 0 else 1)"
    using call_step_gate [OF calling(3)] by auto
  have "length (active_calls w') = length (active_calls w) - (if active_phase (cl_phase c1) then 0 else 1)"
      "active_calls w \<noteq> []"
    using act by (simp_all add: calling(1,2) active_calls_def)
  then show ?thesis
    using call_step_frame [OF calling(3)] assms(2) n calling(1)
    by (auto simp: gated_def call_frame_def active_calls_def split: shutdown_stage.splits)
next
  case (entering tenant effects)
  then show ?thesis
    using assms(2)
    by (auto simp: gated_def accept_enter_def gate_enter_def active_calls_def Let_def
        split: LifecycleState.splits shutdown_stage.splits)
next
  case (stopping d outcome)
  then show ?thesis
    using assms(2)
    by (auto simp: gated_def shutdown_stop_def wait_until_drained_def active_calls_def split: if_splits)
qed (use assms(2) in \<open>auto simp: gated_def shutdown_begin_def begin_draining_def shutdown_close_def gate_close_def
       active_calls_def Let_def split: shutdown_stage.splits\<close>)

definition settled :: "('c, 's) acceptor \<Rightarrow> bool" where
  "settled w \<longleftrightarrow> ap_stage w = Stopping AllDrained \<or> ap_stage w = ShutDown AllDrained"

definition rejected_call :: "call \<Rightarrow> bool" where
  "rejected_call c \<longleftrightarrow> cl_done c = [] \<and> (\<exists>k. cl_phase c = Returned (Err (Permanent SHUTDOWN_REJECTED_MSG 0 k)))"

lemma settled_step:
  assumes "fifo_channel (ra_channel A) contents" "acceptor_step A w w'" "gated w" "settled w"
  shows "settled w' \<and> (\<exists>gone. queued contents w = gone @ queued contents w') \<and>
         (\<exists>new. ap_calls w' = ap_calls w @ new \<and> (\<forall>c \<in> set new. rejected_call c))"
  using assms(2)
proof (cases rule: acceptor_step.cases)
  case (calling cs c cs' w1 c1)
  have "active_phase (cl_phase c)" using call_step_gate [OF calling(3)] by simp
  moreover have "active_calls w = []" using assms(3,4) by (auto simp: gated_def settled_def)
  ultimately show ?thesis by (simp add: calling(2) active_calls_def)
next
  case (dequeuing e q)
  then show ?thesis
    using queue_recv_channel [OF assms(1) dequeuing(3)] assms(4) by (simp add: settled_def queued_def)
next
  case (dropping e q)
  then show ?thesis
    using queue_recv_channel [OF assms(1) dropping(4)] assms(4) by (simp add: settled_def queued_def)
next
  case (entering tenant effects)
  moreover have "gate_state (ap_gate w) \<noteq> GateRunning" using assms(3,4) by (auto simp: gated_def settled_def)
  ultimately show ?thesis
    using assms(4)
    by (auto simp: settled_def accept_enter_def gate_enter_def queued_def rejected_call_def Let_def
        split: LifecycleState.splits)
qed (use assms(4) in \<open>auto simp: settled_def queued_def shutdown_begin_def shutdown_stop_def shutdown_close_def Let_def\<close>)

lemma gated_reachable: "(acceptor_step A)\<^sup>*\<^sup>* w w' \<Longrightarrow> gated w \<Longrightarrow> gated w'"
  by (induction rule: rtranclp_induct) (auto intro: gated_step)

lemma acceptor_new_gated: "gated (acceptor_new C config s)"
  by (simp add: gated_def acceptor_new_def LifecycleGate_new_def active_calls_def)

lemma settled_run:
  assumes "fifo_channel (ra_channel A) contents" "(acceptor_step A)\<^sup>*\<^sup>* w w'" "gated w" "settled w"
  shows "settled w' \<and> (\<exists>gone. queued contents w = gone @ queued contents w') \<and>
         (\<exists>new. ap_calls w' = ap_calls w @ new \<and> (\<forall>c \<in> set new. rejected_call c))"
  using assms(2)
proof (induction rule: rtranclp_induct)
  case base
  then show ?case using assms(4) by simp
next
  case (step w1 w2)
  have "gated w1" using gated_reachable [OF step(1) assms(3)] .
  then show ?case using settled_step [OF assms(1) step(2)] step(3) by fastforce
qed

text \<open>Who holds the receiver of an inline acceptor, and what the channel then contains.\<close>

fun holding :: "call_phase \<Rightarrow> bool" where
  "holding (Sending e) = True"
| "holding (Receiving e) = True"
| "holding (Dispatching sent e) = True"
| "holding _ = False"

fun handed_over :: "call_phase \<Rightarrow> AcceptedEffect list" where
  "handed_over (Receiving e) = [e]"
| "handed_over _ = []"

fun own_dispatch :: "call_phase \<Rightarrow> bool" where
  "own_dispatch (Dispatching sent e) = (sent = e)"
| "own_dispatch Panicked = False"
| "own_dispatch _ = True"

definition solo :: "('c \<Rightarrow> AcceptedEffect list) \<Rightarrow> ('c, 's) acceptor \<Rightarrow> bool" where
  "solo contents w \<longleftrightarrow>
     (case filter holding (map cl_phase (ap_calls w)) of
        [] \<Rightarrow> \<not> ap_locked w \<and> queued contents w = []
      | [ph] \<Rightarrow> ap_locked w \<and> queued contents w = handed_over ph
      | _ \<Rightarrow> False) \<and>
     (\<forall>c \<in> set (ap_calls w). own_dispatch (cl_phase c))"


definition others_idle :: "call list \<Rightarrow> bool" where
  "others_idle cs \<longleftrightarrow> filter holding (map cl_phase cs) = []"

lemma solo_holder:
  assumes "solo contents w" "ap_calls w = cs @ c # cs'" "holding (cl_phase c)"
  shows "others_idle (cs @ cs') \<and> ap_locked w \<and> queued contents w = handed_over (cl_phase c)"
  using assms by (auto simp: solo_def others_idle_def filter_empty_conv split: list.splits)
    (auto simp: filter_empty_conv append_eq_Cons_conv split: list.splits)

lemma solo_holderI:
  assumes "others_idle (cs @ cs')" "ap_locked w" "queued contents w = handed_over (cl_phase c)" "holding (cl_phase c)"
    and "ap_calls w = cs @ c # cs'" "\<forall>d \<in> set (ap_calls w). own_dispatch (cl_phase d)"
  shows "solo contents w"
  using assms by (simp add: solo_def others_idle_def)

lemma solo_freeI:
  assumes "others_idle (ap_calls w)" "\<not> ap_locked w" "queued contents w = []"
    and "\<forall>d \<in> set (ap_calls w). own_dispatch (cl_phase d)"
  shows "solo contents w"
  using assms by (simp add: solo_def others_idle_def)

lemma solo_waiting:
  assumes "solo contents w" "ap_calls w = cs @ c # cs'" "\<not> holding (cl_phase c)" "\<not> holding (cl_phase c')"
    and "own_dispatch (cl_phase c')" "ap_locked w' = ap_locked w" "queued contents w' = queued contents w"
    and "ap_calls w' = cs @ c' # cs'"
  shows "solo contents w'"
  using assms unfolding solo_def by (auto split: list.splits)

lemma solo_send:
  assumes "fifo_channel (ra_channel A) contents" "ra_runner_mode A = Inline"
    and "solo contents w" "ap_calls w = cs @ c # cs'" "cl_phase c = Sending e" "send_to_queue A e w c = (w', c')"
  shows "solo contents (w'\<lparr>ap_calls := cs @ c' # cs'\<rparr>)"
proof -
  obtain r q where p: "EffectQueue_send_poll (ra_channel A) e (ap_queue w) = (r, q)" by fastforce
  have h: "others_idle (cs @ cs')" "ap_locked w" "queued contents w = []"
    using solo_holder [OF assms(3,4)] assms(5) by simp_all
  have own: "\<forall>d \<in> set cs \<union> set cs'. own_dispatch (cl_phase d)" using assms(3,4) by (simp add: solo_def)
  note ch = queue_send_channel [OF assms(1) p]
  show ?thesis
  proof (cases "\<exists>e'. r = Some (Err e')")
    case True
    then show ?thesis
      using assms(2,6) p h own ch
      by (intro solo_freeI) (auto simp: send_to_queue_def call_ops queued_def others_idle_def Let_def)
  next
    case False
    then show ?thesis
      using assms(2,5,6) p h own ch
      by (intro solo_holderI [of cs cs' _ _ c'])
         (auto simp: send_to_queue_def call_ops queued_def Let_def split: option.splits sum.splits)
  qed
qed

lemma solo_receive:
  assumes "fifo_channel (ra_channel A) contents" "ra_runner_mode A = Inline"
    and "solo contents w" "ap_calls w = cs @ c # cs'" "cl_phase c = Receiving e" "inline_receive A e w c = (w', c')"
  shows "solo contents (w'\<lparr>ap_calls := cs @ c' # cs'\<rparr>)"
proof -
  obtain r q where p: "EffectQueue_recv (ra_channel A) (ap_queue w) = (r, q)" by fastforce
  have h: "others_idle (cs @ cs')" "ap_locked w" "queued contents w = [e]"
    using solo_holder [OF assms(3,4)] assms(5) by simp_all
  have own: "\<forall>d \<in> set cs \<union> set cs'. own_dispatch (cl_phase d)" using assms(3,4) by (simp add: solo_def)
  have "r = Some (Some e) \<and> contents (q_channel q) = []"
    using queue_recv_channel [OF assms(1) p] h(3) by (auto simp: queued_def split: option.splits)
  then have "w' = w\<lparr>ap_queue := q\<rparr>" "c' = c\<lparr>cl_phase := Dispatching e e\<rparr>" "contents (q_channel q) = []"
    using assms(6) p by (auto simp: inline_receive_def)
  then show ?thesis using h own by (intro solo_holderI [of cs cs' _ _ c']) (auto simp: queued_def)
qed

lemma solo_call:
  assumes "fifo_channel (ra_channel A) contents" "ra_runner_mode A = Inline"
    and "solo contents w" "ap_calls w = cs @ c # cs'" "call_step A w c (w', c')"
  shows "solo contents (w'\<lparr>ap_calls := cs @ c' # cs'\<rparr>)"
  using assms(5)
proof (cases rule: call_step.cases)
  case (send e)
  then show ?thesis using solo_send [OF assms(1-4)] by metis
next
  case (receive e)
  then show ?thesis using solo_receive [OF assms(1-4)] by metis
next
  case (lock e)
  have "others_idle (cs @ cs')" "queued contents w = []" "\<forall>d \<in> set cs \<union> set cs'. own_dispatch (cl_phase d)"
    using assms(3,4) lock(2,3) by (auto simp: solo_def others_idle_def split: list.splits)
  then show ?thesis
    using lock by (intro solo_holderI [of cs cs' _ _ c']) (auto simp: call_ops queued_def)
next
  case (send_cut e)
  then show ?thesis
    using solo_holder [OF assms(3,4)] assms(2-4)
    by (intro solo_freeI) (auto simp: call_ops queued_def others_idle_def solo_def)
next
  case (dispatch sent e)
  then show ?thesis
    using solo_holder [OF assms(3,4)] assms(2-4)
    by (intro solo_freeI) (auto simp: call_ops inline_dispatch_def queued_def others_idle_def solo_def)
next
  case (store_answers e attempt n)
  then show ?thesis
    using assms(2)
    by (intro solo_waiting [OF assms(3,4)])
       (auto simp: accept_into_store_def call_ops queued_def Let_def
         split: prod.splits sum.splits EffectStoreError.splits if_splits)
qed (intro solo_waiting [OF assms(3,4)]; auto simp: call_ops queued_def split: list.splits if_splits)+

lemma solo_step:
  assumes "fifo_channel (ra_channel A) contents" "ra_runner_mode A = Inline" "acceptor_step A w w'" "solo contents w"
  shows "solo contents w'"
  using assms(3)
proof (cases rule: acceptor_step.cases)
  case (calling cs c cs' w1 c1)
  then show ?thesis using solo_call [OF assms(1,2,4)] by simp
next
  case (entering tenant effects)
  then show ?thesis
    using assms(4)
    by (auto simp: accept_enter_def gate_enter_def solo_def queued_def Let_def split: LifecycleState.splits list.splits)
qed (use assms(2,4) in \<open>auto simp: solo_def queued_def shutdown_begin_def shutdown_stop_def shutdown_close_def Let_def
       split: list.splits\<close>)


section \<open>A sample run\<close>

text \<open>A channel that keeps its capacity and its messages.\<close>

definition list_channel :: "(nat \<times> AcceptedEffect list) channel" where
  "list_channel =
     \<lparr>ch_new = (\<lambda>n. (n, [])),
      ch_send = (\<lambda>e c. if length (snd c) < fst c then (Some (Ok ()), (fst c, snd c @ [e])) else (None, c)),
      ch_recv = (\<lambda>c. case snd c of e # es \<Rightarrow> (Some (Some e), (fst c, es)) | [] \<Rightarrow> (None, c)),
      ch_capacity = (\<lambda>c. fst c - length (snd c)), ch_max_capacity = fst\<rparr>"

lemma list_channel_fifo: "fifo_channel list_channel snd"
  by (auto simp: fifo_channel_def list_channel_def split: list.splits if_splits)

text \<open>One inline call with one effect, and a shutdown after it returned.\<close>

definition ex_acceptor :: "(nat \<times> AcceptedEffect list, unit memory_world) RuntimeEffectAcceptor" where
  "ex_acceptor = acceptor_config list_channel (transport_runner (\<lambda>_. []) (ex_env (Joined Success))) DeliveryConfig_immediate"

definition ex_world :: "nat \<Rightarrow> unit memory_world" where
  "ex_world k =
     (let s0 = sys_world (initial_system [] ());
          s1 = snd (port_accept (dr_state (ra_runner ex_acceptor)) ex_accepted s0)
      in if k = 0 then s0 else if k = 1 then s1 else drain_one (ra_runner ex_acceptor) ex_accepted s1)"

definition ex_state ::
  "unit memory_world \<Rightarrow> AcceptedEffect list \<Rightarrow> bool \<Rightarrow> bool \<Rightarrow> nat \<Rightarrow> AcceptedEffect list \<Rightarrow> call_phase \<Rightarrow>
   (nat \<times> AcceptedEffect list, unit memory_world) acceptor" where
  "ex_state s q pending locked n dn ph =
     \<lparr>ap_world = s,
      ap_queue = \<lparr>q_channel = (1, q), q_pending_since = Map.empty(EffectId 1 := (if pending then Some 0 else None))\<rparr>,
      ap_locked = locked, ap_gate = \<lparr>gate_state = GateRunning, gate_in_flight = n\<rparr>, ap_deadline = None,
      ap_shutdown = False, ap_now = 0,
      ap_calls = [\<lparr>cl_tenant = TenantId ''acme'', cl_batch = [ex_description], cl_done = dn, cl_phase = ph\<rparr>],
      ap_tasks = [], ap_stage = Serving\<rparr>"

lemma ex_store: "port_accept (dr_state (ra_runner ex_acceptor)) ex_accepted (ex_world 0) = (Ok (), ex_world 1)"
  by (simp add: ex_world_def ex_acceptor_def acceptor_config_def transport_runner_def runner_with_def call_transport_def
      call_memory_def initial_system_def EffectStore_accept_def EffectStore_new_def)

lemma ex_mode: "ra_runner_mode ex_acceptor = Inline" "ra_channel ex_acceptor = list_channel"
  by (simp_all add: ex_acceptor_def acceptor_config_def DeliveryConfig_immediate_def)

lemma ex_call_step:
  assumes "call_step ex_acceptor w (hd (ap_calls w)) r" "length (ap_calls w) = 1" "w' = (fst r)\<lparr>ap_calls := [snd r]\<rparr>"
  shows "acceptor_step ex_acceptor w w'"
proof -
  obtain c where "ap_calls w = [c]" using assms(2) by (auto simp: length_Suc_conv)
  then show ?thesis using calling [of w "[]" c "[]" ex_acceptor "fst r" "snd r"] assms by simp
qed

lemmas ex_call_defs =
  ex_state_def ex_mode ex_store call_ops accept_into_store_def send_to_queue_def inline_receive_def inline_dispatch_def
  EffectQueue_send_begin_def EffectQueue_send_poll_def EffectQueue_recv_def forget_pending_def list_channel_def
  gate_exit_def Let_def

lemma ex_steps:
  shows ex_enter: "acceptor_step ex_acceptor (acceptor_new list_channel DeliveryConfig_immediate (ex_world 0))
      (ex_state (ex_world 0) [] False False 1 [] Looping)"
    and ex_mint: "acceptor_step ex_acceptor (ex_state (ex_world 0) [] False False 1 [] Looping)
      (ex_state (ex_world 0) [] False False 1 [] (Storing ex_accepted 0))"
    and ex_stored: "acceptor_step ex_acceptor (ex_state (ex_world 0) [] False False 1 [] (Storing ex_accepted 0))
      (ex_state (ex_world 1) [] False False 1 [] (Locking ex_accepted))"
    and ex_lock: "acceptor_step ex_acceptor (ex_state (ex_world 1) [] False False 1 [] (Locking ex_accepted))
      (ex_state (ex_world 1) [] True True 1 [] (Sending ex_accepted))"
    and ex_send: "acceptor_step ex_acceptor (ex_state (ex_world 1) [] True True 1 [] (Sending ex_accepted))
      (ex_state (ex_world 1) [ex_accepted] True True 1 [] (Receiving ex_accepted))"
    and ex_recv: "acceptor_step ex_acceptor (ex_state (ex_world 1) [ex_accepted] True True 1 [] (Receiving ex_accepted))
      (ex_state (ex_world 1) [] False True 1 [] (Dispatching ex_accepted ex_accepted))"
    and ex_dispatch: "acceptor_step ex_acceptor (ex_state (ex_world 1) [] False True 1 [] (Dispatching ex_accepted ex_accepted))
      (ex_state (ex_world 2) [] False False 1 [ex_accepted] Looping)"
    and ex_return: "acceptor_step ex_acceptor (ex_state (ex_world 2) [] False False 1 [ex_accepted] Looping)
      (ex_state (ex_world 2) [] False False 0 [ex_accepted] (Returned (Ok ())))"
  subgoal
    using entering [of ex_acceptor "acceptor_new list_channel DeliveryConfig_immediate (ex_world 0)" "TenantId ''acme''" "[ex_description]"]
    by (simp add: ex_state_def accept_enter_def acceptor_new_def EffectQueue_bounded_def list_channel_def
        DeliveryConfig_immediate_def gate_enter_def LifecycleGate_new_def)
  subgoal
    by (rule ex_call_step [OF call_step.next_effect [where i = "EffectId 1"]])
       (simp_all add: ex_call_defs ex_accepted_def)
  subgoal
    by (rule ex_call_step [OF call_step.store_answers [where e = ex_accepted and attempt = 0 and n = 0]])
       (simp_all add: ex_call_defs)
  subgoal
    by (rule ex_call_step [OF call_step.lock [where e = ex_accepted]]) (simp_all add: ex_call_defs ex_accepted_def)
  subgoal
    by (rule ex_call_step [OF call_step.send [where e = ex_accepted]]) (simp_all add: ex_call_defs)
  subgoal
    by (rule ex_call_step [OF call_step.receive [where e = ex_accepted]]) (simp_all add: ex_call_defs ex_accepted_def)
  subgoal
    by (rule ex_call_step [OF call_step.dispatch [where e = ex_accepted and sent = ex_accepted]])
       (simp_all add: ex_call_defs ex_world_def)
  subgoal
    by (rule ex_call_step [OF call_step.next_effect [where i = "EffectId 2"]]) (simp_all add: ex_call_defs)
  done


lemma ex_run:
  "(acceptor_step ex_acceptor)\<^sup>*\<^sup>* (acceptor_new list_channel DeliveryConfig_immediate (ex_world 0))
     (ex_state (ex_world 1) [] True True 1 [] (Sending ex_accepted))"
  using ex_enter ex_mint ex_stored ex_lock by (meson rtranclp.intros)

lemma ex_run_dispatch:
  "(acceptor_step ex_acceptor)\<^sup>*\<^sup>* (acceptor_new list_channel DeliveryConfig_immediate (ex_world 0))
     (ex_state (ex_world 1) [] False True 1 [] (Dispatching ex_accepted ex_accepted))"
  using ex_run ex_send ex_recv by (meson rtranclp.intros)

lemma ex_run_returned:
  "(acceptor_step ex_acceptor)\<^sup>*\<^sup>* (acceptor_new list_channel DeliveryConfig_immediate (ex_world 0))
     (ex_state (ex_world 2) [] False False 0 [ex_accepted] (Returned (Ok ())))"
  using ex_run_dispatch ex_dispatch ex_return by (meson rtranclp.intros)

definition ex_stopped :: "(nat \<times> AcceptedEffect list, unit memory_world) acceptor" where
  "ex_stopped = shutdown_stop AllDrained (shutdown_begin 5 (ex_state (ex_world 2) [] False False 0 [ex_accepted] (Returned (Ok ()))))"

lemma ex_run_stopped:
  "(acceptor_step ex_acceptor)\<^sup>*\<^sup>* (acceptor_new list_channel DeliveryConfig_immediate (ex_world 0)) ex_stopped"
proof -
  let ?w = "ex_state (ex_world 2) [] False False 0 [ex_accepted] (Returned (Ok ()))"
  have "acceptor_step ex_acceptor ?w (shutdown_begin 5 ?w)" by (rule shutting) (simp add: ex_state_def)
  moreover have "acceptor_step ex_acceptor (shutdown_begin 5 ?w) ex_stopped"
    unfolding ex_stopped_def
    by (rule stopping) (simp_all add: shutdown_begin_def ex_state_def wait_until_drained_def begin_draining_def Let_def)
  ultimately show ?thesis using ex_run_returned by (meson rtranclp.intros)
qed

section \<open>Properties\<close>

text \<open>
  C16: The acceptor refines the delivery pipeline. Whatever concurrent \<open>accept\<close> calls, the channel, the
  runner, the clock and a shutdown do to a fresh acceptor, in either mode and over arbitrary stores and
  executors, the pipeline of \<open>system_step\<close> can do with the same runner: it reaches the same world with the
  same tasks, and what it has accepted and not dispatched includes everything the channel and the calls
  still carry. So what holds of every reachable state of the pipeline (no false success, at most one
  delivery) holds under the real acceptor.
\<close>

theorem acceptor_refines_pipeline:
  assumes "fifo_channel C contents"
    and "(acceptor_step (acceptor_config C R config))\<^sup>*\<^sup>* (acceptor_new C config s) w"
  shows "\<exists>y. (system_step (R\<lparr>dr_retry := RetryPolicies_new (retry config)\<rparr>))\<^sup>*\<^sup>*
               \<lparr>sys_world = s, sys_queue = [], sys_tasks = []\<rparr> y
           \<and> sys_world y = ap_world w \<and> sys_tasks y = ap_tasks w
           \<and> in_transit contents w \<subseteq># mset (sys_queue y)"
  using acceptor_run_pipelined [OF _ assms(2) acceptor_new_pipelined [OF assms(1)]] assms(1)
  by (simp add: acceptor_config_def pipelined_def)

theorem acceptor_refines_pipeline_witness:
  "\<exists>y. (system_step ((transport_runner (\<lambda>_. []) (ex_env (Joined Success)))
               \<lparr>dr_retry := RetryPolicies_new (retry DeliveryConfig_immediate)\<rparr>))\<^sup>*\<^sup>*
         \<lparr>sys_world = ex_world 0, sys_queue = [], sys_tasks = []\<rparr> y
     \<and> sys_world y = ex_world 1 \<and> sys_tasks y = []
     \<and> {#ex_accepted#} \<subseteq># mset (sys_queue y)"
proof -
  have "in_transit snd (ex_state (ex_world 1) [] True True 1 [] (Sending ex_accepted)) = {#ex_accepted#}"
    by (simp add: in_transit_def queued_def ex_state_def)
  then show ?thesis
    using acceptor_refines_pipeline [OF list_channel_fifo ex_run [unfolded ex_acceptor_def]]
    by (auto simp: ex_state_def)
qed






text \<open>
  Inline dispatch is safe under concurrency. However many callers share an inline acceptor, at most
  one of them is between sending and dispatching, each dispatches the effect it sent itself, and the
  \<open>expect\<close> on the receiver never panics.
\<close>

theorem inline_dispatches_own_effect:
  assumes "fifo_channel C contents" "runner_mode config = Inline"
    and "(acceptor_step (acceptor_config C R config))\<^sup>*\<^sup>* (acceptor_new C config s) w"
  shows "length (filter (\<lambda>c. holding (cl_phase c)) (ap_calls w)) \<le> 1
         \<and> (\<forall>c \<in> set (ap_calls w). cl_phase c \<noteq> Panicked \<and> (\<forall>sent e. cl_phase c = Dispatching sent e \<longrightarrow> e = sent))"
proof -
  let ?A = "acceptor_config C R config"
  have A: "fifo_channel (ra_channel ?A) contents" "ra_runner_mode ?A = Inline"
    using assms(1,2) by (simp_all add: acceptor_config_def)
  have "solo contents w"
    using assms(3)
  proof (induction rule: rtranclp_induct)
    case base
    show ?case using assms(1) by (simp add: solo_def acceptor_new_def queued_def EffectQueue_bounded_def fifo_channel_def)
  next
    case (step w1 w2)
    then show ?case using solo_step [OF A] by blast
  qed
  then have own: "\<forall>c \<in> set (ap_calls w). own_dispatch (cl_phase c)"
    and few: "filter holding (map cl_phase (ap_calls w)) = [] \<or> (\<exists>ph. filter holding (map cl_phase (ap_calls w)) = [ph])"
    by (auto simp: solo_def split: list.splits)
  have "length (filter (\<lambda>c. holding (cl_phase c)) (ap_calls w)) = length (filter holding (map cl_phase (ap_calls w)))"
    by (simp add: filter_map comp_def)
  also have "\<dots> \<le> 1" using few by (metis One_nat_def le_numeral_extra(4) length_Cons list.size(3) zero_le_one)
  finally show ?thesis using own by (metis own_dispatch.simps(1,2))
qed

theorem inline_dispatches_own_effect_witness:
  "length (filter (\<lambda>c. holding (cl_phase c))
     (ap_calls (ex_state (ex_world 1) [] False True 1 [] (Dispatching ex_accepted ex_accepted)))) \<le> 1"
  using inline_dispatches_own_effect [OF list_channel_fifo _ ex_run_dispatch [unfolded ex_acceptor_def]]
  by (simp add: DeliveryConfig_immediate_def)

text \<open>
  The error of a call that the deadline cuts off while it waits for room in the queue names an effect that
  is in the store all the same and will be delivered by a later reclaim, although the error's documentation
  says that only the effects before the named one were durably accepted.
\<close>

lemma cut_off_effect_is_stored:
  "\<exists>w. (acceptor_step ex_acceptor)\<^sup>*\<^sup>* (acceptor_new list_channel DeliveryConfig_immediate (ex_world 0)) w
     \<and> map cl_phase (ap_calls w) = [Returned (Err (RetriesExhausted DEADLINE_MSG 0 (ed_idempotency_key ex_description)))]
     \<and> content (mw_store (ap_world w)) (EffectId 1) = Some (TenantId ''acme'', ex_description)"
proof -
  let ?w = "ex_state (ex_world 1) [] True True 1 [] (Sending ex_accepted)"
  let ?c = "hd (ap_calls (shutdown_begin 0 ?w))"
  let ?r = "send_to_queue_cut ex_acceptor ex_accepted (shutdown_begin 0 ?w) ?c"
  have "acceptor_step ex_acceptor ?w (shutdown_begin 0 ?w)" by (rule shutting) (simp add: ex_state_def)
  moreover have "acceptor_step ex_acceptor (shutdown_begin 0 ?w) ((fst ?r)\<lparr>ap_calls := [snd ?r]\<rparr>)"
    by (rule ex_call_step [OF call_step.send_cut [where e = ex_accepted]])
       (simp_all add: ex_state_def shutdown_begin_def deadline_reached_def Let_def)
  ultimately have "(acceptor_step ex_acceptor)\<^sup>*\<^sup>* (acceptor_new list_channel DeliveryConfig_immediate (ex_world 0))
      ((fst ?r)\<lparr>ap_calls := [snd ?r]\<rparr>)"
    using ex_run by (meson rtranclp.intros)
  moreover have "content (mw_store (ex_world 1)) (EffectId 1) = Some (TenantId ''acme'', ex_description)"
    by (simp add: ex_world_def ex_acceptor_def acceptor_config_def transport_runner_def runner_with_def call_transport_def
        call_memory_def initial_system_def EffectStore_accept_def EffectStore_new_def content_def ex_accepted_def)
  ultimately show ?thesis
    by (intro exI [of _ "(fst ?r)\<lparr>ap_calls := [snd ?r]\<rparr>"])
       (simp add: call_ops ex_mode ex_state_def shutdown_begin_def effect_key_def ex_accepted_def Let_def)
qed

end
