(* ===== verification/Ego_Entity_Correct.thy ===== *)
theory Ego_Entity_Correct
  imports Ego_Entity_Actor
begin

text \<open>
  What the actor guarantees about its event stream, for any event store that keeps the contract
  \<open>event_store\<close> and any snapshot store that returns what was saved last: the state in memory is the
  replay of the stream, recovery finds the same state again, an operation is not executed twice.
\<close>

section \<open>Handlers and snapshots\<close>

text \<open>Applying events in two batches is applying them in one.\<close>

definition lawful :: "('c, 'e, 'st, 'v) PersistentEntity \<Rightarrow> bool" where
  "lawful H \<longleftrightarrow>
     (\<forall>st. apply_events H st [] = Ok st) \<and>
     (\<forall>st xs ys. apply_events H st (xs @ ys) =
        (case apply_events H st xs of Inl e \<Rightarrow> Err e | Inr st' \<Rightarrow> apply_events H st' ys))"

text \<open>Every state serialises, and deserialises to itself.\<close>

definition serialisable :: "('c, 'e, 'st, 'v) PersistentEntity \<Rightarrow> bool" where
  "serialisable H \<longleftrightarrow> (\<forall>st. \<exists>v. to_value H st = Some v \<and> from_value H v = Some st)"

definition replay :: "('c, 'e, 'st, 'v) PersistentEntity \<Rightarrow> 'e list \<Rightarrow> ('st, EntityError) result" where
  "replay H es = apply_events H (initial_state H) es"

lemma replay_append:
  assumes "lawful H" "replay H es = Ok st"
  shows "replay H (es @ es') = apply_events H st es'"
  using assms by (simp add: replay_def lawful_def)

lemma replay_split:
  assumes "lawful H" "replay H (take k es) = Ok st"
  shows "apply_events H st (drop k es) = replay H es"
  using replay_append [OF assms, of "drop k es"] by simp

locale snapshot_port =
  fixes S :: "('n, 'v) SnapshotPort"
  assumes load_saved:
    "resolve_tenant t \<noteq> Err MissingTenant \<Longrightarrow>
     \<exists>n'. snap_save S k t v d n = (Ok (), n') \<and> snap_load S k t n' = Ok (Some (v, d))"

interpretation entity_snapshots: snapshot_port entity_snapshot_store
  by unfold_locales
    (simp add: entity_snapshot_store_def EntitySnapshotStore_save_snapshot_def EntitySnapshotStore_load_snapshot_def)

interpretation memory_snapshots: snapshot_port memory_snapshot_store
  by unfold_locales
    (auto simp: memory_snapshot_store_def MemorySnapshotStore_save_snapshot_def
      MemorySnapshotStore_load_snapshot_def resolve_tenant_def split: option.splits)

definition stream_key :: "EntityTriple \<Rightarrow> StreamKey" where
  "stream_key t = (et_entity_type t, et_entity_id t, Some (et_tenant_id t))"

text \<open>
  A snapshot is valid if it is of a prefix of the stream. An absent one is valid, one that cannot be
  read is not.
\<close>

definition valid_snapshot ::
  "('c, 'e, 'st, 'v) PersistentEntity \<Rightarrow> 'e list \<Rightarrow> ((int \<times> 'v) option, PersistenceError) result \<Rightarrow> bool" where
  "valid_snapshot H es snap \<longleftrightarrow>
     snap = Ok None \<or>
     (\<exists>k d st. snap = Ok (Some (int k, d)) \<and> k \<le> length es \<and> from_value H d = Some st \<and> replay H (take k es) = Ok st)"

lemma valid_snapshot_extend: "valid_snapshot H es snap \<Longrightarrow> valid_snapshot H (es @ es') snap"
  unfolding valid_snapshot_def by fastforce

section \<open>The actor over an event store\<close>

context event_store
begin

definition history :: "'s \<Rightarrow> EntityTriple \<Rightarrow> 'e list" where
  "history s t = map stored_event (stream s (stream_key t))"

text \<open>The live actor holds the replay of its stream, at the stream's length.\<close>

definition coherent :: "('c, 'e, 'st, 'v) PersistentEntity \<Rightarrow> 'st EntityActor \<Rightarrow> 's \<Rightarrow> bool" where
  "coherent H a s \<longleftrightarrow>
     et_tenant_id (actor_entity a) \<noteq> [] \<and>
     base s (et_entity_type (actor_entity a)) (et_entity_id (actor_entity a)) = 0 \<and>
     actor_version a = length (history s (actor_entity a)) \<and>
     (\<exists>st. actor_state a = Some st \<and> replay H (history s (actor_entity a)) = Ok st)"

lemma map_stored_event_new [simp]: "map (stored_event \<circ> StoredEvent_new) es = es"
  by (simp add: StoredEvent_new_def o_def)

text \<open>Persisting the events of a coherent actor, with or without a receipt.\<close>

lemma persisted_Ok:
  assumes "coherent H a s" "pf_event_store F = P"
  shows "\<exists>s1. persist_events F (et_entity_type (actor_entity a)) (et_entity_id (actor_entity a))
                (Some (et_tenant_id (actor_entity a))) (actor_version a) es s = (Ok (actor_version a + length es), s1) \<and>
              history s1 (actor_entity a) = history s (actor_entity a) @ es \<and> base s1 = base s \<and> receipt s1 = receipt s"
proof -
  let ?t = "actor_entity a"
  have t: "resolve_tenant (Some (et_tenant_id ?t)) = Ok (Some (et_tenant_id ?t))"
    using assms(1) by (simp add: coherent_def)
  have "int (actor_version a) = base s (et_entity_type ?t) (et_entity_id ?t) +
      int (length (stream s (et_entity_type ?t, et_entity_id ?t, Some (et_tenant_id ?t))))"
    using assms(1) by (simp add: coherent_def history_def stream_key_def)
  from persist_events_cases(1) [OF t assms(2) this, of es] show ?thesis
    by (auto simp: history_def stream_key_def)
qed

lemma persisted_receipt_Ok:
  assumes "coherent H a s" "pf_event_store F = P"
    and "persist_events_with_receipt F (et_entity_type (actor_entity a)) (et_entity_id (actor_entity a))
           (Some (et_tenant_id (actor_entity a))) (actor_version a) es rc s = (r, s1)"
  shows "(\<exists>e. r = Err e) \<and> s1 = s \<or>
         r = Ok (actor_version a + length es) \<and>
         history s1 (actor_entity a) = history s (actor_entity a) @ es \<and> base s1 = base s \<and>
         receipt s1 = (receipt s)(receipt_key rc \<mapsto> rc)"
proof -
  let ?t = "actor_entity a"
  have t: "resolve_tenant (Some (et_tenant_id ?t)) = Ok (Some (et_tenant_id ?t))"
    using assms(1) by (simp add: coherent_def)
  have v: "int (actor_version a) = base s (et_entity_type ?t) (et_entity_id ?t) +
      int (length (stream s (et_entity_type ?t, et_entity_id ?t, Some (et_tenant_id ?t))))"
    using assms(1) by (simp add: coherent_def history_def stream_key_def)
  show ?thesis
  proof (cases "\<forall>f. receipt s (receipt_key rc) = Some f \<longrightarrow> or_fingerprint f = or_fingerprint rc")
    case True
    then show ?thesis
      using persist_with_receipt_Ok [OF t assms(2), of es "actor_version a" s "et_entity_type ?t" "et_entity_id ?t" rc]
        v assms(3) by (auto simp: history_def stream_key_def)
  next
    case False
    then show ?thesis
      using persist_with_receipt_refused [OF t assms(2), of es "actor_version a" s "et_entity_type ?t" "et_entity_id ?t" rc]
        assms(3) by auto
  qed
qed

text \<open>What one command does to actor and stream.\<close>

definition progress ::
  "('c, 'e, 'st, 'v) PersistentEntity \<Rightarrow> 'st EntityActor \<Rightarrow> 's \<Rightarrow> 'st EntityActor \<Rightarrow> 's \<Rightarrow> ('e, 'st) reply \<Rightarrow> bool" where
  "progress H a s a' s' r \<longleftrightarrow>
     actor_entity a' = actor_entity a \<and>
     (case r of
        Inr (CommandEvents st es) \<Rightarrow>
          es \<noteq> [] \<and> history s' (actor_entity a) = history s (actor_entity a) @ es \<and> actor_state a' = Some st
      | Inr (CommandEffectsAcceptanceFailed st es _) \<Rightarrow>
          es \<noteq> [] \<and> history s' (actor_entity a) = history s (actor_entity a) @ es \<and> actor_state a' = Some st
      | Inr (CommandNoEvents st) \<Rightarrow>
          history s' (actor_entity a) = history s (actor_entity a) \<and> actor_state a = Some st \<and> a' = a
      | Inr (CommandReplayed _) \<Rightarrow> s' = s \<and> a' = a
      | Inl _ \<Rightarrow> history s' (actor_entity a) = history s (actor_entity a) \<and> a' = a \<or> actor_lifecycle a' = Failed) \<and>
     (actor_lifecycle a' = Failed \<or> actor_lifecycle a' = actor_lifecycle a \<and> coherent H a' s')"

lemma after_commit_progress:
  assumes "lawful H" "coherent H a s" "actor_state a = Some st0" "es \<noteq> []"
    and "history s1 (actor_entity a) = history s (actor_entity a) @ es" "base s1 = base s"
    and "aw_events w = s1"
    and "after_commit H F N c x conf st0 es (actor_version a + length es) (a, w) = (r, (a', w'))"
  shows "progress H a s a' (aw_events w') r"
proof (cases "apply_events H st0 es")
  case (Inl e)
  then show ?thesis
    using assms(7,8) by (auto simp: after_commit_def Let_def progress_def transition_def)
next
  case (Inr st)
  have "replay H (history s (actor_entity a)) = Ok st0" using assms(2,3) by (auto simp: coherent_def)
  from replay_append [OF assms(1) this, of es] Inr
  have "replay H (history s1 (actor_entity a)) = Ok st" by (simp add: assms(5))
  moreover have "a' = a\<lparr>actor_state := Some st, actor_version := actor_version a + length es\<rparr> \<and> aw_events w' = s1 \<and>
      (r = Ok (CommandEvents st es) \<or> (\<exists>err. r = Ok (CommandEffectsAcceptanceFailed st es err)))"
    using assms(7,8) Inr
    by (auto simp: after_commit_def Let_def take_snapshot_def split: sum.splits prod.splits if_splits)
  ultimately show ?thesis
    using assms(2,4,5,6) by (auto simp: progress_def coherent_def)
qed

lemma AggregateOutcome_events_total:
  "es \<noteq> [] \<Longrightarrow> AggregateOutcome_events (int v + 1) (int v + int (length es)) =
     Some (Ok (Events (int v + 1) (int v + int (length es))))"
  by (cases es) (auto simp: AggregateOutcome_events_def i64_min_def)

lemma commit_events_progress:
  assumes "lawful H" "coherent H a (aw_events w)" "pf_event_store F = P" "actor_state a = Some st0" "es \<noteq> []"
    and "commit_events H F N c x st0 es (a, w) = (r, (a', w'))"
  shows "progress H a (aw_events w) a' (aw_events w') r"
proof -
  note ac = after_commit_progress [OF assms(1,2,4,5)]
  show ?thesis
  proof (cases "cc_identity x")
    case None
    from persisted_Ok [OF assms(2,3), of es] obtain s1
      where p: "persist_events F (et_entity_type (actor_entity a)) (et_entity_id (actor_entity a))
          (Some (et_tenant_id (actor_entity a))) (actor_version a) es (aw_events w) = (Ok (actor_version a + length es), s1)"
        and h: "history s1 (actor_entity a) = history (aw_events w) (actor_entity a) @ es" "base s1 = base (aw_events w)"
      by blast
    show ?thesis
      using ac [OF h, of "w\<lparr>aw_events := s1\<rparr>" F N c x False r a' w'] assms(6) by (simp add: commit_events_def None p)
  next
    case (Some idt)
    let ?rc = "receipt_for (actor_entity a) idt (Events (int (actor_version a) + 1) (int (actor_version a) + int (length es)))"
    obtain q s1 where p: "persist_events_with_receipt F (et_entity_type (actor_entity a)) (et_entity_id (actor_entity a))
        (Some (et_tenant_id (actor_entity a))) (actor_version a) es ?rc (aw_events w) = (q, s1)" by fastforce
    from persisted_receipt_Ok [OF assms(2,3) p] show ?thesis
    proof
      assume "(\<exists>e. q = Err e) \<and> s1 = aw_events w"
      then show ?thesis
        using assms(6) p
        by (auto simp: commit_events_def Some AggregateOutcome_events_total [OF assms(5)] progress_def transition_def)
    next
      assume ok: "q = Ok (actor_version a + length es) \<and>
         history s1 (actor_entity a) = history (aw_events w) (actor_entity a) @ es \<and> base s1 = base (aw_events w) \<and>
         receipt s1 = (receipt (aw_events w))(receipt_key ?rc \<mapsto> ?rc)"
      then show ?thesis
        using ac [of s1 "w\<lparr>aw_events := s1\<rparr>" F N c x True r a' w'] assms(6) p
        by (simp add: commit_events_def Some AggregateOutcome_events_total [OF assms(5)])
    qed
  qed
qed

lemma commit_no_events_progress:
  assumes "coherent H a (aw_events w)" "pf_event_store F = P" "actor_state a = Some st0"
    and "commit_no_events F N x st0 (a, w) = (r, (a', w'))"
  shows "progress H a (aw_events w) a' (aw_events w') r"
proof (cases "cc_identity x")
  case None
  then show ?thesis using assms by (auto simp: commit_no_events_def progress_def)
next
  case (Some idt)
  obtain q s1 where p: "persist_events_with_receipt F (et_entity_type (actor_entity a)) (et_entity_id (actor_entity a))
      (Some (et_tenant_id (actor_entity a))) (actor_version a) [] (receipt_for (actor_entity a) idt NoEvents) (aw_events w) = (q, s1)"
    by fastforce
  from persisted_receipt_Ok [OF assms(1,2) p] show ?thesis
    using assms(1,3,4) p by (auto simp: commit_no_events_def Some progress_def coherent_def)
qed

lemma execute_progress:
  assumes "lawful H" "coherent H a (aw_events w)" "pf_event_store F = P"
    and "execute_command H F N c x (a, w) = (r, (a', w'))"
  shows "progress H a (aw_events w) a' (aw_events w') r"
proof -
  obtain st0 where st0: "actor_state a = Some st0" using assms(2) by (auto simp: coherent_def)
  have stay: "progress H a (aw_events w) a (aw_events w) (Err e)"
      "progress H a (aw_events w) a (aw_events w) (Ok (CommandReplayed out))" for e out
    using assms(2) by (simp_all add: progress_def)
  let ?d = "case handle_command H c st0 x of
      Inl e \<Rightarrow> (Err (InternalError (FromEntity e)), (a, w))
    | Inr events \<Rightarrow> if events = [] then commit_no_events F N x st0 (a, w)
                    else commit_events H F N c x st0 events (a, w)"
  have disp: "progress H a (aw_events w) a' (aw_events w') r" if "?d = (r, (a', w'))"
    using that stay commit_no_events_progress [OF assms(2,3) st0, of N x r a' w']
      commit_events_progress [OF assms(1,2,3) st0, of _ N c x r a' w']
    by (auto split: sum.splits if_splits)
  show ?thesis
    using assms(4) stay disp
    by (auto simp: execute_command_def st0 Let_def split: option.splits sum.splits if_splits)
qed

end

section \<open>Receipts\<close>

text \<open>For a tenant name that is not blank, the receipt is filed where the gate looks for it.\<close>

lemma receipt_key_receipt_for:
  assumes "\<not> trim_is_empty (et_tenant_id t)"
  shows "receipt_key (receipt_for t idt out) =
           (et_entity_type t, et_entity_id t, Some (et_tenant_id t), key_str (oi_key idt))"
  using assms
  by (simp add: receipt_for_def receipt_key_def OperationReceipt_new_def TenantId_new_def id_type_new_def)

lemma receipt_for_simps [simp]:
  "or_fingerprint (receipt_for t idt out) = oi_fingerprint idt"
  "or_outcome (receipt_for t idt out) = out"
  by (simp_all add: receipt_for_def OperationReceipt_new_def)

context event_store
begin

definition filed :: "EntityTriple \<Rightarrow> string \<Rightarrow> OperationReceipt \<Rightarrow> 's \<Rightarrow> bool" where
  "filed t k rc s \<longleftrightarrow> receipt s (et_entity_type t, et_entity_id t, Some (et_tenant_id t), k) = Some rc"

lemma after_commit_events [simp]:
  "aw_events (snd (snd (after_commit H F N c x conf st0 es v (a, w)))) = aw_events w"
  "actor_entity (fst (snd (after_commit H F N c x conf st0 es v (a, w)))) = actor_entity a"
  by (auto simp: after_commit_def Let_def take_snapshot_def transition_def split: sum.splits prod.splits)

lemma find_filed:
  assumes "filed t k rc s" "pf_event_store F = P" "et_tenant_id t \<noteq> []"
  shows "facade_find_receipt F (et_entity_type t) (et_entity_id t) (Some (et_tenant_id t)) k s = Ok (Some rc)"
  using assms find_receipt [of "et_entity_type t" "et_entity_id t" "Some (et_tenant_id t)" k s]
  by (simp add: facade_find_receipt_def filed_def)

text \<open>An operation that has a receipt is not executed again.\<close>

lemma execute_filed:
  assumes "filed (actor_entity a) (key_str (oi_key idt)) rc (aw_events w)" "pf_event_store F = P"
    and "et_tenant_id (actor_entity a) \<noteq> []" "actor_state a = Some st" "cc_identity x = Some idt"
  shows "execute_command H F N c x (a, w) =
    (if or_fingerprint rc = oi_fingerprint idt
     then (Ok (CommandReplayed (or_outcome rc)), (a, on_env (env_counter N ''already_applied'') w))
     else (Err (OperationConflict (key_str (oi_key idt))), (a, on_env (env_counter N ''conflict'') w)))"
  by (simp add: execute_command_def assms(4,5) find_filed [OF assms(1-3)])

text \<open>Executing any command keeps every receipt of the entity.\<close>

lemma commit_filed:
  assumes "coherent H a (aw_events w)" "pf_event_store F = P" "\<not> trim_is_empty (et_tenant_id (actor_entity a))"
    and "filed (actor_entity a) k rc (aw_events w)" "\<And>idt. cc_identity x = Some idt \<Longrightarrow> key_str (oi_key idt) \<noteq> k"
  shows "filed (actor_entity a) k rc (aw_events (snd (snd (commit_events H F N c x st0 es (a, w)))))"
    and "filed (actor_entity a) k rc (aw_events (snd (snd (commit_no_events F N x st0 (a, w)))))"
proof -
  let ?t = "actor_entity a"
  have ev: "filed ?t k rc s1"
    if "persist_events F (et_entity_type ?t) (et_entity_id ?t) (Some (et_tenant_id ?t)) (actor_version a) es (aw_events w) = (q, s1)" for q s1
    using persisted_Ok [OF assms(1,2), of es] that assms(4) by (auto simp: filed_def)
  have rv: "filed ?t k rc s1"
    if "persist_events_with_receipt F (et_entity_type ?t) (et_entity_id ?t) (Some (et_tenant_id ?t)) (actor_version a) es' (receipt_for ?t idt out) (aw_events w) = (q, s1)"
      "cc_identity x = Some idt" for q s1 idt out es'
    using persisted_receipt_Ok [OF assms(1,2) that(1)] assms(4) assms(5) [OF that(2)]
    by (auto simp: filed_def receipt_key_receipt_for [OF assms(3)])
  show "filed ?t k rc (aw_events (snd (snd (commit_events H F N c x st0 es (a, w)))))"
    using ev rv assms(4) by (auto simp: commit_events_def Let_def split: option.splits sum.splits prod.splits)
  show "filed ?t k rc (aw_events (snd (snd (commit_no_events F N x st0 (a, w)))))"
    using rv assms(4) by (auto simp: commit_no_events_def Let_def split: option.splits sum.splits prod.splits)
qed

lemma execute_keeps_filed:
  assumes "coherent H a (aw_events w)" "pf_event_store F = P" "\<not> trim_is_empty (et_tenant_id (actor_entity a))"
    and "filed (actor_entity a) k rc (aw_events w)"
  shows "filed (actor_entity a) k rc (aw_events (snd (snd (execute_command H F N c x (a, w)))))"
proof (cases "\<exists>idt. cc_identity x = Some idt \<and> key_str (oi_key idt) = k")
  case True
  then obtain idt where idt: "cc_identity x = Some idt" "key_str (oi_key idt) = k" by blast
  obtain st where "actor_state a = Some st" "et_tenant_id (actor_entity a) \<noteq> []"
    using assms(1) by (auto simp: coherent_def)
  then show ?thesis using execute_filed [of a idt rc w F st x H N c] assms(2,4) idt by simp
next
  case False
  note cf = commit_filed [OF assms, of x]
  obtain st where st: "actor_state a = Some st" using assms(1) by (auto simp: coherent_def)
  show ?thesis
    using cf(1) [where N = N and c = c and ?st0.0 = st] cf(2) [where N = N and ?st0.0 = st] False assms(4)
    by (auto simp: execute_command_def st Let_def split: option.splits sum.splits)
qed

text \<open>A command that succeeds under an identity files a receipt with its outcome.\<close>

definition outcome_of :: "nat \<Rightarrow> ('e, 'st) CommandResult \<Rightarrow> AggregateOutcome option" where
  "outcome_of v res =
     (case res of
        CommandEvents _ es \<Rightarrow> Some (Events (int v + 1) (int v + int (length es)))
      | CommandEffectsAcceptanceFailed _ es _ \<Rightarrow> Some (Events (int v + 1) (int v + int (length es)))
      | CommandNoEvents _ \<Rightarrow> Some NoEvents
      | CommandReplayed _ \<Rightarrow> None)"

lemma after_commit_result:
  "after_commit H F N c x conf st0 es v (a, w) = (Ok res, cfg) \<Longrightarrow>
   (\<exists>st. res = CommandEvents st es) \<or> (\<exists>st err. res = CommandEffectsAcceptanceFailed st es err)"
  by (auto simp: after_commit_def Let_def split: sum.splits prod.splits if_splits)

lemma commit_events_files:
  assumes "coherent H a (aw_events w)" "pf_event_store F = P" "\<not> trim_is_empty (et_tenant_id (actor_entity a))"
    and "cc_identity x = Some idt" "es \<noteq> []"
    and "commit_events H F N c x st0 es (a, w) = (Ok res, (a', w'))"
  shows "\<exists>rc. filed (actor_entity a) (key_str (oi_key idt)) rc (aw_events w') \<and>
           or_fingerprint rc = oi_fingerprint idt \<and> outcome_of (actor_version a) res = Some (or_outcome rc)"
proof -
  let ?t = "actor_entity a"
  let ?rc = "receipt_for ?t idt (Events (int (actor_version a) + 1) (int (actor_version a) + int (length es)))"
  obtain q s1 where p: "persist_events_with_receipt F (et_entity_type ?t) (et_entity_id ?t)
      (Some (et_tenant_id ?t)) (actor_version a) es ?rc (aw_events w) = (q, s1)" by fastforce
  have q: "q = Ok (actor_version a + length es)" "receipt s1 = (receipt (aw_events w))(receipt_key ?rc \<mapsto> ?rc)"
    using persisted_receipt_Ok [OF assms(1,2) p] p assms(4,6)
    by (auto simp: commit_events_def AggregateOutcome_events_total [OF assms(5)])
  then have ac: "after_commit H F N c x True st0 es (actor_version a + length es) (a, w\<lparr>aw_events := s1\<rparr>) = (Ok res, (a', w'))"
    using assms(4,6) p by (simp add: commit_events_def AggregateOutcome_events_total [OF assms(5)])
  then have "aw_events w' = s1"
    using after_commit_events(1) [of H F N c x True st0 es "actor_version a + length es" a "w\<lparr>aw_events := s1\<rparr>"] by simp
  moreover have "outcome_of (actor_version a) res = Some (or_outcome ?rc)"
    using after_commit_result [OF ac] by (auto simp: outcome_of_def)
  ultimately show ?thesis
    using q(2) by (intro exI [of _ ?rc]) (simp add: filed_def receipt_key_receipt_for [OF assms(3)])
qed

lemma commit_no_events_files:
  assumes "coherent H a (aw_events w)" "pf_event_store F = P" "\<not> trim_is_empty (et_tenant_id (actor_entity a))"
    and "cc_identity x = Some idt" "commit_no_events F N x st0 (a, w) = (Ok res, (a', w'))"
  shows "\<exists>rc. filed (actor_entity a) (key_str (oi_key idt)) rc (aw_events w') \<and>
           or_fingerprint rc = oi_fingerprint idt \<and> outcome_of (actor_version a) res = Some (or_outcome rc)"
proof -
  let ?t = "actor_entity a"
  let ?rc = "receipt_for ?t idt NoEvents"
  obtain q s1 where p: "persist_events_with_receipt F (et_entity_type ?t) (et_entity_id ?t)
      (Some (et_tenant_id ?t)) (actor_version a) [] ?rc (aw_events w) = (q, s1)" by fastforce
  show ?thesis
    using persisted_receipt_Ok [OF assms(1,2) p] p assms(4,5)
    by (intro exI [of _ ?rc])
      (auto simp: commit_no_events_def filed_def receipt_key_receipt_for [OF assms(3)] outcome_of_def)
qed

lemma execute_files:
  assumes "coherent H a (aw_events w)" "pf_event_store F = P" "\<not> trim_is_empty (et_tenant_id (actor_entity a))"
    and "cc_identity x = Some idt" "execute_command H F N c x (a, w) = (Ok res, (a', w'))"
    and "outcome_of (actor_version a) res = Some out"
  shows "\<exists>rc. filed (actor_entity a) (key_str (oi_key idt)) rc (aw_events w') \<and>
           or_fingerprint rc = oi_fingerprint idt \<and> or_outcome rc = out"
proof -
  obtain st where st: "actor_state a = Some st" using assms(1) by (auto simp: coherent_def)
  note ce = commit_events_files [OF assms(1-4)] and cn = commit_no_events_files [OF assms(1-4)]
  show ?thesis
    using assms(4-6) ce [of _ N c st res a' w'] cn [of N st res a' w']
    by (auto simp: execute_command_def st Let_def outcome_of_def split: option.splits sum.splits if_splits)
qed

text \<open>Any number of commands keeps the receipts.\<close>

lemma process_keeps_filed:
  assumes "lawful H" "pf_event_store F = P" "\<not> trim_is_empty (et_tenant_id (actor_entity a))"
    and "coherent H a (aw_events w)" "filed (actor_entity a) k rc (aw_events w)"
    and "process_commands H F N arms (a, w) = (rs, (a', w'))"
  shows "actor_entity a' = actor_entity a \<and> filed (actor_entity a) k rc (aw_events w') \<and>
         (actor_lifecycle a' = Failed \<or> coherent H a' (aw_events w'))"
  using assms(3-6)
proof (induction arms arbitrary: a w rs)
  case (Cons arm arms)
  show ?case
  proof (cases arm)
    case (Received c x)
    obtain r a1 w1 where e: "execute_command H F N c x (a, w) = (r, (a1, w1))" by (metis surj_pair)
    obtain rs2 a2 w2 where p2: "process_commands H F N arms (a1, w1) = (rs2, (a2, w2))" by (metis surj_pair)
    have pr: "progress H a (aw_events w) a1 (aw_events w1) r"
      using execute_progress [OF assms(1) Cons.prems(2) assms(2) e] .
    have ent: "actor_entity a1 = actor_entity a" using pr by (simp add: progress_def)
    have co: "actor_lifecycle a1 = Failed \<or> coherent H a1 (aw_events w1)" using pr by (auto simp: progress_def)
    have fl: "filed (actor_entity a) k rc (aw_events w1)"
      using execute_keeps_filed [OF Cons.prems(2) assms(2) Cons.prems(1,3), of N c x] by (simp add: e)
    show ?thesis
    proof (cases "is_active (actor_lifecycle a1)")
      case True
      then have c1: "coherent H a1 (aw_events w1)" "(rs2, (a2, w2)) = (rs2, (a', w'))"
        using co Cons.prems(4) unfolding Received by (auto simp: is_active_def e p2)
      from Cons.IH [OF Cons.prems(1) [folded ent] c1(1) fl [folded ent] p2 [unfolded c1(2)]] show ?thesis unfolding ent .
    next
      case False
      then have "a' = a1" "w' = w1" using Cons.prems(4) unfolding Received by (simp_all add: e)
      then show ?thesis using co fl ent by auto
    qed
  qed (use Cons.prems in auto)
qed simp

text \<open>
  An operation that succeeded is answered from its receipt for the rest of the actor's life, and
  the same key with another fingerprint is refused.
\<close>

lemma operation_replayed:
  assumes "lawful H" "pf_event_store F = P" "\<not> trim_is_empty (et_tenant_id (actor_entity a))"
    and "coherent H a (aw_events w)" "cc_identity x = Some idt"
    and "execute_command H F N c x (a, w) = (Ok res, (a1, w1))" "outcome_of (actor_version a) res = Some out"
    and "process_commands H F N arms (a1, w1) = (rs, (a2, w2))" "actor_lifecycle a1 \<noteq> Failed" "actor_lifecycle a2 \<noteq> Failed"
    and "cc_identity x' = Some idt'" "key_str (oi_key idt') = key_str (oi_key idt)"
  shows "execute_command H F N c' x' (a2, w2) =
    (if oi_fingerprint idt = oi_fingerprint idt'
     then (Ok (CommandReplayed out), (a2, on_env (env_counter N ''already_applied'') w2))
     else (Err (OperationConflict (key_str (oi_key idt'))), (a2, on_env (env_counter N ''conflict'') w2)))"
proof -
  from execute_files [OF assms(4,2,3,5,6,7)] obtain rc
    where rc: "filed (actor_entity a) (key_str (oi_key idt)) rc (aw_events w1)"
      "or_fingerprint rc = oi_fingerprint idt" "or_outcome rc = out" by blast
  have pr: "actor_entity a1 = actor_entity a" "coherent H a1 (aw_events w1)"
    using execute_progress [OF assms(1,4,2,6)] assms(9) by (auto simp: progress_def)
  have p2: "actor_entity a2 = actor_entity a" "filed (actor_entity a) (key_str (oi_key idt)) rc (aw_events w2)"
      "coherent H a2 (aw_events w2)"
    using process_keeps_filed [OF assms(1,2) _ pr(2) _ assms(8)] assms(3,10) rc(1) unfolding pr(1) by blast+
  obtain st where "actor_state a2 = Some st" "et_tenant_id (actor_entity a2) \<noteq> []"
    using p2(3) by (auto simp: coherent_def)
  then show ?thesis
    using execute_filed [of a2 idt' rc w2 F st x' H N c'] p2(1,2) assms(2,11,12) rc(2,3) by simp
qed

end

end
