(* ===== verification/Ego_Entity_Recovery.thy ===== *)
theory Ego_Entity_Recovery
  imports Ego_Entity_Correct
begin

text \<open>
  Recovery: for an event store and a snapshot store that keep their contracts, rebuilding an entity
  from its stores gives the replay of its whole stream, and hence the state and the version its actor
  had in memory. The contract's results for the actor crate's in-memory stores are the properties here.
\<close>

section \<open>Rebuilding\<close>

locale entity_stores =
  event_store P stream receipt base pending pending_receipt opened + snapshot_port S
  for P :: "('s, 'u, 'e) EventStore" and stream receipt base pending pending_receipt opened
    and S :: "('n, 'v) SnapshotPort"
begin

definition snapshot_ok :: "('c, 'e, 'st, 'v) PersistentEntity \<Rightarrow> EntityTriple \<Rightarrow> ('s, 'n, 'w) actor_world \<Rightarrow> bool" where
  "snapshot_ok H t w \<longleftrightarrow>
     valid_snapshot H (history (aw_events w) t) (snap_load S (aggregate_id t) (Some (et_tenant_id t)) (aw_snapshots w))"

lemma load_for_recovery_rows:
  assumes "et_tenant_id t \<noteq> []" "base s (et_entity_type t) (et_entity_id t) = 0" "pf_event_store F = P"
    and "snap_load (pf_snapshot_store F) (aggregate_id t) (Some (et_tenant_id t)) n = Ok snap"
  shows "\<exists>rows. load_for_recovery F (et_entity_type t) (et_entity_id t) (Some (et_tenant_id t)) s n =
           Ok (map_option (\<lambda>(v, d). \<lparr>sd_data = d, sd_version = as_u64 v\<rparr>) snap, rows) \<and>
         map row_event rows = drop (case snap of Some (v, _) \<Rightarrow> as_u64 v | None \<Rightarrow> 0) (history s t)"
proof -
  let ?ty = "et_entity_type t" and ?i = "et_entity_id t" and ?te = "Some (et_tenant_id t)"
  have rt: "resolve_tenant ?te = Ok ?te" using assms(1) by simp
  have off: "es_stream_version_offset P ?ty ?i ?te s = 0"
    using offset [of ?ty ?i ?te s] assms(2) by simp
  have ld: "(case es_load P ?ty ?i ?te s of Inr events \<Rightarrow> Ok events | Inl (NotFound _) \<Rightarrow> Ok [] | Inl other \<Rightarrow> Err other)
      = (Ok (stream s (stream_key t)) :: ('e StoredEvent list, PersistenceError) result)"
    using load_stream [OF rt, of ?ty ?i s] by (auto simp: stream_key_def)
  let ?k = "case map_option (\<lambda>(v, d). \<lparr>sd_data = d, sd_version = as_u64 v\<rparr>) snap of Some sd \<Rightarrow> sd_version sd | None \<Rightarrow> 0"
  let ?rows = "map (\<lambda>(idx, se). \<lparr>row_event = stored_event se, row_version = idx + 0 + 1\<rparr>)
       (filter (\<lambda>(idx, _). ?k \<le> idx + 0) (List.enumerate 0 (stream s (stream_key t))))"
  have k: "?k = (case snap of Some (v, _) \<Rightarrow> as_u64 v | None \<Rightarrow> 0)" by (auto split: option.splits)
  have "load_for_recovery F ?ty ?i ?te s n =
      Ok (map_option (\<lambda>(v, d). \<lparr>sd_data = d, sd_version = as_u64 v\<rparr>) snap, ?rows)"
    unfolding load_for_recovery_def using assms(4)
    by (simp only: aggregate_id_def sum.case Let_def assms(3) ld off)
  moreover have "map row_event ?rows = drop ?k (history s t)"
    unfolding rows_drop by (simp add: history_def drop_map)
  ultimately show ?thesis unfolding k by blast
qed

text \<open>What recovery reads is the replay of the whole stream, whatever prefix a snapshot covers.\<close>

lemma rebuild_replay:
  assumes "lawful H" "et_tenant_id t \<noteq> []" "base s (et_entity_type t) (et_entity_id t) = 0"
    and "pf_event_store F = P"
    and "valid_snapshot H (history s t) (snap_load (pf_snapshot_store F) (aggregate_id t) (Some (et_tenant_id t)) n)"
  shows "rebuild_state_from_persistence H F t s n =
           (case replay H (history s t) of Inl e \<Rightarrow> Err (FromEntity e) | Inr st \<Rightarrow> Ok (st, length (history s t)))"
proof -
  obtain snap where snap: "snap_load (pf_snapshot_store F) (aggregate_id t) (Some (et_tenant_id t)) n = Ok snap"
    using assms(5) by (auto simp: valid_snapshot_def)
  from load_for_recovery_rows [OF assms(2-4) snap] obtain rows
    where rows: "load_for_recovery F (et_entity_type t) (et_entity_id t) (Some (et_tenant_id t)) s n =
        Ok (map_option (\<lambda>(v, d). \<lparr>sd_data = d, sd_version = as_u64 v\<rparr>) snap, rows)"
      and ev: "map row_event rows = drop (case snap of Some (v, _) \<Rightarrow> as_u64 v | None \<Rightarrow> 0) (history s t)" by blast
  have len: "length rows = length (history s t) - (case snap of Some (v, _) \<Rightarrow> as_u64 v | None \<Rightarrow> 0)"
    using arg_cong [OF ev, of length] by simp
  from assms(5) snap consider "snap = None"
    | k d st where "snap = Some (int k, d)" "k \<le> length (history s t)" "from_value H d = Some st"
        "replay H (take k (history s t)) = Ok st"
    by (auto simp: valid_snapshot_def)
  then show ?thesis
  proof cases
    case 1
    then show ?thesis
      using rows ev len assms(1) by (auto simp: rebuild_state_from_persistence_def replay_def lawful_def split: sum.splits)
  next
    case 2
    have "apply_events H st (drop k (history s t)) = replay H (history s t)"
      using replay_split [OF assms(1) 2(4)] .
    then show ?thesis
      using rows ev len 2 assms(1)
      by (auto simp: rebuild_state_from_persistence_def lawful_def split: sum.splits)
  qed
qed

section \<open>Snapshots stay valid\<close>

lemma take_snapshot_ok:
  assumes "serialisable H" "pf_snapshot_store F = S" "et_tenant_id t \<noteq> []"
    and "replay H (history (aw_events w) t) = Ok st"
  shows "snapshot_ok H t (take_snapshot H F t (length (history (aw_events w) t)) st w)"
proof -
  obtain v where v: "to_value H st = Some v" "from_value H v = Some st"
    using assms(1) unfolding serialisable_def by blast
  have "resolve_tenant (Some (et_tenant_id t)) \<noteq> Err MissingTenant" using assms(3) by simp
  from load_saved [OF this, of "aggregate_id t" "int (length (history (aw_events w) t))" v "aw_snapshots w"]
  show ?thesis
    using v assms(2,4)
    by (auto simp: snapshot_ok_def take_snapshot_def store_snapshot_def valid_snapshot_def)
qed

lemma after_commit_snapshot:
  assumes "serialisable H" "pf_snapshot_store F = S" "snapshot_ok H (actor_entity a) w"
    and "et_tenant_id (actor_entity a) \<noteq> []" "v = length (history (aw_events w) (actor_entity a))"
    and "\<And>st. apply_events H st0 es = Ok st \<Longrightarrow> replay H (history (aw_events w) (actor_entity a)) = Ok st"
    and "after_commit H F N c x conf st0 es v (a, w) = (r, (a', w'))"
  shows "snapshot_ok H (actor_entity a) w'"
proof -
  let ?t = "actor_entity a"
  show ?thesis
  proof (cases "apply_events H st0 es")
    case (Inl e)
    then show ?thesis using assms(3,7) by (auto simp: after_commit_def Let_def snapshot_ok_def split: if_splits)
  next
    case (Inr st)
    have "snapshot_ok H ?t (take_snapshot H F ?t v st w)"
      using take_snapshot_ok [OF assms(1,2,4), of w st] assms(5) assms(6) [OF Inr] by simp
    then show ?thesis
      using assms(3,7) Inr
      by (auto simp: after_commit_def Let_def snapshot_ok_def take_snapshot_def split: sum.splits prod.splits if_splits)
  qed
qed

lemma snapshot_ok_extend:
  assumes "snapshot_ok H t w" "history s1 t = history (aw_events w) t @ es"
  shows "snapshot_ok H t (w\<lparr>aw_events := s1\<rparr>)"
  using assms valid_snapshot_extend by (simp add: snapshot_ok_def)

lemma snapshot_ok_env [simp]: "snapshot_ok H t (w\<lparr>aw_env := e\<rparr>) = snapshot_ok H t w"
  by (simp add: snapshot_ok_def)

text \<open>A command with events either writes nothing or goes on to \<open>after_commit\<close> with its events appended.\<close>

lemma commit_events_cases:
  assumes "coherent H a (aw_events w)" "pf_event_store F = P" "es \<noteq> []"
  obtains e where "commit_events H F N c x st0 es (a, w) = (Err e, (transition Failed a, w))"
  | s1 conf where "history s1 (actor_entity a) = history (aw_events w) (actor_entity a) @ es"
      "base s1 = base (aw_events w)"
      "commit_events H F N c x st0 es (a, w) =
         after_commit H F N c x conf st0 es (actor_version a + length es) (a, w\<lparr>aw_events := s1\<rparr>)"
proof (cases "cc_identity x")
  case None
  then show thesis
    using persisted_Ok [OF assms(1,2), of es] that(2) by (fastforce simp: commit_events_def)
next
  case (Some idt)
  let ?t = "actor_entity a"
  let ?rc = "receipt_for ?t idt (Events (int (actor_version a) + 1) (int (actor_version a) + int (length es)))"
  obtain q s1 where p: "persist_events_with_receipt F (et_entity_type ?t) (et_entity_id ?t)
      (Some (et_tenant_id ?t)) (actor_version a) es ?rc (aw_events w) = (q, s1)" by fastforce
  from persisted_receipt_Ok [OF assms(1,2) p] show thesis
  proof
    assume "(\<exists>e. q = Err e) \<and> s1 = aw_events w"
    then show thesis
      using that(1) p by (auto simp: commit_events_def Some AggregateOutcome_events_total [OF assms(3)])
  next
    assume "q = Ok (actor_version a + length es) \<and> history s1 ?t = history (aw_events w) ?t @ es \<and>
        base s1 = base (aw_events w) \<and> receipt s1 = (receipt (aw_events w))(receipt_key ?rc \<mapsto> ?rc)"
    then show thesis
      using that(2) [of s1 True] p by (simp add: commit_events_def Some AggregateOutcome_events_total [OF assms(3)])
  qed
qed

lemma commit_events_snapshot:
  assumes "lawful H" "serialisable H" "pf_event_store F = P" "pf_snapshot_store F = S"
    and "coherent H a (aw_events w)" "snapshot_ok H (actor_entity a) w" "actor_state a = Some st0" "es \<noteq> []"
    and "commit_events H F N c x st0 es (a, w) = (r, (a', w'))"
  shows "snapshot_ok H (actor_entity a) w'"
  using assms(5,3,8)
proof (cases rule: commit_events_cases [where N = N and c = c and x = x and ?st0.0 = st0])
  case (1 e)
  then show ?thesis using assms(6,9) by simp
next
  case (2 s1 conf)
  have co: "et_tenant_id (actor_entity a) \<noteq> []" "actor_version a = length (history (aw_events w) (actor_entity a))"
      "replay H (history (aw_events w) (actor_entity a)) = Ok st0"
    using assms(5,7) by (auto simp: coherent_def)
  show ?thesis
    using after_commit_snapshot [where w = "w\<lparr>aw_events := s1\<rparr>" and v = "actor_version a + length es", OF assms(2,4)
        snapshot_ok_extend [OF assms(6) 2(1)] co(1) _ _ 2(3) [symmetric, THEN trans, OF assms(9)]]
      co 2(1) replay_append [OF assms(1) co(3)] by simp
qed

lemma commit_no_events_snapshot:
  assumes "pf_event_store F = P" "coherent H a (aw_events w)" "snapshot_ok H (actor_entity a) w"
    and "commit_no_events F N x st0 (a, w) = (r, (a', w'))"
  shows "snapshot_ok H (actor_entity a) w'"
proof (cases "cc_identity x")
  case None
  then show ?thesis using assms by (simp add: commit_no_events_def)
next
  case (Some idt)
  obtain q s1 where p: "persist_events_with_receipt F (et_entity_type (actor_entity a)) (et_entity_id (actor_entity a))
      (Some (et_tenant_id (actor_entity a))) (actor_version a) [] (receipt_for (actor_entity a) idt NoEvents) (aw_events w) = (q, s1)"
    by fastforce
  have "history s1 (actor_entity a) = history (aw_events w) (actor_entity a)"
    using persisted_receipt_Ok [OF assms(2,1) p] by auto
  then show ?thesis
    using assms(3,4) p by (auto simp: commit_no_events_def Some snapshot_ok_def split: sum.splits)
qed

lemma execute_snapshot:
  assumes "lawful H" "serialisable H" "pf_event_store F = P" "pf_snapshot_store F = S"
    and "coherent H a (aw_events w)" "snapshot_ok H (actor_entity a) w"
    and "execute_command H F N c x (a, w) = (r, (a', w'))"
  shows "snapshot_ok H (actor_entity a) w'"
proof -
  obtain st where st: "actor_state a = Some st" using assms(5) by (auto simp: coherent_def)
  show ?thesis
    using assms(6,7) commit_no_events_snapshot [OF assms(3,5,6), of N x st r a' w']
      commit_events_snapshot [OF assms(1-6) st, of _ N c x r a' w']
    by (auto simp: execute_command_def st Let_def split: option.splits sum.splits if_splits)
qed

section \<open>Any number of commands\<close>

text \<open>After any commands the actor is failed, or still in step with its stream, with a valid snapshot.\<close>

lemma process_commands_keeps:
  assumes "lawful H" "serialisable H" "pf_event_store F = P" "pf_snapshot_store F = S"
    and "coherent H a (aw_events w)" "snapshot_ok H (actor_entity a) w"
    and "process_commands H F N arms (a, w) = (rs, (a', w'))"
  shows "actor_entity a' = actor_entity a \<and>
         (actor_lifecycle a' = Failed \<or>
          actor_lifecycle a' = actor_lifecycle a \<and> coherent H a' (aw_events w') \<and> snapshot_ok H (actor_entity a') w')"
  using assms(5-7)
proof (induction arms arbitrary: a w rs)
  case (Cons arm arms)
  show ?case
  proof (cases arm)
    case (Received c x)
    obtain r a1 w1 where e: "execute_command H F N c x (a, w) = (r, (a1, w1))" by (metis surj_pair)
    have pr: "progress H a (aw_events w) a1 (aw_events w1) r"
      using execute_progress [OF assms(1) Cons.prems(1) assms(3) e] .
    have sn: "snapshot_ok H (actor_entity a) w1"
      using execute_snapshot [OF assms(1-4) Cons.prems(1,2) e] .
    obtain rs2 a2 w2 where p2: "process_commands H F N arms (a1, w1) = (rs2, (a2, w2))" by (metis surj_pair)
    have ent: "actor_entity a1 = actor_entity a" using pr by (simp add: progress_def)
    have co: "actor_lifecycle a1 = Failed \<or> actor_lifecycle a1 = actor_lifecycle a \<and> coherent H a1 (aw_events w1)"
      using pr by (auto simp: progress_def)
    show ?thesis
    proof (cases "is_active (actor_lifecycle a1)")
      case True
      then have c1: "coherent H a1 (aw_events w1)" "(rs2, (a2, w2)) = (rs2, (a', w'))" "actor_lifecycle a1 = actor_lifecycle a"
        using co Cons.prems(3) unfolding Received by (auto simp: is_active_def e p2)
      from Cons.IH [OF c1(1) sn [folded ent] p2 [unfolded c1(2)]] show ?thesis unfolding ent c1(3) .
    next
      case False
      then have "a' = a1" "w' = w1" using Cons.prems(3) unfolding Received by (simp_all add: e)
      then show ?thesis using co sn ent by auto
    qed
  qed (use Cons.prems in auto)
qed simp

lemma process_commands_recoverable:
  assumes "lawful H" "serialisable H" "pf_event_store F = P" "pf_snapshot_store F = S"
    and "coherent H a (aw_events w)" "snapshot_ok H (actor_entity a) w"
    and "process_commands H F N arms (a, w) = (rs, (a', w'))" "actor_lifecycle a' \<noteq> Failed"
  shows "\<exists>st. actor_state a' = Some st \<and>
           rebuild_state_from_persistence H F (actor_entity a) (aw_events w') (aw_snapshots w') = Ok (st, actor_version a')"
proof -
  from process_commands_keeps [OF assms(1-7)] assms(8)
  have co: "actor_entity a' = actor_entity a" "coherent H a' (aw_events w')" "snapshot_ok H (actor_entity a') w'" by auto
  then show ?thesis
    using rebuild_replay [OF assms(1), of "actor_entity a'" "aw_events w'" F "aw_snapshots w'"] assms(3,4)
    by (auto simp: coherent_def snapshot_ok_def)
qed

section \<open>A whole run\<close>

lemma drain_commands_keeps:
  assumes "lawful H" "serialisable H" "pf_event_store F = P" "pf_snapshot_store F = S"
    and "coherent H a (aw_events w)" "snapshot_ok H (actor_entity a) w"
    and "drain_commands H F N mailbox (a, w) = (rs, (a', w'))"
  shows "actor_entity a' = actor_entity a \<and> (actor_lifecycle a' = Failed \<or>
           actor_lifecycle a' = actor_lifecycle a \<and> coherent H a' (aw_events w') \<and> snapshot_ok H (actor_entity a') w')"
  using assms(5-7)
proof (induction mailbox arbitrary: a w rs)
  case (Cons m mailbox)
  obtain c x where m: "m = (c, x)" by fastforce
  obtain r a1 w1 where e: "execute_command H F N c x (a, w) = (r, (a1, w1))" by (metis surj_pair)
  obtain rs2 a2 w2 where p2: "drain_commands H F N mailbox (a1, w1) = (rs2, (a2, w2))" by (metis surj_pair)
  have pr: "progress H a (aw_events w) a1 (aw_events w1) r"
    using execute_progress [OF assms(1) Cons.prems(1) assms(3) e] .
  have ent: "actor_entity a1 = actor_entity a" using pr by (simp add: progress_def)
  have sn: "snapshot_ok H (actor_entity a) w1" using execute_snapshot [OF assms(1-4) Cons.prems(1,2) e] .
  have co: "actor_lifecycle a1 = Failed \<or> actor_lifecycle a1 = actor_lifecycle a \<and> coherent H a1 (aw_events w1)"
    using pr by (auto simp: progress_def)
  show ?case
  proof (cases "actor_lifecycle a1 = Failed")
    case True
    then show ?thesis using Cons.prems(3) ent unfolding m by (auto simp: e)
  next
    case False
    then have c1: "actor_lifecycle a1 = actor_lifecycle a" "coherent H a1 (aw_events w1)" "(rs2, (a2, w2)) = (rs2, (a', w'))"
      using co Cons.prems(3) unfolding m by (auto simp: e p2)
    from Cons.IH [OF c1(2) sn [folded ent] p2 [unfolded c1(3)]] show ?thesis unfolding ent c1(1) .
  qed
qed simp

lemma recover_state_coherent:
  assumes "lawful H" "et_tenant_id (actor_entity a) \<noteq> []"
    and "base (aw_events w) (et_entity_type (actor_entity a)) (et_entity_id (actor_entity a)) = 0"
    and "pf_event_store F = P" "pf_snapshot_store F = S" "snapshot_ok H (actor_entity a) w"
    and "actor_lifecycle a = Recovering \<or> actor_lifecycle a = Passivated"
    and "replay H (history (aw_events w) (actor_entity a)) = Ok st"
  shows "recover_state H F N (a, w) =
    (a\<lparr>actor_state := Some st, actor_version := length (history (aw_events w) (actor_entity a)), actor_lifecycle := Active\<rparr>,
     on_env (env_emit N (RecoveryCompleted (actor_entity a) (length (history (aw_events w) (actor_entity a))))) w)"
  using rebuild_replay [OF assms(1-4), of "aw_snapshots w"] assms(5-8)
  by (auto simp: recover_state_def snapshot_ok_def transition_def)

text \<open>A run that does not fail ends passivated, and the next run starts from the state it ended with.\<close>

lemma passivate_recovers:
  assumes "lawful H" "serialisable H" "pf_event_store F = P" "pf_snapshot_store F = S"
    and "coherent H a (aw_events w)" "snapshot_ok H (actor_entity a) w" "actor_lifecycle a = Active"
    and "passivate H F N mailbox (a, w) = (rs, (a', w'))"
  shows "actor_entity a' = actor_entity a \<and> (actor_lifecycle a' = Failed \<or>
           actor_lifecycle a' = Passivated \<and> coherent H a' (aw_events w') \<and> snapshot_ok H (actor_entity a') w')"
proof -
  obtain rs1 a1 w1 where d: "drain_commands H F N mailbox (a, w) = (rs1, (a1, w1))" by (metis surj_pair)
  from drain_commands_keeps [OF assms(1-6) d] assms(7)
  have k: "actor_entity a1 = actor_entity a"
      "actor_lifecycle a1 = Failed \<or> actor_lifecycle a1 = Active \<and> coherent H a1 (aw_events w1) \<and> snapshot_ok H (actor_entity a1) w1"
    by auto
  have empty: "mailbox = [] \<Longrightarrow> actor_lifecycle a1 = Active" using d assms(7) by simp
  show ?thesis
  proof (cases "actor_lifecycle a1 = Failed")
    case True
    with empty have "mailbox \<noteq> []" by auto
    then show ?thesis using assms(8) d k(1) True by (auto simp: passivate_def)
  next
    case False
    with k have a1: "actor_lifecycle a1 = Active" "coherent H a1 (aw_events w1)" by auto
    from a1(2) obtain st where st: "actor_state a1 = Some st" "et_tenant_id (actor_entity a1) \<noteq> []"
        "replay H (history (aw_events w1) (actor_entity a1)) = Ok st" "actor_version a1 = length (history (aw_events w1) (actor_entity a1))"
      by (auto simp: coherent_def)
    have "snapshot_ok H (actor_entity a1) (take_snapshot H F (actor_entity a1) (actor_version a1) st w1)"
      using take_snapshot_ok [OF assms(2,4) st(2,3)] unfolding st(4) .
    moreover have "aw_events (take_snapshot H F (actor_entity a1) (actor_version a1) st w1) = aw_events w1"
      by (simp add: take_snapshot_def)
    ultimately show ?thesis
      using assms(8) d a1 st(1) k(1) False by (auto simp: passivate_def transition_def coherent_def Let_def)
  qed
qed

lemma run_recovers:
  assumes "lawful H" "serialisable H" "et_tenant_id (actor_entity a) \<noteq> []"
    and "base (aw_events w) (et_entity_type (actor_entity a)) (et_entity_id (actor_entity a)) = 0"
    and "pf_event_store F = P" "pf_snapshot_store F = S" "snapshot_ok H (actor_entity a) w"
    and "actor_lifecycle a = Recovering \<or> actor_lifecycle a = Passivated"
    and "replay H (history (aw_events w) (actor_entity a)) = Ok st"
    and "run H F N arms mailbox (a, w) = (rs, (a', w'))" "actor_lifecycle a' \<noteq> Failed"
  shows "actor_lifecycle a' = Passivated \<and>
         (\<exists>st'. actor_state a' = Some st' \<and> replay H (history (aw_events w') (actor_entity a)) = Ok st' \<and>
            fst (recover_state H F N (a, w')) = a\<lparr>actor_state := Some st', actor_version := actor_version a', actor_lifecycle := Active\<rparr>)"
proof -
  let ?t = "actor_entity a" and ?v = "length (history (aw_events w) (actor_entity a))"
  let ?a1 = "a\<lparr>actor_state := Some st, actor_version := ?v, actor_lifecycle := Active\<rparr>"
  let ?w1 = "on_env (env_emit N (RecoveryCompleted ?t ?v)) w"
  note rec = recover_state_coherent [OF assms(1,3-9)]
  have c1: "coherent H ?a1 (aw_events ?w1)" "snapshot_ok H (actor_entity ?a1) ?w1"
    using assms(3,4,7,9) by (simp_all add: coherent_def)
  obtain rs2 a2 w2 where p: "process_commands H F N arms (?a1, ?w1) = (rs2, (a2, w2))" by (metis surj_pair)
  obtain rs3 a3 w3 where q: "passivate H F N mailbox (a2, w2) = (rs3, (a3, w3))" by (metis surj_pair)
  have nf: "actor_lifecycle a2 \<noteq> Failed" "a' = a3" "w' = w3"
    using assms(10,11) by (auto simp: run_def rec p q Let_def split: if_splits)
  have c2: "actor_entity a2 = ?t" "coherent H a2 (aw_events w2)" "snapshot_ok H (actor_entity a2) w2" "actor_lifecycle a2 = Active"
    using process_commands_keeps [OF assms(1,2,5,6) c1 p] nf(1) by auto
  have c3: "actor_entity a' = ?t" "actor_lifecycle a' = Passivated" "coherent H a' (aw_events w')" "snapshot_ok H (actor_entity a') w'"
    using passivate_recovers [OF assms(1,2,5,6) c2(2-4) q] c2(1) nf assms(11) by auto
  then obtain st' where "actor_state a' = Some st'" "replay H (history (aw_events w') ?t) = Ok st'"
      "actor_version a' = length (history (aw_events w') ?t)" "base (aw_events w') (et_entity_type ?t) (et_entity_id ?t) = 0"
    by (auto simp: coherent_def)
  then show ?thesis
    using recover_state_coherent [OF assms(1,3) _ assms(5,6) _ assms(8), of w' st' N] c3 by simp
qed

end

interpretation entity: entity_stores entity_event_store entity_stream entity_receipt entity_base
  "\<lambda>u. stream_at (staged u)" staged_receipts "\<lambda>st u. uow_version_offsets u = version_offsets st" entity_snapshot_store
  ..

end
