(* ===== verification/Ego_Entity_Properties.thy ===== *)
theory Ego_Entity_Properties
  imports Ego_Entity_Recovery
begin

text \<open>
  The guarantees of the entity actor over the actor crate's own in-memory stores
  (\<open>crates/persistent-entity\<close>), with concrete runs of a small tally entity, and three situations in
  which a guarantee does not hold.
\<close>

abbreviation events_of :: "'e InMemoryEventStore \<Rightarrow> EntityTriple \<Rightarrow> 'e list" where
  "events_of s t \<equiv> map stored_event (entity_stream s (stream_key t))"

section \<open>A tally entity\<close>

definition tally :: "(nat, nat, nat, nat) PersistentEntity" where
  "tally = \<lparr>initial_state = 0, handle_command = (\<lambda>c st x. Ok (if c = 0 then [] else [c])),
     apply_events = (\<lambda>st es. Ok (st + sum_list es)), external_effects = (\<lambda>_ _ _ _. []),
     to_value = Some, from_value = Some, null_value = 0\<rparr>"

text \<open>Its states do not serialise.\<close>

definition opaque_tally :: "(nat, nat, nat, nat option) PersistentEntity" where
  "opaque_tally = \<lparr>initial_state = 0, handle_command = (\<lambda>c st x. Ok (if c = 0 then [] else [c])),
     apply_events = (\<lambda>st es. Ok (st + sum_list es)), external_effects = (\<lambda>_ _ _ _. []),
     to_value = (\<lambda>_. None), from_value = (\<lambda>v. v), null_value = None\<rparr>"

definition quiet_env :: "bool \<Rightarrow> (nat, unit) actor_env" where
  "quiet_env snapshots = \<lparr>env_publish = (\<lambda>_ w. w), env_acceptor = None, env_emit = (\<lambda>_ w. w),
     env_counter = (\<lambda>_ w. w), env_should_snapshot = (\<lambda>_ _. Ok snapshots), env_mark_passivated = (\<lambda>_ _ w. w)\<rparr>"

definition entity_facade :: "('e InMemoryEventStore, 'e StagingUnitOfWork, 'e, 'v entity_snapshots, 'v) PersistenceFacade" where
  "entity_facade = PersistenceFacade_with_stores entity_event_store entity_snapshot_store"

definition cart :: "string \<Rightarrow> EntityTriple" where
  "cart tenant = \<lparr>et_tenant_id = tenant, et_entity_type = ''cart'', et_entity_id = ''7''\<rparr>"

definition fresh_actor :: "EntityTriple \<Rightarrow> nat EntityActor" where
  "fresh_actor t = \<lparr>actor_entity = t, actor_state = None, actor_version = 0, actor_lifecycle = LifecycleStateMachine_new\<rparr>"

definition live_actor :: "EntityTriple \<Rightarrow> nat EntityActor" where
  "live_actor t = \<lparr>actor_entity = t, actor_state = Some 0, actor_version = 0, actor_lifecycle = Active\<rparr>"

definition empty_world :: "(nat InMemoryEventStore, 'v entity_snapshots, unit) actor_world" where
  "empty_world = \<lparr>aw_events = EventStore_new, aw_snapshots = EntitySnapshotStore_new, aw_env = ()\<rparr>"

definition anonymous :: CommandContext where
  "anonymous = CommandContext_new ''cart''"

definition identified :: "string \<Rightarrow> string \<Rightarrow> CommandContext" where
  "identified k f = carrying (Some \<lparr>oi_key = OperationKey k, oi_fingerprint = OperationFingerprint f\<rparr>) anonymous"

lemmas tally_defs =
  tally_def opaque_tally_def quiet_env_def entity_facade_def PersistenceFacade_with_stores_def cart_def fresh_actor_def
  live_actor_def empty_world_def anonymous_def identified_def carrying_def CommandContext_new_def

lemmas tally_run =
  execute_command_def commit_events_def commit_no_events_def persist_events_def persist_events_with_receipt_def
  after_commit_def take_snapshot_def store_snapshot_def facade_find_receipt_def receipt_for_def OperationReceipt_new_def
  TenantId_new_def id_type_new_def trim_is_empty_def receipt_key_def reconcile_receipt_def AggregateOutcome_events_def i64_min_def
  entity_event_store_def entity_store_defs EventStore_new_def Committed_default_def offset_of_def StoredEvent_new_def
  stream_at_def publish_streams_def entity_snapshot_store_def EntitySnapshotStore_save_snapshot_def
  EntitySnapshotStore_load_snapshot_def EntitySnapshotStore_new_def is_active_def transition_def as_u64_def
  load_for_recovery_def rebuild_state_from_persistence_def aggregate_id_def joined_id_def

lemma tally_lawful [simp]: "lawful tally" "serialisable tally"
  by (simp_all add: lawful_def serialisable_def tally_def)

section \<open>The actor keeps step with its stream\<close>

text \<open>
  C24: Let an actor with a lawful handler hold the replay of its event stream at the stream's length.
  After any command it does so again, or it is in the failed state. Events reported to the caller are
  exactly what the command appended, and a command that fails without failing the actor wrote no event
  and left the actor as it was.
\<close>

theorem actor_keeps_step_with_stream:
  assumes "lawful H" "pf_event_store F = entity_event_store" "et_tenant_id (actor_entity a) \<noteq> []"
    and "entity_base (aw_events w) (et_entity_type (actor_entity a)) (et_entity_id (actor_entity a)) = 0"
    and "actor_state a = Some st" "replay H (events_of (aw_events w) (actor_entity a)) = Ok st"
    and "actor_version a = length (events_of (aw_events w) (actor_entity a))"
    and "execute_command H F N c x (a, w) = (r, (a', w'))"
  shows "actor_lifecycle a' = Failed \<or>
         actor_entity a' = actor_entity a \<and> actor_lifecycle a' = actor_lifecycle a \<and>
         actor_version a' = length (events_of (aw_events w') (actor_entity a)) \<and>
         (\<exists>st'. actor_state a' = Some st' \<and> replay H (events_of (aw_events w') (actor_entity a)) = Ok st') \<and>
         (case r of
            Inr (CommandEvents st' es) \<Rightarrow>
              es \<noteq> [] \<and> events_of (aw_events w') (actor_entity a) = events_of (aw_events w) (actor_entity a) @ es \<and> actor_state a' = Some st'
          | Inr (CommandEffectsAcceptanceFailed st' es _) \<Rightarrow>
              es \<noteq> [] \<and> events_of (aw_events w') (actor_entity a) = events_of (aw_events w) (actor_entity a) @ es \<and> actor_state a' = Some st'
          | _ \<Rightarrow> events_of (aw_events w') (actor_entity a) = events_of (aw_events w) (actor_entity a) \<and> a' = a)"
proof -
  have "entity.coherent H a (aw_events w)"
    using assms(3-7) by (simp add: entity.coherent_def entity.history_def)
  from entity.execute_progress [OF assms(1) this assms(2,8)] show ?thesis
    by (auto simp: entity.progress_def entity.coherent_def entity.history_def split: sum.splits CommandResult.splits)
qed

theorem actor_keeps_step_with_stream_witness:
  "\<exists>a' w'. execute_command tally entity_facade (quiet_env True) 5 anonymous (live_actor (cart ''t''), empty_world) =
     (Ok (CommandEvents 5 [5]), (a', w')) \<and> events_of (aw_events w') (cart ''t'') = [5]"
proof -
  obtain r a' w' where e: "execute_command tally entity_facade (quiet_env True) 5 anonymous (live_actor (cart ''t''), empty_world) =
     (r, (a', w'))" by (metis surj_pair)
  have "r = Ok (CommandEvents 5 [5]) \<and> actor_lifecycle a' \<noteq> Failed"
    using e by (auto simp: tally_defs tally_run Let_def)
  then show ?thesis
    using actor_keeps_step_with_stream [OF tally_lawful(1) _ _ _ _ _ _ e, of 0] e
    by (simp add: tally_defs EventStore_new_def Committed_default_def offset_of_def stream_at_def replay_def stream_key_def)
qed

section \<open>Recovery\<close>

text \<open>
  C4: Stop an actor after any sequence of commands that has not failed it and rebuild its entity from
  the stores: the result is the state and the version the actor had in memory, whatever snapshots were
  taken on the way. The handler is lawful, its states serialise, and the entity's snapshot was valid before.
\<close>

theorem recovery_restores_live_state:
  assumes "lawful H" "serialisable H" "pf_event_store F = entity_event_store" "pf_snapshot_store F = entity_snapshot_store"
    and "et_tenant_id (actor_entity a) \<noteq> []"
    and "entity_base (aw_events w) (et_entity_type (actor_entity a)) (et_entity_id (actor_entity a)) = 0"
    and "actor_state a = Some st" "replay H (events_of (aw_events w) (actor_entity a)) = Ok st"
    and "actor_version a = length (events_of (aw_events w) (actor_entity a))"
    and "valid_snapshot H (events_of (aw_events w) (actor_entity a)) (Ok (aw_snapshots w (aggregate_id (actor_entity a))))"
    and "process_commands H F N arms (a, w) = (rs, (a', w'))" "actor_lifecycle a' \<noteq> Failed"
  shows "\<exists>st'. actor_state a' = Some st' \<and>
           rebuild_state_from_persistence H F (actor_entity a) (aw_events w') (aw_snapshots w') = Ok (st', actor_version a')"
proof -
  have "entity.coherent H a (aw_events w)" "entity.snapshot_ok H (actor_entity a) w"
    using assms(5-10)
    unfolding entity.coherent_def entity.history_def entity.snapshot_ok_def
    by (simp_all add: entity_snapshot_store_def EntitySnapshotStore_load_snapshot_def)
  from entity.process_commands_recoverable [OF assms(1-4) this assms(11,12)] show ?thesis .
qed

theorem recovery_restores_live_state_witness:
  "\<exists>rs a' w'. process_commands tally entity_facade (quiet_env True) [Received 5 anonymous, Received 2 anonymous]
       (live_actor (cart ''t''), empty_world) = (rs, (a', w')) \<and>
     rebuild_state_from_persistence tally entity_facade (cart ''t'') (aw_events w') (aw_snapshots w') = Ok (7, 2)"
proof -
  obtain rs a' w' where e: "process_commands tally entity_facade (quiet_env True) [Received 5 anonymous, Received 2 anonymous]
      (live_actor (cart ''t''), empty_world) = (rs, (a', w'))" by (metis surj_pair)
  have "actor_state a' = Some 7 \<and> actor_version a' = 2 \<and> actor_lifecycle a' \<noteq> Failed"
    using e by (auto simp: tally_defs tally_run Let_def)
  then show ?thesis
    using recovery_restores_live_state [OF tally_lawful _ _ _ _ _ _ _ _ e, of 0] e
    by (simp add: tally_defs tally_run replay_def stream_key_def valid_snapshot_def)
qed

text \<open>
  A run of an actor - recovery, any commands, the commands left in the mailbox at passivation -
  that does not fail ends passivated, and the next activation of the entity starts active with the
  state and the version the run ended with.
\<close>

theorem next_activation_continues:
  assumes "lawful H" "serialisable H" "pf_event_store F = entity_event_store" "pf_snapshot_store F = entity_snapshot_store"
    and "et_tenant_id (actor_entity a) \<noteq> []" "actor_lifecycle a = LifecycleStateMachine_new"
    and "entity_base (aw_events w) (et_entity_type (actor_entity a)) (et_entity_id (actor_entity a)) = 0"
    and "replay H (events_of (aw_events w) (actor_entity a)) = Ok st"
    and "valid_snapshot H (events_of (aw_events w) (actor_entity a)) (Ok (aw_snapshots w (aggregate_id (actor_entity a))))"
    and "run H F N arms mailbox (a, w) = (rs, (a', w'))" "actor_lifecycle a' \<noteq> Failed"
  shows "is_passivated (actor_lifecycle a') \<and>
         (\<exists>st'. actor_state a' = Some st' \<and>
            fst (recover_state H F N (a, w')) =
              a\<lparr>actor_state := Some st', actor_version := actor_version a', actor_lifecycle := Active\<rparr>)"
proof -
  have "entity.snapshot_ok H (actor_entity a) w"
    using assms(9) unfolding entity.history_def entity.snapshot_ok_def
    by (simp add: entity_snapshot_store_def EntitySnapshotStore_load_snapshot_def)
  from entity.run_recovers [OF assms(1,2,5,7,3,4) this _ _ assms(10,11), of st] assms(6,8) show ?thesis
    by (auto simp: LifecycleStateMachine_new_def is_passivated_def entity.history_def)
qed

theorem next_activation_continues_witness:
  "\<exists>rs a' w'. run tally entity_facade (quiet_env False) [Received 5 anonymous, PassivationSignal] [(2, anonymous)]
       (fresh_actor (cart ''t''), empty_world) = (rs, (a', w')) \<and> is_passivated (actor_lifecycle a') \<and>
     actor_state (fst (recover_state tally entity_facade (quiet_env False) (fresh_actor (cart ''t''), w'))) = Some 7"
proof -
  obtain rs a' w' where e: "run tally entity_facade (quiet_env False) [Received 5 anonymous, PassivationSignal] [(2, anonymous)]
      (fresh_actor (cart ''t''), empty_world) = (rs, (a', w'))" by (metis surj_pair)
  have "actor_state a' = Some 7 \<and> actor_lifecycle a' \<noteq> Failed"
    using e by (auto simp: tally_defs tally_run run_def recover_state_def passivate_def LifecycleStateMachine_new_def Let_def)
  then show ?thesis
    using next_activation_continues [OF tally_lawful _ _ _ _ _ _ _ e, of 0] e
    by (auto simp: tally_defs tally_run replay_def stream_key_def valid_snapshot_def)
qed

section \<open>Replies\<close>

text \<open>The commands the actor's loop is given before it is told to stop.\<close>

fun taken :: "'c select_arm list \<Rightarrow> nat" where
  "taken (Received _ _ # arms) = Suc (taken arms)"
| "taken _ = 0"

lemma process_commands_replies:
  "process_commands H F N arms cfg = (rs, cfg') \<Longrightarrow>
   length rs \<le> taken arms \<and> (length rs = taken arms \<or> \<not> is_active (actor_lifecycle (fst cfg')))"
proof (induction H F N arms cfg arbitrary: rs rule: process_commands.induct)
  case (2 H F N c x arms cfg)
  obtain r cfg1 where e: "execute_command H F N c x cfg = (r, cfg1)" by (metis surj_pair)
  obtain rs2 cfg2 where p: "process_commands H F N arms cfg1 = (rs2, cfg2)" by (metis surj_pair)
  show ?case
    using 2(1) [OF e [symmetric]] 2(2) p by (auto simp: e p split: if_splits)
qed auto

lemma drain_commands_replies: "length (fst (drain_commands H F N mailbox cfg)) = length mailbox"
  by (induction H F N mailbox cfg rule: drain_commands.induct)
    (auto simp: drain_mailbox_with_error_def split: prod.splits)

lemma passivate_replies: "length (fst (passivate H F N mailbox cfg)) = length mailbox"
  using drain_commands_replies [of H F N mailbox cfg] by (auto simp: passivate_def Let_def split: prod.splits)

lemma execute_lifecycle:
  "execute_command H F N c x cfg = (r, cfg') \<Longrightarrow>
   actor_lifecycle (fst cfg') = Failed \<or> actor_lifecycle (fst cfg') = actor_lifecycle (fst cfg)"
  by (cases cfg)
    (auto simp: execute_command_def commit_events_def commit_no_events_def after_commit_def transition_def Let_def
      split: option.splits sum.splits prod.splits if_splits AggregateOutcome.splits)

lemma process_commands_lifecycle:
  "process_commands H F N arms cfg = (rs, cfg') \<Longrightarrow>
   actor_lifecycle (fst cfg') = Failed \<or> actor_lifecycle (fst cfg') = actor_lifecycle (fst cfg)"
proof (induction H F N arms cfg arbitrary: rs rule: process_commands.induct)
  case (2 H F N c x arms cfg)
  obtain r cfg1 where e: "execute_command H F N c x cfg = (r, cfg1)" by (metis surj_pair)
  obtain rs2 cfg2 where p: "process_commands H F N arms cfg1 = (rs2, cfg2)" by (metis surj_pair)
  show ?case
    using execute_lifecycle [OF e] 2(1) [OF e [symmetric]] 2(2) p by (auto simp: e p is_active_def split: if_splits)
qed auto

lemma recover_state_lifecycle:
  "is_recoverable (actor_lifecycle (fst cfg)) \<Longrightarrow>
   actor_lifecycle (fst (recover_state H F N cfg)) = Active \<or> actor_lifecycle (fst (recover_state H F N cfg)) = Failed"
  by (cases cfg) (auto simp: recover_state_def is_recoverable_def transition_def split: sum.splits)

text \<open>
  Every command is answered exactly once. The replies of a run are those to the commands the actor
  took before it stopped and those to every command found in the mailbox; an actor that does not fail
  answers all commands it was given before it was told to stop.
\<close>

theorem every_command_is_answered:
  assumes "is_recoverable (actor_lifecycle (fst cfg))" "run H F N arms mailbox cfg = (rs, cfg')"
  shows "\<exists>k \<le> taken arms. length rs = k + length mailbox \<and>
           (k = taken arms \<or> actor_lifecycle (fst cfg') = Failed)"
proof -
  obtain rs1 cfg1 where p: "process_commands H F N arms (recover_state H F N cfg) = (rs1, cfg1)" by (metis surj_pair)
  obtain rs2 cfg2 where q: "passivate H F N mailbox cfg1 = (rs2, cfg2)" by (metis surj_pair)
  have len: "length rs1 \<le> taken arms" "length rs2 = length mailbox"
    using process_commands_replies [OF p] passivate_replies [of H F N mailbox cfg1] q by auto
  show ?thesis
  proof (cases "actor_lifecycle (fst (recover_state H F N cfg)) = Failed")
    case True
    then show ?thesis using assms(2) by (auto simp: run_def drain_mailbox_with_error_def)
  next
    case False
    then have "actor_lifecycle (fst cfg1) = Failed \<or> length rs1 = taken arms"
      using recover_state_lifecycle [OF assms(1), of H F N] process_commands_lifecycle [OF p] process_commands_replies [OF p]
      by (auto simp: is_active_def)
    then show ?thesis
      using assms(2) False len by (auto simp: run_def p q drain_mailbox_with_error_def split: if_splits)
  qed
qed

theorem every_command_is_answered_witness:
  "\<exists>rs cfg'. run tally entity_facade (quiet_env False) [Received 5 anonymous, PassivationSignal] [(2, anonymous)]
     (fresh_actor (cart ''t''), empty_world) = (rs, cfg') \<and> length rs \<le> 2"
proof -
  obtain rs cfg' where e: "run tally entity_facade (quiet_env False) [Received 5 anonymous, PassivationSignal] [(2, anonymous)]
      (fresh_actor (cart ''t''), empty_world) = (rs, cfg')" by (metis surj_pair)
  from every_command_is_answered [OF _ e] e show ?thesis
    by (auto simp: fresh_actor_def LifecycleStateMachine_new_def is_recoverable_def)
qed

section \<open>Operations\<close>



section \<open>Where the guarantees end\<close>

text \<open>
  A tenant name of blanks is accepted by the stores but not by \<open>TenantId\<close>, so the receipt is
  filed without a tenant and never found again: the same operation, sent twice, is executed twice.
\<close>

theorem blank_tenant_executes_twice:
  "\<exists>a1 w1 a2 w2.
     execute_command tally entity_facade (quiet_env False) 5 (identified ''k'' ''f'') (live_actor (cart '' ''), empty_world) =
       (Ok (CommandEvents 5 [5]), (a1, w1)) \<and>
     execute_command tally entity_facade (quiet_env False) 5 (identified ''k'' ''f'') (a1, w1) =
       (Ok (CommandEvents 10 [5]), (a2, w2)) \<and>
     events_of (aw_events w2) (cart '' '') = [5, 5]"
  by (simp add: tally_defs tally_run Let_def stream_key_def)

text \<open>
  A state that does not serialise is stored as \<open>null\<close>, and one that does not deserialise is
  replaced by the initial state at the snapshot's version: the entity comes back at version 1 without
  the event that version stands for.
\<close>

theorem undecodable_snapshot_drops_events:
  "\<exists>a1 w1.
     execute_command opaque_tally entity_facade (quiet_env True) 5 anonymous (live_actor (cart ''t''), empty_world) =
       (Ok (CommandEvents 5 [5]), (a1, w1)) \<and>
     events_of (aw_events w1) (cart ''t'') = [5] \<and>
     rebuild_state_from_persistence opaque_tally entity_facade (cart ''t'') (aw_events w1) (aw_snapshots w1) = Ok (0, 1)"
  by (simp add: tally_defs tally_run Let_def stream_key_def)

text \<open>
  The actor crate's snapshot store ignores the tenant: an entity that has no events is recovered
  with the state of another tenant's entity of the same type and id.
\<close>

theorem snapshot_crosses_tenants:
  "\<exists>a1 w1.
     execute_command tally entity_facade (quiet_env True) 5 anonymous (live_actor (cart ''t''), empty_world) =
       (Ok (CommandEvents 5 [5]), (a1, w1)) \<and>
     events_of (aw_events w1) (cart ''u'') = [] \<and>
     rebuild_state_from_persistence tally entity_facade (cart ''u'') (aw_events w1) (aw_snapshots w1) = Ok (5, 1)"
  by (simp add: tally_defs tally_run Let_def stream_key_def)

end
