(* ===== verification/Ego_Entity_Routing.thy ===== *)
theory Ego_Entity_Routing
  imports Ego_Entity_Actor
begin

text \<open>
  How commands reach an entity: the bounded mailbox (\<open>crates/persistent-entity/src/mailbox.rs\<close>), the
  registry that routes to live actors (\<open>registry.rs\<close>), and activation and teardown of an actor
  (\<open>entity_ref_tokio.rs\<close>). Handles (\<open>Arc\<close>) are numbers into a store, so that a mailbox is shared by
  the callers, the actor and its teardown guard as in the code.
\<close>

section \<open>Mailbox\<close>

record 'm BoundedMailbox =
  mb_queue :: "'m list"
  mb_capacity :: nat
  mb_closed :: bool

definition Mailbox_new :: "nat \<Rightarrow> 'm BoundedMailbox" where
  "Mailbox_new capacity = \<lparr>mb_queue = [], mb_capacity = capacity, mb_closed = False\<rparr>"

definition Mailbox_mark_closed :: "'m BoundedMailbox \<Rightarrow> 'm BoundedMailbox" where
  "Mailbox_mark_closed m = m\<lparr>mb_closed := True\<rparr>"

definition Mailbox_close :: "'m BoundedMailbox \<Rightarrow> 'm BoundedMailbox" where
  "Mailbox_close m = Mailbox_mark_closed m"

text \<open>
  The flag is stored before the queue's lock is taken. A \<open>send\<close> that gets the lock in between already
  sees the flag, so that the drain under the lock takes all that was accepted.
\<close>

definition close_and_drain :: "'m BoundedMailbox \<Rightarrow> 'm list \<times> 'm BoundedMailbox" where
  "close_and_drain m = (mb_queue m, (Mailbox_mark_closed m)\<lparr>mb_queue := []\<rparr>)"

text \<open>
  One pass of the loops of \<open>send\<close> and \<open>recv\<close>, the part under the queue's lock. \<open>None\<close> means that the
  caller waits to be notified and tries again.
\<close>

definition send_attempt :: "'m \<Rightarrow> 'm BoundedMailbox \<Rightarrow> (unit, EntityError) result option \<times> 'm BoundedMailbox" where
  "send_attempt command m =
     (if mb_closed m then (Some (Err MailboxClosed), m)
      else if length (mb_queue m) < mb_capacity m then (Some (Ok ()), m\<lparr>mb_queue := mb_queue m @ [command]\<rparr>)
      else (None, m))"

definition recv_attempt :: "'m BoundedMailbox \<Rightarrow> ('m, EntityError) result option \<times> 'm BoundedMailbox" where
  "recv_attempt m =
     (case mb_queue m of
        command # rest \<Rightarrow> (Some (Ok command), m\<lparr>mb_queue := rest\<rparr>)
      | [] \<Rightarrow> if mb_closed m then (Some (Err MailboxClosed), m) else (None, m))"

definition Mailbox_is_empty :: "'m BoundedMailbox \<Rightarrow> bool" where
  "Mailbox_is_empty m = (mb_queue m = [])"

definition Mailbox_is_full :: "'m BoundedMailbox \<Rightarrow> bool" where
  "Mailbox_is_full m = (mb_capacity m \<le> length (mb_queue m))"

definition Mailbox_len :: "'m BoundedMailbox \<Rightarrow> nat" where
  "Mailbox_len m = length (mb_queue m)"

lemmas mailbox_defs =
  Mailbox_new_def Mailbox_mark_closed_def Mailbox_close_def close_and_drain_def send_attempt_def recv_attempt_def

section \<open>Registry\<close>

type_synonym handle = nat

definition MAX_PASSIVATED_ENTRIES :: nat where
  "MAX_PASSIVATED_ENTRIES = 10000"

record ActiveEntry =
  en_mailbox :: handle
  en_rx :: handle
  en_epoch :: u64
  en_triple :: EntityTriple

datatype RouteOutcome =
  Existing handle EntityTriple
| Inserted handle u64 handle

record EntityRegistry =
  reg_active :: "EntityTriple \<rightharpoonup> ActiveEntry"
  reg_next_epoch :: u64
  reg_passivated :: "EntityTriple \<rightharpoonup> nat"

definition EntityRegistry_new :: EntityRegistry where
  "EntityRegistry_new = \<lparr>reg_active = Map.empty, reg_next_epoch = 0, reg_passivated = Map.empty\<rparr>"

text \<open>\<open>mailbox\<close> and \<open>cell\<close> are the handles that \<open>make_mailbox\<close> and \<open>watch::channel\<close> return if they are called.\<close>

definition lookup_or_insert ::
  "EntityTriple \<Rightarrow> handle \<Rightarrow> handle \<Rightarrow> EntityRegistry \<Rightarrow> RouteOutcome \<times> EntityRegistry" where
  "lookup_or_insert triple mailbox cell reg =
     (case reg_active reg triple of
        Some entry \<Rightarrow> (Existing (en_mailbox entry) (en_triple entry), reg)
      | None \<Rightarrow>
          (Inserted mailbox (reg_next_epoch reg) cell,
           reg\<lparr>reg_next_epoch := reg_next_epoch reg + 1,
               reg_active := (reg_active reg)(triple \<mapsto>
                 \<lparr>en_mailbox = mailbox, en_rx = cell, en_epoch = reg_next_epoch reg, en_triple = triple\<rparr>)\<rparr>))"

definition Registry_lookup :: "EntityTriple \<Rightarrow> EntityRegistry \<Rightarrow> handle option" where
  "Registry_lookup triple reg = map_option en_mailbox (reg_active reg triple)"

definition deactivate_if_mine :: "EntityTriple \<Rightarrow> u64 \<Rightarrow> EntityRegistry \<Rightarrow> EntityRegistry" where
  "deactivate_if_mine triple epoch reg =
     (case reg_active reg triple of
        Some entry \<Rightarrow> if en_epoch entry = epoch then reg\<lparr>reg_active := (reg_active reg)(triple := None)\<rparr> else reg
      | None \<Rightarrow> reg)"

text \<open>\<open>order\<close> is an iteration order of the map, \<open>cells\<close> what the watch channels hold.\<close>

definition Registry_active_count :: "EntityTriple list \<Rightarrow> (handle \<Rightarrow> EntityState) \<Rightarrow> EntityRegistry \<Rightarrow> nat" where
  "Registry_active_count order cells reg =
     length (filter (\<lambda>t. case reg_active reg t of Some e \<Rightarrow> cells (en_rx e) = Active | None \<Rightarrow> False) order)"

definition Registry_passivated_count :: "EntityTriple list \<Rightarrow> nat" where
  "Registry_passivated_count order = length order"

definition mark_passivated :: "EntityTriple list \<Rightarrow> EntityTriple \<Rightarrow> nat \<Rightarrow> EntityRegistry \<Rightarrow> EntityRegistry" where
  "mark_passivated order triple version reg =
     (let passivated = (if MAX_PASSIVATED_ENTRIES \<le> length order
                        then (case order of oldest # _ \<Rightarrow> (reg_passivated reg)(oldest := None) | [] \<Rightarrow> reg_passivated reg)
                        else reg_passivated reg)
      in reg\<lparr>reg_passivated := passivated(triple \<mapsto> version)\<rparr>)"

text \<open>The release build's behaviour: \<open>debug_assert_eq!\<close> is compiled out.\<close>

definition ensure_owner_matches :: "EntityTriple \<Rightarrow> EntityTriple \<Rightarrow> (unit, EntityError) result" where
  "ensure_owner_matches triple owner =
     (if owner \<noteq> triple then Err (InternalError (Text ''registry routing-key mismatch'')) else Ok ())"

section \<open>Activation and teardown\<close>

text \<open>
  An actor task runs, is torn down by its guard in two more steps (drain the mailbox, leave the
  registry) and is gone. The last step of the guard publishes a terminal state.
\<close>

datatype phase = Running | Drained | Removed

record task =
  tk_triple :: EntityTriple
  tk_epoch :: u64
  tk_cell :: handle
  tk_phase :: phase

text \<open>
  \<open>rt_accepted\<close> and \<open>rt_answered\<close> record, per mailbox, the envelopes whose \<open>send\<close> returned \<open>Ok\<close> and those
  whose reply channel was used or dropped, in order.
\<close>

record 'm routing =
  rt_registry :: EntityRegistry
  rt_mailboxes :: "handle \<Rightarrow> 'm BoundedMailbox"
  rt_cells :: "handle \<Rightarrow> EntityState"
  rt_tasks :: "handle \<rightharpoonup> task"
  rt_types :: "handle \<Rightarrow> nat"
  rt_next :: handle
  rt_accepted :: "handle \<Rightarrow> 'm list"
  rt_answered :: "handle \<Rightarrow> 'm list"

definition terminal_state :: "EntityState \<Rightarrow> EntityState" where
  "terminal_state current = (if current \<noteq> Failed \<and> current \<noteq> Passivated then Failed else current)"

text \<open>
  \<open>TokioEntityRef::new\<close>: a reference to the live actor, or to a new one. \<open>ctype\<close> identifies the
  command type \<open>C\<close> of the caller, \<open>rt_types\<close> the type a mailbox was created with.
\<close>

definition downcast_mailbox :: "nat \<Rightarrow> handle \<Rightarrow> 'm routing \<Rightarrow> (handle, EntityError) result" where
  "downcast_mailbox ctype mailbox w =
     (if rt_types w mailbox = ctype then Ok mailbox else Err (InternalError (Text ''routing type mismatch'')))"

definition activate :: "nat \<Rightarrow> nat \<Rightarrow> EntityTriple \<Rightarrow> 'm routing \<Rightarrow> (handle, EntityError) result \<times> 'm routing" where
  "activate ctype capacity triple w =
     (let h = rt_next w; cell = Suc (rt_next w)
      in case lookup_or_insert triple h cell (rt_registry w) of
           (Existing mailbox owner, reg) \<Rightarrow>
             (case ensure_owner_matches triple owner of
                Inl e \<Rightarrow> (Err e, w\<lparr>rt_registry := reg\<rparr>)
              | Inr _ \<Rightarrow> (downcast_mailbox ctype mailbox w, w\<lparr>rt_registry := reg\<rparr>))
         | (Inserted mailbox epoch tx, reg) \<Rightarrow>
             (Ok mailbox,
              w\<lparr>rt_registry := reg, rt_next := Suc (Suc (rt_next w)),
                rt_mailboxes := (rt_mailboxes w)(mailbox := Mailbox_new capacity),
                rt_types := (rt_types w)(mailbox := ctype),
                rt_cells := (rt_cells w)(tx := Recovering),
                rt_tasks := (rt_tasks w)(mailbox \<mapsto>
                  \<lparr>tk_triple = triple, tk_epoch = epoch, tk_cell = tx, tk_phase = Running\<rparr>)\<rparr>))"

text \<open>The three steps of \<open>TeardownGuard::drop\<close>.\<close>

definition guard_drain :: "handle \<Rightarrow> task \<Rightarrow> 'm routing \<Rightarrow> 'm routing" where
  "guard_drain h tk w =
     (let (drained, m) = close_and_drain (rt_mailboxes w h)
      in w\<lparr>rt_mailboxes := (rt_mailboxes w)(h := m),
           rt_answered := (rt_answered w)(h := rt_answered w h @ drained),
           rt_tasks := (rt_tasks w)(h \<mapsto> tk\<lparr>tk_phase := Drained\<rparr>)\<rparr>)"

definition guard_remove :: "handle \<Rightarrow> task \<Rightarrow> 'm routing \<Rightarrow> 'm routing" where
  "guard_remove h tk w =
     w\<lparr>rt_registry := deactivate_if_mine (tk_triple tk) (tk_epoch tk) (rt_registry w),
       rt_tasks := (rt_tasks w)(h \<mapsto> tk\<lparr>tk_phase := Removed\<rparr>)\<rparr>"

definition guard_publish :: "task \<Rightarrow> 'm routing \<Rightarrow> 'm routing" where
  "guard_publish tk w = w\<lparr>rt_cells := (rt_cells w)(tk_cell tk := terminal_state (rt_cells w (tk_cell tk)))\<rparr>"

text \<open>
  The interleavings: callers activate and send, running actors receive, close their mailbox, publish
  their state and mark themselves passivated, and guards tear down whenever a task ends.
\<close>

inductive routing_step :: "'m routing \<Rightarrow> 'm routing \<Rightarrow> bool" where
  activation: "activate ctype capacity triple w = (r, w') \<Longrightarrow> routing_step w w'"
| sending: "h \<in> dom (rt_tasks w) \<Longrightarrow> send_attempt e (rt_mailboxes w h) = (r, m) \<Longrightarrow>
    routing_step w (w\<lparr>rt_mailboxes := (rt_mailboxes w)(h := m),
      rt_accepted := (rt_accepted w)(h := rt_accepted w h @ (if r = Some (Ok ()) then [e] else []))\<rparr>)"
| receiving: "rt_tasks w h = Some tk \<Longrightarrow> tk_phase tk = Running \<Longrightarrow> recv_attempt (rt_mailboxes w h) = (Some (Ok e), m) \<Longrightarrow>
    routing_step w (w\<lparr>rt_mailboxes := (rt_mailboxes w)(h := m), rt_answered := (rt_answered w)(h := rt_answered w h @ [e])\<rparr>)"
| closing: "rt_tasks w h = Some tk \<Longrightarrow> tk_phase tk = Running \<Longrightarrow>
    routing_step w (w\<lparr>rt_mailboxes := (rt_mailboxes w)(h := Mailbox_close (rt_mailboxes w h))\<rparr>)"
| publishing: "rt_tasks w h = Some tk \<Longrightarrow> tk_phase tk = Running \<Longrightarrow>
    routing_step w (w\<lparr>rt_cells := (rt_cells w)(tk_cell tk := st)\<rparr>)"
| passivating: "rt_tasks w h = Some tk \<Longrightarrow> tk_phase tk = Running \<Longrightarrow>
    routing_step w (w\<lparr>rt_registry := mark_passivated order (tk_triple tk) v (rt_registry w)\<rparr>)"
| draining: "rt_tasks w h = Some tk \<Longrightarrow> tk_phase tk = Running \<Longrightarrow> routing_step w (guard_drain h tk w)"
| removing: "rt_tasks w h = Some tk \<Longrightarrow> tk_phase tk = Drained \<Longrightarrow> routing_step w (guard_remove h tk w)"
| ending: "rt_tasks w h = Some tk \<Longrightarrow> tk_phase tk = Removed \<Longrightarrow> routing_step w (guard_publish tk w)"

definition routing_start :: "(handle \<Rightarrow> 'm BoundedMailbox) \<Rightarrow> (handle \<Rightarrow> EntityState) \<Rightarrow> 'm routing" where
  "routing_start ms cs =
     \<lparr>rt_registry = EntityRegistry_new, rt_mailboxes = ms, rt_cells = cs, rt_tasks = Map.empty, rt_types = (\<lambda>_. 0), rt_next = 0,
      rt_accepted = (\<lambda>_. []), rt_answered = (\<lambda>_. [])\<rparr>"

text \<open>
  \<open>send_command\<close> as a caller sees it: \<open>sent\<close> is what \<open>send\<close> returned, \<open>reply\<close> what came through the reply
  channel (\<open>None\<close> when it was dropped), \<open>downcast\<close> the conversion to the expected type.
\<close>

definition send_command ::
  "('r \<Rightarrow> 't option) \<Rightarrow> (unit, EntityError) result \<Rightarrow> ('r, EntityError) result option \<Rightarrow> ('t, EntityError) result" where
  "send_command downcast sent reply =
     (case sent of
        Inl _ \<Rightarrow> Err MailboxClosed
      | Inr _ \<Rightarrow>
          (case reply of
             None \<Rightarrow> Err (InternalError (Text ''actor dropped reply channel without responding''))
           | Some (Inl e) \<Rightarrow> Err e
           | Some (Inr erased) \<Rightarrow>
               (case downcast erased of
                  None \<Rightarrow> Err (InternalError (Text ''TokioEntityRef::send_command: result type mismatch''))
                | Some t \<Rightarrow> Ok t)))"

section \<open>Invariants\<close>

text \<open>Registry and live tasks agree.\<close>

definition routed :: "'m routing \<Rightarrow> bool" where
  "routed w \<longleftrightarrow>
     (\<forall>t e. reg_active (rt_registry w) t = Some e \<longrightarrow> en_triple e = t) \<and>
     (\<forall>h tk. rt_tasks w h = Some tk \<longrightarrow> h < rt_next w) \<and>
     (\<forall>h tk. rt_tasks w h = Some tk \<and> tk_phase tk \<noteq> Removed \<longrightarrow>
        (\<exists>e. reg_active (rt_registry w) (tk_triple tk) = Some e \<and> en_mailbox e = h \<and> en_epoch e = tk_epoch tk))"

text \<open>What was accepted is answered or queued, in order; a mailbox that was drained stays closed and empty.\<close>

definition accounted :: "'m routing \<Rightarrow> bool" where
  "accounted w \<longleftrightarrow>
     (\<forall>h. h \<notin> dom (rt_tasks w) \<longrightarrow> rt_accepted w h = [] \<and> rt_answered w h = []) \<and>
     (\<forall>h tk. rt_tasks w h = Some tk \<longrightarrow>
        rt_accepted w h = rt_answered w h @ mb_queue (rt_mailboxes w h) \<and>
        length (mb_queue (rt_mailboxes w h)) \<le> mb_capacity (rt_mailboxes w h) \<and>
        (tk_phase tk \<noteq> Running \<longrightarrow> mb_closed (rt_mailboxes w h) \<and> mb_queue (rt_mailboxes w h) = []))"

lemma activate_fresh:
  "reg_active (rt_registry w) triple = None \<Longrightarrow>
     activate ctype capacity triple w =
       (Ok (rt_next w),
        w\<lparr>rt_registry := snd (lookup_or_insert triple (rt_next w) (Suc (rt_next w)) (rt_registry w)), rt_next := Suc (Suc (rt_next w)),
          rt_mailboxes := (rt_mailboxes w)(rt_next w := Mailbox_new capacity),
          rt_types := (rt_types w)(rt_next w := ctype),
          rt_cells := (rt_cells w)(Suc (rt_next w) := Recovering),
          rt_tasks := (rt_tasks w)(rt_next w \<mapsto>
            \<lparr>tk_triple = triple, tk_epoch = reg_next_epoch (rt_registry w), tk_cell = Suc (rt_next w), tk_phase = Running\<rparr>)\<rparr>)"
  unfolding activate_def lookup_or_insert_def by (simp add: Let_def)

lemma activate_live:
  assumes "reg_active (rt_registry w) triple = Some e" "en_triple e = triple"
  shows "activate ctype capacity triple w = (downcast_mailbox ctype (en_mailbox e) w, w)"
  using assms by (cases w) (simp add: activate_def lookup_or_insert_def ensure_owner_matches_def Let_def)

lemma activate_cases:
  assumes "routed w" "activate ctype capacity triple w = (r, w')"
  obtains e where "reg_active (rt_registry w) triple = Some e" "r = downcast_mailbox ctype (en_mailbox e) w" "w' = w"
  | "reg_active (rt_registry w) triple = None" "r = Ok (rt_next w)"
    "w' = w\<lparr>rt_registry := snd (lookup_or_insert triple (rt_next w) (Suc (rt_next w)) (rt_registry w)), rt_next := Suc (Suc (rt_next w)),
            rt_mailboxes := (rt_mailboxes w)(rt_next w := Mailbox_new capacity),
            rt_types := (rt_types w)(rt_next w := ctype),
            rt_cells := (rt_cells w)(Suc (rt_next w) := Recovering),
            rt_tasks := (rt_tasks w)(rt_next w \<mapsto>
              \<lparr>tk_triple = triple, tk_epoch = reg_next_epoch (rt_registry w), tk_cell = Suc (rt_next w), tk_phase = Running\<rparr>)\<rparr>"
proof (cases "reg_active (rt_registry w) triple")
  case None
  note eq = trans [OF assms(2) [symmetric] activate_fresh [OF None], unfolded prod.inject]
  show ?thesis by (rule that(2) [OF None conjunct1 [OF eq] conjunct2 [OF eq]])
next
  case (Some e)
  then have "en_triple e = triple" using assms(1) by (auto simp: routed_def)
  note eq = trans [OF assms(2) [symmetric] activate_live [OF Some this], unfolded prod.inject]
  show ?thesis by (rule that(1) [OF Some conjunct1 [OF eq] conjunct2 [OF eq]])
qed

lemma routed_step: "routing_step w w' \<Longrightarrow> routed w \<Longrightarrow> routed w'"
proof (induction rule: routing_step.induct)
  case (activation ctype capacity triple w r w')
  show ?case using activation(2,1)
  proof (cases rule: activate_cases)
    case 1
    then show ?thesis using activation(2) by simp
  next
    case 2
    have "tk_triple tk \<noteq> triple" if "rt_tasks w h = Some tk" "tk_phase tk \<noteq> Removed" for h tk
      using activation(2) that 2(1) unfolding routed_def by (metis option.distinct(1))
    then show ?thesis
      using activation(2) 2 unfolding routed_def by (auto simp: lookup_or_insert_def less_Suc_eq)
  qed
next
  case (removing w h tk)
  then obtain e where e: "reg_active (rt_registry w) (tk_triple tk) = Some e" "en_mailbox e = h" "en_epoch e = tk_epoch tk"
    unfolding routed_def by (metis phase.distinct(5))
  have "tk_triple tk' \<noteq> tk_triple tk" if "rt_tasks w h' = Some tk'" "tk_phase tk' \<noteq> Removed" "h' \<noteq> h" for h' tk'
    using removing(3) that e unfolding routed_def by (metis option.inject)
  then show ?case
    using removing e unfolding routed_def by (auto simp: guard_remove_def deactivate_if_mine_def split: if_splits)
qed (auto simp: routed_def guard_drain_def guard_publish_def mark_passivated_def Let_def close_and_drain_def split: if_splits)

lemma accounted_step:
  assumes "routing_step w w'" "routed w" "accounted w"
  shows "accounted w'"
  using assms
proof (induction rule: routing_step.induct)
  case (activation ctype capacity triple w r w')
  show ?case using activation(2,1)
  proof (cases rule: activate_cases)
    case 1
    then show ?thesis using activation(3) by simp
  next
    case 2
    have "rt_next w \<notin> dom (rt_tasks w)" using activation(2) unfolding routed_def by blast
    then show ?thesis using activation(3) 2 unfolding accounted_def by (auto simp: Mailbox_new_def)
  qed
next
  case (sending h w e r m)
  then obtain tk where "rt_tasks w h = Some tk" by blast
  with sending(4) have "length (mb_queue (rt_mailboxes w h)) \<le> mb_capacity (rt_mailboxes w h)"
    unfolding accounted_def by blast
  with sending show ?case unfolding accounted_def by (auto simp: send_attempt_def split: if_splits)
next
  case (receiving w h tk e m)
  then obtain rest where rest: "mb_queue (rt_mailboxes w h) = e # rest" "m = (rt_mailboxes w h)\<lparr>mb_queue := rest\<rparr>"
    by (auto simp: recv_attempt_def split: list.splits if_splits)
  have "length (mb_queue (rt_mailboxes w h)) \<le> mb_capacity (rt_mailboxes w h)"
    using receiving unfolding accounted_def by blast
  with receiving rest show ?case unfolding accounted_def by auto
qed (auto simp: accounted_def guard_drain_def guard_publish_def guard_remove_def mailbox_defs Let_def split: if_splits)

lemma routing_reachable:
  "routing_step\<^sup>*\<^sup>* (routing_start ms cs) w \<Longrightarrow> routed w \<and> accounted w"
proof (induction rule: rtranclp_induct)
  case base
  then show ?case by (simp add: routed_def accounted_def routing_start_def EntityRegistry_new_def)
qed (use routed_step accounted_step in blast)


section \<open>Properties\<close>

text \<open>
  C9: At most one actor is live for an entity. In every reachable state of the router, two tasks of
  the same triple that have not left the registry are the same task, a caller that activates the triple is
  routed to it and to no other mailbox, and the owner check of the registry entry never refuses.
\<close>

theorem at_most_one_live_actor:
  assumes "routing_step\<^sup>*\<^sup>* (routing_start ms cs) w"
    and "rt_tasks w h = Some tk" "tk_phase tk \<noteq> Removed"
  shows "(\<forall>h' tk'. rt_tasks w h' = Some tk' \<and> tk_phase tk' \<noteq> Removed \<and> tk_triple tk' = tk_triple tk \<longrightarrow> h' = h)
         \<and> (\<forall>ctype capacity. activate ctype capacity (tk_triple tk) w = (downcast_mailbox ctype h w, w))"
proof -
  have r: "routed w" using routing_reachable [OF assms(1)] by simp
  then obtain e where e: "reg_active (rt_registry w) (tk_triple tk) = Some e" "en_mailbox e = h"
    using assms(2,3) unfolding routed_def by blast
  have "\<forall>h' tk'. rt_tasks w h' = Some tk' \<and> tk_phase tk' \<noteq> Removed \<and> tk_triple tk' = tk_triple tk \<longrightarrow> h' = h"
    using r e unfolding routed_def by (metis option.inject)
  moreover have "activate ctype capacity (tk_triple tk) w = (downcast_mailbox ctype h w, w)" for ctype capacity
  proof -
    obtain res w' where a: "activate ctype capacity (tk_triple tk) w = (res, w')" by fastforce
    show ?thesis using r a by (cases rule: activate_cases) (use a e in auto)
  qed
  ultimately show ?thesis by blast
qed

text \<open>A run: an actor is activated with room for one command, is sent two, and ends without receiving any.\<close>

definition example_triple :: EntityTriple where
  "example_triple = \<lparr>et_tenant_id = ''acme'', et_entity_type = ''cart'', et_entity_id = ''1''\<rparr>"

definition example_task :: task where
  "example_task = \<lparr>tk_triple = example_triple, tk_epoch = 0, tk_cell = 1, tk_phase = Running\<rparr>"

definition example_start :: "string routing" where
  "example_start = routing_start (\<lambda>_. Mailbox_new 0) (\<lambda>_. Failed)"

definition example_active :: "string routing" where
  "example_active = snd (activate 7 1 example_triple example_start)"

definition example_sent :: "string \<Rightarrow> string routing \<Rightarrow> string routing" where
  "example_sent e w =
     (let (r, m) = send_attempt e (rt_mailboxes w 0)
      in w\<lparr>rt_mailboxes := (rt_mailboxes w)(0 := m),
           rt_accepted := (rt_accepted w)(0 := rt_accepted w 0 @ (if r = Some (Ok ()) then [e] else []))\<rparr>)"

definition example_ended :: "string routing" where
  "example_ended = guard_drain 0 example_task (example_sent ''b'' (example_sent ''a'' example_active))"

lemma example_active_parts:
  "rt_tasks example_active 0 = Some example_task" "rt_mailboxes example_active 0 = Mailbox_new 1"
  "rt_accepted example_active 0 = []"
  by (simp_all add: example_active_def activate_fresh example_start_def routing_start_def EntityRegistry_new_def example_task_def)

lemma example_sent_parts:
  "rt_mailboxes (example_sent e w) 0 = snd (send_attempt e (rt_mailboxes w 0))"
  "rt_accepted (example_sent e w) 0 =
     rt_accepted w 0 @ (if fst (send_attempt e (rt_mailboxes w 0)) = Some (Ok ()) then [e] else [])"
  "rt_tasks (example_sent e w) = rt_tasks w"
  by (simp_all add: example_sent_def Let_def split_beta)

lemma example_sent_step: "0 \<in> dom (rt_tasks w) \<Longrightarrow> routing_step w (example_sent e w)"
  unfolding example_sent_def Let_def split_beta by (rule sending [OF _ prod.collapse [symmetric]])

lemma example_active_reachable: "routing_step\<^sup>*\<^sup>* example_start example_active"
  unfolding example_active_def by (intro r_into_rtranclp activation) (rule prod.collapse [symmetric])

lemma example_ended_reachable: "routing_step\<^sup>*\<^sup>* example_start example_ended"
proof -
  let ?a = "example_sent ''a'' example_active" and ?b = "example_sent ''b'' (example_sent ''a'' example_active)"
  have "routing_step example_active ?a" "routing_step ?a ?b"
    by (auto intro!: example_sent_step simp: example_sent_parts example_active_parts)
  moreover have "routing_step ?b example_ended"
    unfolding example_ended_def by (rule draining) (simp_all add: example_sent_parts example_active_parts, simp add: example_task_def)
  ultimately show ?thesis using example_active_reachable by (meson rtranclp.rtrancl_into_rtrancl)
qed

theorem at_most_one_live_actor_witness:
  "activate 7 2 example_triple example_active = (Ok 0, example_active)"
proof -
  have t: "tk_triple example_task = example_triple" "tk_phase example_task \<noteq> Removed" by (simp_all add: example_task_def)
  have "downcast_mailbox 7 0 example_active = Ok 0"
    by (simp add: downcast_mailbox_def example_active_def activate_fresh example_start_def routing_start_def EntityRegistry_new_def)
  then show ?thesis
    using at_most_one_live_actor [OF example_active_reachable [unfolded example_start_def] example_active_parts(1) t(2)]
    by (simp add: t(1))
qed

text \<open>
  C10: Every command that was accepted is answered, in the order it was accepted. In every reachable
  state the commands answered by an actor are the first of those its mailbox accepted and the others are
  queued, within the mailbox's capacity. Once the actor's task has ended, whichever way, all were answered
  and the mailbox refuses every further command.
\<close>

theorem accepted_commands_are_answered:
  assumes "routing_step\<^sup>*\<^sup>* (routing_start ms cs) w" and "rt_tasks w h = Some tk"
  shows "rt_accepted w h = rt_answered w h @ mb_queue (rt_mailboxes w h)
         \<and> length (mb_queue (rt_mailboxes w h)) \<le> mb_capacity (rt_mailboxes w h)
         \<and> (tk_phase tk \<noteq> Running \<longrightarrow>
              rt_answered w h = rt_accepted w h
              \<and> (\<forall>e. send_attempt e (rt_mailboxes w h) = (Some (Err MailboxClosed), rt_mailboxes w h)))"
proof -
  have "accounted w" using routing_reachable [OF assms(1)] by simp
  then show ?thesis using assms(2) unfolding accounted_def by (simp add: send_attempt_def)
qed

theorem accepted_commands_are_answered_witness:
  "rt_answered example_ended 0 = [''a''] \<and> rt_accepted example_ended 0 = [''a'']
   \<and> (\<forall>e. send_attempt e (rt_mailboxes example_ended 0) = (Some (Err MailboxClosed), rt_mailboxes example_ended 0))"
proof -
  have t: "rt_tasks example_ended 0 = Some (example_task\<lparr>tk_phase := Drained\<rparr>)"
    by (simp add: example_ended_def guard_drain_def Let_def split_beta)
  have a: "rt_accepted example_ended 0 = [''a'']"
    by (simp add: example_ended_def guard_drain_def Let_def split_beta example_sent_parts example_active_parts send_attempt_def Mailbox_new_def)
  have "tk_phase (example_task\<lparr>tk_phase := Drained\<rparr>) \<noteq> Running" by simp
  then show ?thesis
    using accepted_commands_are_answered [OF example_ended_reachable [unfolded example_start_def] t] a by metis
qed

end
