(* ===== verification/Ego_Read_Side.thy ===== *)
theory Ego_Read_Side
  imports Ego_Reservation
begin

text \<open>
  The read side: tagged events, offsets, claims and configuration
  (\<open>crates/persistence-api/src/read_side\<close>, \<open>crates/domain/src/read_side\<close>), the in-memory stores
  (\<open>crates/persistence-memory/src/read_side\<close>), the session that runs one batch (\<open>session.rs\<close>) and the
  scheduler that polls (\<open>crates/runtime/src/read_side\<close>).

  A session's collaborators - read store, dedup store, offset store, handler, reporter and claim store -
  act on one state \<open>'s\<close>. An error that is rendered into another one is carried by it instead.
\<close>

section \<open>Tags, events and offsets\<close>

text \<open>\<open>None\<close> stands for the panic of a violated \<open>assert!\<close>.\<close>

datatype EventTag = EventTag (tag_value: string)

definition EventTag_new :: "string \<Rightarrow> EventTag option" where
  "EventTag_new v = (if v = [] then None else Some (EventTag v))"

record 'e EventStreamElement =
  el_event_id :: string
  el_aggregate_id :: string
  el_tenant_id :: string
  el_event_type :: string
  el_payload :: 'e
  el_event_version :: int
  el_occurred_at :: timestamp
  el_tags :: "EventTag list"

definition EventStreamElement_new ::
  "string \<Rightarrow> string \<Rightarrow> string \<Rightarrow> string \<Rightarrow> 'e \<Rightarrow> int \<Rightarrow> timestamp \<Rightarrow> EventTag list \<Rightarrow> 'e EventStreamElement option" where
  "EventStreamElement_new event_id aggregate_id tenant_id event_type payload event_version occurred_at tags =
     (if event_id = [] \<or> aggregate_id = [] \<or> tenant_id = [] \<or> event_type = [] \<or> event_version < 1 \<or> tags = [] then None
      else Some \<lparr>el_event_id = event_id, el_aggregate_id = aggregate_id, el_tenant_id = tenant_id,
                 el_event_type = event_type, el_payload = payload, el_event_version = event_version,
                 el_occurred_at = occurred_at, el_tags = tags\<rparr>)"

definition has_tag :: "string \<Rightarrow> 'e EventStreamElement \<Rightarrow> bool" where
  "has_tag v e = list_ex (\<lambda>t. tag_value t = v) (el_tags e)"

datatype Offset = Sequence int

definition Offset_sequence :: "int \<Rightarrow> Offset" where
  "Offset_sequence version = Sequence version"

fun as_sequence :: "Offset \<Rightarrow> int option" where
  "as_sequence (Sequence v) = Some v"

section \<open>Errors, claims and configuration\<close>

datatype OffsetStoreError = Offset_Transient string | Offset_Fatal string
datatype DedupStoreError = Dedup_Transient string | Dedup_Fatal string
datatype ReadSideStoreError = Store_Transient string | Store_Fatal string
datatype ClaimError = Claim_StaleOwner | Claim_FencingExhausted | Claim_Transient string | Claim_Fatal string

datatype cause =
  Because string
| ReadOffsetFailed OffsetStoreError
| FetchFailed ReadSideStoreError
| DedupCheckFailed DedupStoreError
| MarkDedupFailed DedupStoreError
| WriteOffsetFailed OffsetStoreError
| ClaimAcquisitionFailed ClaimError
| ClaimLostBeforeCommit
| ClaimRenewFailed ClaimError

datatype ProjectionError = Transient cause | Fatal cause | PoisonEvent cause

fun is_transient :: "ProjectionError \<Rightarrow> bool" where
  "is_transient (Transient _) = True"
| "is_transient _ = False"

record ClaimId =
  cid_projection_id :: string
  cid_tag :: EventTag
  cid_tenant :: string

record ClaimFence =
  cf_claim_id :: ClaimId
  cf_owner_id :: OwnerId
  cf_fencing_token :: FencingToken

record 's ReadSideClaimStore =
  port_try_claim :: "ClaimId \<Rightarrow> OwnerId \<Rightarrow> timestamp \<Rightarrow> 's \<Rightarrow> (ClaimFence option, ClaimError) result \<times> 's"
  port_renew :: "ClaimFence \<Rightarrow> timestamp \<Rightarrow> 's \<Rightarrow> (unit, ClaimError) result \<times> 's"
  port_release :: "ClaimFence \<Rightarrow> 's \<Rightarrow> (unit, ClaimError) result \<times> 's"

record 's ReadSideClaiming =
  cl_store :: "'s ReadSideClaimStore"
  cl_owner :: OwnerId
  cl_now :: "'s \<Rightarrow> timestamp \<times> 's"
  cl_lease :: int

record ReadSideConfig =
  cfg_batch_size :: nat
  cfg_max_in_flight :: nat
  cfg_concurrency_per_tag :: nat

definition ReadSideConfig_default :: ReadSideConfig where
  "ReadSideConfig_default = \<lparr>cfg_batch_size = 20, cfg_max_in_flight = 10, cfg_concurrency_per_tag = 4\<rparr>"

definition with_batch_size :: "nat \<Rightarrow> ReadSideConfig \<Rightarrow> ReadSideConfig option" where
  "with_batch_size n c = (if 0 < n then Some (c\<lparr>cfg_batch_size := n\<rparr>) else None)"

definition with_max_in_flight :: "nat \<Rightarrow> ReadSideConfig \<Rightarrow> ReadSideConfig option" where
  "with_max_in_flight n c = (if 0 < n then Some (c\<lparr>cfg_max_in_flight := n\<rparr>) else None)"

definition with_concurrency_per_tag :: "nat \<Rightarrow> ReadSideConfig \<Rightarrow> ReadSideConfig option" where
  "with_concurrency_per_tag n c = (if 0 < n then Some (c\<lparr>cfg_concurrency_per_tag := n\<rparr>) else None)"

section \<open>In-memory stores\<close>

text \<open>The tag streams of the \<open>BTreeMap\<close>; iteration over it is in key order and not needed here.\<close>

type_synonym 'e read_side_store = "string \<rightharpoonup> 'e EventStreamElement list"

definition ReadSideStore_new :: "'e read_side_store" where
  "ReadSideStore_new = Map.empty"

definition insert_sorted :: "'e EventStreamElement \<Rightarrow> 'e EventStreamElement list \<Rightarrow> 'e EventStreamElement list" where
  "insert_sorted event es =
     (let pos = length (takeWhile (\<lambda>e. \<not> el_event_version event < el_event_version e) es)
      in take pos es @ event # drop pos es)"

fun insert_tags :: "EventTag list \<Rightarrow> 'e EventStreamElement \<Rightarrow> 'e read_side_store \<Rightarrow> 'e read_side_store" where
  "insert_tags [] event m = m"
| "insert_tags (tag # rest) event m =
     insert_tags rest event
       (m(tag_value tag \<mapsto> insert_sorted event (case m (tag_value tag) of Some es \<Rightarrow> es | None \<Rightarrow> [])))"

definition ReadSideStore_insert :: "'e EventStreamElement \<Rightarrow> 'e read_side_store \<Rightarrow> 'e read_side_store" where
  "ReadSideStore_insert event m = insert_tags (el_tags event) event m"

definition events_for_tag :: "string \<Rightarrow> 'e read_side_store \<Rightarrow> 'e EventStreamElement list" where
  "events_for_tag tag m = (case m tag of Some es \<Rightarrow> es | None \<Rightarrow> [])"

definition paginate ::
  "'e EventStreamElement list \<Rightarrow> string \<Rightarrow> Offset option \<Rightarrow> nat \<Rightarrow> 'e EventStreamElement list" where
  "paginate events tenant offset batch_size =
     (if trim_is_empty tenant then []
      else (let after = (case Option.bind offset as_sequence of Some v \<Rightarrow> v | None \<Rightarrow> 0)
            in take batch_size (filter (\<lambda>e. el_tenant_id e = tenant \<and> after < el_event_version e) events)))"

definition ReadSideStore_fetch ::
  "string \<Rightarrow> EventTag \<Rightarrow> Offset option \<Rightarrow> nat \<Rightarrow> 'e read_side_store \<Rightarrow>
   ('e EventStreamElement list, ReadSideStoreError) result" where
  "ReadSideStore_fetch tenant tag offset batch_size m =
     Ok (paginate (events_for_tag (tag_value tag) m) tenant offset batch_size)"

type_synonym dedup_store = "(string \<times> string \<times> string) set"

definition DedupStore_seen :: "string \<Rightarrow> EventTag \<Rightarrow> string \<Rightarrow> dedup_store \<Rightarrow> (bool, DedupStoreError) result" where
  "DedupStore_seen projection_id tag event_id d = Ok ((projection_id, tag_value tag, event_id) \<in> d)"

definition DedupStore_mark_seen ::
  "string \<Rightarrow> EventTag \<Rightarrow> string \<Rightarrow> dedup_store \<Rightarrow> (unit, DedupStoreError) result \<times> dedup_store" where
  "DedupStore_mark_seen projection_id tag event_id d = (Ok (), insert (projection_id, tag_value tag, event_id) d)"

type_synonym offset_store = "string \<times> string \<times> string \<rightharpoonup> Offset"

definition OffsetStore_read_offset ::
  "string \<Rightarrow> EventTag \<Rightarrow> string \<Rightarrow> offset_store \<Rightarrow> (Offset option, OffsetStoreError) result" where
  "OffsetStore_read_offset projection_id tag tenant m = Ok (m (projection_id, tag_value tag, tenant))"

definition OffsetStore_write_offset ::
  "string \<Rightarrow> EventTag \<Rightarrow> string \<Rightarrow> Offset \<Rightarrow> offset_store \<Rightarrow> (unit, OffsetStoreError) result \<times> offset_store" where
  "OffsetStore_write_offset projection_id tag tenant off m = (Ok (), m((projection_id, tag_value tag, tenant) \<mapsto> off))"

section \<open>The session\<close>

record ('e, 's) ReadSideSession =
  rs_projection_id :: string
  rs_tag :: EventTag
  rs_tenant :: string
  rs_config :: ReadSideConfig
  rs_handle :: "'e EventStreamElement list \<Rightarrow> 's \<Rightarrow> (unit, ProjectionError) result \<times> 's"
  rs_fetch :: "string \<Rightarrow> EventTag \<Rightarrow> Offset option \<Rightarrow> nat \<Rightarrow> 's \<Rightarrow>
               ('e EventStreamElement list, ReadSideStoreError) result \<times> 's"
  rs_seen :: "string \<Rightarrow> EventTag \<Rightarrow> string \<Rightarrow> 's \<Rightarrow> (bool, DedupStoreError) result \<times> 's"
  rs_mark_seen :: "string \<Rightarrow> EventTag \<Rightarrow> string \<Rightarrow> 's \<Rightarrow> (unit, DedupStoreError) result \<times> 's"
  rs_read_offset :: "string \<Rightarrow> EventTag \<Rightarrow> string \<Rightarrow> 's \<Rightarrow> (Offset option, OffsetStoreError) result \<times> 's"
  rs_write_offset :: "string \<Rightarrow> EventTag \<Rightarrow> string \<Rightarrow> Offset \<Rightarrow> 's \<Rightarrow> (unit, OffsetStoreError) result \<times> 's"
  rs_on_batch_completed :: "string \<Rightarrow> EventTag \<Rightarrow> nat \<Rightarrow> Offset \<Rightarrow> 's \<Rightarrow> 's"
  rs_on_error :: "string \<Rightarrow> ProjectionError \<Rightarrow> 's \<Rightarrow> 's"
  rs_claiming :: "'s ReadSideClaiming option"

definition with_claiming :: "'s ReadSideClaiming \<Rightarrow> ('e, 's) ReadSideSession \<Rightarrow> ('e, 's) ReadSideSession" where
  "with_claiming claiming S = S\<lparr>rs_claiming := Some claiming\<rparr>"

definition claim_id :: "('e, 's) ReadSideSession \<Rightarrow> ClaimId" where
  "claim_id S = \<lparr>cid_projection_id = rs_projection_id S, cid_tag = rs_tag S, cid_tenant = rs_tenant S\<rparr>"

text \<open>The two loops of a batch: collecting the events not seen before, and marking them.\<close>

fun filter_duplicates ::
  "('e, 's) ReadSideSession \<Rightarrow> 'e EventStreamElement list \<Rightarrow> 's \<Rightarrow>
   ('e EventStreamElement list, ProjectionError) result \<times> 's" where
  "filter_duplicates S [] s = (Ok [], s)"
| "filter_duplicates S (event # events) s =
     (case rs_seen S (rs_projection_id S) (rs_tag S) (el_event_id event) s of
        (Inl e, s1) \<Rightarrow> (Err (Transient (DedupCheckFailed e)), s1)
      | (Inr is_duplicate, s1) \<Rightarrow>
          (case filter_duplicates S events s1 of
             (Inl e, s2) \<Rightarrow> (Err e, s2)
           | (Inr unique_events, s2) \<Rightarrow> (Ok (if is_duplicate then unique_events else event # unique_events), s2)))"

fun mark_all_seen ::
  "('e, 's) ReadSideSession \<Rightarrow> 'e EventStreamElement list \<Rightarrow> 's \<Rightarrow> (unit, ProjectionError) result \<times> 's" where
  "mark_all_seen S [] s = (Ok (), s)"
| "mark_all_seen S (event # events) s =
     (case rs_mark_seen S (rs_projection_id S) (rs_tag S) (el_event_id event) s of
        (Inl e, s1) \<Rightarrow> (Err (Transient (MarkDedupFailed e)), s1)
      | (Inr _, s1) \<Rightarrow> mark_all_seen S events s1)"

text \<open>The ownership check between the handler and the commit.\<close>

definition verify_claim ::
  "('e, 's) ReadSideSession \<Rightarrow> ClaimFence option \<Rightarrow> 's \<Rightarrow> (unit, ProjectionError) result \<times> 's" where
  "verify_claim S fence s =
     (case (rs_claiming S, fence) of
        (Some claiming, Some f) \<Rightarrow>
          (let (now, s1) = cl_now claiming s
           in case port_renew (cl_store claiming) f (now + cl_lease claiming) s1 of
                (Inr _, s2) \<Rightarrow> (Ok (), s2)
              | (Inl Claim_StaleOwner, s2) \<Rightarrow> (Err (Transient ClaimLostBeforeCommit), s2)
              | (Inl other, s2) \<Rightarrow> (Err (Transient (ClaimRenewFailed other)), s2))
      | _ \<Rightarrow> (Ok (), s))"

definition commit_batch ::
  "('e, 's) ReadSideSession \<Rightarrow> 'e EventStreamElement list \<Rightarrow> 's \<Rightarrow> (Offset option, ProjectionError) result \<times> 's" where
  "commit_batch S unique_events s =
     (let new_offset = Offset_sequence (el_event_version (last unique_events))
      in case mark_all_seen S unique_events s of
           (Inl e, s1) \<Rightarrow> (Err e, s1)
         | (Inr _, s1) \<Rightarrow>
             (case rs_write_offset S (rs_projection_id S) (rs_tag S) (rs_tenant S) new_offset s1 of
                (Inl e, s2) \<Rightarrow> (Err (Transient (WriteOffsetFailed e)), s2)
              | (Inr _, s2) \<Rightarrow>
                  (Ok (Some new_offset),
                   rs_on_batch_completed S (rs_projection_id S) (rs_tag S) (length unique_events) new_offset s2)))"

definition run_batch ::
  "('e, 's) ReadSideSession \<Rightarrow> ClaimFence option \<Rightarrow> 's \<Rightarrow> (Offset option, ProjectionError) result \<times> 's" where
  "run_batch S fence s =
     (case rs_read_offset S (rs_projection_id S) (rs_tag S) (rs_tenant S) s of
        (Inl e, s1) \<Rightarrow> (Err (Transient (ReadOffsetFailed e)), s1)
      | (Inr last_offset, s1) \<Rightarrow>
          (case rs_fetch S (rs_tenant S) (rs_tag S) last_offset (cfg_batch_size (rs_config S)) s1 of
             (Inl e, s2) \<Rightarrow> (Err (Transient (FetchFailed e)), s2)
           | (Inr events, s2) \<Rightarrow>
               if events = [] then (Ok None, s2)
               else (case filter_duplicates S events s2 of
                       (Inl e, s3) \<Rightarrow> (Err e, s3)
                     | (Inr unique_events, s3) \<Rightarrow>
                         if unique_events = [] then (Ok None, s3)
                         else (case rs_handle S unique_events s3 of
                                 (Inl err, s4) \<Rightarrow> (Err err, rs_on_error S (rs_projection_id S) err s4)
                               | (Inr _, s4) \<Rightarrow>
                                   (case verify_claim S fence s4 of
                                      (Inl e, s5) \<Rightarrow> (Err e, s5)
                                    | (Inr _, s5) \<Rightarrow> commit_batch S unique_events s5)))))"

definition execute :: "('e, 's) ReadSideSession \<Rightarrow> 's \<Rightarrow> (Offset option, ProjectionError) result \<times> 's" where
  "execute S s =
     (case rs_claiming S of
        None \<Rightarrow> run_batch S None s
      | Some claiming \<Rightarrow>
          (let (now, s1) = cl_now claiming s
           in case port_try_claim (cl_store claiming) (claim_id S) (cl_owner claiming) (now + cl_lease claiming) s1 of
                (Inl e, s2) \<Rightarrow> (Err (Transient (ClaimAcquisitionFailed e)), s2)
              | (Inr None, s2) \<Rightarrow> (Ok None, s2)
              | (Inr (Some fence), s2) \<Rightarrow>
                  (case run_batch S (Some fence) s2 of
                     (r, s3) \<Rightarrow> (r, snd (port_release (cl_store claiming) fence s3)))))"

section \<open>The scheduler\<close>

text \<open>
  \<open>start_projection\<close> runs the sessions of its tags one after the other, so every permit of the
  semaphore is free when it asks \<open>can_process\<close> and when \<open>execute_session\<close> acquires one. The error of a
  session ends it. \<open>session\<close> is the session built for a tag and tenant.
\<close>

definition can_process :: "ReadSideConfig \<Rightarrow> bool" where
  "can_process c = (0 < cfg_max_in_flight c)"

fun start_projection ::
  "ReadSideConfig \<Rightarrow> (EventTag \<times> string \<Rightarrow> ('e, 's) ReadSideSession) \<Rightarrow> (EventTag \<times> string) list \<Rightarrow> 's \<Rightarrow>
   (unit, ProjectionError) result \<times> 's" where
  "start_projection c session [] s = (Ok (), s)"
| "start_projection c session (tag # tags) s =
     (if can_process c
      then (case execute (session tag) s of
              (Inl e, s1) \<Rightarrow> (Err e, s1)
            | (Inr _, s1) \<Rightarrow> start_projection c session tags s1)
      else start_projection c session tags s)"

text \<open>
  The poll loop. What ends each wait between two polls is its input: the interval, a change of the
  stop signal to the given value, or the loss of its sender. The result says whether the loop has
  ended when its inputs end.
\<close>

datatype wake = Slept | Signalled bool | Disconnected

fun poll_loop ::
  "ReadSideConfig \<Rightarrow> (EventTag \<times> string \<Rightarrow> ('e, 's) ReadSideSession) \<Rightarrow> ('s \<Rightarrow> (EventTag \<times> string) list) \<Rightarrow>
   (ProjectionError \<Rightarrow> 's \<Rightarrow> 's) \<Rightarrow> bool \<Rightarrow> wake list \<Rightarrow> 's \<Rightarrow> bool \<times> 's" where
  "poll_loop c session tag_provider on_error True wakes s = (True, s)"
| "poll_loop c session tag_provider on_error False wakes s =
     (let s2 = (case start_projection c session (tag_provider s) s of
                  (Inl e, s1) \<Rightarrow> on_error e s1
                | (Inr _, s1) \<Rightarrow> s1)
      in case wakes of
           [] \<Rightarrow> (False, s2)
         | Slept # ws \<Rightarrow> poll_loop c session tag_provider on_error False ws s2
         | Signalled b # ws \<Rightarrow> poll_loop c session tag_provider on_error b ws s2
         | Disconnected # ws \<Rightarrow> (True, s2))"

end
