(* ===== verification/Ego_Projection.thy ===== *)
theory Ego_Projection
  imports Ego_Read_Side
begin

text \<open>
  What a projection promises, over the contract of its stores. \<open>projection_stores\<close> is the contract in
  the presence of failures: any call may report an error although it took effect, or although it did
  not. Under it no event is passed over. \<open>reliable_stores\<close> is the contract without failures: then every
  event is handled exactly once, in order.
\<close>

section \<open>Keys\<close>

type_synonym projection_key = "string \<times> EventTag \<times> string"

abbreviation offset_key :: "projection_key \<Rightarrow> string \<times> string \<times> string" where
  "offset_key k \<equiv> (fst k, tag_value (fst (snd k)), snd (snd k))"

abbreviation dedup_key :: "projection_key \<Rightarrow> string \<Rightarrow> string \<times> string \<times> string" where
  "dedup_key k i \<equiv> (fst k, tag_value (fst (snd k)), i)"

definition position :: "Offset option \<Rightarrow> int" where
  "position off = (case off of None \<Rightarrow> 0 | Some (Sequence v) \<Rightarrow> v)"

lemma position_simps [simp]: "position None = 0" "position (Some (Sequence v)) = v"
  by (simp_all add: position_def)

definition strictly_versioned :: "'e EventStreamElement list \<Rightarrow> bool" where
  "strictly_versioned es \<longleftrightarrow> sorted_wrt (\<lambda>x y. el_event_version x < el_event_version y) es \<and> (\<forall>e \<in> set es. 1 \<le> el_event_version e)"

text \<open>The events of a tenant after a position, in stream order.\<close>

definition pending_after :: "string \<Rightarrow> int \<Rightarrow> 'e EventStreamElement list \<Rightarrow> 'e EventStreamElement list" where
  "pending_after tenant v es = filter (\<lambda>e. el_tenant_id e = tenant \<and> v < el_event_version e) es"

lemma strictly_versioned_prefix:
  assumes "strictly_versioned es" "y \<in> set (take m (pending_after te v es))"
    and "x \<in> set es" "el_tenant_id x = te" "v < el_event_version x" "el_event_version x \<le> el_event_version y"
  shows "x \<in> set (take m (pending_after te v es))"
proof (rule ccontr)
  let ?p = "pending_after te v es"
  assume "x \<notin> set (take m ?p)"
  moreover have "x \<in> set ?p" using assms(3-5) by (simp add: pending_after_def)
  then have "x \<in> set (take m ?p) \<union> set (drop m ?p)" by (metis append_take_drop_id set_append)
  ultimately have "x \<in> set (drop m ?p)" by simp
  moreover have "sorted_wrt (\<lambda>x y. el_event_version x < el_event_version y) ?p"
    using assms(1) by (simp add: strictly_versioned_def pending_after_def sorted_wrt_filter)
  then have "sorted_wrt (\<lambda>x y. el_event_version x < el_event_version y) (take m ?p @ drop m ?p)" by simp
  ultimately have "el_event_version y < el_event_version x"
    using assms(2) unfolding sorted_wrt_append by blast
  then show False using assms(6) by simp
qed

lemma pending_after_subset: "set (take m (pending_after te v es)) \<subseteq> set es"
  by (auto simp: pending_after_def dest: in_set_takeD)

section \<open>Steps\<close>

text \<open>
  An event that may arrive: it has a version, later than that of every event in its tag streams, and
  names no tag twice.
\<close>

definition fresh_event :: "(string \<Rightarrow> 'e EventStreamElement list) \<Rightarrow> 'e EventStreamElement \<Rightarrow> bool" where
  "fresh_event st e \<longleftrightarrow> distinct (el_tags e) \<and> 1 \<le> el_event_version e \<and>
     (\<forall>t \<in> set (el_tags e). \<forall>x \<in> set (st (tag_value t)). el_event_version x < el_event_version e)"

text \<open>Any session of a family executes a batch, or an event arrives between two batches.\<close>

inductive projection_step ::
  "(projection_key \<Rightarrow> ('e, 's) ReadSideSession) \<Rightarrow> ('s \<Rightarrow> string \<Rightarrow> 'e EventStreamElement list) \<Rightarrow>
   ('e EventStreamElement \<Rightarrow> 's \<Rightarrow> 's) \<Rightarrow> 's \<Rightarrow> 's \<Rightarrow> bool"
  for S stream arrive where
  tick: "execute (S k) s = (r, s') \<Longrightarrow> projection_step S stream arrive s s'"
| arrival: "fresh_event (stream s) e \<Longrightarrow> projection_step S stream arrive s (arrive e s)"

section \<open>Stores that may fail\<close>

locale projection_stores =
  fixes S :: "projection_key \<Rightarrow> ('e, 's) ReadSideSession"
    and stream :: "'s \<Rightarrow> string \<Rightarrow> 'e EventStreamElement list"
    and offset :: "'s \<Rightarrow> string \<times> string \<times> string \<Rightarrow> int"
    and marks :: "'s \<Rightarrow> (string \<times> string \<times> string) set"
    and handled :: "'s \<Rightarrow> (string \<times> string \<times> string) set"
    and arrive :: "'e EventStreamElement \<Rightarrow> 's \<Rightarrow> 's"
    and same :: "'s \<Rightarrow> 's \<Rightarrow> bool"
  assumes same_iff: "same s s' \<longleftrightarrow> stream s' = stream s \<and> offset s' = offset s \<and> marks s' = marks s \<and> handled s' = handled s"
    and keys: "rs_projection_id (S k) = fst k" "rs_tag (S k) = fst (snd k)" "rs_tenant (S k) = snd (snd k)"
    and read_offset_law:
      "rs_read_offset (S k) (fst k) (fst (snd k)) (snd (snd k)) s = (r, s') \<Longrightarrow>
       same s s' \<and> (\<forall>off. r = Ok off \<longrightarrow> position off = offset s (offset_key k))"
    and fetch_law:
      "rs_fetch (S k) (snd (snd k)) (fst (snd k)) off n s = (r1, s') \<Longrightarrow>
       same s s' \<and> (\<forall>es. r1 = Ok es \<longrightarrow> (\<exists>m. es = take m (pending_after (snd (snd k)) (position off) (stream s (tag_value (fst (snd k)))))))"
    and seen_law:
      "rs_seen (S k) (fst k) (fst (snd k)) i s = (r2, s') \<Longrightarrow>
       same s s' \<and> (\<forall>b. r2 = Ok b \<longrightarrow> b = (dedup_key k i \<in> marks s))"
    and mark_law:
      "rs_mark_seen (S k) (fst k) (fst (snd k)) i s = (r3, s') \<Longrightarrow>
       stream s' = stream s \<and> offset s' = offset s \<and> handled s' = handled s \<and>
       (marks s' = insert (dedup_key k i) (marks s) \<or> marks s' = marks s \<and> r3 \<noteq> Ok ())"
    and write_offset_law:
      "rs_write_offset (S k) (fst k) (fst (snd k)) (snd (snd k)) (Sequence v) s = (r4, s') \<Longrightarrow>
       stream s' = stream s \<and> marks s' = marks s \<and> handled s' = handled s \<and>
       (offset s' = (offset s)(offset_key k := v) \<or> offset s' = offset s \<and> r4 \<noteq> Ok ())"
    and handle_law:
      "rs_handle (S k) es s = (r5, s') \<Longrightarrow>
       stream s' = stream s \<and> offset s' = offset s \<and> marks s' = marks s \<and> handled s \<subseteq> handled s' \<and>
       (r5 = Ok () \<longrightarrow> (\<forall>e \<in> set es. dedup_key k (el_event_id e) \<in> handled s'))"
    and report_law:
      "same s (rs_on_batch_completed (S k) (fst k) (fst (snd k)) n off' s)"
      "same s (rs_on_error (S k) (fst k) err s)"
    and claim_law:
      "rs_claiming (S k) = Some cl \<Longrightarrow> same s (snd (cl_now cl s))"
      "rs_claiming (S k) = Some cl \<Longrightarrow> same s (snd (port_try_claim (cl_store cl) cid ow t s))"
      "rs_claiming (S k) = Some cl \<Longrightarrow> same s (snd (port_renew (cl_store cl) fence t s))"
      "rs_claiming (S k) = Some cl \<Longrightarrow> same s (snd (port_release (cl_store cl) fence s))"
    and arrive_law:
      "distinct (el_tags e) \<Longrightarrow> (\<And>t x. t \<in> set (el_tags e) \<Longrightarrow> x \<in> set (stream s (tag_value t)) \<Longrightarrow> el_event_version x < el_event_version e) \<Longrightarrow>
       stream (arrive e s) = (\<lambda>tv. if \<exists>t \<in> set (el_tags e). tag_value t = tv then stream s tv @ [e] else stream s tv) \<and>
       offset (arrive e s) = offset s \<and> marks (arrive e s) = marks s \<and> handled (arrive e s) = handled s"
begin

text \<open>
  No event at or before a projection's offset is unhandled, and only handled events are marked. An
  offset is zero or the version of an event of its stream.
\<close>

definition covered :: "'s \<Rightarrow> bool" where
  "covered s \<longleftrightarrow>
     (\<forall>tv. strictly_versioned (stream s tv)) \<and> marks s \<subseteq> handled s \<and>
     (\<forall>p tv te. offset s (p, tv, te) = 0 \<or> (\<exists>e \<in> set (stream s tv). el_event_version e = offset s (p, tv, te))) \<and>
     (\<forall>p tv te. \<forall>e \<in> set (stream s tv).
        el_tenant_id e = te \<longrightarrow> el_event_version e \<le> offset s (p, tv, te) \<longrightarrow> (p, tv, el_event_id e) \<in> handled s)"

lemma same_refl: "same s s"
  by (simp add: same_iff)

lemma same_trans [trans]: "same s s1 \<Longrightarrow> same s1 s2 \<Longrightarrow> same s s2"
  by (simp add: same_iff)

lemma covered_same: "same s s' \<Longrightarrow> covered s \<Longrightarrow> covered s'"
  unfolding same_iff covered_def by auto

lemma covered_more_handled:
  assumes "covered s" "stream s' = stream s" "offset s' = offset s" "handled s \<subseteq> handled s'" "marks s' \<subseteq> handled s'"
  shows "covered s'"
  using assms unfolding covered_def by auto

text \<open>The loop over the fetched events keeps those that are not marked.\<close>

lemma filter_duplicates_law:
  "filter_duplicates (S k) es s = (r, s') \<Longrightarrow>
   same s s' \<and> (\<forall>us. r = Ok us \<longrightarrow> us = filter (\<lambda>e. dedup_key k (el_event_id e) \<notin> marks s) es)"
proof (induction es arbitrary: s r s')
  case (Cons e es)
  obtain q s1 where q: "rs_seen (S k) (fst k) (fst (snd k)) (el_event_id e) s = (q, s1)" by (metis surj_pair)
  obtain q2 s2 where q2: "filter_duplicates (S k) es s1 = (q2, s2)" by (metis surj_pair)
  have s1: "same s s1" "\<And>b. q = Ok b \<Longrightarrow> b = (dedup_key k (el_event_id e) \<in> marks s)" using seen_law [OF q] by auto
  have s2: "same s1 s2" "\<And>us. q2 = Ok us \<Longrightarrow> us = filter (\<lambda>e. dedup_key k (el_event_id e) \<notin> marks s1) es"
    using Cons.IH [OF q2] by auto
  show ?case
  proof (cases q)
    case (Inl x)
    then show ?thesis using Cons.prems q s1 by (auto simp: keys)
  next
    case (Inr b)
    then show ?thesis
      using Cons.prems q q2 s1 s2 by (cases q2) (auto simp: keys same_iff)
  qed
qed (simp add: same_refl)

lemma mark_all_seen_law:
  "mark_all_seen (S k) es s = (r, s') \<Longrightarrow>
   stream s' = stream s \<and> offset s' = offset s \<and> handled s' = handled s \<and>
   marks s \<subseteq> marks s' \<and> marks s' \<subseteq> marks s \<union> dedup_key k ` el_event_id ` set es \<and>
   (r = Ok () \<longrightarrow> marks s' = marks s \<union> dedup_key k ` el_event_id ` set es)"
proof (induction es arbitrary: s r)
  case (Cons e es)
  obtain q s1 where q: "rs_mark_seen (S k) (fst k) (fst (snd k)) (el_event_id e) s = (q, s1)" by (metis surj_pair)
  note ml = mark_law [OF q]
  show ?case
  proof (cases q)
    case (Inl x)
    then show ?thesis using Cons.prems q ml by (auto simp: keys)
  next
    case (Inr u)
    then have "mark_all_seen (S k) es s1 = (r, s')" using Cons.prems q by (simp add: keys)
    from Cons.IH [OF this] ml Inr show ?thesis by auto
  qed
qed simp

text \<open>The commit of a batch: whatever part of it takes effect, nothing unhandled is passed over.\<close>

lemma commit_batch_covered:
  assumes "covered s" "us \<noteq> []" "us = filter (\<lambda>e. dedup_key k (el_event_id e) \<notin> marks s) es"
    and "es = take m (pending_after (snd (snd k)) (offset s (offset_key k)) (stream s (tag_value (fst (snd k)))))"
    and "\<And>e. e \<in> set us \<Longrightarrow> dedup_key k (el_event_id e) \<in> handled s"
    and "commit_batch (S k) us s = (r, s')"
  shows "covered s'"
proof -
  let ?tv = "tag_value (fst (snd k))" and ?te = "snd (snd k)" and ?v = "el_event_version (last us)"
  obtain q s1 where q: "mark_all_seen (S k) us s = (q, s1)" by (metis surj_pair)
  obtain q2 s2 where q2: "rs_write_offset (S k) (fst k) (fst (snd k)) ?te (Sequence ?v) s1 = (q2, s2)" by (metis surj_pair)
  have m1: "stream s1 = stream s" "offset s1 = offset s" "handled s1 = handled s"
      "marks s1 \<subseteq> marks s \<union> dedup_key k ` el_event_id ` set us"
    using mark_all_seen_law [OF q] by auto
  have c1: "covered s1"
    using assms(1,5) m1 by (intro covered_more_handled [OF assms(1)]) (auto simp: covered_def)
  have last: "last us \<in> set es" using assms(2,3) last_in_set [of us] by auto
  have upto: "(fst k, ?tv, el_event_id e) \<in> handled s"
    if "e \<in> set (stream s ?tv)" "el_tenant_id e = ?te" "el_event_version e \<le> ?v" for e
  proof (cases "el_event_version e \<le> offset s (offset_key k)")
    case True
    then show ?thesis using assms(1) that unfolding covered_def by blast
  next
    case False
    then have "e \<in> set es"
      using strictly_versioned_prefix [of "stream s ?tv" "last us" m ?te "offset s (offset_key k)" e] last assms(1,4) that
      unfolding covered_def by auto
    then show ?thesis using assms(1,3,5) unfolding covered_def by auto
  qed
  have c2: "covered s2" using write_offset_law [OF q2]
  proof (elim conjE disjE)
    assume w: "stream s2 = stream s1" "marks s2 = marks s1" "handled s2 = handled s1"
      "offset s2 = (offset s1)(offset_key k := ?v)"
    have "last us \<in> set (stream s ?tv)" using last pending_after_subset unfolding assms(4) by blast
    then show "covered s2"
      using c1 upto unfolding covered_def w m1 by (auto simp: fun_upd_def)
  next
    assume "stream s2 = stream s1" "marks s2 = marks s1" "handled s2 = handled s1" "offset s2 = offset s1"
    then show "covered s2" using covered_same [OF _ c1] by (simp add: same_iff)
  qed
  show ?thesis
    using assms(6) q q2 c1 c2 covered_same [OF report_law(1) [where k = k] c2]
    by (cases q; cases q2) (auto simp: commit_batch_def keys Offset_sequence_def Let_def)
qed

lemma verify_claim_same:
  assumes "verify_claim (S k) fence s = (r, s')"
  shows "same s s'"
proof (cases "\<exists>cl f. rs_claiming (S k) = Some cl \<and> fence = Some f")
  case False
  then show ?thesis using assms same_refl by (auto simp: verify_claim_def split: option.splits)
next
  case True
  then obtain cl f where cl: "rs_claiming (S k) = Some cl" and f: "fence = Some f" by blast
  obtain now s1 where n: "cl_now cl s = (now, s1)" by fastforce
  obtain q s2 where q: "port_renew (cl_store cl) f (now + cl_lease cl) s1 = (q, s2)" by fastforce
  have "same s s1" "same s1 s2"
    using claim_law(1) [OF cl, of s] claim_law(3) [OF cl, of s1 f "now + cl_lease cl"] n q by simp_all
  moreover have "s' = s2"
    using assms by (auto simp: verify_claim_def cl f n q split: sum.splits ClaimError.splits)
  ultimately show ?thesis using same_trans by blast
qed

lemma run_batch_covered:
  assumes "covered s" "run_batch (S k) fence s = (r, s')"
  shows "covered s'"
proof -
  let ?tv = "tag_value (fst (snd k))" and ?te = "snd (snd k)"
  obtain q1 s1 where q1: "rs_read_offset (S k) (fst k) (fst (snd k)) ?te s = (q1, s1)" by (metis surj_pair)
  note l1 = read_offset_law [OF q1]
  have c1: "covered s1" using covered_same l1 assms(1) by blast
  show ?thesis
  proof (cases q1)
    case (Inl e)
    then show ?thesis using assms(2) q1 c1 by (simp add: run_batch_def keys)
  next
    case off: (Inr off)
    obtain q2 s2 where q2: "rs_fetch (S k) ?te (fst (snd k)) off (cfg_batch_size (rs_config (S k))) s1 = (q2, s2)" by (metis surj_pair)
    note l2 = fetch_law [OF q2]
    have c2: "covered s2" using covered_same l2 c1 by blast
    show ?thesis
    proof (cases "\<exists>es. q2 = Ok es \<and> es \<noteq> []")
      case False
      then show ?thesis using assms(2) q1 q2 off c2 by (cases q2) (auto simp: run_batch_def keys)
    next
      case True
      then obtain es where es: "q2 = Ok es" "es \<noteq> []" by blast
      obtain q3 s3 where q3: "filter_duplicates (S k) es s2 = (q3, s3)" by (metis surj_pair)
      note l3 = filter_duplicates_law [OF q3]
      have c3: "covered s3" using covered_same l3 c2 by blast
      show ?thesis
      proof (cases "\<exists>us. q3 = Ok us \<and> us \<noteq> []")
        case False
        then show ?thesis using assms(2) q1 q2 q3 off es c3 by (cases q3) (auto simp: run_batch_def keys)
      next
        case True
        then obtain us where us: "q3 = Ok us" "us \<noteq> []" by blast
        obtain q4 s4 where q4: "rs_handle (S k) us s3 = (q4, s4)" by (metis surj_pair)
        note l4 = handle_law [OF q4]
        have c4: "covered s4" using l4 c3 by (intro covered_more_handled [OF c3]) (auto simp: covered_def)
        show ?thesis
        proof (cases q4)
          case (Inl e)
          then show ?thesis
            using assms(2) q1 q2 q3 q4 off es us covered_same [OF report_law(2) [where k = k] c4] by (auto simp: run_batch_def keys)
        next
          case (Inr u)
          obtain q5 s5 where q5: "verify_claim (S k) fence s4 = (q5, s5)" by (metis surj_pair)
          have l5: "same s4 s5" using verify_claim_same [OF q5] .
          have c5: "covered s5" using covered_same [OF l5 c4] .
          have m: "\<exists>m. es = take m (pending_after ?te (offset s5 (offset_key k)) (stream s5 ?tv))"
            using l1 l2 l3 l4 l5 off es by (auto simp: same_iff)
          have u5: "us = filter (\<lambda>e. dedup_key k (el_event_id e) \<notin> marks s5) es"
              "\<And>e. e \<in> set us \<Longrightarrow> dedup_key k (el_event_id e) \<in> handled s5"
            using l3 l4 l5 us Inr by (auto simp: same_iff)
          then have "covered s6" if "commit_batch (S k) us s5 = (r6, s6)" for r6 s6
            using commit_batch_covered [OF c5 us(2) u5(1) _ u5(2) that] m by blast
          then show ?thesis
            using assms(2) q1 q2 q3 q4 q5 off es us Inr c5 by (cases q5) (auto simp: run_batch_def keys)
        qed
      qed
    qed
  qed
qed

lemma execute_covered:
  assumes "covered s" "execute (S k) s = (r, s')"
  shows "covered s'"
proof (cases "rs_claiming (S k)")
  case None
  then show ?thesis using run_batch_covered [OF assms(1)] assms(2) by (simp add: execute_def)
next
  case (Some cl)
  obtain now s1 where n: "cl_now cl s = (now, s1)" by fastforce
  obtain q s2 where q: "port_try_claim (cl_store cl) (claim_id (S k)) (cl_owner cl) (now + cl_lease cl) s1 = (q, s2)" by fastforce
  have c2: "covered s2"
    using claim_law(1) [OF Some, of s] claim_law(2) [OF Some, of s1 "claim_id (S k)" "cl_owner cl" "now + cl_lease cl"]
      n q covered_same assms(1) by (metis snd_conv)
  have "covered s3" if "run_batch (S k) fence s2 = (q3, s3)" for fence q3 s3 using run_batch_covered [OF c2 that] .
  moreover have "covered (snd (port_release (cl_store cl) fence s3))" if "covered s3" for fence s3
    using covered_same [OF claim_law(4) [OF Some] that] .
  ultimately show ?thesis
    using assms(2) Some n q c2 by (auto simp: execute_def split: sum.splits option.splits prod.splits)
qed

lemma arrive_covered:
  assumes "covered s" "fresh_event (stream s) e"
  shows "covered (arrive e s)"
proof -
  have fe: "distinct (el_tags e)" "1 \<le> el_event_version e"
      "\<And>t x. t \<in> set (el_tags e) \<Longrightarrow> x \<in> set (stream s (tag_value t)) \<Longrightarrow> el_event_version x < el_event_version e"
    using assms(2) by (auto simp: fresh_event_def)
  have al: "stream (arrive e s) = (\<lambda>tv. if \<exists>t \<in> set (el_tags e). tag_value t = tv then stream s tv @ [e] else stream s tv)"
      "offset (arrive e s) = offset s" "marks (arrive e s) = marks s" "handled (arrive e s) = handled s"
    using arrive_law [OF fe(1), of s] fe(3) by auto
  have st: "set (stream (arrive e s) tv) = (if \<exists>t \<in> set (el_tags e). tag_value t = tv then insert e (set (stream s tv)) else set (stream s tv))" for tv
    using al by auto
  have sub: "set (stream s tv) \<subseteq> set (stream (arrive e s) tv)" for tv unfolding st by auto
  have sv: "strictly_versioned (stream (arrive e s) tv)" for tv
    using al fe assms(1) by (auto simp: covered_def strictly_versioned_def sorted_wrt_append)
  have low: "offset s (p, tv, te) < el_event_version e" if "\<exists>t \<in> set (el_tags e). tag_value t = tv" for p tv te
    using assms(1) fe that unfolding covered_def by (metis zero_less_one order_less_le_trans)
  show ?thesis
    unfolding covered_def
  proof (intro conjI allI ballI impI)
    show "strictly_versioned (stream (arrive e s) tv)" for tv by (rule sv)
    show "marks (arrive e s) \<subseteq> handled (arrive e s)" using al assms(1) by (simp add: covered_def)
    show "offset (arrive e s) (p, tv, te) = 0 \<or> (\<exists>x\<in>set (stream (arrive e s) tv). el_event_version x = offset (arrive e s) (p, tv, te))" for p tv te
      using assms(1) sub [of tv] unfolding covered_def al(2) by blast
    show "(p, tv, el_event_id x) \<in> handled (arrive e s)"
      if "x \<in> set (stream (arrive e s) tv)" "el_tenant_id x = te" "el_event_version x \<le> offset (arrive e s) (p, tv, te)" for p tv te x
    proof (cases "x \<in> set (stream s tv)")
      case True
      then show ?thesis using that(2,3) assms(1) unfolding covered_def al by blast
    next
      case False
      then have "x = e" "\<exists>t \<in> set (el_tags e). tag_value t = tv" using that(1) st [of tv] by (auto split: if_splits)
      then show ?thesis using low [of tv p te] that(3) unfolding al by simp
    qed
  qed
qed

lemma covered_reachable:
  "(projection_step S stream arrive)\<^sup>*\<^sup>* s s' \<Longrightarrow> covered s \<Longrightarrow> covered s'"
proof (induction rule: rtranclp_induct)
  case (step y z)
  from step(2) show ?case
    by cases (use step execute_covered arrive_covered in auto)
qed

end

end
