(* ===== verification/Ego_Projection_Memory.thy ===== *)
theory Ego_Projection_Memory
  imports Ego_Projection
begin

text \<open>
  Projections over the in-memory stores: their sessions keep the contract \<open>projection_stores\<close> even when
  calls to the stores fail, and without failures they handle every event exactly once, in order. Two
  situations follow in which a projection stops for good.
\<close>

section \<open>The world of a session\<close>

text \<open>
  The three stores, the batches a handler has accepted, and the faults that the next calls to a store
  will meet. Handler, reporter, clock and claim store act on the rest, \<open>'w\<close>.
\<close>

record ('e, 'w) projection_world =
  pw_store :: "'e read_side_store"
  pw_seen :: dedup_store
  pw_offsets :: offset_store
  pw_log :: "((string \<times> string \<times> string) \<times> 'e EventStreamElement list) list"
  pw_faults :: "fault list"
  pw_env :: 'w

record ('e, 'w) projection_env =
  pe_handle :: "projection_key \<Rightarrow> 'e EventStreamElement list \<Rightarrow> 'w \<Rightarrow> (unit, ProjectionError) result \<times> 'w"
  pe_on_batch_completed :: "string \<Rightarrow> EventTag \<Rightarrow> nat \<Rightarrow> Offset \<Rightarrow> 'w \<Rightarrow> 'w"
  pe_on_error :: "string \<Rightarrow> ProjectionError \<Rightarrow> 'w \<Rightarrow> 'w"
  pe_claiming :: "'w ReadSideClaiming option"

definition faulty ::
  "'x \<Rightarrow> (('e, 'w) projection_world \<Rightarrow> ('a, 'x) result \<times> ('e, 'w) projection_world) \<Rightarrow>
   ('e, 'w) projection_world \<Rightarrow> ('a, 'x) result \<times> ('e, 'w) projection_world" where
  "faulty x op s =
     (case pw_faults s of
        [] \<Rightarrow> op s
      | NoFault # fs \<Rightarrow> op (s\<lparr>pw_faults := fs\<rparr>)
      | LostRequest # fs \<Rightarrow> (Err x, s\<lparr>pw_faults := fs\<rparr>)
      | LostResponse # fs \<Rightarrow> (Err x, snd (op (s\<lparr>pw_faults := fs\<rparr>))))"

definition on_rest :: "('w \<Rightarrow> 'a \<times> 'w) \<Rightarrow> ('e, 'w) projection_world \<Rightarrow> 'a \<times> ('e, 'w) projection_world" where
  "on_rest f s = (case f (pw_env s) of (a, w) \<Rightarrow> (a, s\<lparr>pw_env := w\<rparr>))"

definition claiming_on :: "'w ReadSideClaiming \<Rightarrow> ('e, 'w) projection_world ReadSideClaiming" where
  "claiming_on c =
     \<lparr>cl_store = \<lparr>port_try_claim = (\<lambda>i ow t. on_rest (port_try_claim (cl_store c) i ow t)),
                  port_renew = (\<lambda>f t. on_rest (port_renew (cl_store c) f t)),
                  port_release = (\<lambda>f. on_rest (port_release (cl_store c) f))\<rparr>,
      cl_owner = cl_owner c, cl_now = on_rest (cl_now c), cl_lease = cl_lease c\<rparr>"

definition memory_session ::
  "ReadSideConfig \<Rightarrow> ('e, 'w) projection_env \<Rightarrow> projection_key \<Rightarrow> ('e, ('e, 'w) projection_world) ReadSideSession" where
  "memory_session cfg E k =
     \<lparr>rs_projection_id = fst k, rs_tag = fst (snd k), rs_tenant = snd (snd k), rs_config = cfg,
      rs_handle = (\<lambda>es s. case pe_handle E k es (pw_env s) of
                     (r, w) \<Rightarrow> (r, s\<lparr>pw_env := w, pw_log := (if is_ok r then pw_log s @ [(offset_key k, es)] else pw_log s)\<rparr>)),
      rs_fetch = (\<lambda>te t off n. faulty (Store_Transient ''unreachable'') (\<lambda>s. (ReadSideStore_fetch te t off n (pw_store s), s))),
      rs_seen = (\<lambda>p t i. faulty (Dedup_Transient ''unreachable'') (\<lambda>s. (DedupStore_seen p t i (pw_seen s), s))),
      rs_mark_seen = (\<lambda>p t i. faulty (Dedup_Transient ''unreachable'')
                        (\<lambda>s. case DedupStore_mark_seen p t i (pw_seen s) of (r, d) \<Rightarrow> (r, s\<lparr>pw_seen := d\<rparr>))),
      rs_read_offset = (\<lambda>p t te. faulty (Offset_Transient ''unreachable'') (\<lambda>s. (OffsetStore_read_offset p t te (pw_offsets s), s))),
      rs_write_offset = (\<lambda>p t te off. faulty (Offset_Transient ''unreachable'')
                           (\<lambda>s. case OffsetStore_write_offset p t te off (pw_offsets s) of (r, m) \<Rightarrow> (r, s\<lparr>pw_offsets := m\<rparr>))),
      rs_on_batch_completed = (\<lambda>p t n off s. s\<lparr>pw_env := pe_on_batch_completed E p t n off (pw_env s)\<rparr>),
      rs_on_error = (\<lambda>p e s. s\<lparr>pw_env := pe_on_error E p e (pw_env s)\<rparr>),
      rs_claiming = map_option claiming_on (pe_claiming E)\<rparr>"

definition arrives :: "'e EventStreamElement \<Rightarrow> ('e, 'w) projection_world \<Rightarrow> ('e, 'w) projection_world" where
  "arrives e s = s\<lparr>pw_store := ReadSideStore_insert e (pw_store s)\<rparr>"

definition accepted_in :: "((string \<times> string \<times> string) \<times> 'e EventStreamElement list) list \<Rightarrow> (string \<times> string \<times> string) set" where
  "accepted_in log = (\<Union>((p, tv, te), es) \<in> set log. (\<lambda>e. (p, tv, el_event_id e)) ` set es)"

abbreviation accepted :: "('e, 'w) projection_world \<Rightarrow> (string \<times> string \<times> string) set" where
  "accepted s \<equiv> accepted_in (pw_log s)"

lemma accepted_in_snoc [simp]:
  "accepted_in (log @ [((p, tv, te), es)]) = accepted_in log \<union> (\<lambda>e. (p, tv, el_event_id e)) ` set es"
  by (auto simp: accepted_in_def)

abbreviation tag_stream :: "('e, 'w) projection_world \<Rightarrow> string \<Rightarrow> 'e EventStreamElement list" where
  "tag_stream s tv \<equiv> events_for_tag tv (pw_store s)"

abbreviation offset_at :: "('e, 'w) projection_world \<Rightarrow> string \<times> string \<times> string \<Rightarrow> int" where
  "offset_at s k \<equiv> position (pw_offsets s k)"

section \<open>The stores keep the contract\<close>

lemma insert_sorted_last:
  "(\<And>x. x \<in> set es \<Longrightarrow> el_event_version x < el_event_version e) \<Longrightarrow> insert_sorted e es = es @ [e]"
proof -
  assume "\<And>x. x \<in> set es \<Longrightarrow> el_event_version x < el_event_version e"
  then have tw: "takeWhile (\<lambda>x. \<not> el_event_version e < el_event_version x) es = es" by (fastforce simp: takeWhile_eq_all_conv)
  show ?thesis unfolding insert_sorted_def Let_def tw by simp
qed

lemma events_for_tag_upd [simp]:
  "events_for_tag tv (m(tv' \<mapsto> es)) = (if tv = tv' then es else events_for_tag tv m)"
  by (simp add: events_for_tag_def)

lemma insert_tags_stream:
  "distinct tags \<Longrightarrow> (\<And>t x. t \<in> set tags \<Longrightarrow> x \<in> set (events_for_tag (tag_value t) m) \<Longrightarrow> el_event_version x < el_event_version e) \<Longrightarrow>
   events_for_tag tv (insert_tags tags e m) =
     (if \<exists>t \<in> set tags. tag_value t = tv then events_for_tag tv m @ [e] else events_for_tag tv m)"
proof (induction tags arbitrary: m)
  case (Cons t tags)
  let ?m = "m(tag_value t \<mapsto> insert_sorted e (events_for_tag (tag_value t) m))"
  have ins: "insert_sorted e (events_for_tag (tag_value t) m) = events_for_tag (tag_value t) m @ [e]"
    using Cons.prems by (intro insert_sorted_last) auto
  have ne: "tag_value u \<noteq> tag_value t" if "u \<in> set tags" for u
    using Cons.prems(1) that EventTag.expand by auto
  have "events_for_tag tv (insert_tags tags e ?m) =
      (if \<exists>t \<in> set tags. tag_value t = tv then events_for_tag tv ?m @ [e] else events_for_tag tv ?m)"
  proof (rule Cons.IH)
    show "distinct tags" using Cons.prems(1) by simp
    show "el_event_version x < el_event_version e" if "u \<in> set tags" "x \<in> set (events_for_tag (tag_value u) ?m)" for u x
      using Cons.prems(2) [of u x] that ne [OF that(1)] by simp
  qed
  then show ?case using ne ins by (auto simp: events_for_tag_def [symmetric])
qed simp

lemma faulty_cases:
  assumes "faulty x op s = (r, s')"
  obtains fs where "op (s\<lparr>pw_faults := fs\<rparr>) = (r, s')"
  | fs where "s' = s\<lparr>pw_faults := fs\<rparr>" "r = Err x"
  | fs q where "op (s\<lparr>pw_faults := fs\<rparr>) = (q, s')" "r = Err x"
proof (cases "pw_faults s")
  case Nil
  then have "s\<lparr>pw_faults := []\<rparr> = s" by simp
  then have "op (s\<lparr>pw_faults := []\<rparr>) = (r, s')" using assms Nil by (simp only: faulty_def list.case)
  then show ?thesis using that(1) by blast
next
  case (Cons f fs)
  show ?thesis
  proof (cases f)
    case NoFault
    then show ?thesis using that(1) [of fs] assms Cons by (simp add: faulty_def)
  next
    case LostRequest
    then show ?thesis using that(2) [of fs] assms Cons by (simp add: faulty_def)
  next
    case LostResponse
    then show ?thesis using that(3) [of fs "fst (op (s\<lparr>pw_faults := fs\<rparr>))"] assms Cons by (simp add: faulty_def prod_eq_iff)
  qed
qed

lemma on_rest_frame:
  "on_rest f s = (a, s') \<Longrightarrow> pw_store s' = pw_store s \<and> pw_seen s' = pw_seen s \<and> pw_offsets s' = pw_offsets s \<and> pw_log s' = pw_log s"
  by (auto simp: on_rest_def split: prod.splits)

lemma paginate_pending:
  "\<exists>m. paginate es te off n = take m (pending_after te (position off) es)"
proof (cases "trim_is_empty te")
  case True
  then show ?thesis by (intro exI [of _ 0]) (simp add: paginate_def)
next
  case False
  have "(case Option.bind off as_sequence of Some v \<Rightarrow> v | None \<Rightarrow> 0) = position off"
    by (cases off) (auto simp: position_def split: Offset.splits)
  then show ?thesis using False by (intro exI [of _ n]) (simp add: paginate_def pending_after_def)
qed

lemmas session_defs =
  memory_session_def ReadSideStore_fetch_def DedupStore_seen_def DedupStore_mark_seen_def
  OffsetStore_read_offset_def OffsetStore_write_offset_def

abbreviation undisturbed :: "('e, 'w) projection_world \<Rightarrow> ('e, 'w) projection_world \<Rightarrow> bool" where
  "undisturbed s s' \<equiv> tag_stream s' = tag_stream s \<and> offset_at s' = offset_at s \<and> pw_seen s' = pw_seen s \<and> accepted s' = accepted s"

lemma memory_read_offset:
  "rs_read_offset (memory_session cfg E k) p t te s = (r, s') \<Longrightarrow>
   undisturbed s s' \<and> (\<forall>off. r = Ok off \<longrightarrow> position off = offset_at s (p, tag_value t, te))"
  by (auto simp: session_defs elim!: faulty_cases)

lemma memory_fetch:
  "rs_fetch (memory_session cfg E k) te t off n s = (r, s') \<Longrightarrow>
   undisturbed s s' \<and> (\<forall>es. r = Ok es \<longrightarrow> (\<exists>m. es = take m (pending_after te (position off) (tag_stream s (tag_value t)))))"
  using paginate_pending by (auto simp: session_defs elim!: faulty_cases)

lemma memory_seen:
  "rs_seen (memory_session cfg E k) p t i s = (r, s') \<Longrightarrow>
   undisturbed s s' \<and> (\<forall>b. r = Ok b \<longrightarrow> b = ((p, tag_value t, i) \<in> pw_seen s))"
  by (auto simp: session_defs elim!: faulty_cases)

lemma memory_mark_seen:
  "rs_mark_seen (memory_session cfg E k) p t i s = (r, s') \<Longrightarrow>
   tag_stream s' = tag_stream s \<and> offset_at s' = offset_at s \<and> accepted s' = accepted s \<and>
   (pw_seen s' = insert (p, tag_value t, i) (pw_seen s) \<or> pw_seen s' = pw_seen s \<and> r \<noteq> Ok ())"
  by (auto simp: session_defs elim!: faulty_cases)

lemma memory_write_offset:
  "rs_write_offset (memory_session cfg E k) p t te (Sequence v) s = (r, s') \<Longrightarrow>
   tag_stream s' = tag_stream s \<and> pw_seen s' = pw_seen s \<and> accepted s' = accepted s \<and>
   (offset_at s' = (offset_at s)((p, tag_value t, te) := v) \<or> offset_at s' = offset_at s \<and> r \<noteq> Ok ())"
  by (auto simp: session_defs fun_eq_iff elim!: faulty_cases)

lemma memory_handle:
  "rs_handle (memory_session cfg E k) es s = (r, s') \<Longrightarrow>
   tag_stream s' = tag_stream s \<and> offset_at s' = offset_at s \<and> pw_seen s' = pw_seen s \<and> accepted s \<subseteq> accepted s' \<and>
   (r = Ok () \<longrightarrow> (\<forall>e \<in> set es. dedup_key k (el_event_id e) \<in> accepted s'))"
  by (auto simp: session_defs split: prod.splits if_splits)

lemma memory_claims:
  assumes "rs_claiming (memory_session cfg E k) = Some cl"
  shows "undisturbed s (snd (cl_now cl s))" "undisturbed s (snd (port_try_claim (cl_store cl) cid ow t s))"
    "undisturbed s (snd (port_renew (cl_store cl) fence t s))" "undisturbed s (snd (port_release (cl_store cl) fence s))"
  using assms by (auto simp: session_defs claiming_on_def on_rest_def split: prod.splits)

lemma memory_arrives:
  assumes "distinct (el_tags e)"
    and "\<And>t x. t \<in> set (el_tags e) \<Longrightarrow> x \<in> set (tag_stream s (tag_value t)) \<Longrightarrow> el_event_version x < el_event_version e"
  shows "tag_stream (arrives e s) = (\<lambda>tv. if \<exists>t \<in> set (el_tags e). tag_value t = tv then tag_stream s tv @ [e] else tag_stream s tv)"
  using insert_tags_stream [OF assms] by (auto simp: arrives_def ReadSideStore_insert_def fun_eq_iff)

interpretation memory: projection_stores "memory_session cfg E" tag_stream offset_at pw_seen accepted arrives undisturbed
proof (unfold_locales, goal_cases)
  case (5 k s r s') then show ?case by (rule memory_read_offset)
next
  case (6 k off n s r1 s') then show ?case by (rule memory_fetch)
next
  case (7 k i s r2 s') then show ?case by (rule memory_seen)
next
  case (8 k i s r3 s') then show ?case by (rule memory_mark_seen)
next
  case (9 k v s r4 s') then show ?case by (rule memory_write_offset)
next
  case (10 k es s r5 s') then show ?case by (rule memory_handle)
next
  case (13 k cl s) then show ?case by (rule memory_claims)
next
  case (14 k cl s cid ow t) then show ?case by (rule memory_claims)
next
  case (15 k cl s fence t) then show ?case by (rule memory_claims)
next
  case (16 k cl s fence) then show ?case by (rule memory_claims)
next
  case (17 e s) then show ?case using memory_arrives [of e s] by (auto simp: arrives_def)
qed (auto simp: memory_session_def)

section \<open>No event is passed over\<close>

definition projection_start :: "fault list \<Rightarrow> 'w \<Rightarrow> ('e, 'w) projection_world" where
  "projection_start fs w =
     \<lparr>pw_store = ReadSideStore_new, pw_seen = {}, pw_offsets = Map.empty, pw_log = [], pw_faults = fs, pw_env = w\<rparr>"

lemma start_covered: "memory.covered (projection_start fs w)"
  unfolding memory.covered_def
  by (simp add: projection_start_def ReadSideStore_new_def events_for_tag_def strictly_versioned_def)

text \<open>
  C7: No projection passes an event over. Let any sessions, of any projections, tags and tenants, claimed
  or not, run any number of batches over shared stores that lose requests and responses at any call,
  with handlers that fail at will, while events keep arriving in version order: every event of a tenant
  at or before a projection's offset has been accepted by that projection's handler.
\<close>

theorem no_event_passed_over:
  assumes "(projection_step (memory_session cfg E) tag_stream arrives)\<^sup>*\<^sup>* (projection_start fs w) s"
    and "e \<in> set (tag_stream s tv)" "el_event_version e \<le> offset_at s (p, tv, el_tenant_id e)"
  shows "(p, tv, el_event_id e) \<in> accepted s"
proof -
  have "memory.covered s" using memory.covered_reachable [OF assms(1) start_covered] .
  then show ?thesis using assms(2,3) unfolding memory.covered_def by blast
qed

section \<open>A lost claim\<close>

abbreviation with_writes ::
  "(string \<Rightarrow> EventTag \<Rightarrow> string \<Rightarrow> 's \<Rightarrow> (unit, DedupStoreError) result \<times> 's) \<Rightarrow>
   (string \<Rightarrow> EventTag \<Rightarrow> string \<Rightarrow> Offset \<Rightarrow> 's \<Rightarrow> (unit, OffsetStoreError) result \<times> 's) \<Rightarrow>
   ('e, 's) ReadSideSession \<Rightarrow> ('e, 's) ReadSideSession" where
  "with_writes mark write S \<equiv> S\<lparr>rs_mark_seen := mark, rs_write_offset := write\<rparr>"

lemma filter_duplicates_with_writes: "filter_duplicates (with_writes mark write S) es s = filter_duplicates S es s"
  by (induction es arbitrary: s) (auto split: sum.splits prod.splits)

lemma verify_claim_refused:
  assumes "rs_claiming S = Some cl" "\<And>f t s. \<not> is_ok (fst (port_renew (cl_store cl) f t s))"
  shows "\<exists>e s'. verify_claim S (Some f) s = (Err e, s')"
proof -
  obtain now s1 where n: "cl_now cl s = (now, s1)" by fastforce
  obtain q s2 where q: "port_renew (cl_store cl) f (now + cl_lease cl) s1 = (q, s2)" by fastforce
  have "\<not> is_ok q" using assms(2) [of f "now + cl_lease cl" s1] q by simp
  then obtain x where "q = Err x" by (cases q) auto
  then show ?thesis using assms(1) n q by (cases x) (simp_all add: verify_claim_def)
qed

text \<open>
  A worker that lost its claim commits nothing. Over arbitrary stores, handlers and claim stores: as
  long as the claim store refuses to renew, a batch of a claiming session behaves exactly the same
  whatever \<open>mark_seen\<close> and \<open>write_offset\<close> would do, so it calls neither and cannot rewind the offset of
  the worker that replaced it.
\<close>

theorem lost_claim_commits_nothing:
  assumes "rs_claiming S = Some cl" "\<And>f t s. \<not> is_ok (fst (port_renew (cl_store cl) f t s))"
  shows "execute (S\<lparr>rs_mark_seen := mark, rs_write_offset := write\<rparr>) s = execute S s"
proof -
  have vc: "verify_claim (with_writes mark write S) fence s = verify_claim S fence s" for fence s
    by (simp add: verify_claim_def)
  have "run_batch (with_writes mark write S) (Some f) s = run_batch S (Some f) s" for f s
  proof -
    have "(case verify_claim S (Some f) z of (Inl e, s5) \<Rightarrow> (Err e, s5) | (Inr _, s5) \<Rightarrow> commit_batch T us s5) =
        (case verify_claim S (Some f) z of (Inl e, s5) \<Rightarrow> (Err e, s5) | (Inr _, s5) \<Rightarrow> commit_batch S us s5)"
      for T us z using verify_claim_refused [OF assms, of f z] by auto
    then show ?thesis
      unfolding run_batch_def filter_duplicates_with_writes vc by (simp split: sum.splits prod.splits)
  qed
  then show ?thesis
    unfolding execute_def using assms(1) by (simp add: claim_id_def split: sum.splits option.splits prod.splits)
qed

section \<open>Without failures\<close>

definition handled_by :: "string \<times> string \<times> string \<Rightarrow> ((string \<times> string \<times> string) \<times> 'e EventStreamElement list) list \<Rightarrow> 'e EventStreamElement list" where
  "handled_by k log = concat (map snd (filter (\<lambda>x. fst x = k) log))"

lemma handled_by_snoc [simp]:
  "handled_by k (log @ [(k', es)]) = handled_by k log @ (if k' = k then es else [])"
  by (simp add: handled_by_def)

lemma faulty_Nil [simp]: "pw_faults s = [] \<Longrightarrow> faulty x op s = op s"
  by (simp add: faulty_def)

lemma filter_duplicates_reliable:
  "pw_faults s = [] \<Longrightarrow>
   filter_duplicates (memory_session cfg E k) es s = (Ok (filter (\<lambda>e. dedup_key k (el_event_id e) \<notin> pw_seen s) es), s)"
  by (induction es) (auto simp: session_defs)

lemma mark_all_seen_reliable:
  "pw_faults s = [] \<Longrightarrow>
   mark_all_seen (memory_session cfg E k) es s = (Ok (), s\<lparr>pw_seen := pw_seen s \<union> dedup_key k ` el_event_id ` set es\<rparr>)"
  by (induction es arbitrary: s) (auto simp: session_defs)

lemma paginate_exact:
  "\<not> trim_is_empty te \<Longrightarrow> paginate es te off n = take n (pending_after te (position off) es)"
  by (cases off) (auto simp: paginate_def pending_after_def position_def split: Offset.splits)

text \<open>What a batch of a session without claiming does when the stores answer and the handler accepts.\<close>

lemma execute_reliable:
  assumes "pw_faults s = []" "pe_claiming E = None" "\<not> trim_is_empty (snd (snd k))"
    and "us = filter (\<lambda>e. dedup_key k (el_event_id e) \<notin> pw_seen s)
           (take (cfg_batch_size cfg) (pending_after (snd (snd k)) (offset_at s (offset_key k)) (tag_stream s (tag_value (fst (snd k))))))"
    and "pe_handle E k us (pw_env s) = (Ok (), w)"
  shows "snd (execute (memory_session cfg E k) s) =
    (if us = [] then s
     else s\<lparr>pw_env := pe_on_batch_completed E (fst k) (fst (snd k)) (length us) (Sequence (el_event_version (last us))) w,
            pw_log := pw_log s @ [(offset_key k, us)],
            pw_seen := pw_seen s \<union> dedup_key k ` el_event_id ` set us,
            pw_offsets := (pw_offsets s)(offset_key k \<mapsto> Sequence (el_event_version (last us)))\<rparr>)"
proof -
  let ?S = "memory_session cfg E k"
  let ?es = "take (cfg_batch_size cfg) (pending_after (snd (snd k)) (offset_at s (offset_key k)) (tag_stream s (tag_value (fst (snd k)))))"
  let ?s4 = "s\<lparr>pw_env := w, pw_log := pw_log s @ [(offset_key k, us)]\<rparr>"
  let ?off = "Sequence (el_event_version (last us))"
  let ?s5 = "?s4\<lparr>pw_seen := pw_seen s \<union> dedup_key k ` el_event_id ` set us\<rparr>"
  have sel: "rs_projection_id ?S = fst k" "rs_tag ?S = fst (snd k)" "rs_tenant ?S = snd (snd k)" "rs_config ?S = cfg"
    by (simp_all add: memory_session_def)
  have ports: "rs_read_offset ?S (fst k) (fst (snd k)) (snd (snd k)) s = (Ok (pw_offsets s (offset_key k)), s)"
    "rs_fetch ?S (snd (snd k)) (fst (snd k)) (pw_offsets s (offset_key k)) (cfg_batch_size cfg) s = (Ok ?es, s)"
    "rs_handle ?S us s = (Ok (), ?s4)"
    "rs_write_offset ?S (fst k) (fst (snd k)) (snd (snd k)) ?off ?s5 =
       (Ok (), ?s5\<lparr>pw_offsets := (pw_offsets s)(offset_key k \<mapsto> ?off)\<rparr>)"
    "rs_on_batch_completed ?S p t n off z = z\<lparr>pw_env := pe_on_batch_completed E p t n off (pw_env z)\<rparr>" for p t n off z
    using assms(1,3,5) by (simp_all add: session_defs paginate_exact)
  have fd: "filter_duplicates ?S ?es s = (Ok us, s)"
    using filter_duplicates_reliable [OF assms(1), of cfg E k ?es] assms(4) by simp
  have mk: "mark_all_seen ?S us ?s4 = (Ok (), ?s5)"
    using mark_all_seen_reliable [of ?s4 cfg E k us] assms(1) by simp
  have vc: "verify_claim ?S None ?s4 = (Ok (), ?s4)"
    by (simp add: verify_claim_def split: option.splits)
  have "execute ?S s = run_batch ?S None s"
    using assms(2) by (simp add: execute_def memory_session_def)
  also have "\<dots> = (if us = [] then (Ok None, s) else commit_batch ?S us ?s4)"
    using assms(4) unfolding run_batch_def sel ports(1) prod.case sum.case ports(2) fd ports(3) vc by (cases "?es = []") auto
  also have "commit_batch ?S us ?s4 =
      (Ok (Some ?off), ?s5\<lparr>pw_offsets := (pw_offsets s)(offset_key k \<mapsto> ?off),
          pw_env := pe_on_batch_completed E (fst k) (fst (snd k)) (length us) ?off w\<rparr>)"
    unfolding commit_batch_def Let_def mk Offset_sequence_def sel prod.case sum.case ports by simp
  finally show ?thesis by simp
qed

lemma pending_after_zero:
  "strictly_versioned es \<Longrightarrow> pending_after te 0 es = filter (\<lambda>e. el_tenant_id e = te) es"
  unfolding pending_after_def strictly_versioned_def by (rule filter_cong) auto

lemma sorted_after:
  assumes "sorted_wrt (\<lambda>x y. el_event_version x < el_event_version y) es" "m < length es"
  shows "filter (\<lambda>e. el_event_version (es ! m) < el_event_version e) es = drop (Suc m) es"
proof -
  have s: "sorted_wrt (\<lambda>x y. el_event_version x < el_event_version y) (take (Suc m) es @ drop (Suc m) es)" using assms(1) by simp
  have "es ! m \<in> set (take (Suc m) es)" using assms(2) by (auto simp: in_set_conv_nth intro!: exI [of _ m])
  then have hi: "\<forall>x \<in> set (drop (Suc m) es). el_event_version (es ! m) < el_event_version x"
    using s unfolding sorted_wrt_append by blast
  have lo: "\<not> el_event_version (es ! m) < el_event_version x" if "x \<in> set (take (Suc m) es)" for x
  proof -
    obtain i where i: "i \<le> m" "x = es ! i" using \<open>x \<in> set (take (Suc m) es)\<close> assms(2) by (fastforce simp: in_set_conv_nth less_Suc_eq_le)
    show ?thesis using sorted_wrt_nth_less [OF assms(1), of i m] i assms(2) by (cases "i = m") auto
  qed
  have "filter (\<lambda>e. el_event_version (es ! m) < el_event_version e) (take (Suc m) es @ drop (Suc m) es) = drop (Suc m) es"
    unfolding filter_append using hi lo by (simp add: filter_empty_conv filter_id_conv)
  then show ?thesis by simp
qed

text \<open>A projection that has handled exactly the first \<open>m\<close> of its tenant's events.\<close>

definition caught_up :: "projection_key \<Rightarrow> ('e, 'w) projection_world \<Rightarrow> nat \<Rightarrow> ('e, 'w) projection_world \<Rightarrow> bool" where
  "caught_up k s0 m s \<longleftrightarrow>
     (let evs = filter (\<lambda>e. el_tenant_id e = snd (snd k)) (tag_stream s0 (tag_value (fst (snd k))))
      in m \<le> length evs \<and> pw_store s = pw_store s0 \<and> pw_faults s = [] \<and>
         offset_at s (offset_key k) = (if m = 0 then 0 else el_event_version (evs ! (m - 1))) \<and>
         pw_seen s = pw_seen s0 \<union> dedup_key k ` el_event_id ` set (take m evs) \<and>
         handled_by (offset_key k) (pw_log s) = take m evs)"

lemma caught_up_step:
  assumes "caught_up k s0 m s" "0 < cfg_batch_size cfg" "pe_claiming E = None" "\<not> trim_is_empty (snd (snd k))"
    and "\<And>es w. fst (pe_handle E k es w) = Ok ()"
    and "strictly_versioned (tag_stream s0 (tag_value (fst (snd k))))"
    and "distinct (map el_event_id (filter (\<lambda>e. el_tenant_id e = snd (snd k)) (tag_stream s0 (tag_value (fst (snd k))))))"
    and "\<And>e. e \<in> set (tag_stream s0 (tag_value (fst (snd k)))) \<Longrightarrow> dedup_key k (el_event_id e) \<notin> pw_seen s0"
    and "evs = filter (\<lambda>e. el_tenant_id e = snd (snd k)) (tag_stream s0 (tag_value (fst (snd k))))"
  shows "caught_up k s0 (min (length evs) (m + cfg_batch_size cfg)) (snd (execute (memory_session cfg E k) s))"
proof -
  let ?te = "snd (snd k)" and ?b = "cfg_batch_size cfg" and ?st = "tag_stream s0 (tag_value (fst (snd k)))"
  have c: "m \<le> length evs" "pw_store s = pw_store s0" "pw_faults s = []"
      "offset_at s (offset_key k) = (if m = 0 then 0 else el_event_version (evs ! (m - 1)))"
      "pw_seen s = pw_seen s0 \<union> dedup_key k ` el_event_id ` set (take m evs)" "handled_by (offset_key k) (pw_log s) = take m evs"
    using assms(1) unfolding caught_up_def Let_def assms(9) by auto
  have sorted: "sorted_wrt (\<lambda>x y. el_event_version x < el_event_version y) evs"
    using assms(6) by (simp add: assms(9) strictly_versioned_def sorted_wrt_filter)
  have rest: "pending_after ?te (offset_at s (offset_key k)) ?st = drop m evs"
  proof (cases m)
    case 0
    then show ?thesis using c(4) pending_after_zero [OF assms(6)] by (simp add: assms(9))
  next
    case (Suc n)
    have "pending_after ?te v ?st = filter (\<lambda>e. v < el_event_version e) evs" for v
      by (simp add: pending_after_def assms(9) conj_commute)
    then show ?thesis using sorted_after [OF sorted, of n] Suc c(1,4) by simp
  qed
  have unseen: "dedup_key k (el_event_id e) \<notin> pw_seen s" if "e \<in> set (take ?b (drop m evs))" for e
  proof -
    have d: "distinct (map el_event_id (take m evs @ drop m evs))" using assms(7) by (simp add: assms(9) [symmetric])
    have "e \<in> set (drop m evs)" using that by (meson in_set_takeD)
    then have "el_event_id e \<notin> el_event_id ` set (take m evs)"
      using d unfolding map_append distinct_append by (auto simp: image_iff)
    moreover have "e \<in> set ?st" using \<open>e \<in> set (drop m evs)\<close> by (auto simp: assms(9) dest: in_set_dropD)
    ultimately show ?thesis using assms(8) unfolding c(5) by auto
  qed
  define us where "us = take ?b (drop m evs)"
  have us: "us = filter (\<lambda>e. dedup_key k (el_event_id e) \<notin> pw_seen s)
      (take ?b (pending_after ?te (offset_at s (offset_key k)) (tag_stream s (tag_value (fst (snd k))))))"
    using unseen by (simp add: us_def c(2) rest filter_id_conv)
  obtain w where w: "pe_handle E k us (pw_env s) = (Ok (), w)" using assms(5) [of us "pw_env s"] by (metis prod.collapse)
  note ex = execute_reliable [OF c(3) assms(3,4) us w]
  show ?thesis
  proof (cases "us = []")
    case True
    then have "length evs = m" using assms(2) c(1) by (simp add: us_def)
    then show ?thesis using ex True assms(1) by simp
  next
    case False
    let ?m = "min (length evs) (m + ?b)"
    have tk: "take ?m evs = take m evs @ us" by (simp add: us_def take_add [symmetric] min_def)
    have lastus: "last us = evs ! (?m - 1)" "0 < ?m"
      using False c(1) assms(2) by (auto simp: us_def last_conv_nth min_def)
    show ?thesis
      using ex False c tk lastus unfolding caught_up_def Let_def assms(9) [symmetric] by auto
  qed
qed


section \<open>A small projection\<close>

definition sample_event :: "string \<Rightarrow> string \<Rightarrow> int \<Rightarrow> nat EventStreamElement" where
  "sample_event t i v =
     \<lparr>el_event_id = i, el_aggregate_id = ''order-1'', el_tenant_id = ''acme'', el_event_type = ''Placed'', el_payload = 0,
      el_event_version = v, el_occurred_at = 0, el_tags = [EventTag t]\<rparr>"

text \<open>A handler that refuses the events of the tags given as poisoned.\<close>

definition sample_env :: "(EventTag \<Rightarrow> bool) \<Rightarrow> (nat, unit) projection_env" where
  "sample_env poison =
     \<lparr>pe_handle = (\<lambda>k es w. (if poison (fst (snd k)) then Err (PoisonEvent (Because ''bad payload'')) else Ok (), w)),
      pe_on_batch_completed = (\<lambda>_ _ _ _ w. w), pe_on_error = (\<lambda>_ _ w. w), pe_claiming = None\<rparr>"

definition one_by_one :: ReadSideConfig where
  "one_by_one = ReadSideConfig_default\<lparr>cfg_batch_size := 1\<rparr>"

abbreviation sample_session :: "string \<Rightarrow> (nat, (nat, unit) projection_world) ReadSideSession" where
  "sample_session t \<equiv> memory_session one_by_one (sample_env (\<lambda>_. False)) (''p'', EventTag t, ''acme'')"

definition two_events :: "fault list \<Rightarrow> (nat, unit) projection_world" where
  "two_events fs = arrives (sample_event ''a'' ''e2'' 2) (arrives (sample_event ''a'' ''e1'' 1) (projection_start fs ()))"

lemmas sample_defs =
  sample_event_def sample_env_def one_by_one_def ReadSideConfig_default_def two_events_def arrives_def projection_start_def
  ReadSideStore_insert_def ReadSideStore_new_def insert_sorted_def events_for_tag_def

lemmas batch_defs =
  execute_def run_batch_def verify_claim_def commit_batch_def memory_session_def faulty_def paginate_def
  ReadSideStore_fetch_def DedupStore_seen_def DedupStore_mark_seen_def OffsetStore_read_offset_def
  OffsetStore_write_offset_def Offset_sequence_def trim_is_empty_def

lemma two_events_reachable:
  "(projection_step (memory_session cfg E) tag_stream arrives)\<^sup>*\<^sup>* (projection_start fs ()) (two_events fs)"
proof -
  have "projection_step (memory_session cfg E) tag_stream arrives (projection_start fs ()) (arrives (sample_event ''a'' ''e1'' 1) (projection_start fs ()))"
    by (rule projection_step.arrival) (simp add: fresh_event_def sample_defs)
  moreover have "projection_step (memory_session cfg E) tag_stream arrives (arrives (sample_event ''a'' ''e1'' 1) (projection_start fs ())) (two_events fs)"
    unfolding two_events_def by (rule projection_step.arrival) (simp add: fresh_event_def sample_defs)
  ultimately show ?thesis by (meson converse_rtranclp_into_rtranclp rtranclp.rtrancl_refl)
qed

lemma one_batch:
  "execute (sample_session ''a'') (two_events []) =
     (Ok (Some (Sequence 1)), (two_events [])\<lparr>pw_seen := {(''p'', ''a'', ''e1'')}, pw_offsets := [(''p'', ''a'', ''acme'') \<mapsto> Sequence 1],
        pw_log := [((''p'', ''a'', ''acme''), [sample_event ''a'' ''e1'' 1])]\<rparr>)"
  by (simp add: sample_defs batch_defs Let_def)

theorem no_event_passed_over_witness:
  "(''p'', ''a'', ''e1'') \<in> accepted (snd (execute (sample_session ''a'') (two_events [])))"
proof -
  let ?s = "snd (execute (sample_session ''a'') (two_events []))"
  have "projection_step (memory_session one_by_one (sample_env (\<lambda>_. False))) tag_stream arrives (two_events []) ?s"
    by (rule projection_step.tick [of _ "(''p'', EventTag ''a'', ''acme'')"]) (rule surjective_pairing)
  then have "(projection_step (memory_session one_by_one (sample_env (\<lambda>_. False))) tag_stream arrives)\<^sup>*\<^sup>* (projection_start [] ()) ?s"
    by (rule rtranclp.rtrancl_into_rtrancl [OF two_events_reachable])
  moreover have "sample_event ''a'' ''e1'' 1 \<in> set (tag_stream ?s ''a'')"
    "el_event_version (sample_event ''a'' ''e1'' 1) \<le> offset_at ?s (''p'', ''a'', el_tenant_id (sample_event ''a'' ''e1'' 1))"
    by (simp_all add: one_batch) (simp_all add: sample_defs)
  ultimately have "(''p'', ''a'', el_event_id (sample_event ''a'' ''e1'' 1)) \<in> accepted ?s" by (rule no_event_passed_over)
  then show ?thesis by (simp add: sample_event_def)
qed


text \<open>A claim store that grants every claim and has handed it to somebody else when it is renewed.\<close>

definition fickle_claims :: "unit ReadSideClaiming" where
  "fickle_claims =
     \<lparr>cl_store = \<lparr>port_try_claim = (\<lambda>i ow t w. (Ok (Some \<lparr>cf_claim_id = i, cf_owner_id = ow, cf_fencing_token = FencingToken_initial\<rparr>), w)),
                  port_renew = (\<lambda>f t w. (Err Claim_StaleOwner, w)), port_release = (\<lambda>f w. (Err Claim_StaleOwner, w))\<rparr>,
      cl_owner = OwnerId ''worker'', cl_now = (\<lambda>w. (0, w)), cl_lease = 30\<rparr>"

theorem lost_claim_commits_nothing_witness:
  "execute ((memory_session one_by_one (sample_env (\<lambda>_. False)\<lparr>pe_claiming := Some fickle_claims\<rparr>) (''p'', EventTag ''a'', ''acme''))
       \<lparr>rs_mark_seen := \<lambda>_ _ _ s. (Ok (), s), rs_write_offset := \<lambda>_ _ _ _ s. (Ok (), s)\<rparr>) (two_events []) =
   execute (memory_session one_by_one (sample_env (\<lambda>_. False)\<lparr>pe_claiming := Some fickle_claims\<rparr>) (''p'', EventTag ''a'', ''acme'')) (two_events [])"
  by (rule lost_claim_commits_nothing [of _ "claiming_on fickle_claims"])
    (simp_all add: memory_session_def claiming_on_def fickle_claims_def on_rest_def)

section \<open>Where a projection stops\<close>

text \<open>
  A batch whose events are all marked stalls its projection. If the offset cannot be written after the
  events of a full batch were marked as seen, every later poll fetches the same batch, finds only
  duplicates and returns without advancing: the second event is never handled, although no call fails
  any more.
\<close>

theorem marked_batch_stalls_projection:
  "\<exists>s1. execute (sample_session ''a'') (two_events [NoFault, NoFault, NoFault, NoFault, LostRequest]) =
          (Err (Transient (WriteOffsetFailed (Offset_Transient ''unreachable''))), s1) \<and>
        (\<forall>n. ((\<lambda>s. snd (execute (sample_session ''a'') s)) ^^ n) s1 = s1) \<and>
        sample_event ''a'' ''e2'' 2 \<in> set (tag_stream s1 ''a'') \<and> (''p'', ''a'', ''e2'') \<notin> accepted s1 \<and> pw_faults s1 = []"
proof -
  let ?s1 = "(two_events [])\<lparr>pw_seen := {(''p'', ''a'', ''e1'')}, pw_log := [((''p'', ''a'', ''acme''), [sample_event ''a'' ''e1'' 1])]\<rparr>"
  have first: "execute (sample_session ''a'') (two_events [NoFault, NoFault, NoFault, NoFault, LostRequest]) =
      (Err (Transient (WriteOffsetFailed (Offset_Transient ''unreachable''))), ?s1)"
    by (simp add: sample_defs batch_defs Let_def)
  have stuck: "snd (execute (sample_session ''a'') ?s1) = ?s1"
    by (simp add: sample_defs batch_defs Let_def)
  have "((\<lambda>s. snd (execute (sample_session ''a'') s)) ^^ n) ?s1 = ?s1" for n
    by (induction n) (simp_all add: stuck)
  then show ?thesis
    using first by (intro exI [of _ ?s1]) (simp add: sample_defs accepted_in_def)
qed

lemma poll_loop_stuck:
  "start_projection c session (tags s) s = (Err e, s) \<Longrightarrow> on_error e s = s \<Longrightarrow>
   snd (poll_loop c session tags on_error False (replicate n Slept) s) = s"
proof (induction n)
  case (Suc n)
  then have "poll_loop c session tags on_error False (Slept # replicate n Slept) s =
      poll_loop c session tags on_error False (replicate n Slept) s"
    by (subst poll_loop.simps(2)) simp
  then show ?case using Suc by simp
qed simp

text \<open>
  One failing tag starves the tags behind it. A poll runs the sessions of its tags in order and ends
  at the first error, so while the handler refuses an event of tag \<open>a\<close>, no poll, however many there are,
  reaches tag \<open>b\<close>, whose event is never handled.
\<close>

theorem failing_tag_starves_the_rest:
  "snd (poll_loop one_by_one (\<lambda>k. memory_session one_by_one (sample_env (\<lambda>t. t = EventTag ''a'')) (''p'', k))
      (\<lambda>_. [(EventTag ''a'', ''acme''), (EventTag ''b'', ''acme'')]) (\<lambda>_ s. s) False (replicate n Slept)
      (arrives (sample_event ''b'' ''e2'' 1) (arrives (sample_event ''a'' ''e1'' 1) (projection_start [] ())))) =
   arrives (sample_event ''b'' ''e2'' 1) (arrives (sample_event ''a'' ''e1'' 1) (projection_start [] ()))"
proof -
  let ?s = "arrives (sample_event ''b'' ''e2'' 1) (arrives (sample_event ''a'' ''e1'' 1) (projection_start [] ())) :: (nat, unit) projection_world"
  let ?S = "\<lambda>k. memory_session one_by_one (sample_env (\<lambda>t. t = EventTag ''a'')) (''p'', k)"
  have poll: "start_projection one_by_one ?S [(EventTag ''a'', ''acme''), (EventTag ''b'', ''acme'')] ?s =
      (Err (PoisonEvent (Because ''bad payload'')), ?s)"
    by (simp add: can_process_def sample_defs batch_defs Let_def)
  show ?thesis by (rule poll_loop_stuck [OF poll]) (rule refl)
qed

end
