(* ===== verification/Ego_Trace.thy ===== *)
theory Ego_Trace
  imports Ego_Identity
begin

text \<open>
  Trace identity and the W3C \<open>traceparent\<close> header (\<open>crates/domain/src/tracer.rs\<close>) and its propagation at
  HTTP ingress (\<open>crates/transport/src/propagation.rs\<close>). Random identifiers are arguments.

  Parsing slices strings at byte offsets, which panics inside a multi-byte character: \<open>None\<close> is that panic.
\<close>

section \<open>Identifiers\<close>

datatype TraceId = TraceId (trace_bytes: "8 word list")
datatype SpanId = SpanId (span_bytes: "8 word list")

datatype TraceParseError = InvalidFormat

definition encode_hex :: "8 word list \<Rightarrow> string" where
  "encode_hex bytes = concat (map (\<lambda>b. hex_byte (unat b)) bytes)"

definition hex_value :: "char \<Rightarrow> nat option" where
  "hex_value c =
     (let n = (of_char c :: nat)
      in if 48 \<le> n \<and> n \<le> 57 then Some (n - 48)
         else if 97 \<le> n \<and> n \<le> 102 then Some (n - 87)
         else if 65 \<le> n \<and> n \<le> 70 then Some (n - 55)
         else None)"

text \<open>\<open>u8::from_str_radix(s, 16)\<close>: one leading plus sign is accepted, an overflow is an error.\<close>

fun hex_digits :: "nat \<Rightarrow> string \<Rightarrow> nat option" where
  "hex_digits acc [] = Some acc"
| "hex_digits acc (c # s) =
     (case hex_value c of
        None \<Rightarrow> None
      | Some d \<Rightarrow> if 256 \<le> acc * 16 + d then None else hex_digits (acc * 16 + d) s)"

definition from_str_radix_16 :: "string \<Rightarrow> 8 word option" where
  "from_str_radix_16 s =
     (if s = [] \<or> s = ''+'' \<or> s = ''-'' then None
      else map_option of_nat (hex_digits 0 (if hd s = CHR ''+'' then tl s else s)))"

text \<open>The loop over the bytes of \<open>out\<close>, from index \<open>i\<close> with \<open>n\<close> left to write.\<close>

fun decode_from :: "string \<Rightarrow> nat \<Rightarrow> nat \<Rightarrow> (8 word list, TraceParseError) result option" where
  "decode_from s i 0 = Some (Ok [])"
| "decode_from s i (Suc n) =
     (if \<not> is_char_boundary s (i * 2) \<or> \<not> is_char_boundary s (i * 2 + 2) then None
      else case from_str_radix_16 (take 2 (drop (i * 2) s)) of
             None \<Rightarrow> Some (Err InvalidFormat)
           | Some b \<Rightarrow> map_option (map_sum id (\<lambda>bs. b # bs)) (decode_from s (i + 1) n))"

definition decode_hex :: "string \<Rightarrow> nat \<Rightarrow> (8 word list, TraceParseError) result option" where
  "decode_hex s n = (if length s \<noteq> n * 2 then Some (Err InvalidFormat) else decode_from s 0 n)"

definition TraceId_to_hex :: "TraceId \<Rightarrow> string" where
  "TraceId_to_hex t = encode_hex (trace_bytes t)"

definition TraceId_from_hex :: "string \<Rightarrow> (TraceId, TraceParseError) result option" where
  "TraceId_from_hex s = map_option (map_sum id TraceId) (decode_hex s 16)"

definition TraceId_is_zero :: "TraceId \<Rightarrow> bool" where
  "TraceId_is_zero t \<longleftrightarrow> trace_bytes t = replicate 16 0"

definition SpanId_to_hex :: "SpanId \<Rightarrow> string" where
  "SpanId_to_hex t = encode_hex (span_bytes t)"

definition SpanId_from_hex :: "string \<Rightarrow> (SpanId, TraceParseError) result option" where
  "SpanId_from_hex s = map_option (map_sum id SpanId) (decode_hex s 8)"

definition SpanId_is_zero :: "SpanId \<Rightarrow> bool" where
  "SpanId_is_zero t \<longleftrightarrow> span_bytes t = replicate 8 0"

section \<open>Context and header\<close>

record TraceContext =
  tc_trace_id :: TraceId
  tc_span_id :: SpanId
  tc_parent_span_id :: "SpanId option"

definition TraceContext_root :: "TraceId \<Rightarrow> SpanId \<Rightarrow> TraceContext" where
  "TraceContext_root new_trace new_span = \<lparr>tc_trace_id = new_trace, tc_span_id = new_span, tc_parent_span_id = None\<rparr>"

definition TraceContext_child :: "SpanId \<Rightarrow> TraceContext \<Rightarrow> TraceContext" where
  "TraceContext_child new_span c =
     \<lparr>tc_trace_id = tc_trace_id c, tc_span_id = new_span, tc_parent_span_id = Some (tc_span_id c)\<rparr>"

definition to_traceparent :: "TraceContext \<Rightarrow> string" where
  "to_traceparent c = ''00-'' @ TraceId_to_hex (tc_trace_id c) @ ''-'' @ SpanId_to_hex (tc_span_id c) @ ''-01''"

definition is_ascii_uppercase :: "char \<Rightarrow> bool" where
  "is_ascii_uppercase c = (65 \<le> (of_char c :: nat) \<and> (of_char c :: nat) \<le> 90)"

definition is_ascii_hexdigit :: "char \<Rightarrow> bool" where
  "is_ascii_hexdigit c = (hex_value c \<noteq> None)"

definition parse_traceparent :: "string \<Rightarrow> (TraceId \<times> SpanId, TraceParseError) result option" where
  "parse_traceparent s =
     (case str_split CHR ''-'' s of
        [version, trace_id_hex, span_id_hex, flags] \<Rightarrow>
          if length version \<noteq> 2 \<or> length flags \<noteq> 2 then Some (Err InvalidFormat)
          else if \<not> list_all is_ascii_hexdigit version \<or> \<not> list_all is_ascii_hexdigit flags then Some (Err InvalidFormat)
          else if version \<noteq> ''00'' then Some (Err InvalidFormat)
          else if list_ex (list_ex is_ascii_uppercase) [trace_id_hex, span_id_hex, flags] then Some (Err InvalidFormat)
          else (case TraceId_from_hex trace_id_hex of
                  None \<Rightarrow> None
                | Some (Inl e) \<Rightarrow> Some (Err e)
                | Some (Inr trace_id) \<Rightarrow>
                    if TraceId_is_zero trace_id then Some (Err InvalidFormat)
                    else (case SpanId_from_hex span_id_hex of
                            None \<Rightarrow> None
                          | Some (Inl e) \<Rightarrow> Some (Err e)
                          | Some (Inr span_id) \<Rightarrow>
                              if SpanId_is_zero span_id then Some (Err InvalidFormat)
                              else Some (Ok (trace_id, span_id))))
      | _ \<Rightarrow> Some (Err InvalidFormat))"

definition from_inbound :: "SpanId \<Rightarrow> string \<Rightarrow> (TraceContext, TraceParseError) result option" where
  "from_inbound new_span header =
     map_option (map_sum id (\<lambda>(trace_id, remote_span_id).
        \<lparr>tc_trace_id = trace_id, tc_span_id = new_span, tc_parent_span_id = Some remote_span_id\<rparr>))
       (parse_traceparent header)"

text \<open>
  \<open>values\<close> are the values of the request's \<open>traceparent\<close> headers. \<open>HeaderValue::to_str\<close> belongs to the
  \<open>http\<close> crate; it refuses anything but visible ASCII.
\<close>

definition originate_trace_context ::
  "('h \<Rightarrow> string option) \<Rightarrow> TraceContext \<Rightarrow> SpanId \<Rightarrow> 'h list \<Rightarrow> TraceContext option" where
  "originate_trace_context to_str root new_span values =
     (case (case values of [value] \<Rightarrow> to_str value | _ \<Rightarrow> None) of
        None \<Rightarrow> Some root
      | Some header \<Rightarrow>
          (case from_inbound new_span header of
             None \<Rightarrow> None
           | Some (Inl _) \<Rightarrow> Some root
           | Some (Inr c) \<Rightarrow> Some c))"

section \<open>Round trip\<close>

lemma hex_digit_facts:
  assumes "n < 16"
  shows "hex_value (hex_digit n) = Some n" "(of_char (hex_digit n) :: nat) < 128"
    "hex_digit n \<noteq> CHR ''-''" "hex_digit n \<noteq> CHR ''+''" "\<not> is_ascii_uppercase (hex_digit n)"
proof -
  have v: "(of_char (hex_digit n) :: nat) = (if n < 10 then 48 + n else 87 + n)"
    using assms by (simp add: hex_digit_def)
  show "hex_value (hex_digit n) = Some n" "(of_char (hex_digit n) :: nat) < 128" "\<not> is_ascii_uppercase (hex_digit n)"
    using v assms by (auto simp: hex_value_def is_ascii_uppercase_def Let_def)
  have "(of_char (hex_digit n) :: nat) \<noteq> of_char CHR ''-''" "(of_char (hex_digit n) :: nat) \<noteq> of_char CHR ''+''"
    using v assms by simp_all
  then show "hex_digit n \<noteq> CHR ''-''" "hex_digit n \<noteq> CHR ''+''" by metis+
qed

lemma unat_byte: "unat (b :: 8 word) < 256"
  using unsigned_less [of b, where ?'a = nat] by simp

lemma from_str_radix_hex_byte: "from_str_radix_16 (hex_byte (unat (b :: 8 word))) = Some b"
proof -
  have b: "unat b < 256" by (rule unat_byte)
  then have d: "unat b div 16 < 16" "unat b mod 16 < 16" by auto
  have "unat b div 16 * 16 + unat b mod 16 = unat b" by simp
  then show ?thesis
    using b d hex_digit_facts [OF d(1)] hex_digit_facts [OF d(2)]
    by (simp add: from_str_radix_16_def hex_byte_def)
qed

lemma encode_hex_simps [simp]:
  "encode_hex [] = []" "encode_hex (b # bs) = hex_byte (unat b) @ encode_hex bs"
  by (simp_all add: encode_hex_def)

lemma length_hex_byte [simp]: "length (hex_byte n) = 2"
  by (simp add: hex_byte_def)

lemma length_encode_hex [simp]: "length (encode_hex bs) = length bs * 2"
  by (induction bs) simp_all

lemma encode_hex_chars:
  assumes "c \<in> set (encode_hex bs)"
  shows "(of_char c :: nat) < 128 \<and> c \<noteq> CHR ''-'' \<and> \<not> is_ascii_uppercase c"
proof -
  obtain b where "c \<in> set (hex_byte (unat (b :: 8 word)))" using assms by (auto simp: encode_hex_def)
  then have "c = hex_digit (unat b div 16) \<or> c = hex_digit (unat b mod 16)" by (auto simp: hex_byte_def)
  moreover have "unat b div 16 < 16" "unat b mod 16 < 16" using unat_byte [of b] by auto
  ultimately show ?thesis using hex_digit_facts by metis
qed

lemma ascii_boundary:
  assumes "\<forall>c \<in> set s. (of_char c :: nat) < 128" "i \<le> length s"
  shows "is_char_boundary s i"
  using assms unfolding is_char_boundary_def by (metis linorder_not_less nth_mem order_le_less)

lemma decode_from_encode:
  assumes "length pre = i * 2" "\<forall>c \<in> set pre. (of_char c :: nat) < 128"
  shows "decode_from (pre @ encode_hex bs) i (length bs) = Some (Ok bs)"
  using assms
proof (induction bs arbitrary: pre i)
  case (Cons b bs)
  let ?s = "pre @ encode_hex (b # bs)"
  have ascii: "\<forall>c \<in> set ?s. (of_char c :: nat) < 128" using Cons.prems(2) encode_hex_chars by (metis Un_iff set_append)
  then have "is_char_boundary ?s (i * 2)" "is_char_boundary ?s (i * 2 + 2)"
    using ascii_boundary Cons.prems(1) by (simp_all del: set_append)
  moreover have "from_str_radix_16 (take 2 (drop (i * 2) ?s)) = Some b"
    using Cons.prems(1) by (simp add: from_str_radix_hex_byte)
  moreover have "decode_from ?s (i + 1) (length bs) = Some (Ok bs)"
    using Cons.IH [of "pre @ hex_byte (unat b)" "i + 1"] Cons.prems(1) ascii by (simp add: ball_Un)
  ultimately show ?case by simp
qed simp

lemma decode_hex_encode_hex: "length bs = n \<Longrightarrow> decode_hex (encode_hex bs) n = Some (Ok bs)"
  using decode_from_encode [of "[]" 0 bs] by (auto simp: decode_hex_def)

lemma split_traceparent:
  "str_split CHR ''-'' (to_traceparent c) = [''00'', TraceId_to_hex (tc_trace_id c), SpanId_to_hex (tc_span_id c), ''01'']"
proof -
  have "CHR ''-'' \<notin> set (encode_hex bs)" for bs using encode_hex_chars by blast
  then show ?thesis
    by (simp add: to_traceparent_def TraceId_to_hex_def SpanId_to_hex_def str_split_append)
qed

section \<open>What is accepted\<close>

lemma decode_from_length: "decode_from s i n = Some (Ok bs) \<Longrightarrow> length bs = n"
proof (induction n arbitrary: i bs)
  case (Suc n)
  then show ?case by (auto split: if_splits option.splits) (metis (no_types, lifting) Inr_inject map_sum.simps(1) map_sum.simps(2) sum.exhaust sum.simps(4) length_Cons)
qed simp


lemma from_hex_lengths:
  "TraceId_from_hex s = Some (Ok t) \<Longrightarrow> length (trace_bytes t) = 16"
  "SpanId_from_hex s = Some (Ok p) \<Longrightarrow> length (span_bytes p) = 8"
  using decode_from_length [of s 0]
  by (auto simp: TraceId_from_hex_def SpanId_from_hex_def decode_hex_def split: if_splits)
    (metis Inr_inject TraceId.sel map_sum.simps sum.exhaust sum.simps(4), metis Inr_inject SpanId.sel map_sum.simps sum.exhaust sum.simps(4))

definition example_header :: string where
  "example_header = ''00-0a0a0a0a0a0a0a0a0a0a0a0a0a0a0a0a-abababababababab-00''"

lemma example_header_parsed:
  "parse_traceparent example_header = Some (Ok (TraceId (replicate 16 10), SpanId (replicate 8 171)))"
  by code_simp

text \<open>
  The hexadecimal parser of the standard library takes a plus sign, so a header that is not hexadecimal
  passes, and two different headers denote one identity.
\<close>

lemma plus_sign_is_accepted:
  "parse_traceparent ''00-+a+a+a+a+a+a+a+a+a+a+a+a+a+a+a+a-abababababababab-00'' = parse_traceparent example_header"
  by code_simp

text \<open>A header with a character of two bytes across a pair boundary makes the parser panic.\<close>

lemma non_ascii_header_panics:
  "parse_traceparent (''00-a'' @ [char_of (195::nat), char_of (169::nat)] @ ''0a0a0a0a0a0a0a0a0a0a0a0a0a0a0-abababababababab-00'') = None"
  by code_simp

section \<open>Properties\<close>

text \<open>
  C39: A trace crosses a service boundary unchanged. Whatever two-level identity a context has, as long as
  its identifiers have their sizes and are not all zero, the header it prints is parsed back into exactly
  these identifiers, and the context the next service builds from it continues the same trace with the
  sender's span as its parent, whatever new span identifier it draws.
\<close>

theorem traceparent_round_trip:
  assumes "length (trace_bytes (tc_trace_id c)) = 16" "\<not> TraceId_is_zero (tc_trace_id c)"
    and "length (span_bytes (tc_span_id c)) = 8" "\<not> SpanId_is_zero (tc_span_id c)"
  shows "parse_traceparent (to_traceparent c) = Some (Ok (tc_trace_id c, tc_span_id c))
         \<and> originate_trace_context Some root new_span [to_traceparent c]
           = Some \<lparr>tc_trace_id = tc_trace_id c, tc_span_id = new_span, tc_parent_span_id = Some (tc_span_id c)\<rparr>"
proof -
  have upper: "\<not> list_ex is_ascii_uppercase (encode_hex bs)" for bs
    using encode_hex_chars by (auto simp: list_ex_iff)
  have "TraceId_from_hex (TraceId_to_hex (tc_trace_id c)) = Some (Ok (tc_trace_id c))"
      "SpanId_from_hex (SpanId_to_hex (tc_span_id c)) = Some (Ok (tc_span_id c))"
    using assms(1,3) by (simp_all add: TraceId_from_hex_def TraceId_to_hex_def SpanId_from_hex_def SpanId_to_hex_def decode_hex_encode_hex)
  then have "parse_traceparent (to_traceparent c) = Some (Ok (tc_trace_id c, tc_span_id c))"
    using assms(2,4) upper unfolding parse_traceparent_def split_traceparent
    by (simp add: TraceId_to_hex_def SpanId_to_hex_def is_ascii_hexdigit_def hex_value_def is_ascii_uppercase_def)
  then show ?thesis by (simp add: originate_trace_context_def from_inbound_def)
qed

theorem traceparent_round_trip_witness:
  "parse_traceparent (to_traceparent (TraceContext_root (TraceId (replicate 16 10)) (SpanId (replicate 8 171))))
   = Some (Ok (TraceId (replicate 16 10), SpanId (replicate 8 171)))"
  using traceparent_round_trip [of "TraceContext_root (TraceId (replicate 16 10)) (SpanId (replicate 8 171))"]
  by (simp add: TraceContext_root_def TraceId_is_zero_def SpanId_is_zero_def)



end
