(* ===== verification/Ego_Security.thy ===== *)
theory Ego_Security
  imports Ego_Identity "HOL-Library.Char_ord" "HOL-Library.List_Lexorder"
begin

text \<open>
  Principals, authorization and authentication (\<open>crates/security-sdk\<close>, \<open>crates/domain/src/auth\<close>): access
  requests, role-based access control, the built-in providers, credential extraction and the
  authentication interceptor.

  A provider reads and writes a state \<open>'s\<close> of its own and may panic, which is the answer \<open>None\<close>. A
  \<open>BTreeSet\<close> is the sorted list it iterates over, a \<open>BTreeMap\<close> the sorted list of its entries. Base64 decoding is a parameter.
\<close>

section \<open>Principals\<close>

datatype SecurityError =
  AuthenticationFailed string
| InvalidCredential string
| InvalidSubjectId string
| AuthorizationDenied string
| MissingContext
| CapabilityNotEnabled
| ProviderError string
| InvalidAccessRequest string
| TenantMismatch string string
| CrossTenantDenied string

fun SecurityError_to_string :: "SecurityError \<Rightarrow> string" where
  "SecurityError_to_string (AuthenticationFailed e) = ''authentication failed: '' @ e"
| "SecurityError_to_string (InvalidCredential e) = ''invalid credential: '' @ e"
| "SecurityError_to_string (InvalidSubjectId e) = ''invalid subject id: '' @ e"
| "SecurityError_to_string (AuthorizationDenied reason) = ''authorization denied: '' @ reason"
| "SecurityError_to_string MissingContext = ''missing security context''"
| "SecurityError_to_string CapabilityNotEnabled = ''security capability not enabled''"
| "SecurityError_to_string (ProviderError e) = ''provider error: '' @ e"
| "SecurityError_to_string (InvalidAccessRequest e) = ''invalid access request: '' @ e"
| "SecurityError_to_string (TenantMismatch _ _) = ''tenant mismatch''"
| "SecurityError_to_string (CrossTenantDenied _) = ''cross-tenant access denied''"

definition SubjectId_new :: "string \<Rightarrow> (string, SecurityError) result" where
  "SubjectId_new v =
     (if trim_is_empty v then Err (InvalidSubjectId ''subject id must not be empty'') else Ok v)"

datatype PrincipalKind = User | Service | Process | Agent

record Principal =
  pr_kind :: PrincipalKind
  pr_subject_id :: string
  pr_tenant_id :: "TenantId option"
  pr_roles :: "string list"
  pr_attributes :: "(string \<times> string) list"

definition Principal_new :: "PrincipalKind \<Rightarrow> string \<Rightarrow> Principal" where
  "Principal_new kind subject_id =
     \<lparr>pr_kind = kind, pr_subject_id = subject_id, pr_tenant_id = None, pr_roles = [], pr_attributes = []\<rparr>"

definition Principal_with_tenant_id :: "TenantId \<Rightarrow> Principal \<Rightarrow> Principal" where
  "Principal_with_tenant_id tenant p = p\<lparr>pr_tenant_id := Some tenant\<rparr>"

definition Principal_with_role :: "string \<Rightarrow> Principal \<Rightarrow> Principal" where
  "Principal_with_role role p = p\<lparr>pr_roles := insort_insert role (pr_roles p)\<rparr>"

definition Principal_with_attribute :: "string \<Rightarrow> string \<Rightarrow> Principal \<Rightarrow> Principal" where
  "Principal_with_attribute key value p = p\<lparr>pr_attributes := btree_insert key value (pr_attributes p)\<rparr>"

definition has_role :: "Principal \<Rightarrow> string \<Rightarrow> bool" where
  "has_role p role = (role \<in> set (pr_roles p))"

record StandardClaims =
  cl_exp :: "timestamp option"
  cl_nbf :: "timestamp option"
  cl_iat :: "timestamp option"
  cl_jti :: "string option"
  cl_iss :: "string option"
  cl_aud :: "string list option"

definition StandardClaims_default :: StandardClaims where
  "StandardClaims_default =
     \<lparr>cl_exp = None, cl_nbf = None, cl_iat = None, cl_jti = None, cl_iss = None, cl_aud = None\<rparr>"

record Claims =
  cm_standard :: StandardClaims
  cm_custom :: "(string \<times> json) list"

definition Claims_empty :: Claims where
  "Claims_empty = \<lparr>cm_standard = StandardClaims_default, cm_custom = []\<rparr>"

record SecurityContext =
  sec_principal :: Principal
  sec_claims :: Claims

definition SecurityContext_empty :: "Principal \<Rightarrow> SecurityContext" where
  "SecurityContext_empty p = \<lparr>sec_principal = p, sec_claims = Claims_empty\<rparr>"

section \<open>Access requests\<close>

definition quoted :: "string \<Rightarrow> string" where
  "quoted s = [CHR 0x27] @ s @ [CHR 0x27]"

record Resource =
  rs_kind :: string
  rs_id :: "string option"

record AccessRequest =
  ar_resource :: Resource
  ar_action :: string

definition AccessRequest_from_static :: "string \<Rightarrow> (AccessRequest, string) result" where
  "AccessRequest_from_static permission =
     (case split_once CHR '':'' permission of
        Some (resource, action) \<Rightarrow>
          if resource \<noteq> [] \<and> action \<noteq> [] \<and> CHR '':'' \<notin> set action \<and> resource \<noteq> ''*'' \<and> action \<noteq> ''*''
          then Ok \<lparr>ar_resource = \<lparr>rs_kind = resource, rs_id = None\<rparr>, ar_action = action\<rparr>
          else if resource = ''*'' \<or> action = ''*''
          then Err ''wildcard not valid in access request; wildcards belong on the grant side''
          else Err ''permission must be \"resource:action\" with non-empty parts''
      | None \<Rightarrow> Err ''permission must be \"resource:action\" with non-empty parts'')"

definition AccessRequest_from_permission :: "string \<Rightarrow> (AccessRequest, SecurityError) result" where
  "AccessRequest_from_permission descriptor =
     (case split_once CHR '':'' descriptor of
        None \<Rightarrow> Err (InvalidAccessRequest (''expected '' @ quoted ''resource:action'' @ '', got '' @ quoted descriptor))
      | Some (resource, action) \<Rightarrow>
          if resource = [] then Err (InvalidAccessRequest ''resource segment must not be empty'')
          else if action = [] then Err (InvalidAccessRequest ''action segment must not be empty'')
          else if resource = ''*'' then
            Err (InvalidAccessRequest (''wildcard resource '' @ quoted ''*'' @
              '' is not valid in an access request; wildcards belong on the permission/grant side''))
          else if action = ''*'' then
            Err (InvalidAccessRequest (''wildcard action '' @ quoted ''*'' @
              '' is not valid in an access request; wildcards belong on the permission/grant side''))
          else if CHR '':'' \<in> set action then
            Err (InvalidAccessRequest (''permission must have exactly one '' @ quoted '':'' @ '' (form \"resource:action\")''))
          else Ok \<lparr>ar_resource = \<lparr>rs_kind = resource, rs_id = None\<rparr>, ar_action = action\<rparr>)"

section \<open>Authorization\<close>

datatype AuthorizationDecision = Allow | Deny string

fun is_allowed :: "AuthorizationDecision \<Rightarrow> bool" where
  "is_allowed Allow = True"
| "is_allowed (Deny _) = False"

type_synonym 's AuthorizationProvider =
  "Principal \<Rightarrow> AccessRequest \<Rightarrow> SecurityContext \<Rightarrow> 's \<Rightarrow> (AuthorizationDecision, SecurityError) result option \<times> 's"

definition authorize_in_context ::
  "SecurityContext option \<Rightarrow> Resource \<Rightarrow> string \<Rightarrow> 's AuthorizationProvider \<Rightarrow> 's \<Rightarrow> (unit, SecurityError) result \<times> 's" where
  "authorize_in_context security resource action provider s =
     (case security of
        None \<Rightarrow> (Err CapabilityNotEnabled, s)
      | Some sec \<Rightarrow>
          (case provider (sec_principal sec) \<lparr>ar_resource = resource, ar_action = action\<rparr> sec s of
             (None, s1) \<Rightarrow> (Err (ProviderError ''authorization provider panicked''), s1)
           | (Some (Inl e), s1) \<Rightarrow> (Err e, s1)
           | (Some (Inr Allow), s1) \<Rightarrow> (Ok (), s1)
           | (Some (Inr (Deny reason)), s1) \<Rightarrow> (Err (AuthorizationDenied reason), s1)))"

definition AllowAllAuthorizationProvider :: "'s AuthorizationProvider" where
  "AllowAllAuthorizationProvider p request sec s = (Some (Ok Allow), s)"

definition DenyAllAuthorizationProvider :: "'s AuthorizationProvider" where
  "DenyAllAuthorizationProvider p request sec s = (Some (Ok (Deny ''deny-all'')), s)"

record Permission =
  pm_resource :: string
  pm_action :: string

text \<open>A role store: what it answers and its state after the call.\<close>

type_synonym 's RoleStore = "string \<Rightarrow> 's \<Rightarrow> (Permission list, SecurityError) result \<times> 's"

type_synonym InMemoryRoleStore = "string \<rightharpoonup> Permission list"

definition InMemoryRoleStore_new :: InMemoryRoleStore where
  "InMemoryRoleStore_new = Map.empty"

definition InMemoryRoleStore_with_role :: "string \<Rightarrow> Permission list \<Rightarrow> InMemoryRoleStore \<Rightarrow> InMemoryRoleStore" where
  "InMemoryRoleStore_with_role role permissions grants = grants(role \<mapsto> permissions)"

definition InMemoryRoleStore_permissions_for_role :: "InMemoryRoleStore \<Rightarrow> 's RoleStore" where
  "InMemoryRoleStore_permissions_for_role grants role s =
     (Ok (case grants role of Some ps \<Rightarrow> ps | None \<Rightarrow> []), s)"

definition grants_access :: "AccessRequest \<Rightarrow> Permission \<Rightarrow> bool" where
  "grants_access request perm \<longleftrightarrow>
     pm_resource perm = rs_kind (ar_resource request) \<and>
     (pm_action perm = ar_action request \<or> pm_action perm = ''*'')"

fun rbac_roles ::
  "'s RoleStore \<Rightarrow> AccessRequest \<Rightarrow> string list \<Rightarrow> 's \<Rightarrow> (AuthorizationDecision, SecurityError) result \<times> 's" where
  "rbac_roles store request [] s =
     (Ok (Deny (''no permission for '' @ rs_kind (ar_resource request) @ '':'' @ ar_action request)), s)"
| "rbac_roles store request (role # roles) s =
     (case store role s of
        (Inl e, s1) \<Rightarrow> (Err e, s1)
      | (Inr perms, s1) \<Rightarrow>
          if list_ex (grants_access request) perms then (Ok Allow, s1)
          else rbac_roles store request roles s1)"

definition RbacProvider_authorize :: "'s RoleStore \<Rightarrow> 's AuthorizationProvider" where
  "RbacProvider_authorize store p request sec s =
     (case rbac_roles store request (pr_roles p) s of (r, s1) \<Rightarrow> (Some r, s1))"

section \<open>Authentication\<close>

datatype Credential =
  Basic string string
| Bearer string
| Custom string "8 word list"

datatype AuthenticationError =
  InvalidToken string
| ExpiredToken
| AlgorithmNotSupported string
| MissingClaim string
| InvalidSignature
| ProviderUnavailable string

type_synonym AuthenticationProvider = "Credential \<Rightarrow> (SecurityContext, AuthenticationError) result"

definition BasicAuthenticationProvider ::
  "(string \<Rightarrow> string \<Rightarrow> (Principal option, SecurityError) result) \<Rightarrow> AuthenticationProvider" where
  "BasicAuthenticationProvider verify credential =
     (case credential of
        Basic username secret \<Rightarrow>
          (case verify username secret of
             Inr (Some p) \<Rightarrow> Ok (SecurityContext_empty p)
           | Inr None \<Rightarrow> Err (InvalidToken ''invalid username or password'')
           | Inl e \<Rightarrow> Err (ProviderUnavailable (SecurityError_to_string e)))
      | _ \<Rightarrow> Err (InvalidToken ''BasicAuthenticationProvider requires a Basic credential''))"

text \<open>A request is the value of each of its headers.\<close>

type_synonym RequestContext = "string \<Rightarrow> string option"
type_synonym CredentialExtractor = "RequestContext \<Rightarrow> (Credential option, AuthenticationError) result"

definition BearerExtractor_extract :: CredentialExtractor where
  "BearerExtractor_extract header =
     (case header ''authorization'' of
        None \<Rightarrow> Ok None
      | Some val \<Rightarrow>
          (let lower = to_ascii_lowercase val in
           if is_prefix ''bearer '' lower then
             (let token_lower = drop 7 lower; offset = length val - length token_lower in
              case str_get_from val offset of
                None \<Rightarrow> Err (InvalidToken ''Authorization header has invalid byte boundary'')
              | Some token \<Rightarrow>
                  if is_prefix '' '' token
                  then Err (InvalidToken ''Authorization header has extra whitespace after Bearer scheme'')
                  else Ok (Some (Bearer token)))
           else if is_prefix ''bearer'' lower
           then Err (InvalidToken ''Authorization header uses Bearer scheme with invalid separator'')
           else Ok None))"

definition BasicExtractor_extract :: "(string \<Rightarrow> string option) \<Rightarrow> CredentialExtractor" where
  "BasicExtractor_extract base64_decode header =
     (case header ''authorization'' of
        None \<Rightarrow> Ok None
      | Some val \<Rightarrow>
          if \<not> is_prefix ''basic '' (to_ascii_lowercase val) then Ok None
          else (case str_get_from val 6 of
            None \<Rightarrow> Err (InvalidToken ''Authorization header has invalid byte boundary'')
          | Some encoded \<Rightarrow>
              (case base64_decode encoded of
                 None \<Rightarrow> Err (InvalidToken ''Basic credential is not valid base64'')
               | Some text \<Rightarrow>
                   if \<not> utf8_valid text then Err (InvalidToken ''Basic credential is not valid UTF-8'')
                   else (case split_once CHR '':'' text of
                     None \<Rightarrow> Err (InvalidToken (''Basic credential missing '' @ quoted '':'' @ '' separator''))
                   | Some (username, secret) \<Rightarrow> Ok (Some (Basic username secret))))))"

definition ApiKeyExtractor_extract :: "string \<Rightarrow> CredentialExtractor" where
  "ApiKeyExtractor_extract header_name header =
     (case header header_name of
        None \<Rightarrow> Ok None
      | Some val \<Rightarrow>
          if val = [] then Err (InvalidToken ''API key header present but value is empty'') else Ok (Some (Bearer val)))"

definition AuthenticationInterceptor_intercept ::
  "CredentialExtractor \<Rightarrow> AuthenticationProvider \<Rightarrow> RequestContext \<Rightarrow> (SecurityContext option, AuthenticationError) result" where
  "AuthenticationInterceptor_intercept extract authenticate ctx =
     (case extract ctx of
        Inl e \<Rightarrow> Err e
      | Inr None \<Rightarrow> Ok None
      | Inr (Some cred) \<Rightarrow> (case authenticate cred of Inl e \<Rightarrow> Err e | Inr sec \<Rightarrow> Ok (Some sec)))"

section \<open>Facts\<close>

lemma with_role_sorted:
  "sorted (pr_roles p) \<Longrightarrow> distinct (pr_roles p) \<Longrightarrow>
     sorted (pr_roles (Principal_with_role r p)) \<and> distinct (pr_roles (Principal_with_role r p))"
  by (simp add: Principal_with_role_def sorted_insort_insert distinct_insort_insert)

lemma has_role_with_role [simp]: "has_role (Principal_with_role r p) r' \<longleftrightarrow> r' = r \<or> has_role p r'"
  by (auto simp: has_role_def Principal_with_role_def set_insort_insert)

lemma rbac_roles_memory:
  "rbac_roles (InMemoryRoleStore_permissions_for_role grants) request roles s =
     (Ok (if \<exists>role \<in> set roles. \<exists>perms. grants role = Some perms \<and> (\<exists>perm \<in> set perms. grants_access request perm)
          then Allow
          else Deny (''no permission for '' @ rs_kind (ar_resource request) @ '':'' @ ar_action request)), s)"
proof (induction roles)
  case (Cons role roles)
  then show ?case by (cases "grants role") (auto simp: InMemoryRoleStore_permissions_for_role_def list_ex_iff)
qed simp

section \<open>Properties\<close>

text \<open>
  Role-based access control allows exactly what is granted. Over the in-memory role store, whatever the
  roles and grants were built from, the provider answers \<open>Allow\<close> if and only if the principal has a role
  with a permission on the requested kind of resource, for the requested action or for all actions; it never
  fails or panics, and otherwise it denies. A wildcard resource grants nothing but the resource named \<open>*\<close>.
\<close>

theorem rbac_allows_exactly_grants:
  "fst (authorize_in_context (Some sec) resource action
          (RbacProvider_authorize (InMemoryRoleStore_permissions_for_role grants)) s) = Ok () \<longleftrightarrow>
   (\<exists>role perms perm. has_role (sec_principal sec) role \<and> grants role = Some perms \<and> perm \<in> set perms \<and>
      pm_resource perm = rs_kind resource \<and> (pm_action perm = action \<or> pm_action perm = ''*''))"
  by (auto simp: authorize_in_context_def RbacProvider_authorize_def rbac_roles_memory has_role_def grants_access_def)

text \<open>
  The two readers of permission strings agree. The reader used at compile time and the one used at run
  time accept exactly the same strings and read the same request from them: two parts around the only
  colon, both non-empty and neither a wildcard. So a string an attribute was checked with never means
  something else later.
\<close>

theorem permission_readers_agree:
  "(AccessRequest_from_static s = Ok r) = (AccessRequest_from_permission s = Ok r) \<and>
   (AccessRequest_from_permission s = Ok r \<longleftrightarrow>
      s = rs_kind (ar_resource r) @ '':'' @ ar_action r \<and> rs_id (ar_resource r) = None \<and>
      rs_kind (ar_resource r) \<notin> {[], ''*''} \<and> ar_action r \<notin> {[], ''*''} \<and>
      CHR '':'' \<notin> set (rs_kind (ar_resource r)) \<and> CHR '':'' \<notin> set (ar_action r))"
proof
  have eq: "\<lparr>ar_resource = \<lparr>rs_kind = a, rs_id = None\<rparr>, ar_action = b\<rparr> = r \<longleftrightarrow>
      rs_kind (ar_resource r) = a \<and> rs_id (ar_resource r) = None \<and> ar_action r = b" for a b
    by (cases r; cases "ar_resource r") auto
  show "(AccessRequest_from_static s = Ok r) = (AccessRequest_from_permission s = Ok r)"
    by (auto simp: AccessRequest_from_static_def AccessRequest_from_permission_def split: option.splits if_splits)
  show "AccessRequest_from_permission s = Ok r \<longleftrightarrow>
      s = rs_kind (ar_resource r) @ '':'' @ ar_action r \<and> rs_id (ar_resource r) = None \<and>
      rs_kind (ar_resource r) \<notin> {[], ''*''} \<and> ar_action r \<notin> {[], ''*''} \<and>
      CHR '':'' \<notin> set (rs_kind (ar_resource r)) \<and> CHR '':'' \<notin> set (ar_action r)"
    (is "_ \<longleftrightarrow> ?parts")
  proof
    assume "AccessRequest_from_permission s = Ok r"
    then show ?parts
      by (auto simp: AccessRequest_from_permission_def eq dest!: split_once_SomeD split: option.splits if_splits)
  next
    assume ?parts
    moreover from this have "split_once CHR '':'' s = Some (rs_kind (ar_resource r), ar_action r)"
      by (simp add: split_once_append)
    ultimately show "AccessRequest_from_permission s = Ok r"
      by (simp add: AccessRequest_from_permission_def eq)
  qed
qed

end
