(* ===== verification/Ego_Service_Context.thy ===== *)
theory Ego_Service_Context
  imports Ego_Trace Ego_Security
begin

text \<open>
  Who may act for which tenant (\<open>crates/service-sdk/src/context\<close>, \<open>runtime/tenant.rs\<close>,
  \<open>runtime/permit.rs\<close>): the service context, the resolution of the canonical tenant and cross-tenant permits.
\<close>

section \<open>Trimming\<close>

text \<open>
  \<open>str::trim\<close> on UTF-8 bytes. \<open>space_len\<close> is the length of the white-space character at the front, 0 if
  there is none.
\<close>

fun space_len :: "nat list \<Rightarrow> nat" where
  "space_len (b # c # d # _) =
     (if blank_bytes [b] then 1 else if blank_bytes [b, c] then 2 else if blank_bytes [b, c, d] then 3 else 0)"
| "space_len [b, c] = (if blank_bytes [b] then 1 else if blank_bytes [b, c] then 2 else 0)"
| "space_len [b] = (if blank_bytes [b] then 1 else 0)"
| "space_len [] = 0"

function trim_start :: "string \<Rightarrow> string" where
  "trim_start s =
     (let n = space_len (map of_char s) in if n = 0 \<or> s = [] then s else trim_start (drop n s))"
  by auto
termination by (relation "measure length") (auto simp: Let_def)

declare trim_start.simps [simp del]

definition ends_in_space :: "nat \<Rightarrow> string \<Rightarrow> bool" where
  "ends_in_space n s \<longleftrightarrow> n \<le> length s \<and> space_len (map of_char (drop (length s - n) s)) = n"

function trim_end :: "string \<Rightarrow> string" where
  "trim_end s =
     (if s = [] then s
      else if ends_in_space 1 s then trim_end (take (length s - 1) s)
      else if ends_in_space 2 s then trim_end (take (length s - 2) s)
      else if ends_in_space 3 s then trim_end (take (length s - 3) s)
      else s)"
  by auto
termination by (relation "measure length") (auto simp: ends_in_space_def)

declare trim_end.simps [simp del]

definition str_trim :: "string \<Rightarrow> string" where
  "str_trim s = trim_end (trim_start s)"

section \<open>Context\<close>

datatype CanonicalTenant = Scoped TenantId | Systemwide

fun canonical_tenant_id :: "CanonicalTenant \<Rightarrow> TenantId option" where
  "canonical_tenant_id (Scoped t) = Some t"
| "canonical_tenant_id Systemwide = None"

definition is_systemwide :: "CanonicalTenant \<Rightarrow> bool" where
  "is_systemwide c \<longleftrightarrow> c = Systemwide"

record CrossTenantPermit =
  permit_destination :: TenantId
  permit_issued_to :: string

text \<open>
  The fields of \<open>ServiceContext\<close> that dispatch reads. A \<open>CrossTenantGrant\<close> is its destination.
\<close>

record ServiceContext =
  sc_tenant_id :: "string option"
  sc_security :: "SecurityContext option"
  sc_allow_cross_tenant :: "TenantId option"
  sc_resolved_tenant :: "CanonicalTenant option"
  sc_operation_name :: "string option"
  sc_operation_key :: "OperationKey option"
  sc_operation_fingerprint :: "OperationFingerprint option"
  sc_trace_context :: "TraceContext option"

definition with_operation_name :: "string \<Rightarrow> ServiceContext \<Rightarrow> ServiceContext" where
  "with_operation_name name ctx = ctx\<lparr>sc_operation_name := Some name\<rparr>"

definition with_cross_tenant_access :: "CrossTenantPermit \<Rightarrow> ServiceContext \<Rightarrow> ServiceContext" where
  "with_cross_tenant_access permit ctx = ctx\<lparr>sc_allow_cross_tenant := Some (permit_destination permit)\<rparr>"

definition set_resolved_tenant :: "CanonicalTenant \<Rightarrow> ServiceContext \<Rightarrow> ServiceContext" where
  "set_resolved_tenant t ctx = ctx\<lparr>sc_resolved_tenant := Some t\<rparr>"

definition set_operation_fingerprint :: "OperationFingerprint \<Rightarrow> ServiceContext \<Rightarrow> ServiceContext" where
  "set_operation_fingerprint fp ctx = ctx\<lparr>sc_operation_fingerprint := Some fp\<rparr>"

definition operation_identity :: "ServiceContext \<Rightarrow> OperationIdentity option" where
  "operation_identity ctx =
     (case (sc_operation_key ctx, sc_operation_fingerprint ctx) of
        (Some key, Some fingerprint) \<Rightarrow> Some (OperationIdentity_new key fingerprint)
      | _ \<Rightarrow> None)"

section \<open>Tenant resolution\<close>

datatype TenantEnforcementMode = AuthenticatedOnly | AllowSystemInternal

record EstablishedTenantFacts =
  tf_security :: "SecurityContext option"
  tf_hint :: "string option"
  tf_cross_tenant_grant :: "TenantId option"

definition TenantResolver_resolve ::
  "TenantEnforcementMode \<Rightarrow> EstablishedTenantFacts \<Rightarrow> (CanonicalTenant, SecurityError) result" where
  "TenantResolver_resolve mode facts =
     (let hint = map_option str_trim (tf_hint facts)
      in case tf_security facts of
           Some sec \<Rightarrow>
             (case pr_tenant_id (sec_principal sec) of
                None \<Rightarrow> Err MissingContext
              | Some principal_tenant \<Rightarrow>
                  (case hint of
                     Some h \<Rightarrow>
                       if h \<noteq> [] \<and> h \<noteq> tenant_str principal_tenant
                       then (case tf_cross_tenant_grant facts of
                               Some destination \<Rightarrow>
                                 if tenant_str destination = h then Ok (Scoped destination)
                                 else Err (TenantMismatch (tenant_str principal_tenant) h)
                             | None \<Rightarrow> Err (TenantMismatch (tenant_str principal_tenant) h))
                       else Ok (Scoped principal_tenant)
                   | None \<Rightarrow> Ok (Scoped principal_tenant)))
         | None \<Rightarrow>
             (case (mode, hint) of
                (AllowSystemInternal, Some h) \<Rightarrow>
                  (case TenantId_new h of Inr t \<Rightarrow> Ok (Scoped t) | Inl _ \<Rightarrow> Err MissingContext)
              | _ \<Rightarrow> Err MissingContext))"

definition enforce_tenant ::
  "TenantEnforcementMode \<Rightarrow> ServiceContext \<Rightarrow> (unit, SecurityError) result \<times> ServiceContext" where
  "enforce_tenant mode ctx =
     (case TenantResolver_resolve mode
             \<lparr>tf_security = sc_security ctx, tf_hint = sc_tenant_id ctx, tf_cross_tenant_grant = sc_allow_cross_tenant ctx\<rparr> of
        Inl e \<Rightarrow> (Err e, ctx)
      | Inr canonical \<Rightarrow> (Ok (), set_resolved_tenant canonical ctx))"

section \<open>Cross-tenant permits\<close>

definition issue_cross_tenant_permit ::
  "'s AuthorizationProvider option \<Rightarrow> ServiceContext \<Rightarrow> TenantId \<Rightarrow> 's \<Rightarrow> (CrossTenantPermit, SecurityError) result \<times> 's" where
  "issue_cross_tenant_permit provider ctx destination s =
     (case provider of
        None \<Rightarrow> (Err CapabilityNotEnabled, s)
      | Some pv \<Rightarrow>
          (case authorize_in_context (sc_security ctx) \<lparr>rs_kind = ''tenant'', rs_id = Some (tenant_str destination)\<rparr>
                  ''cross-tenant-access'' pv s of
             (Inr _, s1) \<Rightarrow>
               (case sc_security ctx of
                  None \<Rightarrow> (Err CapabilityNotEnabled, s1)
                | Some sec \<Rightarrow>
                    (Ok \<lparr>permit_destination = destination, permit_issued_to = pr_subject_id (sec_principal sec)\<rparr>, s1))
           | (Inl (AuthorizationDenied reason), s1) \<Rightarrow> (Err (CrossTenantDenied reason), s1)
           | (Inl other, s1) \<Rightarrow> (Err other, s1)))"

definition cross_tenant_request :: "TenantId \<Rightarrow> AccessRequest" where
  "cross_tenant_request d =
     \<lparr>ar_resource = \<lparr>rs_kind = ''tenant'', rs_id = Some (tenant_str d)\<rparr>, ar_action = ''cross-tenant-access''\<rparr>"

text \<open>A permit names the destination and the principal the provider allowed to go there.\<close>

lemma permit_was_allowed:
  assumes "issue_cross_tenant_permit provider ctx d s = (Ok permit, s')"
  shows "permit_destination permit = d \<and>
         (\<exists>pv sec. provider = Some pv \<and> sc_security ctx = Some sec \<and>
            permit_issued_to permit = pr_subject_id (sec_principal sec) \<and>
            fst (pv (sec_principal sec) (cross_tenant_request d) sec s) = Some (Ok Allow))"
  using assms
  by (auto simp: issue_cross_tenant_permit_def authorize_in_context_def cross_tenant_request_def
      split: option.splits prod.splits sum.splits AuthorizationDecision.splits SecurityError.splits)

section \<open>Properties\<close>

text \<open>What a resolution to a tenant says about the facts it was made from.\<close>

lemma resolve_authenticated:
  assumes "TenantResolver_resolve mode facts = Ok c" "tf_security facts = Some sec"
  obtains t where "c = Scoped t"
    and "pr_tenant_id (sec_principal sec) = Some t \<or>
         (map_option str_trim (tf_hint facts) = Some (tenant_str t) \<and> tf_cross_tenant_grant facts = Some t)"
  using assms
  by (auto simp: TenantResolver_resolve_def Let_def split: option.splits if_splits)

lemma resolve_internal:
  assumes "TenantResolver_resolve mode facts = Ok c" "tf_security facts = None"
  obtains t where "c = Scoped t" "mode = AllowSystemInternal"
    and "map_option str_trim (tf_hint facts) = Some (tenant_str t)"
proof -
  have "\<exists>h. c = Scoped (TenantId h) \<and> mode = AllowSystemInternal \<and> map_option str_trim (tf_hint facts) = Some h"
    using assms
    by (auto simp: TenantResolver_resolve_def Let_def
        split: option.splits sum.splits TenantEnforcementMode.splits if_splits)
  then show ?thesis by (auto intro: that)
qed


definition example_caller :: ServiceContext where
  "example_caller =
     \<lparr>sc_tenant_id = Some '' globex'',
      sc_security = Some (SecurityContext_empty (Principal_with_tenant_id (TenantId ''acme'') (Principal_new User ''ann''))),
      sc_allow_cross_tenant = None, sc_resolved_tenant = None, sc_operation_name = None,
      sc_operation_key = None, sc_operation_fingerprint = None, sc_trace_context = None\<rparr>"

definition example_provider :: "unit AuthorizationProvider" where
  "example_provider p request sec s =
     (Some (Ok (if rs_id (ar_resource request) = Some ''globex'' then Allow else Deny ''closed'')), s)"


end
