(* ===== verification/Ego_Canonical.thy ===== *)
theory Ego_Canonical
  imports Ego_Identity "HOL-Library.Char_ord" "HOL-Library.List_Lexorder"
begin

text \<open>
  The fingerprint of a request (\<open>operation_fingerprint\<close> in
  \<open>crates/service-sdk/src/runtime/idempotency.rs\<close>): the typed arguments are turned into a JSON value and
  absorbed into a digest in a form that does not depend on the order in which maps are iterated. Here is
  the byte string the digest is fed, with the proof that it tells any two requests apart and nothing else.

  \<open>serde_json\<close> builds the value and \<open>sha2\<close> the digest; both are parameters. The entries of
  a map come in the order the map happens to keep them.
\<close>

section \<open>Encoding\<close>

text \<open>\<open>u64::nat_be_bytes\<close> of a length (\<open>as u64\<close>).\<close>

definition nat_be_bytes :: "nat \<Rightarrow> nat list" where
  "nat_be_bytes n = map (\<lambda>i. n div 256 ^ (7 - i) mod 256) [0..<8]"

definition absorb_bytes :: "string \<Rightarrow> nat list" where
  "absorb_bytes s = nat_be_bytes (length s) @ map of_char s"

function absorb_canonical :: "json \<Rightarrow> nat list" where
  "absorb_canonical JNull = [0]"
| "absorb_canonical (JBool b) = [1, if b then 1 else 0]"
| "absorb_canonical (JNumber n) = 2 # absorb_bytes n"
| "absorb_canonical (JString s) = 3 # absorb_bytes s"
| "absorb_canonical (JArray items) = 4 # nat_be_bytes (length items) @ concat (map absorb_canonical items)"
| "absorb_canonical (JObject entries) =
     5 # nat_be_bytes (length entries) @
       concat (map (\<lambda>e. absorb_bytes (fst e) @ absorb_canonical (snd e)) (sort_key fst entries))"
  by pat_completeness auto

lemma size_entry: "e \<in> set entries \<Longrightarrow> size (snd e) < Suc (size_list (size_prod (\<lambda>_. 0) size) entries)"
  by (induction entries) auto

termination absorb_canonical
  by (relation "measure size") (auto simp: less_Suc_eq_le size_list_estimation' dest!: size_entry)

definition operation_fingerprint ::
  "(nat list \<Rightarrow> nat list) \<Rightarrow> json option \<Rightarrow> OperationFingerprint option" where
  "operation_fingerprint sha256 value =
     map_option (\<lambda>canonical. OperationFingerprint (concat (map hex_byte (sha256 (absorb_canonical canonical))))) value"

section \<open>What it identifies\<close>

text \<open>The same value with the entries of every map in the order of their keys.\<close>

function sorted_json :: "json \<Rightarrow> json" where
  "sorted_json JNull = JNull"
| "sorted_json (JBool b) = JBool b"
| "sorted_json (JNumber n) = JNumber n"
| "sorted_json (JString s) = JString s"
| "sorted_json (JArray items) = JArray (map sorted_json items)"
| "sorted_json (JObject entries) = JObject (map (\<lambda>e. (fst e, sorted_json (snd e))) (sort_key fst entries))"
  by pat_completeness auto

termination sorted_json
  by (relation "measure size") (auto simp: less_Suc_eq_le size_list_estimation' dest!: size_entry)

text \<open>Every length fits into 64 bits, as it does in memory.\<close>

fun fits :: "json \<Rightarrow> bool" where
  "fits JNull = True"
| "fits (JBool b) = True"
| "fits (JNumber n) = (length n < 2 ^ 64)"
| "fits (JString s) = (length s < 2 ^ 64)"
| "fits (JArray items) = (length items < 2 ^ 64 \<and> (\<forall>j \<in> set items. fits j))"
| "fits (JObject entries) =
     (length entries < 2 ^ 64 \<and> (\<forall>e \<in> set entries. length (fst e) < 2 ^ 64 \<and> fits (snd e)))"

text \<open>The encoding of a value whose maps are in order already.\<close>

fun plain :: "json \<Rightarrow> nat list" where
  "plain JNull = [0]"
| "plain (JBool b) = [1, if b then 1 else 0]"
| "plain (JNumber n) = 2 # absorb_bytes n"
| "plain (JString s) = 3 # absorb_bytes s"
| "plain (JArray items) = 4 # nat_be_bytes (length items) @ concat (map plain items)"
| "plain (JObject entries) =
     5 # nat_be_bytes (length entries) @ concat (map (\<lambda>e. absorb_bytes (fst e) @ plain (snd e)) entries)"

lemma absorb_canonical_plain: "absorb_canonical j = plain (sorted_json j)"
proof (induction j rule: absorb_canonical.induct)
  case (5 items)
  then show ?case by (simp add: o_def cong: map_cong)
next
  case (6 entries)
  then have "map (\<lambda>e. absorb_bytes (fst e) @ absorb_canonical (snd e)) (sort_key fst entries)
      = map (\<lambda>e. absorb_bytes (fst e) @ plain (sorted_json (snd e))) (sort_key fst entries)"
    by simp
  then have "concat (map (\<lambda>e. absorb_bytes (fst e) @ absorb_canonical (snd e)) (sort_key fst entries))
      = concat (map (\<lambda>e. absorb_bytes (fst e) @ plain (sorted_json (snd e))) (sort_key fst entries))"
    by (rule arg_cong)
  then show ?case by (simp add: o_def del: map_eq_conv)
qed simp_all

lemma fits_sorted: "fits j \<Longrightarrow> fits (sorted_json j)"
  by (induction j rule: sorted_json.induct) auto

subsection \<open>Lengths\<close>

lemma length_nat_be_bytes [simp]: "length (nat_be_bytes n) = 8"
  by (simp add: nat_be_bytes_def)


lemma be_digits_inj:
  assumes "n < 256 ^ k" "m < 256 ^ k"
    and "map (\<lambda>i. n div 256 ^ (k - Suc i) mod 256) [0..<k] = map (\<lambda>i. m div 256 ^ (k - Suc i) mod (256 :: nat)) [0..<k]"
  shows "n = m"
  using assms
proof (induction k arbitrary: n m)
  case (Suc k)
  have split: "map (\<lambda>i. x div 256 ^ (Suc k - Suc i) mod 256) [0..<Suc k]
      = map (\<lambda>i. (x div 256) div 256 ^ (k - Suc i) mod 256) [0..<k] @ [x mod (256 :: nat)]" for x
  proof -
    have "x div 256 ^ (k - i) = (x div 256) div 256 ^ (k - Suc i)" if "i < k" for i
      using that by (metis Suc_diff_Suc div_mult2_eq power_Suc)
    then show ?thesis by simp
  qed
  from Suc.prems(3) have eq: "map (\<lambda>i. (n div 256) div 256 ^ (k - Suc i) mod 256) [0..<k]
      = map (\<lambda>i. (m div 256) div 256 ^ (k - Suc i) mod 256) [0..<k]" and last: "n mod 256 = m mod 256"
    unfolding split by auto
  have "n div 256 = m div 256"
    using Suc.prems(1,2) by (intro Suc.IH [OF _ _ eq]) (simp_all add: less_mult_imp_div_less mult.commute)
  with last show ?case by (metis div_mult_mod_eq)
qed simp

lemma nat_be_bytes_inj: "nat_be_bytes n = nat_be_bytes m \<Longrightarrow> n < 2 ^ 64 \<Longrightarrow> m < 2 ^ 64 \<Longrightarrow> n = m"
  using be_digits_inj [of n 8 m] by (simp add: nat_be_bytes_def)

lemma absorb_bytes_prefix:
  assumes "absorb_bytes x @ r = absorb_bytes y @ q" "length x < 2 ^ 64" "length y < 2 ^ 64"
  shows "x = y \<and> r = q"
proof -
  have "nat_be_bytes (length x) = nat_be_bytes (length y)" and rest: "map of_char x @ r = (map of_char y :: nat list) @ q"
    using assms(1) by (simp_all add: absorb_bytes_def append_eq_append_conv)
  then have "length x = length y" using nat_be_bytes_inj assms(2,3) by blast
  then have "(map of_char x :: nat list) = map of_char y" "r = q" using rest by simp_all
  then show ?thesis using inj_map_eq_map [of "of_char :: char \<Rightarrow> nat" x y] by (auto simp: inj_def)
qed

text \<open>A list of self-delimiting pieces is read off piece by piece.\<close>

lemma pieces_prefix:
  assumes "length xs = length ys" "concat (map f xs) @ r = concat (map f ys) @ q"
    and "\<And>x y r q. x \<in> set xs \<Longrightarrow> y \<in> set ys \<Longrightarrow> f x @ r = f y @ q \<Longrightarrow> x = y \<and> r = q"
  shows "xs = ys \<and> r = q"
  using assms
proof (induction xs ys rule: list_induct2)
  case (Cons x xs y ys)
  have "x = y \<and> concat (map f xs) @ r = concat (map f ys) @ q"
    using Cons.prems(1) by (intro Cons.prems(2)) auto
  then show ?case using Cons.IH Cons.prems(2) by (metis list.set_intros(2))
qed simp

lemma sized_pieces_prefix:
  assumes "nat_be_bytes (length xs) @ concat (map f xs) @ r = nat_be_bytes (length ys) @ concat (map f ys) @ q"
    and "length xs < 2 ^ 64" "length ys < 2 ^ 64"
    and "\<And>x y r q. x \<in> set xs \<Longrightarrow> y \<in> set ys \<Longrightarrow> f x @ r = f y @ q \<Longrightarrow> x = y \<and> r = q"
  shows "xs = ys \<and> r = q"
proof -
  have "nat_be_bytes (length xs) = nat_be_bytes (length ys)" "concat (map f xs) @ r = concat (map f ys) @ q"
    using assms(1) by (simp_all add: append_eq_append_conv)
  then show ?thesis using nat_be_bytes_inj assms(2,3) pieces_prefix [of xs ys f r q] assms(4) by blast
qed

lemma plain_prefix:
  assumes "plain a @ r = plain b @ q" "fits a" "fits b"
  shows "a = b \<and> r = q"
  using assms
proof (induction a arbitrary: b r q)
  case JNull
  then show ?case by (cases b) auto
next
  case (JBool x)
  then show ?case by (cases b) (auto split: if_splits)
next
  case (JNumber n)
  then show ?case by (cases b) (auto dest: absorb_bytes_prefix)
next
  case (JString s)
  then show ?case by (cases b) (auto dest: absorb_bytes_prefix)
next
  case (JArray items)
  then obtain items' where b: "b = JArray items'" by (cases b) auto
  have "x = y \<and> r' = q'"
    if "x \<in> set items" "y \<in> set items'" "plain x @ r' = plain y @ q'" for x y r' q'
    using JArray.IH [OF that(1,3)] JArray.prems(2,3) that(1,2) b by simp
  then have "items = items' \<and> r = q"
    using JArray.prems b sized_pieces_prefix [of items plain r items' q] by simp
  then show ?case by (simp add: b)
next
  case (JObject entries)
  then obtain entries' where b: "b = JObject entries'" by (cases b) auto
  have step: "e = e' \<and> r' = q'"
    if "e \<in> set entries" "e' \<in> set entries'"
      "(absorb_bytes (fst e) @ plain (snd e)) @ r' = (absorb_bytes (fst e') @ plain (snd e')) @ q'" for e e' r' q'
  proof -
    have len: "length (fst e) < 2 ^ 64" "length (fst e') < 2 ^ 64" "fits (snd e)" "fits (snd e')"
      using JObject.prems b that by auto
    have "fst e = fst e' \<and> plain (snd e) @ r' = plain (snd e') @ q'"
      using absorb_bytes_prefix [OF _ len(1,2)] that(3) by simp
    moreover have "snd e = snd e' \<and> r' = q'" if "plain (snd e) @ r' = plain (snd e') @ q'"
      by (rule JObject.IH [OF \<open>e \<in> set entries\<close> _ that len(3,4)]) (cases e, simp)
    ultimately show ?thesis by (metis prod.expand)
  qed
  have "entries = entries' \<and> r = q"
    using JObject.prems b step sized_pieces_prefix [of entries "\<lambda>e. absorb_bytes (fst e) @ plain (snd e)" r entries' q]
    by simp
  then show ?case by (simp add: b)
qed

section \<open>Property\<close>

text \<open>
  C33: The fingerprinted form identifies the request and nothing else. Two requests whose lengths fit into
  64 bits feed the digest the same bytes exactly when they are the same value up to the order of map
  entries: different arguments never share a form, and the order in which a hash map is iterated never
  makes a retry look like another request. The digest is fed nothing besides.
\<close>

theorem canonical_form_identifies_request:
  assumes "fits a" "fits b"
  shows "absorb_canonical a = absorb_canonical b \<longleftrightarrow> sorted_json a = sorted_json b"
  using plain_prefix [of "sorted_json a" "[]" "sorted_json b" "[]"] fits_sorted [OF assms(1)] fits_sorted [OF assms(2)]
  by (auto simp: absorb_canonical_plain)

theorem canonical_form_identifies_request_witness:
  "absorb_canonical (JArray [JString ''ab'']) \<noteq> absorb_canonical (JArray [JString ''a'', JString ''b''])
   \<and> absorb_canonical (JObject [(''y'', JNull), (''x'', JBool True)])
     = absorb_canonical (JObject [(''x'', JBool True), (''y'', JNull)])"
proof -
  have "sorted_json (JObject [(''y'', JNull), (''x'', JBool True)]) = sorted_json (JObject [(''x'', JBool True), (''y'', JNull)])"
    by simp
  then show ?thesis
    using canonical_form_identifies_request [of "JArray [JString ''ab'']" "JArray [JString ''a'', JString ''b'']"]
      canonical_form_identifies_request [of "JObject [(''y'', JNull), (''x'', JBool True)]" "JObject [(''x'', JBool True), (''y'', JNull)]"]
    by simp
qed

end
