(* ===== verification/Ego_Service_Runtime.thy ===== *)
theory Ego_Service_Runtime
  imports Ego_Service_Context Ego_Canonical Ego_Reservation_Memory
begin

text \<open>
  The idempotency layer of the service runtime (\<open>crates/service-sdk/src/runtime/idempotency.rs\<close>,
  \<open>runtime_builder.rs\<close>, \<open>idempotency/extraction.rs\<close>): resolving an operation key, reserving an operation
  before it is dispatched, the codec of stored responses, and recording the response afterwards.

  A reservation store is its two operations used here, over a state \<open>'s\<close> and at an instant each; a clock
  is the instant it returned. \<open>serde\<close>, \<open>sha2\<close> and the fresh span id are the record \<open>externals\<close>. What the
  runtime reports to its observability sink and tracer is a log.
\<close>

section \<open>Operation keys at the edge\<close>

datatype IdempotencyEnforcementMode = MandatoryKey | Compatibility

definition IdempotencyEnforcementMode_default :: IdempotencyEnforcementMode where
  "IdempotencyEnforcementMode_default = MandatoryKey"

datatype RawOperationKey = KeyAbsent | KeyPresent string | KeyUnreadable

datatype OperationKeyRejection =
  MissingKey string
| InvalidKey string OperationKeyError
| UnreadableKey string

definition resolve_operation_key ::
  "string \<Rightarrow> RawOperationKey \<Rightarrow> IdempotencyEnforcementMode \<Rightarrow>
   (OperationKey option, OperationKeyRejection) result" where
  "resolve_operation_key carrier_name raw_operation_key mode =
     (case raw_operation_key of
        KeyPresent raw \<Rightarrow>
          (case OperationKey_parse raw of
             Inr k \<Rightarrow> Ok (Some k)
           | Inl source \<Rightarrow> Err (InvalidKey carrier_name source))
      | KeyUnreadable \<Rightarrow> Err (UnreadableKey carrier_name)
      | KeyAbsent \<Rightarrow>
          (case mode of
             MandatoryKey \<Rightarrow> Err (MissingKey carrier_name)
           | Compatibility \<Rightarrow> Ok None))"

section \<open>Configuration\<close>

record 's ReservationConfig =
  rc_reserve :: "timestamp \<Rightarrow> ReserveRequest \<Rightarrow> 's \<Rightarrow> (ReservationOutcome, ReservationError) result \<times> 's"
  rc_complete :: "timestamp \<Rightarrow> OwnerFence \<Rightarrow> StoredServiceResponse \<Rightarrow> 's \<Rightarrow> 's ack_call"
  rc_owner_id :: OwnerId
  rc_lease_duration :: duration

datatype ReservationConfigError = ZeroLease

definition ReservationConfig_new ::
  "(timestamp \<Rightarrow> ReserveRequest \<Rightarrow> 's \<Rightarrow> (ReservationOutcome, ReservationError) result \<times> 's) \<Rightarrow>
   (timestamp \<Rightarrow> OwnerFence \<Rightarrow> StoredServiceResponse \<Rightarrow> 's \<Rightarrow> 's ack_call) \<Rightarrow>
   OwnerId \<Rightarrow> duration \<Rightarrow> ('s ReservationConfig, ReservationConfigError) result" where
  "ReservationConfig_new reserve complete owner_id lease_duration =
     (if lease_duration = 0 then Err ZeroLease
      else Ok \<lparr>rc_reserve = reserve, rc_complete = complete, rc_owner_id = owner_id, rc_lease_duration = lease_duration\<rparr>)"

definition rc_lease_until :: "'s ReservationConfig \<Rightarrow> timestamp \<Rightarrow> timestamp" where
  "rc_lease_until config now = now + int (rc_lease_duration config)"

text \<open>A permit is the fence it carries.\<close>

datatype ReservationDecision = Proceed OwnerFence | Replay StoredServiceResponse

datatype ReservationRejection =
  SelfInProgress
| RejectOtherInProgress
| FingerprintConflict
| StoreUnavailable
| StoredResponseIncompatible
| RequestNotFingerprintable
| TenantUnresolved

section \<open>What is reported\<close>

record SpanAttributes =
  sa_tenant_present :: "bool option"
  sa_operation_key_hash :: "string option"

datatype SpanOutcome = SpanOk | SpanError string

datatype observation =
  Counter string "(string \<times> string) list"
| Semantic string string "(string \<times> string) list"
| SpanStarted TraceContext string SpanAttributes
| SpanEnded SpanId SpanOutcome

type_synonym log = "observation list"

definition report :: "bool \<Rightarrow> observation \<Rightarrow> log \<Rightarrow> log" where
  "report registered e log = (if registered then log @ [e] else log)"

fun outcome_value :: "ReservationOutcome \<Rightarrow> string" where
  "outcome_value (Fresh _) = ''fresh''"
| "outcome_value (TakenOver _) = ''taken_over''"
| "outcome_value (OwnedInProgress _) = ''owned_in_progress''"
| "outcome_value OtherInProgress = ''other_in_progress''"
| "outcome_value (Succeeded _) = ''succeeded''"
| "outcome_value ReservationConflict = ''conflict''"

fun lease_event_value :: "ReservationOutcome \<Rightarrow> string option" where
  "lease_event_value (Fresh _) = Some ''acquired''"
| "lease_event_value (TakenOver _) = Some ''taken_over''"
| "lease_event_value (OwnedInProgress _) = None"
| "lease_event_value OtherInProgress = None"
| "lease_event_value (Succeeded _) = None"
| "lease_event_value ReservationConflict = None"

fun ReservationError_to_string :: "ReservationError \<Rightarrow> string" where
  "ReservationError_to_string StaleOwner = ''stale owner: the presented fence no longer matches the current reservation''"
| "ReservationError_to_string FencingExhausted = ''fencing token sequence exhausted for this reservation''"
| "ReservationError_to_string (Backend e) = ''reservation backend error: '' @ e"

section \<open>Reserving\<close>

definition count_outcome :: "bool \<Rightarrow> ReservationOutcome \<Rightarrow> log \<Rightarrow> log" where
  "count_outcome observability outcome log =
     (let log1 = report observability (Counter ''idempotency.reservation.outcome'' [(''outcome'', outcome_value outcome)]) log
      in case lease_event_value outcome of
           None \<Rightarrow> log1
         | Some event \<Rightarrow> report observability (Counter ''idempotency.lease.event'' [(''event'', event)]) log1)"

definition lease_fence :: "Lease \<Rightarrow> OwnerFence" where
  "lease_fence lease =
     \<lparr>fence_operation_id = lease_operation_id lease, fence_owner_id = lease_owner_id lease,
      fence_token = lease_fencing_token lease\<rparr>"

fun decide :: "ReservationOutcome \<Rightarrow> (ReservationDecision, ReservationRejection) result" where
  "decide (Fresh lease) = Ok (Proceed (lease_fence lease))"
| "decide (TakenOver lease) = Ok (Proceed (lease_fence lease))"
| "decide (OwnedInProgress _) = Err SelfInProgress"
| "decide OtherInProgress = Err RejectOtherInProgress"
| "decide (Succeeded response) = Ok (Replay response)"
| "decide ReservationConflict = Err FingerprintConflict"

text \<open>The instants read during one dispatch: the runtime's clock, and the store's in its two calls.\<close>

record readings =
  at_lease :: timestamp
  at_reserve :: timestamp
  at_complete :: timestamp

definition reserve_request ::
  "'s ReservationConfig \<Rightarrow> timestamp \<Rightarrow> TenantId option \<Rightarrow> OperationKey \<Rightarrow> OperationFingerprint \<Rightarrow> ReserveRequest" where
  "reserve_request config now tenant key fingerprint =
     \<lparr>req_tenant = tenant, req_operation_key = key, req_fingerprint = fingerprint,
      req_owner_id = rc_owner_id config, req_lease_until = rc_lease_until config now\<rparr>"

definition ReservationConfig_reserve ::
  "'s ReservationConfig \<Rightarrow> bool \<Rightarrow> readings \<Rightarrow> TenantId option \<Rightarrow> OperationKey \<Rightarrow> OperationFingerprint \<Rightarrow>
   's \<times> log \<Rightarrow> (ReservationDecision, ReservationRejection) result \<times> 's \<times> log" where
  "ReservationConfig_reserve config observability rd tenant key fingerprint w =
     (case rc_reserve config (at_reserve rd) (reserve_request config (at_lease rd) tenant key fingerprint) (fst w) of
        (Inl _, s) \<Rightarrow> (Err StoreUnavailable, s, snd w)
      | (Inr outcome, s) \<Rightarrow> (decide outcome, s, count_outcome observability outcome (snd w)))"

record ('a, 'o) externals =
  x_sha256 :: "nat list \<Rightarrow> nat list"
  x_new_span :: SpanId
  x_args_to_value :: "'a \<Rightarrow> json option"
  x_to_value :: "'o \<Rightarrow> json option"
  x_to_vec :: "json \<Rightarrow> 8 word list"
  x_from_slice :: "8 word list \<Rightarrow> json option"
  x_from_value :: "json \<Rightarrow> 'o option"

record ('s, 'h) RuntimeInner =
  ri_authorization_provider :: "'h AuthorizationProvider option"
  ri_tenant_mode :: TenantEnforcementMode
  ri_reservation :: "'s ReservationConfig option"
  ri_observability :: bool
  ri_tracer :: bool

definition start_reserve_span ::
  "('a, 'o) externals \<Rightarrow> bool \<Rightarrow> ServiceContext \<Rightarrow> OperationKey \<Rightarrow> log \<Rightarrow> SpanId option \<times> log" where
  "start_reserve_span x tracer ctx key log =
     (case (tracer, sc_trace_context ctx) of
        (True, Some parent) \<Rightarrow>
          (let child = TraceContext_child (x_new_span x) parent in
           (Some (tc_span_id child),
            log @ [SpanStarted child ''idempotency.reserve''
                     \<lparr>sa_tenant_present = None,
                      sa_operation_key_hash = Some (OperationKeyHash_of (\<lambda>k. x_sha256 x (map of_char k)) key)\<rparr>]))
      | _ \<Rightarrow> (None, log))"

definition end_reserve_span ::
  "SpanId option \<Rightarrow> (ReservationDecision, ReservationRejection) result \<Rightarrow> log \<Rightarrow> log" where
  "end_reserve_span span outcome log =
     (case span of
        None \<Rightarrow> log
      | Some i \<Rightarrow>
          log @ [SpanEnded i (if outcome = Err StoreUnavailable
                              then SpanError ''the reservation store could not answer'' else SpanOk)])"

definition reserve_idempotent_operation ::
  "('a, 'o) externals \<Rightarrow> ('s, 'h) RuntimeInner \<Rightarrow> readings \<Rightarrow> OperationFingerprint \<Rightarrow> ServiceContext \<Rightarrow> 's \<times> log \<Rightarrow>
   (ReservationDecision option, ReservationRejection) result \<times> ServiceContext \<times> 's \<times> log" where
  "reserve_idempotent_operation x rt rd fingerprint ctx w =
     (case (ri_reservation rt, sc_operation_key ctx) of
        (Some config, Some key) \<Rightarrow>
          (case sc_resolved_tenant ctx of
             None \<Rightarrow> (Err TenantUnresolved, ctx, w)
           | Some resolved \<Rightarrow>
               (let (span, log1) = start_reserve_span x (ri_tracer rt) ctx key (snd w);
                    (outcome, s, log2) = ReservationConfig_reserve config (ri_observability rt) rd
                      (canonical_tenant_id resolved) key fingerprint (fst w, log1);
                    w' = (s, end_reserve_span span outcome log2)
                in case outcome of
                     Inl rejection \<Rightarrow> (Err rejection, ctx, w')
                   | Inr decision \<Rightarrow> (Ok (Some decision), set_operation_fingerprint fingerprint ctx, w')))
      | _ \<Rightarrow> (Ok None, ctx, w))"

section \<open>Stored responses\<close>

definition STORED_RESPONSE_ENVELOPE :: int where
  "STORED_RESPONSE_ENVELOPE = 1"

datatype StoredResponseError = UnknownEnvelope int int | Malformed

definition envelope :: "json \<Rightarrow> json" where
  "envelope payload = JObject [(''v'', JNumber ''1''), (''payload'', payload)]"

definition StoredResponseCodec_encode ::
  "('a, 'o) externals \<Rightarrow> 'o \<Rightarrow> (StoredServiceResponse, StoredResponseError) result" where
  "StoredResponseCodec_encode x value =
     (case x_to_value x value of
        None \<Rightarrow> Err Malformed
      | Some payload \<Rightarrow> Ok (StoredServiceResponse (x_to_vec x (envelope payload))))"

definition StoredResponseCodec_decode ::
  "('a, 'o) externals \<Rightarrow> StoredServiceResponse \<Rightarrow> ('o, StoredResponseError) result" where
  "StoredResponseCodec_decode x stored =
     (case stored of StoredServiceResponse bytes \<Rightarrow>
        (case x_from_slice x bytes of
           None \<Rightarrow> Err Malformed
         | Some tagged \<Rightarrow>
             (case Option.bind (json_get ''v'' tagged) as_u64 of
                None \<Rightarrow> Err Malformed
              | Some found \<Rightarrow>
                  if found \<ge> 2 ^ 32 then Err Malformed
                  else if found \<noteq> STORED_RESPONSE_ENVELOPE then Err (UnknownEnvelope found STORED_RESPONSE_ENVELOPE)
                  else (case json_get ''payload'' tagged of
                          None \<Rightarrow> Err Malformed
                        | Some payload \<Rightarrow>
                            (case x_from_value x payload of None \<Rightarrow> Err Malformed | Some v \<Rightarrow> Ok v)))))"

definition decode_stored_response ::
  "('a, 'o) externals \<Rightarrow> StoredServiceResponse \<Rightarrow> ('o, ReservationRejection) result" where
  "decode_stored_response x stored =
     (case StoredResponseCodec_decode x stored of Inl _ \<Rightarrow> Err StoredResponseIncompatible | Inr v \<Rightarrow> Ok v)"

section \<open>Recording the response\<close>

datatype OperatorAction = MonitorRate | ReviewLeaseDuration | Investigate

fun OperatorAction_as_str :: "OperatorAction \<Rightarrow> string" where
  "OperatorAction_as_str MonitorRate = ''monitor_rate''"
| "OperatorAction_as_str ReviewLeaseDuration = ''review_lease_duration''"
| "OperatorAction_as_str Investigate = ''investigate''"

definition record_completion_lost :: "bool \<Rightarrow> string \<Rightarrow> OperatorAction \<Rightarrow> string \<Rightarrow> log \<Rightarrow> log" where
  "record_completion_lost observability reason action detail log =
     report observability
       (Semantic ''idempotency.completion_lost'' ''Completed''
          [(''reason'', reason), (''action'', OperatorAction_as_str action), (''detail'', detail)]) log"

definition stale_owner_detail :: string where
  "stale_owner_detail =
     ''this response was discarded because the caller no longer held a current fence '' @ map char_of [226, 128, 148 :: nat] @ '' the lease had lapsed or been taken over. What the reservation looks like now is not knowable from this error''"

definition complete_idempotent_operation ::
  "('a, 'o) externals \<Rightarrow> ('s, 'h) RuntimeInner \<Rightarrow> readings \<Rightarrow> ReservationDecision option \<Rightarrow> 'o \<Rightarrow> 's \<times> log \<Rightarrow> 's \<times> log" where
  "complete_idempotent_operation x rt rd reservation output w =
     (case (reservation, ri_reservation rt) of
        (Some (Proceed permit), Some config) \<Rightarrow>
          (case StoredResponseCodec_encode x output of
             Inl _ \<Rightarrow>
               (fst w, record_completion_lost (ri_observability rt) ''not_encodable'' Investigate
                  ''the stored response could not be decoded'' (snd w))
           | Inr stored \<Rightarrow>
               (case rc_complete config (at_complete rd) permit stored (fst w) of
                  (Inr _, s) \<Rightarrow> (s, snd w)
                | (Inl StaleOwner, s) \<Rightarrow>
                    (s, record_completion_lost (ri_observability rt) ''stale_owner'' ReviewLeaseDuration stale_owner_detail
                          (report (ri_observability rt)
                             (Counter ''idempotency.lease.stale_owner'' [(''operation'', ''complete'')]) (snd w)))
                | (Inl e, s) \<Rightarrow>
                    (s, record_completion_lost (ri_observability rt) ''store_unavailable'' MonitorRate
                          (ReservationError_to_string e) (snd w))))
      | _ \<Rightarrow> w)"

section \<open>Security denials\<close>

datatype SecurityDenialKind = DenialMissingContext | DenialTenantMismatch | DenialAuthorizationDenied

fun from_security_error :: "SecurityError \<Rightarrow> SecurityDenialKind option" where
  "from_security_error MissingContext = Some DenialMissingContext"
| "from_security_error (TenantMismatch _ _) = Some DenialTenantMismatch"
| "from_security_error (AuthorizationDenied _) = Some DenialAuthorizationDenied"
| "from_security_error _ = None"

fun SecurityDenialKind_label :: "SecurityDenialKind \<Rightarrow> string" where
  "SecurityDenialKind_label DenialMissingContext = ''MissingContext''"
| "SecurityDenialKind_label DenialTenantMismatch = ''TenantMismatch''"
| "SecurityDenialKind_label DenialAuthorizationDenied = ''AuthorizationDenied''"

definition record_security_denial :: "bool \<Rightarrow> string \<Rightarrow> string \<Rightarrow> SecurityDenialKind \<Rightarrow> log \<Rightarrow> log" where
  "record_security_denial observability service operation kind log =
     report observability
       (Semantic ''security.denial'' ''Denied''
          [(''denial_kind'', SecurityDenialKind_label kind), (''service'', service), (''operation'', operation)]) log"

end
