(* ===== verification/Ego_Service_Dispatch.thy ===== *)
theory Ego_Service_Dispatch
  imports Ego_Service_Runtime
begin

text \<open>
  Dispatch of one service operation: the forwarding method that \<open>#[service]\<close> generates
  (\<open>crates/service-sdk-macros/src/lib.rs\<close>) around the handler, with the interceptor chain
  (\<open>crates/service-sdk/src/interceptor\<close>).

  The attributes of an operation are a record; the generated code is one function of them. The handler,
  the interceptors and the conversions into the operation's error type are parameters. Each time the
  generated code upgrades its weak handle on the runtime, the runtime may be gone (\<open>alive\<close>). While the
  handler runs, others use the store: dispatch is split into what runs before the handler
  (\<open>dispatch_enter\<close>) and after it (\<open>dispatch_leave\<close>).
\<close>

section \<open>Interceptors\<close>

datatype 'e hook = OnRequest | OnResponse | OnError 'e

type_synonym ('e, 'h) interceptor = "'e hook \<Rightarrow> ServiceContext \<Rightarrow> 'h \<times> log \<Rightarrow> (unit, string) result \<times> 'h \<times> log"

fun InterceptorChain_call :: "('e, 'h) interceptor list \<Rightarrow> ('e, 'h) interceptor" where
  "InterceptorChain_call [] hook ctx w = (Ok (), w)"
| "InterceptorChain_call (i # is) hook ctx w =
     (case i hook ctx w of
        (Inl e, w1) \<Rightarrow> (Err e, w1)
      | (Inr _, w1) \<Rightarrow> InterceptorChain_call is hook ctx w1)"

definition REQUEST_SPAN_NAME :: string where
  "REQUEST_SPAN_NAME = ''request''"

fun TracingInterceptor :: "('e \<Rightarrow> string) \<Rightarrow> ('e, 'h) interceptor" where
  "TracingInterceptor code hook ctx (h, log) =
     (Ok (), h,
      case sc_trace_context ctx of
        None \<Rightarrow> log
      | Some trace_context \<Rightarrow>
          (case hook of
             OnRequest \<Rightarrow>
               log @ [SpanStarted trace_context (case sc_operation_name ctx of Some n \<Rightarrow> n | None \<Rightarrow> REQUEST_SPAN_NAME)
                        \<lparr>sa_tenant_present = Some (sc_tenant_id ctx \<noteq> None), sa_operation_key_hash = None\<rparr>]
           | OnResponse \<Rightarrow> log @ [SpanEnded (tc_span_id trace_context) SpanOk]
           | OnError e \<Rightarrow> log @ [SpanEnded (tc_span_id trace_context) (SpanError (code e))]))"

section \<open>The generated method\<close>

record operation =
  opn_service :: string
  opn_name :: string
  opn_authorize :: "(string \<times> string) option"
  opn_tenant_scoped :: bool
  opn_idempotent :: bool

record ('e) conversions =
  from_security :: "SecurityError \<Rightarrow> 'e"
  from_rejection :: "ReservationRejection \<Rightarrow> 'e"

datatype upgrade_point = AtAuthorize | AtTenant | AtSlot | AtEpilogue

record ('s, 'h) world =
  w_store :: 's
  w_app :: 'h
  w_log :: log

definition denied :: "bool \<Rightarrow> operation \<Rightarrow> SecurityError \<Rightarrow> log \<Rightarrow> log" where
  "denied observability op e log =
     (case from_security_error e of
        None \<Rightarrow> log
      | Some kind \<Rightarrow> record_security_denial observability (opn_service op) (opn_name op) kind log)"

definition authorize_guard ::
  "('s, 'h) RuntimeInner \<Rightarrow> (upgrade_point \<Rightarrow> bool) \<Rightarrow> operation \<Rightarrow> ServiceContext \<Rightarrow> ('s, 'h) world \<Rightarrow>
   (unit, SecurityError) result \<times> ('s, 'h) world" where
  "authorize_guard rt alive op ctx w =
     (case opn_authorize op of
        None \<Rightarrow> (Ok (), w)
      | Some (resource, action) \<Rightarrow>
          (case sc_security ctx of
             None \<Rightarrow>
               (Err MissingContext,
                if alive AtAuthorize
                then w\<lparr>w_log := record_security_denial (ri_observability rt) (opn_service op) (opn_name op)
                          DenialMissingContext (w_log w)\<rparr>
                else w)
           | Some sec \<Rightarrow>
               if \<not> alive AtAuthorize
               then (Err (ProviderError ''authorization provider unavailable: runtime dropped''), w)
               else (case ri_authorization_provider rt of
                       None \<Rightarrow> (Err CapabilityNotEnabled, w)
                     | Some provider \<Rightarrow>
                         (case authorize_in_context (Some sec) \<lparr>rs_kind = resource, rs_id = None\<rparr> action
                                 provider (w_app w) of
                            (Inr _, h) \<Rightarrow> (Ok (), w\<lparr>w_app := h\<rparr>)
                          | (Inl e, h) \<Rightarrow>
                              (Err e, w\<lparr>w_app := h, w_log := denied (ri_observability rt) op e (w_log w)\<rparr>)))))"

definition tenant_guard ::
  "('s, 'h) RuntimeInner \<Rightarrow> (upgrade_point \<Rightarrow> bool) \<Rightarrow> operation \<Rightarrow> ServiceContext \<Rightarrow> ('s, 'h) world \<Rightarrow>
   (unit, SecurityError) result \<times> ServiceContext \<times> ('s, 'h) world" where
  "tenant_guard rt alive op ctx w =
     (if \<not> opn_tenant_scoped op then (Ok (), ctx, w)
      else if \<not> alive AtTenant then (Err MissingContext, ctx, w)
      else (case enforce_tenant (ri_tenant_mode rt) ctx of
              (Inr _, ctx') \<Rightarrow> (Ok (), ctx', w)
            | (Inl e, ctx') \<Rightarrow> (Err e, ctx', w\<lparr>w_log := denied (ri_observability rt) op e (w_log w)\<rparr>)))"

text \<open>
  The reservation slot: \<open>Inl\<close> is an early return of the method, \<open>Inr\<close> the context and the reservation the
  rest of it runs under.
\<close>

definition idempotency_slot ::
  "('a, 'o) externals \<Rightarrow> ('s, 'h) RuntimeInner \<Rightarrow> (upgrade_point \<Rightarrow> bool) \<Rightarrow> readings \<Rightarrow> operation \<Rightarrow> 'a \<Rightarrow>
   ServiceContext \<Rightarrow> ('s, 'h) world \<Rightarrow>
   (('o, ReservationRejection) result + ServiceContext \<times> ReservationDecision option) \<times> ('s, 'h) world" where
  "idempotency_slot x rt alive rd op args ctx w =
     (if \<not> opn_idempotent op then (Inr (ctx, None), w)
      else if \<not> alive AtSlot then (Inl (Err StoreUnavailable), w)
      else (case operation_fingerprint (x_sha256 x) (x_args_to_value x args) of
              None \<Rightarrow> (Inl (Err RequestNotFingerprintable), w)
            | Some fingerprint \<Rightarrow>
                (case reserve_idempotent_operation x rt rd fingerprint ctx (w_store w, w_log w) of
                   (Inl rejection, _, s, log) \<Rightarrow> (Inl (Err rejection), w\<lparr>w_store := s, w_log := log\<rparr>)
                 | (Inr (Some (Replay stored)), _, s, log) \<Rightarrow>
                     (Inl (decode_stored_response x stored), w\<lparr>w_store := s, w_log := log\<rparr>)
                 | (Inr reservation, ctx', s, log) \<Rightarrow>
                     (Inr (ctx', reservation), w\<lparr>w_store := s, w_log := log\<rparr>))))"

definition dispatch_enter ::
  "('a, 'o) externals \<Rightarrow> 'e conversions \<Rightarrow> ('s, 'h) RuntimeInner \<Rightarrow> (upgrade_point \<Rightarrow> bool) \<Rightarrow> readings \<Rightarrow> operation \<Rightarrow>
   'a \<Rightarrow> ServiceContext \<Rightarrow> ('s, 'h) world \<Rightarrow>
   (('o, 'e) result + ServiceContext \<times> ReservationDecision option) \<times> ('s, 'h) world" where
  "dispatch_enter x cv rt alive rd op args ctx w =
     (let ctx1 = with_operation_name (opn_name op) ctx in
      case authorize_guard rt alive op ctx1 w of
        (Inl e, w1) \<Rightarrow> (Inl (Err (from_security cv e)), w1)
      | (Inr _, w1) \<Rightarrow>
          (case tenant_guard rt alive op ctx1 w1 of
             (Inl e, _, w2) \<Rightarrow> (Inl (Err (from_security cv e)), w2)
           | (Inr _, ctx2, w2) \<Rightarrow>
               (case idempotency_slot x rt alive rd op args ctx2 w2 of
                  (Inl (Inl rejection), w3) \<Rightarrow> (Inl (Err (from_rejection cv rejection)), w3)
                | (Inl (Inr replayed), w3) \<Rightarrow> (Inl (Ok replayed), w3)
                | (Inr go, w3) \<Rightarrow> (Inr go, w3))))"

definition call_chain :: "('e, 'h) interceptor list \<Rightarrow> 'e hook \<Rightarrow> ServiceContext \<Rightarrow> ('s, 'h) world \<Rightarrow> ('s, 'h) world" where
  "call_chain chain hook ctx w =
     (case InterceptorChain_call chain hook ctx (w_app w, w_log w) of
        (_, h, log) \<Rightarrow> w\<lparr>w_app := h, w_log := log\<rparr>)"

type_synonym ('a, 'o, 'e, 'h) handler = "ServiceContext \<Rightarrow> 'a \<Rightarrow> 'h \<Rightarrow> ('o, 'e) result \<times> 'h"

definition dispatch_run ::
  "('e, 'h) interceptor list \<Rightarrow> ('a, 'o, 'e, 'h) handler \<Rightarrow> 'a \<Rightarrow> ServiceContext \<Rightarrow> ('s, 'h) world \<Rightarrow>
   ('o, 'e) result \<times> ('s, 'h) world" where
  "dispatch_run chain handler args ctx w =
     (let w1 = call_chain chain OnRequest ctx w
      in case handler ctx args (w_app w1) of (result, h) \<Rightarrow> (result, w1\<lparr>w_app := h\<rparr>))"

definition dispatch_leave ::
  "('a, 'o) externals \<Rightarrow> ('s, 'h) RuntimeInner \<Rightarrow> (upgrade_point \<Rightarrow> bool) \<Rightarrow> readings \<Rightarrow> operation \<Rightarrow>
   ('e, 'h) interceptor list \<Rightarrow> ServiceContext \<Rightarrow> ReservationDecision option \<Rightarrow> ('o, 'e) result \<Rightarrow>
   ('s, 'h) world \<Rightarrow> ('s, 'h) world" where
  "dispatch_leave x rt alive rd op chain ctx reservation result w =
     (case result of
        Inr output \<Rightarrow>
          (let w1 = (if opn_idempotent op \<and> alive AtEpilogue
                     then (case complete_idempotent_operation x rt rd reservation output (w_store w, w_log w) of
                             (s, log) \<Rightarrow> w\<lparr>w_store := s, w_log := log\<rparr>)
                     else w)
           in call_chain chain OnResponse ctx w1)
      | Inl e \<Rightarrow> call_chain chain (OnError e) ctx w)"

text \<open>The whole method, with what others do to the store while the handler runs.\<close>

definition dispatch ::
  "('a, 'o) externals \<Rightarrow> 'e conversions \<Rightarrow> ('s, 'h) RuntimeInner \<Rightarrow> (upgrade_point \<Rightarrow> bool) \<Rightarrow> readings \<Rightarrow> operation \<Rightarrow>
   ('e, 'h) interceptor list \<Rightarrow> ('a, 'o, 'e, 'h) handler \<Rightarrow> ('s \<Rightarrow> 's) \<Rightarrow> 'a \<Rightarrow> ServiceContext \<Rightarrow> ('s, 'h) world \<Rightarrow>
   ('o, 'e) result \<times> ('s, 'h) world" where
  "dispatch x cv rt alive rd op chain handler others args ctx w =
     (case dispatch_enter x cv rt alive rd op args ctx w of
        (Inl early, w1) \<Rightarrow> (early, w1)
      | (Inr (ctx', reservation), w1) \<Rightarrow>
          (case dispatch_run chain handler args ctx' w1 of
             (result, w2) \<Rightarrow>
               (result, dispatch_leave x rt alive rd op chain ctx' reservation result
                          (w2\<lparr>w_store := others (w_store w2)\<rparr>))))"

end
