(* ===== verification/Ego_Service_Correct.thy ===== *)
theory Ego_Service_Correct
  imports Ego_Service_Dispatch
begin

text \<open>
  What the reservation port's promises give to dispatch: whoever is let through to the handler holds the
  lease of its operation, what it leaves behind answers the next identical request, and a call touches the
  reservations of no tenant but its own.
\<close>

section \<open>Steps of the slot\<close>

lemma decide_Proceed:
  assumes "decide outcome = Ok (Proceed permit)"
  obtains lease where "outcome = Fresh lease \<or> outcome = TakenOver lease" "permit = lease_fence lease"
  using assms by (cases outcome) auto

lemma decide_Replay: "decide outcome = Ok (Replay stored) \<longleftrightarrow> outcome = Succeeded stored"
  by (cases outcome) auto

lemma decide_held:
  assumes "reserve_spec now req (Held fp ow t u) out sl" "now < u"
  shows "\<exists>outcome. out = Ok outcome \<and>
           decide outcome = Err (if req_fingerprint req \<noteq> fp then FingerprintConflict
                                 else if ow = req_owner_id req then SelfInProgress else RejectOtherInProgress)"
  using assms by (auto elim: reserve_spec_HeldE)

text \<open>An entry that goes on to the handler has passed every guard.\<close>

lemma enter_InrE:
  assumes "dispatch_enter x cv rt alive rd op args ctx w = (Inr (ctx', res), w')"
  obtains ctx2 w1 where
    "authorize_guard rt alive op (with_operation_name (opn_name op) ctx) w = (Ok (), w1)"
    and "tenant_guard rt alive op (with_operation_name (opn_name op) ctx) w1 = (Ok (), ctx2, w1)"
    and "idempotency_slot x rt alive rd op args ctx2 w1 = (Inr (ctx', res), w')"
proof -
  from assms obtain w1 ctx2 w2 where
    "authorize_guard rt alive op (with_operation_name (opn_name op) ctx) w = (Ok (), w1)"
    and t: "tenant_guard rt alive op (with_operation_name (opn_name op) ctx) w1 = (Ok (), ctx2, w2)"
    and "idempotency_slot x rt alive rd op args ctx2 w2 = (Inr (ctx', res), w')"
    by (auto simp: dispatch_enter_def Let_def split: prod.splits sum.splits)
  moreover have "w2 = w1" using t by (auto simp: tenant_guard_def split: if_splits prod.splits sum.splits)
  ultimately show thesis using that by blast
qed

lemma authorize_guard_store [frame_simps]: "w_store (snd (authorize_guard rt alive op ctx w)) = w_store w"
  by (auto simp: authorize_guard_def split: option.splits prod.splits sum.splits)

lemma tenant_guard_world [frame_simps]:
  "w_store (snd (snd (tenant_guard rt alive op ctx w))) = w_store w"
  "w_app (snd (snd (tenant_guard rt alive op ctx w))) = w_app w"
  by (auto simp: tenant_guard_def split: prod.splits sum.splits)

lemma tenant_guard_key [frame_simps]:
  "sc_operation_key (fst (snd (tenant_guard rt alive op ctx w))) = sc_operation_key ctx"
  by (auto simp: tenant_guard_def enforce_tenant_def set_resolved_tenant_def split: prod.splits sum.splits)

lemma call_chain_store [frame_simps]: "w_store (call_chain chain hook ctx w) = w_store w"
  by (auto simp: call_chain_def split: prod.splits)

lemma dispatch_run_store [frame_simps]: "w_store (snd (dispatch_run chain handler args ctx w)) = w_store w"
  by (auto simp: dispatch_run_def Let_def call_chain_store split: prod.splits)

lemma dispatch_run_keeps_store: "dispatch_run chain handler args ctx w = (r, w') \<Longrightarrow> w_store w' = w_store w"
  using dispatch_run_store [of chain handler args ctx w] by simp

lemma with_operation_name_key [simp]: "sc_operation_key (with_operation_name n ctx) = sc_operation_key ctx"
  by (simp add: with_operation_name_def)

text \<open>The scope a call runs under is the one resolved for it.\<close>

lemma tenant_guard_scope:
  assumes "tenant_guard rt alive op (with_operation_name n ctx) w = (Ok (), ctx2, w2)"
  shows "sc_resolved_tenant ctx2
           = sc_resolved_tenant (if opn_tenant_scoped op then snd (enforce_tenant (ri_tenant_mode rt) ctx) else ctx) \<and>
         sc_operation_key ctx2 = sc_operation_key ctx"
  using assms
  by (auto simp: tenant_guard_def enforce_tenant_def set_resolved_tenant_def with_operation_name_def
      split: if_splits prod.splits sum.splits)

text \<open>What the slot does, as one call to the store.\<close>

lemma reserve_operation_store:
  fixes rd :: readings and fp :: OperationFingerprint
  assumes "ri_reservation rt = Some config" "sc_operation_key ctx = Some key" "sc_resolved_tenant ctx = Some resolved"
  defines "req \<equiv> reserve_request config (at_lease rd) (canonical_tenant_id resolved) key fp"
  shows "fst (reserve_idempotent_operation x rt rd fp ctx (s, log))
           = (case rc_reserve config (at_reserve rd) req s of
                (Inl _, _) \<Rightarrow> Err StoreUnavailable
              | (Inr outcome, _) \<Rightarrow> (case decide outcome of Inl r \<Rightarrow> Err r | Inr d \<Rightarrow> Ok (Some d)))"
    and "fst (snd (snd (reserve_idempotent_operation x rt rd fp ctx (s, log)))) = snd (rc_reserve config (at_reserve rd) req s)"
  using assms
  by (auto simp: reserve_idempotent_operation_def ReservationConfig_reserve_def Let_def split: prod.splits sum.splits)

lemma reserve_operation_ctx:
  "sc_operation_key (fst (snd (reserve_idempotent_operation x rt rd fp ctx w))) = sc_operation_key ctx"
  "sc_resolved_tenant (fst (snd (reserve_idempotent_operation x rt rd fp ctx w))) = sc_resolved_tenant ctx"
  by (auto simp: reserve_idempotent_operation_def set_operation_fingerprint_def Let_def split: prod.splits sum.splits option.splits)

lemma idempotency_slot_tenant:
  "idempotency_slot x rt alive rd op args ctx w = (Inr (ctx', res), w') \<Longrightarrow>
   sc_resolved_tenant ctx' = sc_resolved_tenant ctx \<and> (res = None \<or> opn_idempotent op)"
  using reserve_operation_ctx(2) [of x rt rd _ ctx "(w_store w, w_log w)"]
  by (auto simp: idempotency_slot_def split: if_splits option.splits prod.splits sum.splits ReservationDecision.splits)
    (metis fst_conv snd_conv)+

lemma reserve_operation_None:
  assumes "fst (reserve_idempotent_operation x rt rd fp ctx (s, log)) = Ok (Some d)"
  obtains config key resolved where
    "ri_reservation rt = Some config" "sc_operation_key ctx = Some key" "sc_resolved_tenant ctx = Some resolved"
  using assms
  by (auto simp: reserve_idempotent_operation_def Let_def split: prod.splits sum.splits option.splits)

text \<open>The identity a request with a resolved tenant is reserved under.\<close>

definition reserved_id :: "CanonicalTenant \<Rightarrow> OperationKey \<Rightarrow> OperationId" where
  "reserved_id resolved key = \<lparr>oid_tenant = canonical_tenant_id resolved, oid_key = key\<rparr>"

lemma request_id_reserve_request [simp]:
  "request_id (reserve_request config now (canonical_tenant_id resolved) key fp) = reserved_id resolved key"
  by (simp add: request_id_def reserve_request_def reserved_id_def)

lemma reserve_request_sel [simp]:
  "req_fingerprint (reserve_request config now t key fp) = fp"
  "req_owner_id (reserve_request config now t key fp) = rc_owner_id config"
  "req_lease_until (reserve_request config now t key fp) = rc_lease_until config now"
  by (simp_all add: reserve_request_def)

section \<open>Dispatch over a store that keeps the port's promises\<close>

context reservation_port
begin

definition served_by :: "('s, 'h) RuntimeInner \<Rightarrow> 's ReservationConfig \<Rightarrow> bool" where
  "served_by rt config \<longleftrightarrow> ri_reservation rt = Some config \<and> rc_reserve config = reserve \<and> rc_complete config = complete"

text \<open>A call let through with a permit holds the lease of its operation.\<close>

lemma permit_holds_lease:
  assumes "served_by rt config"
    and "dispatch_enter x cv rt alive rd op args ctx w = (Inr (ctx', Some (Proceed permit)), w')"
  obtains resolved key fp where
    "sc_operation_key ctx = Some key" "sc_resolved_tenant ctx' = Some resolved"
    "operation_fingerprint (x_sha256 x) (x_args_to_value x args) = Some fp"
    "fence_operation_id permit = reserved_id resolved key"
    "slot_of (w_store w') (reserved_id resolved key)
       = Held fp (fence_owner_id permit) (fence_token permit) (rc_lease_until config (at_lease rd))"
    "fence_owner_id permit = rc_owner_id config"
proof -
  from assms(2) obtain ctx2 w1 where
    auth: "authorize_guard rt alive op (with_operation_name (opn_name op) ctx) w = (Ok (), w1)"
    and ten: "tenant_guard rt alive op (with_operation_name (opn_name op) ctx) w1 = (Ok (), ctx2, w1)"
    and slot: "idempotency_slot x rt alive rd op args ctx2 w1 = (Inr (ctx', Some (Proceed permit)), w')"
    by (rule enter_InrE)
  from slot obtain fp where fp: "operation_fingerprint (x_sha256 x) (x_args_to_value x args) = Some fp"
    and res: "fst (reserve_idempotent_operation x rt rd fp ctx2 (w_store w1, w_log w1)) = Ok (Some (Proceed permit))"
    and ctx': "ctx' = fst (snd (reserve_idempotent_operation x rt rd fp ctx2 (w_store w1, w_log w1)))"
    and w': "w_store w' = fst (snd (snd (reserve_idempotent_operation x rt rd fp ctx2 (w_store w1, w_log w1))))"
    by (auto simp: idempotency_slot_def split: if_splits option.splits prod.splits sum.splits ReservationDecision.splits)
  obtain config' key resolved where cfg: "ri_reservation rt = Some config'"
    and key: "sc_operation_key ctx2 = Some key" and ten2: "sc_resolved_tenant ctx2 = Some resolved"
    by (rule reserve_operation_None [OF res])
  have [simp]: "config' = config" "rc_reserve config = reserve" using assms(1) cfg by (simp_all add: served_by_def)
  let ?req = "reserve_request config (at_lease rd) (canonical_tenant_id resolved) key fp"
  note st = reserve_operation_store [OF cfg key ten2, where rd = rd and fp = fp and x = x and s = "w_store w1" and log = "w_log w1"]
  from st(1) res obtain outcome where out: "fst (reserve (at_reserve rd) ?req (w_store w1)) = Ok outcome"
    and "decide outcome = Ok (Proceed permit)"
    by (auto split: prod.splits sum.splits)
  then obtain lease where lease: "outcome = Fresh lease \<or> outcome = TakenOver lease" "permit = lease_fence lease"
    by (auto elim: decide_Proceed)
  have w'_eq: "w_store w' = snd (reserve (at_reserve rd) ?req (w_store w1))" using st(2) w' by simp
  have held: "slot_of (w_store w') (reserved_id resolved key)
       = Held fp (fence_owner_id permit) (fence_token permit) (rc_lease_until config (at_lease rd))
     \<and> fence_operation_id permit = reserved_id resolved key \<and> fence_owner_id permit = rc_owner_id config"
    using reserve_own [of "at_reserve rd" ?req "w_store w1"] out lease
    by (auto simp: w'_eq lease_fence_def elim: reserve_spec.cases)
  have "sc_operation_key ctx = Some key" using key ten tenant_guard_key [of rt alive op "with_operation_name (opn_name op) ctx" w1] by simp
  moreover have "sc_resolved_tenant ctx' = Some resolved" using ctx' ten2 by (simp add: reserve_operation_ctx)
  ultimately show thesis using that fp held by blast
qed

text \<open>Completing under a live lease stores the encoded response.\<close>

lemma leave_completes:
  assumes "served_by rt config" "alive AtEpilogue" "opn_idempotent op"
    and "StoredResponseCodec_encode x output = Ok stored"
    and "slot_of (w_store w) (fence_operation_id permit) = Held fp (fence_owner_id permit) (fence_token permit) u"
    and "at_complete rd < u"
  shows "slot_of (w_store (dispatch_leave x rt alive rd op chain ctx (Some (Proceed permit)) (Ok output) w))
           (fence_operation_id permit) = Done fp stored (at_complete rd)"
proof -
  have live: "fence_live (at_complete rd) permit (slot_of (w_store w) (fence_operation_id permit))"
    using assms(5,6) by simp
  note completed = complete_live [OF assms(5) live, of stored]
  then show ?thesis
    using assms(1-4)
    by (auto simp: dispatch_leave_def complete_idempotent_operation_def served_by_def Let_def frame_simps
        split: prod.splits)
qed

text \<open>A request that meets the stored response of an identical one is answered from it.\<close>

lemma enter_replays:
  assumes "served_by rt config" "opn_idempotent op" "alive AtSlot"
    and "authorize_guard rt alive op (with_operation_name (opn_name op) ctx) w = (Ok (), w1)"
    and "tenant_guard rt alive op (with_operation_name (opn_name op) ctx) w1 = (Ok (), ctx2, w2)"
    and "sc_operation_key ctx = Some key" "sc_resolved_tenant ctx2 = Some resolved"
    and "operation_fingerprint (x_sha256 x) (x_args_to_value x args) = Some fp"
    and "slot_of (w_store w) (reserved_id resolved key) = Done fp stored at"
    and "decode_stored_response x stored = Ok out"
  shows "\<exists>w'. dispatch_enter x cv rt alive rd op args ctx w = (Inl (Ok out), w') \<and> w_app w' = w_app w1"
proof -
  have cfg: "ri_reservation rt = Some config" "rc_reserve config = reserve" using assms(1) by (simp_all add: served_by_def)
  have key: "sc_operation_key ctx2 = Some key"
    using assms(5,6) tenant_guard_key [of rt alive op "with_operation_name (opn_name op) ctx" w1] by simp
  have same: "w_store w2 = w_store w" "w_app w2 = w_app w1"
    using assms(4,5) authorize_guard_store [of rt alive op "with_operation_name (opn_name op) ctx" w]
      tenant_guard_world [of rt alive op "with_operation_name (opn_name op) ctx" w1] by simp_all
  let ?req = "reserve_request config (at_lease rd) (canonical_tenant_id resolved) key fp"
  have "fst (reserve (at_reserve rd) ?req (w_store w2)) = Ok (Succeeded stored)"
    using reserve_done [of "w_store w2" ?req stored at "at_reserve rd"] assms(9) same by simp
  then have "fst (reserve_idempotent_operation x rt rd fp ctx2 (w_store w2, w_log w2)) = Ok (Some (Replay stored))"
    using reserve_operation_store(1) [OF cfg(1) key assms(7), where rd = rd and fp = fp and x = x] cfg(2)
    by (auto split: prod.splits)
  then show ?thesis
    using assms(2-5,8,10) same
    by (auto simp: dispatch_enter_def idempotency_slot_def Let_def split: prod.splits)
qed

text \<open>While somebody holds the lease, nobody else is let through.\<close>

lemma enter_blocked:
  assumes "served_by rt config" "opn_idempotent op" "alive AtSlot"
    and "authorize_guard rt alive op (with_operation_name (opn_name op) ctx) w = (Ok (), w1)"
    and "tenant_guard rt alive op (with_operation_name (opn_name op) ctx) w1 = (Ok (), ctx2, w2)"
    and "sc_operation_key ctx = Some key" "sc_resolved_tenant ctx2 = Some resolved"
    and "operation_fingerprint (x_sha256 x) (x_args_to_value x args) = Some fp"
    and "slot_of (w_store w) (reserved_id resolved key) = Held fp' ow t u" "at_reserve rd < u"
  shows "\<exists>w'. dispatch_enter x cv rt alive rd op args ctx w
               = (Inl (Err (from_rejection cv
                    (if fp \<noteq> fp' then FingerprintConflict
                     else if ow = rc_owner_id config then SelfInProgress else RejectOtherInProgress))), w')
             \<and> w_app w' = w_app w1"
proof -
  have cfg: "ri_reservation rt = Some config" "rc_reserve config = reserve" using assms(1) by (simp_all add: served_by_def)
  have key: "sc_operation_key ctx2 = Some key"
    using assms(5,6) tenant_guard_key [of rt alive op "with_operation_name (opn_name op) ctx" w1] by simp
  have same: "w_store w2 = w_store w" "w_app w2 = w_app w1"
    using assms(4,5) authorize_guard_store [of rt alive op "with_operation_name (opn_name op) ctx" w]
      tenant_guard_world [of rt alive op "with_operation_name (opn_name op) ctx" w1] by simp_all
  let ?req = "reserve_request config (at_lease rd) (canonical_tenant_id resolved) key fp"
  define r where "r = (if fp \<noteq> fp' then FingerprintConflict
            else if ow = rc_owner_id config then SelfInProgress else RejectOtherInProgress)"
  have held: "slot_of (w_store w2) (request_id ?req) = Held fp' ow t u" using assms(9) same by simp
  have "\<exists>outcome. fst (reserve (at_reserve rd) ?req (w_store w2)) = Ok outcome \<and> decide outcome = Err r"
    using decide_held [OF reserve_own [of "at_reserve rd" ?req "w_store w2", unfolded held] assms(10)]
    unfolding r_def reserve_request_sel .
  then have "fst (reserve_idempotent_operation x rt rd fp ctx2 (w_store w2, w_log w2)) = Err r"
    using reserve_operation_store(1) [OF cfg(1) key assms(7), where rd = rd and fp = fp and x = x] cfg(2)
    by (auto split: prod.splits)
  then show ?thesis
    unfolding r_def [symmetric] using assms(2-5,8) same
    by (auto simp: dispatch_enter_def idempotency_slot_def Let_def split: prod.splits)
qed

text \<open>A call reaches only the reservation of its own key in the scope it resolved.\<close>

lemma slot_frame:
  assumes "served_by rt config"
    and "\<And>key resolved. opn_idempotent op \<Longrightarrow> sc_operation_key ctx = Some key \<Longrightarrow> sc_resolved_tenant ctx = Some resolved \<Longrightarrow>
           i \<noteq> reserved_id resolved key"
  shows "slot_of (w_store (snd (idempotency_slot x rt alive rd op args ctx w))) i = slot_of (w_store w) i"
proof (cases "opn_idempotent op \<and> alive AtSlot \<and> sc_operation_key ctx \<noteq> None \<and> sc_resolved_tenant ctx \<noteq> None")
  case True
  then obtain key resolved where kr: "sc_operation_key ctx = Some key" "sc_resolved_tenant ctx = Some resolved" by auto
  have cfg: "ri_reservation rt = Some config" "rc_reserve config = reserve" using assms(1) by (simp_all add: served_by_def)
  have "slot_of (fst (snd (snd (reserve_idempotent_operation x rt rd fp ctx (w_store w, w_log w))))) i = slot_of (w_store w) i" for fp
    using reserve_frame [of i] assms(2) kr True
    by (simp add: reserve_operation_store(2) [OF cfg(1) kr] cfg(2))
  then show ?thesis
    by (auto simp: idempotency_slot_def split: option.splits prod.splits sum.splits ReservationDecision.splits)
      (metis fst_conv snd_conv)+
next
  case False
  then show ?thesis
    by (auto simp: idempotency_slot_def reserve_idempotent_operation_def
        split: option.splits prod.splits sum.splits ReservationDecision.splits)
qed

lemma enter_frame:
  assumes "served_by rt config"
    and other: "\<And>key resolved ctx2 w1 w2. opn_idempotent op \<Longrightarrow> sc_operation_key ctx2 = Some key \<Longrightarrow>
           sc_resolved_tenant ctx2 = Some resolved \<Longrightarrow>
           tenant_guard rt alive op (with_operation_name (opn_name op) ctx) w1 = (Ok (), ctx2, w2) \<Longrightarrow>
           i \<noteq> reserved_id resolved key"
  shows "slot_of (w_store (snd (dispatch_enter x cv rt alive rd op args ctx w))) i = slot_of (w_store w) i"
proof -
  let ?n = "with_operation_name (opn_name op) ctx"
  obtain r1 w1 where auth: "authorize_guard rt alive op ?n w = (r1, w1)" by fastforce
  obtain r2 ctx2 w2 where ten: "tenant_guard rt alive op ?n w1 = (r2, ctx2, w2)" by (metis prod_cases3)
  obtain r3 w3 where slot: "idempotency_slot x rt alive rd op args ctx2 w2 = (r3, w3)" by fastforce
  have same: "w_store w1 = w_store w" "w_store w2 = w_store w"
    using auth ten authorize_guard_store [of rt alive op ?n w] tenant_guard_world [of rt alive op ?n w1] by simp_all
  have "slot_of (w_store w3) i = slot_of (w_store w2) i" if "r2 = Ok ()"
    using slot_frame [OF assms(1), where ctx = ctx2 and op = op and i = i and x = x and alive = alive and rd = rd and args = args and w = w2] other [OF _ _ _ ten [unfolded that]] slot by auto
  then show ?thesis
    using auth ten slot same by (auto simp: dispatch_enter_def Let_def split: sum.splits)
qed

lemma leave_frame:
  assumes "served_by rt config" "\<And>permit. res = Some (Proceed permit) \<Longrightarrow> i \<noteq> fence_operation_id permit"
  shows "slot_of (w_store (dispatch_leave x rt alive rd op chain ctx res result w)) i = slot_of (w_store w) i"
proof (cases result)
  case (Inr out)
  have "slot_of (fst (complete_idempotent_operation x rt rd res out (w_store w, w_log w))) i = slot_of (w_store w) i"
    using assms mutation_frame [of i]
    by (auto simp: complete_idempotent_operation_def served_by_def split: option.splits ReservationDecision.splits
        sum.splits prod.splits ReservationError.splits) (metis snd_conv)+
  then show ?thesis using Inr by (auto simp: dispatch_leave_def Let_def frame_simps split: prod.splits)
qed (simp add: dispatch_leave_def frame_simps)

end

section \<open>The codec\<close>

text \<open>\<open>serde_json\<close> on one value: what is written is read back, up to the order of map entries.\<close>

definition serde_round_trips :: "('a, 'o) externals \<Rightarrow> 'o \<Rightarrow> bool" where
  "serde_round_trips x out \<longleftrightarrow>
     (case x_to_value x out of
        None \<Rightarrow> False
      | Some payload \<Rightarrow>
          x_from_slice x (x_to_vec x (envelope payload)) = Some (sorted_json (envelope payload)) \<and>
          x_from_value x (sorted_json payload) = Some out)"

lemma stored_response_round_trip:
  assumes "serde_round_trips x out"
  obtains stored where "StoredResponseCodec_encode x out = Ok stored" "decode_stored_response x stored = Ok out"
proof -
  from assms obtain payload where p: "x_to_value x out = Some payload"
    "x_from_slice x (x_to_vec x (envelope payload)) = Some (sorted_json (envelope payload))"
    "x_from_value x (sorted_json payload) = Some out"
    by (auto simp: serde_round_trips_def split: option.splits)
  have v: "Option.bind (json_get ''v'' (sorted_json (envelope payload))) as_u64 = Some 1"
    "json_get ''payload'' (sorted_json (envelope payload)) = Some (sorted_json payload)"
    by (simp_all add: envelope_def is_digit_def decimal_def)
  show thesis
    by (rule that [of "StoredServiceResponse (x_to_vec x (envelope payload))"])
      (simp_all add: StoredResponseCodec_encode_def decode_stored_response_def StoredResponseCodec_decode_def
        STORED_RESPONSE_ENVELOPE_def p v)
qed

end
