(* ===== verification/Ego_Service_Properties.thy ===== *)
theory Ego_Service_Properties
  imports Ego_Service_Correct
begin

text \<open>
  Properties of idempotent dispatch over the in-memory reservation store, and a sample service for their
  witnesses.
\<close>

section \<open>A sample service\<close>

text \<open>The operation \<open>pay\<close> of a service whose application state counts the runs of its handlers.\<close>

definition ex_externals :: "(bool, bool) externals" where
  "ex_externals =
     \<lparr>x_sha256 = map (\<lambda>b. b mod 256), x_new_span = SpanId (replicate 8 1),
      x_args_to_value = (\<lambda>b. Some (JBool b)), x_to_value = (\<lambda>b. Some (JBool b)),
      x_to_vec = (\<lambda>j. [if j = envelope (JBool True) then 1 else 0]),
      x_from_slice = (\<lambda>bs. Some (sorted_json (envelope (JBool (bs = [1]))))),
      x_from_value = (\<lambda>j. case j of JBool b \<Rightarrow> Some b | _ \<Rightarrow> None)\<rparr>"

definition ex_conversions :: "string conversions" where
  "ex_conversions = \<lparr>from_security = (\<lambda>_. ''security''), from_rejection = (\<lambda>_. ''rejected'')\<rparr>"

definition ex_config :: "string \<Rightarrow> reservation_store ReservationConfig" where
  "ex_config owner = \<lparr>rc_reserve = ReservationStore_reserve, rc_complete = ReservationStore_complete,
     rc_owner_id = OwnerId owner, rc_lease_duration = 100\<rparr>"

definition ex_runtime :: "string \<Rightarrow> (reservation_store, nat) RuntimeInner" where
  "ex_runtime owner =
     \<lparr>ri_authorization_provider = Some (\<lambda>p request sec h. (Some (Ok (if ar_action request = ''pay'' then Allow else Deny ''no'')), h)),
      ri_tenant_mode = AuthenticatedOnly, ri_reservation = Some (ex_config owner),
      ri_observability = True, ri_tracer = True\<rparr>"

definition ex_operation :: "string \<Rightarrow> string \<Rightarrow> operation" where
  "ex_operation name action = \<lparr>opn_service = ''Ledger'', opn_name = name, opn_authorize = Some (''account'', action),
     opn_tenant_scoped = True, opn_idempotent = True\<rparr>"

definition ex_context :: "string \<Rightarrow> ServiceContext" where
  "ex_context tenant =
     \<lparr>sc_tenant_id = None, 
      sc_security = Some (SecurityContext_empty (Principal_with_tenant_id (TenantId tenant) (Principal_new User ''ann''))),
      sc_allow_cross_tenant = None, sc_resolved_tenant = None, sc_operation_name = None,
      sc_operation_key = Some (OperationKey ''k''), sc_operation_fingerprint = None, sc_trace_context = None\<rparr>"

definition ex_handler :: "bool \<Rightarrow> (bool, bool, string, nat) handler" where
  "ex_handler answer ctx args h = (Ok answer, Suc h)"

definition ex_readings :: "timestamp \<Rightarrow> readings" where
  "ex_readings t = \<lparr>at_lease = t, at_reserve = t, at_complete = t + 5\<rparr>"

definition ex_world :: "reservation_store \<Rightarrow> nat \<Rightarrow> (reservation_store, nat) world" where
  "ex_world s h = \<lparr>w_store = s, w_app = h, w_log = []\<rparr>"

lemmas ex_service_defs =
  ex_externals_def ex_conversions_def ex_config_def ex_runtime_def ex_operation_def ex_context_def
  ex_handler_def ex_readings_def ex_world_def SecurityContext_empty_def Principal_with_tenant_id_def Principal_new_def

lemma fst_eq_pair: "fst p = a \<Longrightarrow> p = (a, snd p)"
  by (cases p) simp

section \<open>Properties\<close>

lemma dispatch_early:
  "dispatch_enter x cv rt alive rd op args ctx w = (Inl r, w') \<Longrightarrow>
   dispatch x cv rt alive rd op chain handler others args ctx w = (r, w')"
  by (simp add: dispatch_def)

lemma mem_served_by [simp]:
  "mem.served_by rt config \<longleftrightarrow>
     ri_reservation rt = Some config \<and> rc_reserve config = ReservationStore_reserve \<and>
     rc_complete config = ReservationStore_complete"
  by (simp add: mem.served_by_def)

text \<open>What a dispatch that was let through with a permit and succeeded leaves in the store.\<close>

lemma successful_dispatch_is_stored:
  assumes "mem.served_by rt config"
    and enter: "dispatch_enter x cv rt alive rd op args ctx w = (Inr (ctx1, Some (Proceed permit)), w1)"
    and run: "dispatch x cv rt alive rd op chain handler (run_ops ReservationStore_exec h) args ctx w = (Ok out, w2)"
    and "alive AtEpilogue" "at_complete rd < rc_lease_until config (at_lease rd)"
    and others: "\<forall>(now, call) \<in> set h. now < rc_lease_until config (at_lease rd) \<and> presented_fence call \<noteq> Some permit"
    and enc: "StoredResponseCodec_encode x out = Ok stored"
  obtains resolved key fp where
    "sc_operation_key ctx = Some key" "sc_resolved_tenant ctx1 = Some resolved"
    "operation_fingerprint (x_sha256 x) (x_args_to_value x args) = Some fp"
    "store_slot (w_store w2) (reserved_id resolved key) = Done fp stored (at_complete rd)"
proof -
  obtain resolved key fp where key: "sc_operation_key ctx = Some key" and res: "sc_resolved_tenant ctx1 = Some resolved"
    and fp: "operation_fingerprint (x_sha256 x) (x_args_to_value x args) = Some fp"
    and id: "fence_operation_id permit = reserved_id resolved key"
    and held: "store_slot (w_store w1) (reserved_id resolved key)
      = Held fp (fence_owner_id permit) (fence_token permit) (rc_lease_until config (at_lease rd))"
    using mem.permit_holds_lease [OF assms(1) enter] by metis
  have idem: "opn_idempotent op"
    using enter by (auto elim!: enter_InrE simp: idempotency_slot_def split: if_splits)
  obtain wr where wr: "dispatch_run chain handler args ctx1 w1 = (Ok out, wr)"
    and w2: "w2 = dispatch_leave x rt alive rd op chain ctx1 (Some (Proceed permit)) (Ok out)
                    (wr\<lparr>w_store := run_ops ReservationStore_exec h (w_store wr)\<rparr>)"
    using run enter by (auto simp: dispatch_def split: prod.splits)
  have "w_store wr = w_store w1" using wr dispatch_run_store [of chain handler args ctx1 w1] by simp
  moreover have "permit = \<lparr>fence_operation_id = reserved_id resolved key, fence_owner_id = fence_owner_id permit,
      fence_token = fence_token permit\<rparr>" using id by (cases permit) simp
  ultimately have "store_slot (run_ops ReservationStore_exec h (w_store wr)) (fence_operation_id permit)
      = Held fp (fence_owner_id permit) (fence_token permit) (rc_lease_until config (at_lease rd))"
    using mem.lease_untouched_run [OF held, of h] others id by metis
  then have "store_slot (w_store w2) (fence_operation_id permit) = Done fp stored (at_complete rd)"
    unfolding w2 by (intro mem.leave_completes [where alive = alive, OF assms(1,4) idem enc _ assms(5)]) simp
  then show thesis using that key res fp id by simp
qed

text \<open>
  C2: A retry of a successful operation is answered from the store. An idempotent operation was let through
  with a permit, its handler returned a value, and its response was recorded before the lease ran out,
  whatever others did to the store meanwhile. From then on, as long as no purge reaches the record, every
  call of the same operation with the same key and the same arguments that resolves to the same tenant and
  passes the guards, through whichever runtime on that store, returns the same value; it runs neither the
  handler nor an interceptor, so the application is left as the guards left it.
\<close>

theorem retry_replays_response:
  fixes rt rt' :: "(reservation_store, 'h) RuntimeInner"
  assumes "ri_reservation rt = Some config" "rc_reserve config = ReservationStore_reserve"
      "rc_complete config = ReservationStore_complete"
    and "ri_reservation rt' = Some config'" "rc_reserve config' = ReservationStore_reserve"
      "rc_complete config' = ReservationStore_complete"
    and enter: "dispatch_enter x cv rt alive rd op args ctx w = (Inr (ctx1, Some (Proceed permit)), w1)"
    and run: "dispatch x cv rt alive rd op chain handler (run_ops ReservationStore_exec h) args ctx w = (Ok out, w2)"
    and "alive AtEpilogue" "at_complete rd < rc_lease_until config (at_lease rd)"
    and "\<forall>(now, call) \<in> set h. now < rc_lease_until config (at_lease rd) \<and> presented_fence call \<noteq> Some permit"
    and "serde_round_trips x out"
    and later: "w_store w3 = run_ops ReservationStore_exec h' (w_store w2)"
      "\<forall>(now, call) \<in> set h'. \<not> purges_at (at_complete rd) call"
    and "authorize_guard rt' alive' op (with_operation_name (opn_name op) ctx') w3 = (Ok (), w4)"
    and "tenant_guard rt' alive' op (with_operation_name (opn_name op) ctx') w4 = (Ok (), ctx2, w5)"
    and "alive' AtSlot" "sc_operation_key ctx' = sc_operation_key ctx" "sc_resolved_tenant ctx2 = sc_resolved_tenant ctx1"
  shows "\<exists>w'. dispatch x cv rt' alive' rd' op chain' handler' others args ctx' w3 = (Ok out, w') \<and> w_app w' = w_app w4"
proof -
  have served: "mem.served_by rt config" "mem.served_by rt' config'" using assms(1-6) by simp_all
  obtain stored where enc: "StoredResponseCodec_encode x out = Ok stored" and dec: "decode_stored_response x stored = Ok out"
    using stored_response_round_trip [OF assms(12)] .
  obtain resolved key fp where key: "sc_operation_key ctx = Some key" and res: "sc_resolved_tenant ctx1 = Some resolved"
    and fp: "operation_fingerprint (x_sha256 x) (x_args_to_value x args) = Some fp"
    and "store_slot (w_store w2) (reserved_id resolved key) = Done fp stored (at_complete rd)"
    using successful_dispatch_is_stored [OF served(1) enter run assms(9-11) enc] by metis
  from mem.done_stable_run [OF this(4) later(2)]
  have answered: "store_slot (w_store w3) (reserved_id resolved key) = Done fp stored (at_complete rd)"
    by (simp add: later(1))
  have idem: "opn_idempotent op"
    using enter by (auto elim!: enter_InrE simp: idempotency_slot_def split: if_splits)
  obtain w' where "dispatch_enter x cv rt' alive' rd' op args ctx' w3 = (Inl (Ok out), w')" "w_app w' = w_app w4"
    using mem.enter_replays [where rd = rd' and cv = cv,
        OF served(2) idem assms(17,15,16) assms(18) [unfolded key] assms(19) [unfolded res] fp answered dec] by blast
  then show ?thesis by (simp add: dispatch_early)
qed

theorem retry_replays_response_witness:
  "let w2 = snd (dispatch ex_externals ex_conversions (ex_runtime ''a'') (\<lambda>_. True) (ex_readings 0)
                   (ex_operation ''pay'' ''pay'') [TracingInterceptor id] (ex_handler True)
                   (run_ops ReservationStore_exec [(1, Reserve (ex_request ''f'' ''b'' 9))])
                   True (ex_context ''acme'') (ex_world ReservationStore_new 0))
   in w_app w2 = 1 \<and>
      (\<exists>w'. dispatch ex_externals ex_conversions (ex_runtime ''b'') (\<lambda>_. True) (ex_readings 40)
              (ex_operation ''pay'' ''pay'') [] (ex_handler False) id True (ex_context ''acme'') w2 = (Ok True, w')
            \<and> w_app w' = 1)"
proof -
  let ?x = "ex_externals" and ?cv = "ex_conversions" and ?op = "ex_operation ''pay'' ''pay''"
  let ?ctx = "ex_context ''acme''" and ?w = "ex_world ReservationStore_new 0"
  let ?h = "[(1, Reserve (ex_request ''f'' ''b'' 9))]"
  let ?e = "dispatch_enter ?x ?cv (ex_runtime ''a'') (\<lambda>_. True) (ex_readings 0) ?op True ?ctx ?w"
  let ?d = "dispatch ?x ?cv (ex_runtime ''a'') (\<lambda>_. True) (ex_readings 0) ?op [TracingInterceptor id] (ex_handler True)
              (run_ops ReservationStore_exec ?h) True ?ctx ?w"
  let ?permit = "\<lparr>fence_operation_id = \<lparr>oid_tenant = Some (TenantId ''acme''), oid_key = OperationKey ''k''\<rparr>,
      fence_owner_id = OwnerId ''a'', fence_token = FencingToken_initial\<rparr>"
  let ?ctx1 = "fst (projr (fst ?e))"
  let ?named = "with_operation_name ''pay'' ?ctx"
  have "fst ?e = Inr (?ctx1, Some (Proceed ?permit))" by code_simp
  then have enter: "?e = (Inr (?ctx1, Some (Proceed ?permit)), snd ?e)" by (rule fst_eq_pair)
  have "fst ?d = Ok True" by code_simp
  then have run: "?d = (Ok True, snd ?d)" by (rule fst_eq_pair)
  have once: "w_app (snd ?d) = 1" by code_simp
  have serde: "serde_round_trips ?x True" by code_simp
  have auth: "authorize_guard (ex_runtime ''b'') (\<lambda>_. True) ?op (with_operation_name (opn_name ?op) ?ctx) (snd ?d) = (Ok (), snd ?d)"
    by (simp add: authorize_guard_def ex_service_defs authorize_in_context_def with_operation_name_def)
  have ten: "tenant_guard (ex_runtime ''b'') (\<lambda>_. True) ?op (with_operation_name (opn_name ?op) ?ctx) (snd ?d)
      = (Ok (), set_resolved_tenant (Scoped (TenantId ''acme'')) (with_operation_name (opn_name ?op) ?ctx), snd ?d)"
    by (simp add: tenant_guard_def enforce_tenant_def TenantResolver_resolve_def ex_service_defs
        with_operation_name_def set_resolved_tenant_def)
  have tenant: "sc_resolved_tenant (set_resolved_tenant (Scoped (TenantId ''acme'')) (with_operation_name (opn_name ?op) ?ctx))
      = sc_resolved_tenant ?ctx1" by code_simp
  have "\<exists>w'. dispatch ?x ?cv (ex_runtime ''b'') (\<lambda>_. True) (ex_readings 40) ?op [] (ex_handler False) id True ?ctx (snd ?d)
      = (Ok True, w') \<and> w_app w' = w_app (snd ?d)"
    by (rule retry_replays_response [where config = "ex_config ''a''" and config' = "ex_config ''b''" and h' = "[]",
          OF _ _ _ _ _ _ enter run _ _ _ serde _ _ auth ten _ _ tenant])
      (simp_all add: ex_runtime_def ex_config_def ex_readings_def rc_lease_until_def)
  then show ?thesis using once by (simp add: Let_def)
qed





text \<open>
  C11: A call that is not authorised reaches nothing. If an operation demands authorization and the provider
  does not answer \<open>Allow\<close> for exactly the resource and action it names (it denies, fails or panics), or there
  is no authenticated caller, no provider, or no runtime any more, the call returns a security error. The
  reservation store is untouched, neither interceptors nor handler run, and the application is left as the
  provider left it.
\<close>

theorem unauthorised_call_reaches_nothing:
  assumes "opn_authorize op = Some (resource, action)"
    and "\<forall>sec provider. alive AtAuthorize \<and> sc_security ctx = Some sec \<and> ri_authorization_provider rt = Some provider \<longrightarrow>
           provider (sec_principal sec) \<lparr>ar_resource = \<lparr>rs_kind = resource, rs_id = None\<rparr>, ar_action = action\<rparr> sec (w_app w)
             = (answer, h) \<and>
           answer \<noteq> Some (Ok Allow)"
  shows "\<exists>e w'. dispatch x cv rt alive rd op chain handler others args ctx w = (Err (from_security cv e), w') \<and>
           w_store w' = w_store w \<and> w_app w' \<in> {w_app w, h} \<and>
           (case sc_security ctx of None \<Rightarrow> e = MissingContext | Some _ \<Rightarrow> True)"
proof -
  have sec: "sc_security (with_operation_name n ctx) = sc_security ctx" for n by (simp add: with_operation_name_def)
  have "\<exists>e w'. authorize_guard rt alive op (with_operation_name (opn_name op) ctx) w = (Err e, w') \<and>
      w_store w' = w_store w \<and> w_app w' \<in> {w_app w, h} \<and> (case sc_security ctx of None \<Rightarrow> e = MissingContext | Some _ \<Rightarrow> True)"
    using assms
    by (cases "sc_security ctx"; cases "ri_authorization_provider rt"; cases "alive AtAuthorize"; cases answer)
      (auto simp: authorize_guard_def sec authorize_in_context_def
        split: sum.splits AuthorizationDecision.splits)
  then show ?thesis by (auto simp: dispatch_def dispatch_enter_def Let_def)
qed

theorem unauthorised_call_reaches_nothing_witness:
  "\<exists>e w'. dispatch ex_externals ex_conversions (ex_runtime ''a'') (\<lambda>_. True) (ex_readings 0) (ex_operation ''drop'' ''drop'')
            [] (ex_handler True) id True (ex_context ''acme'') (ex_world ReservationStore_new 7)
            = (Err (from_security ex_conversions e), w') \<and> w_store w' = ReservationStore_new \<and> w_app w' = 7"
proof -
  have p: "opn_authorize (ex_operation ''drop'' ''drop'') = Some (''account'', ''drop'')" by (simp add: ex_operation_def)
  show ?thesis
    using unauthorised_call_reaches_nothing [OF p, where alive = "\<lambda>_. True" and ctx = "ex_context ''acme''"
        and rt = "ex_runtime ''a''" and w = "ex_world ReservationStore_new 7" and answer = "Some (Ok (Deny ''no''))" and h = 7
        and x = ex_externals and cv = ex_conversions and rd = "ex_readings 0" and chain = "[]"
        and handler = "ex_handler True" and others = id and args = True]
    by (auto simp: ex_runtime_def ex_world_def ex_context_def)
qed

text \<open>
  The fingerprint does not cover the operation. It is computed from the typed arguments alone, and the
  reservation is filed under tenant and key, so a call of another operation under a key that was already
  used with equal arguments is taken for a retry: after \<open>pay\<close> has answered, \<open>refund\<close> with the same key and
  arguments returns the response of \<open>pay\<close>, and its handler never runs.
\<close>

theorem other_operation_is_taken_for_retry:
  "let d1 = dispatch ex_externals ex_conversions (ex_runtime ''a'') (\<lambda>_. True) (ex_readings 0)
              (ex_operation ''pay'' ''pay'') [] (ex_handler True) id True (ex_context ''acme'') (ex_world ReservationStore_new 0);
       d2 = dispatch ex_externals ex_conversions (ex_runtime ''a'') (\<lambda>_. True) (ex_readings 40)
              (ex_operation ''refund'' ''pay'') [] (ex_handler False) id True (ex_context ''acme'') (snd d1)
   in fst d1 = Ok True \<and> fst d2 = Ok True \<and> w_app (snd d2) = 1"
  by code_simp

text \<open>
  An interceptor that refuses a request does not stop it: the generated method drops the result of
  \<open>on_request\<close>, and the result of the call is the handler's.
\<close>

lemma interceptor_cannot_stop_call:
  assumes "dispatch_enter x cv rt alive rd op args ctx w = (Inr (ctx', res), w1)"
  shows "fst (dispatch x cv rt alive rd op chain handler others args ctx w)
           = fst (handler ctx' args (w_app (call_chain chain OnRequest ctx' w1)))"
  using assms by (auto simp: dispatch_def dispatch_run_def Let_def split: prod.splits)

end
