(* ===== verification/Ego_Api_Key.thy ===== *)
theory Ego_Api_Key
  imports Ego_Security
begin

text \<open>
  Authentication by opaque API keys (\<open>crates/security-apikey\<close>): key identifiers, the parser, digests, the
  in-memory resolver and the authentication provider. SHA-256 is a parameter; \<open>subtle\<close>'s constant-time
  comparison is equality. \<open>SystemTime\<close> is nanoseconds since the epoch, like the clock.
\<close>

section \<open>Keys\<close>

datatype ApiKeyId = ApiKeyId (key_id_str: string)

definition ApiKeyId_MAX_LEN :: nat where
  "ApiKeyId_MAX_LEN = 128"

definition key_id_char :: "char \<Rightarrow> bool" where
  "key_id_char c \<longleftrightarrow>
     (let n = (of_char c :: nat)
      in (48 \<le> n \<and> n \<le> 57) \<or> (65 \<le> n \<and> n \<le> 90) \<or> (97 \<le> n \<and> n \<le> 122) \<or> c = CHR ''_'' \<or> c = CHR ''-'')"

definition ApiKeyId_new :: "string \<Rightarrow> (ApiKeyId, AuthenticationError) result" where
  "ApiKeyId_new s =
     (if s = [] then Err (InvalidToken ''api key id must not be empty'')
      else if length s > ApiKeyId_MAX_LEN then Err (InvalidToken ''api key id exceeds maximum length'')
      else if \<not> list_all key_id_char s then Err (InvalidToken ''api key id contains forbidden characters'')
      else Ok (ApiKeyId s))"

datatype Secret = Secret (secret_bytes: string)

type_synonym ApiKeyParser = "string \<Rightarrow> (ApiKeyId \<times> Secret, AuthenticationError) result"

definition DefaultApiKeyParser_parse :: ApiKeyParser where
  "DefaultApiKeyParser_parse raw =
     (case split_once CHR ''.'' raw of
        None \<Rightarrow> Err (InvalidToken (''api key must contain a '' @ quoted ''.'' @ '' separator''))
      | Some (id_part, secret_part) \<Rightarrow>
          if id_part = [] then Err (InvalidToken ''api key id part must not be empty'')
          else if secret_part = [] then Err (InvalidToken ''api key secret part must not be empty'')
          else (case ApiKeyId_new id_part of
                  Inl _ \<Rightarrow> Err (InvalidToken ''invalid key id format'')
                | Inr key_id \<Rightarrow> Ok (key_id, Secret secret_part)))"

datatype ApiKeyHash = ApiKeyHash (digest: "8 word list")

type_synonym sha256 = "string \<Rightarrow> 8 word list"

definition ApiKeyHash_of :: "sha256 \<Rightarrow> string \<Rightarrow> ApiKeyHash" where
  "ApiKeyHash_of sha secret = ApiKeyHash (sha secret)"

definition ApiKeyHash_verify :: "sha256 \<Rightarrow> ApiKeyHash \<Rightarrow> string \<Rightarrow> bool" where
  "ApiKeyHash_verify sha hash secret = (sha secret = digest hash)"

section \<open>Resolver\<close>

datatype ApiKeyResolverError = ResolverBackend string

record ApiKeyRecord =
  ak_principal :: Principal
  ak_scopes :: "string list"
  ak_expires_at :: "timestamp option"
  ak_metadata :: "string \<rightharpoonup> string"
  ak_key_hash :: ApiKeyHash

type_synonym ApiKeyResolver = "ApiKeyId \<Rightarrow> (ApiKeyRecord option, ApiKeyResolverError) result"
type_synonym InMemoryApiKeyResolver = "ApiKeyId \<rightharpoonup> ApiKeyRecord"

definition InMemoryApiKeyResolver_new :: InMemoryApiKeyResolver where
  "InMemoryApiKeyResolver_new = Map.empty"

definition InMemoryApiKeyResolver_insert ::
  "ApiKeyId \<Rightarrow> ApiKeyRecord \<Rightarrow> InMemoryApiKeyResolver \<Rightarrow> InMemoryApiKeyResolver" where
  "InMemoryApiKeyResolver_insert key_id r store = store(key_id \<mapsto> r)"

definition InMemoryApiKeyResolver_lookup :: "InMemoryApiKeyResolver \<Rightarrow> ApiKeyResolver" where
  "InMemoryApiKeyResolver_lookup store key_id = Ok (store key_id)"

section \<open>The provider\<close>

definition MAX_KEY_BYTES :: nat where
  "MAX_KEY_BYTES = 1024"

definition invalid_token :: AuthenticationError where
  "invalid_token = InvalidToken ''invalid token''"

text \<open>The claim has whole seconds; \<open>from_timestamp\<close> is \<open>chrono\<close>'s, which refuses seconds it cannot represent.\<close>

definition exp_claim :: "(int \<Rightarrow> timestamp option) \<Rightarrow> timestamp \<Rightarrow> timestamp option" where
  "exp_claim from_timestamp t =
     (if t < 0 \<or> t div 1000000000 > i64_max then None else from_timestamp (t div 1000000000))"

record ApiKeyAuthenticationProvider =
  akp_resolver :: ApiKeyResolver
  akp_parser :: ApiKeyParser

definition ApiKeyAuthenticationProvider_new :: "ApiKeyResolver \<Rightarrow> ApiKeyAuthenticationProvider" where
  "ApiKeyAuthenticationProvider_new resolver = \<lparr>akp_resolver = resolver, akp_parser = DefaultApiKeyParser_parse\<rparr>"

definition with_parser :: "ApiKeyParser \<Rightarrow> ApiKeyAuthenticationProvider \<Rightarrow> ApiKeyAuthenticationProvider" where
  "with_parser parser pv = pv\<lparr>akp_parser := parser\<rparr>"

definition authenticated :: "(int \<Rightarrow> timestamp option) \<Rightarrow> ApiKeyRecord \<Rightarrow> SecurityContext" where
  "authenticated from_timestamp r =
     \<lparr>sec_principal = ak_principal r,
      sec_claims = \<lparr>cm_standard = StandardClaims_default\<lparr>cl_exp := Option.bind (ak_expires_at r) (exp_claim from_timestamp)\<rparr>,
                    cm_custom = btree_insert ''scopes'' (JArray (map JString (ak_scopes r))) []\<rparr>\<rparr>"

definition ApiKey_authenticate ::
  "sha256 \<Rightarrow> (int \<Rightarrow> timestamp option) \<Rightarrow> ApiKeyAuthenticationProvider \<Rightarrow> timestamp \<Rightarrow> AuthenticationProvider" where
  "ApiKey_authenticate sha from_timestamp pv now credential =
     (case credential of
        Bearer raw \<Rightarrow>
          if length raw > MAX_KEY_BYTES then Err invalid_token
          else (case akp_parser pv raw of
                  Inl _ \<Rightarrow> Err invalid_token
                | Inr (key_id, secret) \<Rightarrow>
                    (case akp_resolver pv key_id of
                       Inl _ \<Rightarrow> Err invalid_token
                     | Inr found \<Rightarrow>
                         (let dummy_hash = ApiKeyHash (replicate 32 0);
                              hash_ok = ApiKeyHash_verify sha
                                (case found of None \<Rightarrow> dummy_hash | Some r \<Rightarrow> ak_key_hash r) (secret_bytes secret);
                              not_expired = (case found of
                                               None \<Rightarrow> False
                                             | Some r \<Rightarrow> (case ak_expires_at r of None \<Rightarrow> True | Some exp \<Rightarrow> now < exp))
                          in case found of
                               Some r \<Rightarrow> if hash_ok \<and> not_expired then Ok (authenticated from_timestamp r) else Err invalid_token
                             | None \<Rightarrow> Err invalid_token)))
      | _ \<Rightarrow> Err invalid_token)"

section \<open>Properties\<close>

lemma ApiKeyId_new_Ok [simp]:
  "ApiKeyId_new s = Ok k \<longleftrightarrow> k = ApiKeyId s \<and> s \<noteq> [] \<and> length s \<le> ApiKeyId_MAX_LEN \<and> list_all key_id_char s"
  by (auto simp: ApiKeyId_new_def)

lemma key_id_char_no_dot: "list_all key_id_char s \<Longrightarrow> CHR ''.'' \<notin> set s"
  by (auto simp: list_all_iff key_id_char_def)

lemma DefaultApiKeyParser_parse_Ok:
  "DefaultApiKeyParser_parse raw = Ok (key_id, secret) \<longleftrightarrow>
     raw = key_id_str key_id @ ''.'' @ secret_bytes secret \<and> ApiKeyId_new (key_id_str key_id) = Ok key_id \<and>
     secret_bytes secret \<noteq> []"
  (is "_ \<longleftrightarrow> ?parts")
proof
  assume "DefaultApiKeyParser_parse raw = Ok (key_id, secret)"
  then show ?parts
    by (auto simp: DefaultApiKeyParser_parse_def dest!: split_once_SomeD split: option.splits if_splits sum.splits)
next
  assume ?parts
  moreover from this have "split_once CHR ''.'' raw = Some (key_id_str key_id, secret_bytes secret)"
    using key_id_char_no_dot by (auto intro: split_once_append)
  ultimately show "DefaultApiKeyParser_parse raw = Ok (key_id, secret)"
    by (auto simp: DefaultApiKeyParser_parse_def ApiKeyId_new_def split: if_splits)
qed

text \<open>
  An API key authenticates exactly when it is the key. With the default parser over the in-memory
  resolver, a credential yields a security context if and only if it is a bearer token of at most 1024
  bytes of the form identifier, dot, secret, with a well-formed identifier that is registered, whose stored
  digest is the digest of the secret and whose expiry, if any, is still ahead; the context is then the
  registered principal with the registered scopes. Every other credential is refused with one and the same
  error, so nothing tells an unknown key from a wrong secret or an expired key.
\<close>

theorem api_key_authenticates_exactly:
  "let answer = ApiKey_authenticate sha from_timestamp
                  (ApiKeyAuthenticationProvider_new (InMemoryApiKeyResolver_lookup store)) now credential
   in (case answer of Inl e \<Rightarrow> e = invalid_token | Inr _ \<Rightarrow> True) \<and>
      (answer = Ok sec \<longleftrightarrow>
        (\<exists>key_id secret r.
           credential = Bearer (key_id @ ''.'' @ secret) \<and> length (key_id @ ''.'' @ secret) \<le> MAX_KEY_BYTES \<and>
           ApiKeyId_new key_id = Ok (ApiKeyId key_id) \<and> secret \<noteq> [] \<and> store (ApiKeyId key_id) = Some r \<and>
           digest (ak_key_hash r) = sha secret \<and> (case ak_expires_at r of None \<Rightarrow> True | Some exp \<Rightarrow> now < exp) \<and>
           sec = authenticated from_timestamp r))"
proof -
  note defs = ApiKey_authenticate_def ApiKeyAuthenticationProvider_new_def InMemoryApiKeyResolver_lookup_def
    ApiKeyHash_verify_def Let_def
  have parse: "DefaultApiKeyParser_parse (key_id @ ''.'' @ secret) = Ok (ApiKeyId key_id, Secret secret)"
    if "ApiKeyId_new key_id = Ok (ApiKeyId key_id)" "secret \<noteq> []" for key_id secret
    using that DefaultApiKeyParser_parse_Ok [of "key_id @ ''.'' @ secret" "ApiKeyId key_id" "Secret secret"] by simp
  let ?answer = "ApiKey_authenticate sha from_timestamp
                  (ApiKeyAuthenticationProvider_new (InMemoryApiKeyResolver_lookup store)) now credential"
  have "case ?answer of Inl e \<Rightarrow> e = invalid_token | Inr _ \<Rightarrow> True"
    by (auto simp: defs split: Credential.splits sum.splits option.splits)
  moreover have "\<exists>key_id secret r.
      credential = Bearer (key_id @ ''.'' @ secret) \<and> length (key_id @ ''.'' @ secret) \<le> MAX_KEY_BYTES \<and>
      ApiKeyId_new key_id = Ok (ApiKeyId key_id) \<and> secret \<noteq> [] \<and> store (ApiKeyId key_id) = Some r \<and>
      digest (ak_key_hash r) = sha secret \<and> (case ak_expires_at r of None \<Rightarrow> True | Some exp \<Rightarrow> now < exp) \<and>
      sec = authenticated from_timestamp r" if ok: "?answer = Ok sec"
  proof -
    obtain raw key_id secret r where "credential = Bearer raw" "length raw \<le> MAX_KEY_BYTES"
      "DefaultApiKeyParser_parse raw = Ok (key_id, secret)" "store key_id = Some r"
      "sha (secret_bytes secret) = digest (ak_key_hash r)" "case ak_expires_at r of None \<Rightarrow> True | Some exp \<Rightarrow> now < exp"
      "sec = authenticated from_timestamp r"
      using ok by (auto simp: defs split: Credential.splits sum.splits option.splits if_splits)
    then show ?thesis
      by (intro exI [of _ "key_id_str key_id"] exI [of _ "secret_bytes secret"] exI [of _ r])
        (auto simp: DefaultApiKeyParser_parse_Ok)
  qed
  moreover have "?answer = Ok sec" if "\<exists>key_id secret r.
      credential = Bearer (key_id @ ''.'' @ secret) \<and> length (key_id @ ''.'' @ secret) \<le> MAX_KEY_BYTES \<and>
      ApiKeyId_new key_id = Ok (ApiKeyId key_id) \<and> secret \<noteq> [] \<and> store (ApiKeyId key_id) = Some r \<and>
      digest (ak_key_hash r) = sha secret \<and> (case ak_expires_at r of None \<Rightarrow> True | Some exp \<Rightarrow> now < exp) \<and>
      sec = authenticated from_timestamp r"
    using that parse by (auto simp: defs simp del: append_Cons append_Nil ApiKeyId_new_Ok)
  ultimately show ?thesis unfolding Let_def by blast
qed

end
