(* ===== verification/Ego_Jwt.thy ===== *)
theory Ego_Jwt
  imports Ego_Security
begin

text \<open>
  Bearer tokens that are JWTs (\<open>crates/security-jwt\<close>: \<open>config.rs\<close>, \<open>key_resolver.rs\<close>, \<open>jwks.rs\<close>,
  \<open>validation.rs\<close>, \<open>principal_mapper.rs\<close>, \<open>authenticator.rs\<close>, and \<open>crates/domain/src/auth/claim_set.rs\<close>):
  provider configuration, key resolution with the cached key set, validation of claims and time, and the
  mapping of claims to a principal.

  The record \<open>jwt_externals\<close> collects what other crates do: reading a token's header, verifying its
  signature, building keys and the conversions of floating-point numbers. Instants do not overflow (adding a
  leeway to an instant at the end of \<open>chrono\<close>'s range of years panics).
\<close>

section \<open>Claim sets\<close>

text \<open>\<open>'f\<close> stands for \<open>f64\<close>.\<close>

datatype 'f ClaimValue =
  CString string
| CInteger int
| CFloat 'f
| CBool bool
| CArray "'f ClaimValue list"
| CMap "(string \<times> 'f ClaimValue) list"
| CNull

type_synonym 'f ClaimSet = "(string \<times> 'f ClaimValue) list"

fun ClaimValue_as_str :: "'f ClaimValue \<Rightarrow> string option" where
  "ClaimValue_as_str (CString s) = Some s"
| "ClaimValue_as_str _ = None"

definition get_str :: "'f ClaimSet \<Rightarrow> string \<Rightarrow> string option" where
  "get_str cs key = Option.bind (map_of cs key) ClaimValue_as_str"

definition get_array :: "'f ClaimSet \<Rightarrow> string \<Rightarrow> 'f ClaimValue list option" where
  "get_array cs key = (case map_of cs key of Some (CArray arr) \<Rightarrow> Some arr | _ \<Rightarrow> None)"

definition get_nested_array :: "'f ClaimSet \<Rightarrow> string \<Rightarrow> string \<Rightarrow> 'f ClaimValue list option" where
  "get_nested_array cs outer inner =
     (case map_of cs outer of
        Some (CMap m) \<Rightarrow> (case map_of m inner of Some (CArray arr) \<Rightarrow> Some arr | _ \<Rightarrow> None)
      | _ \<Rightarrow> None)"

fun or_else :: "'a option \<Rightarrow> 'a option \<Rightarrow> 'a option" where
  "or_else (Some x) _ = Some x"
| "or_else None y = y"

definition get_i64 :: "('f \<Rightarrow> int) \<Rightarrow> 'f ClaimSet \<Rightarrow> string \<Rightarrow> int option" where
  "get_i64 f64_as_i64 cs key =
     (case map_of cs key of Some (CInteger n) \<Rightarrow> Some n | Some (CFloat f) \<Rightarrow> Some (f64_as_i64 f) | _ \<Rightarrow> None)"

definition ClaimSet_roles :: "'f ClaimSet \<Rightarrow> string list" where
  "ClaimSet_roles cs =
     (case or_else (or_else (get_array cs ''roles'') (get_nested_array cs ''realm_access'' ''roles'')) (get_array cs ''groups'') of
        Some v \<Rightarrow> List.map_filter ClaimValue_as_str v
      | None \<Rightarrow> [])"

definition ClaimSet_scope :: "'f ClaimSet \<Rightarrow> string option" where
  "ClaimSet_scope cs = or_else (get_str cs ''scp'') (get_str cs ''scope'')"

definition ClaimSet_organization :: "'f ClaimSet \<Rightarrow> string option" where
  "ClaimSet_organization cs = or_else (get_str cs ''organization'') (get_str cs ''org_id'')"

section \<open>Mapping claims to a principal\<close>

datatype Algorithm = HS256 | RS256 | ES256 | OtherAlgorithm string

datatype JwtAlgorithm = Hs256 | Rs256 | Es256

datatype VerificationKey = Hmac string | RsaPem string | EcPem string

datatype jwt_error = JwtInvalidSignature | JwtInvalidAlgorithm string | JwtOther string

record ('k, 'f) jwt_externals =
  j_decode_header :: "string \<Rightarrow> (Algorithm \<times> string option, string) result"
  j_decode :: "string \<Rightarrow> 'k \<Rightarrow> Algorithm \<Rightarrow> ((string \<times> json) list, jwt_error) result"
  j_from_secret :: "string \<Rightarrow> 'k"
  j_from_rsa_pem :: "string \<Rightarrow> ('k, string) result"
  j_from_ec_pem :: "string \<Rightarrow> ('k, string) result"
  j_show_algorithm :: "Algorithm \<Rightarrow> string"
  j_from_timestamp :: "int \<Rightarrow> timestamp option"
  j_f64_of_number :: "string \<Rightarrow> 'f"
  j_f64_as_i64 :: "'f \<Rightarrow> int"
  j_number_from_f64 :: "'f \<Rightarrow> string option"
  j_show_int :: "int \<Rightarrow> string"

function value_to_claim_value :: "('k, 'f) jwt_externals \<Rightarrow> json \<Rightarrow> 'f ClaimValue" where
  "value_to_claim_value x JNull = CNull"
| "value_to_claim_value x (JBool b) = CBool b"
| "value_to_claim_value x (JNumber n) =
     (case as_i64 (JNumber n) of Some i \<Rightarrow> CInteger i | None \<Rightarrow> CFloat (j_f64_of_number x n))"
| "value_to_claim_value x (JString s) = CString s"
| "value_to_claim_value x (JArray arr) = CArray (map (value_to_claim_value x) arr)"
| "value_to_claim_value x (JObject m) =
     CMap (foldl (\<lambda>acc e. btree_insert (fst e) (snd e) acc) [] (map (\<lambda>e. (fst e, value_to_claim_value x (snd e))) m))"
  by pat_completeness auto

lemma json_entry_size: "e \<in> set entries \<Longrightarrow> size (snd e) < Suc (size_list (size_prod (\<lambda>_. 0) size) entries)"
  by (induction entries) auto

termination value_to_claim_value
  by (relation "measure (\<lambda>(x, j). size j)") (auto simp: less_Suc_eq_le size_list_estimation' dest!: json_entry_size)

definition claims_map_to_claim_set :: "('k, 'f) jwt_externals \<Rightarrow> (string \<times> json) list \<Rightarrow> 'f ClaimSet" where
  "claims_map_to_claim_set x m = map (\<lambda>e. (fst e, value_to_claim_value x (snd e))) m"

function claim_value_to_json :: "('k, 'f) jwt_externals \<Rightarrow> 'f ClaimValue \<Rightarrow> json" where
  "claim_value_to_json x CNull = JNull"
| "claim_value_to_json x (CBool b) = JBool b"
| "claim_value_to_json x (CInteger i) = JNumber (j_show_int x i)"
| "claim_value_to_json x (CFloat f) = (case j_number_from_f64 x f of Some n \<Rightarrow> JNumber n | None \<Rightarrow> JNull)"
| "claim_value_to_json x (CString s) = JString s"
| "claim_value_to_json x (CArray arr) = JArray (map (claim_value_to_json x) arr)"
| "claim_value_to_json x (CMap m) = JObject (map (\<lambda>e. (fst e, claim_value_to_json x (snd e))) m)"
  by pat_completeness auto

lemma claim_entry_size:
  "e \<in> set (m :: (string \<times> 'f ClaimValue) list) \<Longrightarrow>
     size_ClaimValue (\<lambda>_. 0) (snd e) < Suc (size_list (size_prod (\<lambda>_. 0) (size_ClaimValue (\<lambda>_. 0))) m)"
  by (induction m) auto

termination claim_value_to_json
  by (relation "measure (\<lambda>(x, v). size_ClaimValue (\<lambda>_. 0) v)")
    (auto simp: less_Suc_eq_le size_list_estimation' dest!: claim_entry_size)

definition STANDARD_JWT_CLAIM_KEYS :: "string list" where
  "STANDARD_JWT_CLAIM_KEYS = [''exp'', ''nbf'', ''iat'', ''jti'', ''iss'', ''aud'']"

definition remove_key :: "string \<Rightarrow> (string \<times> 'v) list \<Rightarrow> (string \<times> 'v) list" where
  "remove_key k m = filter (\<lambda>e. fst e \<noteq> k) m"

definition build_standard_from_claim_set :: "('k, 'f) jwt_externals \<Rightarrow> 'f ClaimSet \<Rightarrow> StandardClaims" where
  "build_standard_from_claim_set x cs =
     (let instant = (\<lambda>key. Option.bind (get_i64 (j_f64_as_i64 x) cs key) (j_from_timestamp x)) in
      \<lparr>cl_exp = instant ''exp'', cl_nbf = instant ''nbf'', cl_iat = instant ''iat'',
       cl_jti = get_str cs ''jti'', cl_iss = get_str cs ''iss'',
       cl_aud = or_else (map_option (List.map_filter ClaimValue_as_str) (get_array cs ''aud''))
                  (map_option (\<lambda>s. [s]) (get_str cs ''aud''))\<rparr>)"

definition roles_source_key :: "'f ClaimSet \<Rightarrow> string option" where
  "roles_source_key cs =
     (if ClaimSet_roles cs = [] then None
      else if get_array cs ''roles'' \<noteq> None then Some ''roles''
      else if get_nested_array cs ''realm_access'' ''roles'' \<noteq> None then Some ''realm_access''
      else Some ''groups'')"

definition tenant_claim :: "'f ClaimSet \<Rightarrow> (string \<times> string) option" where
  "tenant_claim cs =
     (case get_str cs ''tenant_id'' of
        Some tid \<Rightarrow> Some (tid, ''tenant_id'')
      | None \<Rightarrow>
          (case get_str cs ''tid'' of
             Some tid \<Rightarrow> Some (tid, ''tid'')
           | None \<Rightarrow> map_option (\<lambda>t. (t, ''tenant'')) (get_str cs ''tenant'')))"

definition custom_claims :: "('k, 'f) jwt_externals \<Rightarrow> 'f ClaimSet \<Rightarrow> (string \<times> json) list" where
  "custom_claims x cs =
     (let m0 = map (\<lambda>e. (fst e, claim_value_to_json x (snd e))) cs;
          m1 = fold remove_key (''sub'' # STANDARD_JWT_CLAIM_KEYS) m0;
          m2 = (case roles_source_key cs of Some key \<Rightarrow> remove_key key m1 | None \<Rightarrow> m1);
          m3 = (case tenant_claim cs of Some (_, key) \<Rightarrow> remove_key key m2 | None \<Rightarrow> m2);
          m4 = (case ClaimSet_scope cs of
                  Some scope \<Rightarrow> remove_key ''scp'' (btree_insert ''scope'' (JString scope) m3)
                | None \<Rightarrow> m3)
      in case ClaimSet_organization cs of
           Some org \<Rightarrow> remove_key ''org_id'' (btree_insert ''organization'' (JString org) m4)
         | None \<Rightarrow> m4)"

type_synonym 'f PrincipalMapper = "'f ClaimSet \<Rightarrow> (Principal \<times> Claims, AuthenticationError) result"

definition DefaultPrincipalMapper_map :: "('k, 'f) jwt_externals \<Rightarrow> 'f PrincipalMapper" where
  "DefaultPrincipalMapper_map x cs =
     (case map_of cs ''sub'' of
        None \<Rightarrow> Err (MissingClaim ''sub'')
      | Some v \<Rightarrow>
          (case ClaimValue_as_str v of
             None \<Rightarrow> Err (InvalidToken ''sub claim is not a string'')
           | Some sub \<Rightarrow>
               (case SubjectId_new sub of
                  Inl _ \<Rightarrow> Err (InvalidToken ''invalid subject id'')
                | Inr subject \<Rightarrow>
                    (let p0 = Principal_new User subject;
                         p1 = fold Principal_with_role (ClaimSet_roles cs) p0;
                         claims = \<lparr>cm_standard = build_standard_from_claim_set x cs, cm_custom = custom_claims x cs\<rparr>
                     in case tenant_claim cs of
                          None \<Rightarrow> Ok (p1, claims)
                        | Some (tid, _) \<Rightarrow>
                            (case TenantId_new tid of
                               Inl _ \<Rightarrow> Err (InvalidToken ''invalid tenant claim'')
                             | Inr tenant \<Rightarrow> Ok (Principal_with_tenant_id tenant p1, claims))))))"

section \<open>Validation\<close>

record ValidationParams =
  vp_expected_iss :: "string option"
  vp_expected_aud :: "string list option"
  vp_leeway_seconds :: "u64 option"

definition parse_timestamp :: "('k, 'f) jwt_externals \<Rightarrow> json \<Rightarrow> timestamp option" where
  "parse_timestamp x val =
     Option.bind (or_else (as_i64 val) (Option.bind (as_u64 val) (\<lambda>u. if u \<le> i64_max then Some u else None)))
       (j_from_timestamp x)"

definition leeway_of :: "ValidationParams \<Rightarrow> int" where
  "leeway_of params =
     (let l = (case vp_leeway_seconds params of Some w \<Rightarrow> uint w | None \<Rightarrow> 0)
      in (if l \<le> i64_max then l else 0) * 1000000000)"

definition map_decode_error :: "jwt_error \<Rightarrow> AuthenticationError" where
  "map_decode_error e =
     (case e of
        JwtInvalidSignature \<Rightarrow> InvalidSignature
      | JwtInvalidAlgorithm msg \<Rightarrow> AlgorithmNotSupported msg
      | JwtOther msg \<Rightarrow> InvalidToken msg)"

definition check_exp :: "('k, 'f) jwt_externals \<Rightarrow> ValidationParams \<Rightarrow> timestamp \<Rightarrow> (string \<times> json) list \<Rightarrow> (unit, AuthenticationError) result" where
  "check_exp x params now claims =
     (case map_of claims ''exp'' of
        None \<Rightarrow> Err (InvalidToken ''missing required claim: exp'')
      | Some v \<Rightarrow>
          (case parse_timestamp x v of
             Some exp_dt \<Rightarrow> if exp_dt + leeway_of params \<le> now then Err ExpiredToken else Ok ()
           | None \<Rightarrow> Err (InvalidToken ''exp claim is not a valid integer'')))"

definition check_nbf :: "('k, 'f) jwt_externals \<Rightarrow> ValidationParams \<Rightarrow> timestamp \<Rightarrow> (string \<times> json) list \<Rightarrow> (unit, AuthenticationError) result" where
  "check_nbf x params now claims =
     (case map_of claims ''nbf'' of
        None \<Rightarrow> Ok ()
      | Some v \<Rightarrow>
          (case parse_timestamp x v of
             Some nbf_dt \<Rightarrow>
               if now + leeway_of params < nbf_dt then Err (InvalidToken ''token not yet valid'') else Ok ()
           | None \<Rightarrow> Err (InvalidToken ''nbf claim is not a valid integer'')))"

definition check_iss :: "ValidationParams \<Rightarrow> (string \<times> json) list \<Rightarrow> (unit, AuthenticationError) result" where
  "check_iss params claims =
     (case vp_expected_iss params of
        None \<Rightarrow> Ok ()
      | Some expected \<Rightarrow>
          if map_of claims ''iss'' = Some (JString expected) then Ok () else Err (InvalidToken ''issuer mismatch''))"

definition token_auds :: "(string \<times> json) list \<Rightarrow> (string list, AuthenticationError) result" where
  "token_auds claims =
     (case map_of claims ''aud'' of
        Some (JString s) \<Rightarrow> Ok [s]
      | Some (JArray arr) \<Rightarrow> Ok (List.map_filter json_as_str arr)
      | None \<Rightarrow> Ok []
      | Some _ \<Rightarrow> Err (InvalidToken ''aud claim is not a string or array''))"

definition check_aud :: "ValidationParams \<Rightarrow> (string \<times> json) list \<Rightarrow> (unit, AuthenticationError) result" where
  "check_aud params claims =
     (case vp_expected_aud params of
        None \<Rightarrow> Ok ()
      | Some expected \<Rightarrow>
          (case token_auds claims of
             Inl e \<Rightarrow> Err e
           | Inr auds \<Rightarrow>
               if list_ex (\<lambda>ea. ea \<in> set auds) expected then Ok () else Err (InvalidToken ''aud mismatch'')))"

definition validate_with_mapper ::
  "('k, 'f) jwt_externals \<Rightarrow> string \<Rightarrow> 'k \<Rightarrow> Algorithm \<Rightarrow> ValidationParams \<Rightarrow> timestamp \<Rightarrow> 'f PrincipalMapper \<Rightarrow>
   (SecurityContext, AuthenticationError) result" where
  "validate_with_mapper x token key alg params now mapper =
     (case j_decode x token key alg of
        Inl e \<Rightarrow> Err (map_decode_error e)
      | Inr claims \<Rightarrow>
          (case check_exp x params now claims of Inl e \<Rightarrow> Err e | Inr _ \<Rightarrow>
          (case check_nbf x params now claims of Inl e \<Rightarrow> Err e | Inr _ \<Rightarrow>
          (case check_iss params claims of Inl e \<Rightarrow> Err e | Inr _ \<Rightarrow>
          (case check_aud params claims of Inl e \<Rightarrow> Err e | Inr _ \<Rightarrow>
          (case mapper (claims_map_to_claim_set x claims) of
             Inl e \<Rightarrow> Err e
           | Inr (p, cl) \<Rightarrow> Ok \<lparr>sec_principal = p, sec_claims = cl\<rparr>))))))"

end
