(* ===== verification/Ego_Jwks.thy ===== *)
theory Ego_Jwks
  imports Ego_Jwt "HOL-Library.Monad_Syntax"
begin

text \<open>
  Key resolution (\<open>crates/security-jwt/src/jwks.rs\<close>, \<open>key_resolver.rs\<close>): the DER encoding of public keys,
  the resolver of a fixed key, and the resolver that caches a published key set and refreshes it, in the
  background and on demand for a key it does not know.

  A fetch is its result; \<open>None\<close> is a panic of the fetching thread. Instants are nanoseconds. Threads
  interleave in \<open>jwks_step\<close>.
\<close>

section \<open>DER\<close>

text \<open>\<open>n as u8\<close> drops high bits, as \<open>of_nat\<close> does.\<close>

definition der_length :: "nat \<Rightarrow> 8 word list" where
  "der_length n =
     (if n < 128 then [of_nat n]
      else if n < 256 then [0x81, of_nat n]
      else [0x82, of_nat (n div 256), of_nat (n mod 256)])"

definition der_sequence :: "8 word list \<Rightarrow> 8 word list" where
  "der_sequence content = 0x30 # der_length (length content) @ content"

definition der_bitstring :: "8 word list \<Rightarrow> 8 word list" where
  "der_bitstring content = 0x03 # der_length (length content + 1) @ 0x00 # content"

definition der_integer :: "8 word list \<Rightarrow> 8 word list" where
  "der_integer bytes =
     (let content = (if bytes \<noteq> [] \<and> bit (hd bytes) 7 then 0x00 # bytes else bytes)
      in 0x02 # der_length (length content) @ content)"

definition P256_COORD_BYTES :: nat where
  "P256_COORD_BYTES = 32"

text \<open>The encoded keys before they are wrapped as PEM, from the decoded components.\<close>

definition rsa_spki :: "8 word list \<Rightarrow> 8 word list \<Rightarrow> 8 word list" where
  "rsa_spki n e =
     (let inner_seq = der_sequence (der_integer n @ der_integer e);
          alg_seq = der_sequence
            ([0x06, 0x09, 0x2a, 0x86, 0x48, 0x86, 0xf7, 0x0d, 0x01, 0x01, 0x01] @ [0x05, 0x00])
      in der_sequence (alg_seq @ der_bitstring inner_seq))"

definition ec_spki :: "8 word list \<Rightarrow> 8 word list \<Rightarrow> 8 word list" where
  "ec_spki x y =
     (let pad = (\<lambda>c. replicate (P256_COORD_BYTES - length c) 0 @ c);
          point = 0x04 # pad x @ pad y;
          algorithm = der_sequence
            ([0x06, 0x07, 0x2a, 0x86, 0x48, 0xce, 0x3d, 0x02, 0x01] @
             [0x06, 0x08, 0x2a, 0x86, 0x48, 0xce, 0x3d, 0x03, 0x01, 0x07])
      in der_sequence (algorithm @ der_bitstring point))"

fun chunks :: "nat \<Rightarrow> 'a list \<Rightarrow> 'a list list" where
  "chunks n xs = (if n = 0 \<or> xs = [] then [] else take n xs # chunks n (drop n xs))"

declare chunks.simps [simp del]

fun join_lines :: "string list \<Rightarrow> string" where
  "join_lines [] = []"
| "join_lines [l] = l"
| "join_lines (l # ls) = l @ [CHR 0x0A] @ join_lines ls"

definition der_to_pem :: "(8 word list \<Rightarrow> string) \<Rightarrow> 8 word list \<Rightarrow> string" where
  "der_to_pem base64_encode der =
     ''-----BEGIN PUBLIC KEY-----'' @ [CHR 0x0A] @ join_lines (chunks 64 (base64_encode der)) @ [CHR 0x0A] @
     ''-----END PUBLIC KEY-----'' @ [CHR 0x0A]"

record base64 =
  b64_url_decode :: "string \<Rightarrow> (8 word list, string) result"
  b64_encode :: "8 word list \<Rightarrow> string"

definition rsa_components_to_pem :: "base64 \<Rightarrow> string \<Rightarrow> string \<Rightarrow> (string, AuthenticationError) result" where
  "rsa_components_to_pem b n_b64 e_b64 =
     (case b64_url_decode b n_b64 of
        Inl msg \<Rightarrow> Err (ProviderUnavailable (''bad RSA n: '' @ msg))
      | Inr n \<Rightarrow>
          (case b64_url_decode b e_b64 of
             Inl msg \<Rightarrow> Err (ProviderUnavailable (''bad RSA e: '' @ msg))
           | Inr e \<Rightarrow>
               if n = [] \<or> e = [] then Err (InvalidToken ''RSA key has zero-length modulus or exponent'')
               else Ok (der_to_pem (b64_encode b) (rsa_spki n e))))"

definition ec_components_to_pem :: "base64 \<Rightarrow> string \<Rightarrow> string \<Rightarrow> (string, AuthenticationError) result" where
  "ec_components_to_pem b x_b64 y_b64 =
     (case b64_url_decode b x_b64 of
        Inl msg \<Rightarrow> Err (ProviderUnavailable (''bad EC x: '' @ msg))
      | Inr x \<Rightarrow>
          (case b64_url_decode b y_b64 of
             Inl msg \<Rightarrow> Err (ProviderUnavailable (''bad EC y: '' @ msg))
           | Inr y \<Rightarrow>
               if x = [] \<or> y = [] \<or> length x > P256_COORD_BYTES \<or> length y > P256_COORD_BYTES
               then Err (ProviderUnavailable
                 (''EC P-256 coordinate must be 1'' @ map char_of [226, 128, 147 :: nat] @ ''32 bytes '' @
                  map char_of [226, 128, 148 :: nat] @ '' malformed JWK''))
               else Ok (der_to_pem (b64_encode b) (ec_spki x y))))"

datatype jwk = RsaJwk string string | EcJwk string string string | OtherJwk

definition jwk_to_verification_key :: "base64 \<Rightarrow> jwk \<Rightarrow> (VerificationKey, AuthenticationError) result" where
  "jwk_to_verification_key b k =
     (case k of
        RsaJwk n e \<Rightarrow> map_sum id RsaPem (rsa_components_to_pem b n e)
      | EcJwk curve x y \<Rightarrow>
          if curve \<noteq> ''P256''
          then Err (AlgorithmNotSupported (''EC curve '' @ curve @ '' is not supported; only P-256 (ES256)''))
          else map_sum id EcPem (ec_components_to_pem b x y)
      | OtherJwk \<Rightarrow> Err (AlgorithmNotSupported ''unsupported JWK algorithm type''))"

text \<open>The keys of a fetched set: those that cannot be used are skipped.\<close>

definition usable_keys :: "base64 \<Rightarrow> (string option \<times> jwk) list \<Rightarrow> (string option \<times> VerificationKey) list" where
  "usable_keys b ks =
     List.map_filter (\<lambda>(kid, k). case jwk_to_verification_key b k of Inr vk \<Rightarrow> Some (kid, vk) | Inl _ \<Rightarrow> None) ks"

section \<open>Resolvers\<close>

datatype KeyResolverError =
  KeyNotFound "string option"
| AlgorithmMismatch JwtAlgorithm JwtAlgorithm
| InvalidKeyMaterial string

definition LocalKeyResolver_resolve ::
  "JwtAlgorithm \<Rightarrow> VerificationKey \<Rightarrow> string option \<Rightarrow> JwtAlgorithm \<Rightarrow> (VerificationKey, KeyResolverError) result" where
  "LocalKeyResolver_resolve own key kid algorithm =
     (if algorithm \<noteq> own then Err (AlgorithmMismatch own algorithm) else Ok key)"

fun key_algorithm :: "VerificationKey \<Rightarrow> JwtAlgorithm" where
  "key_algorithm (Hmac _) = Hs256"
| "key_algorithm (RsaPem _) = Rs256"
| "key_algorithm (EcPem _) = Es256"

definition vk_to_result :: "VerificationKey \<Rightarrow> JwtAlgorithm \<Rightarrow> (VerificationKey, KeyResolverError) result" where
  "vk_to_result vk algorithm =
     (if key_algorithm vk = algorithm then Ok vk else Err (AlgorithmMismatch (key_algorithm vk) algorithm))"

definition FORCE_REFRESH_DEBOUNCE :: duration where
  "FORCE_REFRESH_DEBOUNCE = 30 * 1000000000"

definition FORCE_REFRESH_INITIAL_AGE :: duration where
  "FORCE_REFRESH_INITIAL_AGE = FORCE_REFRESH_DEBOUNCE + 1000000000"

type_synonym keys = "(string option \<times> VerificationKey) list"
type_synonym fetch = "(keys, AuthenticationError) result option"

record JwksKeyResolver =
  jw_cache :: "string option \<rightharpoonup> VerificationKey"
  jw_last_force_refresh :: timestamp
  jw_refresh_in_flight :: bool

text \<open>Collecting pairs into a \<open>HashMap\<close>: the last pair of a key wins.\<close>

definition collect_keys :: "keys \<Rightarrow> string option \<rightharpoonup> VerificationKey" where
  "collect_keys ks = map_of (rev ks)"

definition warm_cache :: "fetch \<Rightarrow> (string option \<rightharpoonup> VerificationKey) \<Rightarrow> string option \<rightharpoonup> VerificationKey" where
  "warm_cache result cache =
     (case result of
        Some (Inr ks) \<Rightarrow> if ks = [] then cache else collect_keys ks
      | _ \<Rightarrow> cache)"

definition JwksKeyResolver_with_provider :: "fetch \<Rightarrow> timestamp \<Rightarrow> JwksKeyResolver" where
  "JwksKeyResolver_with_provider warmup now =
     \<lparr>jw_cache = warm_cache warmup Map.empty,
      jw_last_force_refresh = now - int FORCE_REFRESH_INITIAL_AGE, jw_refresh_in_flight = False\<rparr>"

definition background_refresh :: "fetch \<Rightarrow> JwksKeyResolver \<Rightarrow> JwksKeyResolver" where
  "background_refresh result r = r\<lparr>jw_cache := warm_cache result (jw_cache r)\<rparr>"

definition force_refresh :: "fetch \<Rightarrow> timestamp \<Rightarrow> JwksKeyResolver \<Rightarrow> JwksKeyResolver" where
  "force_refresh result now r =
     (case result of
        Some (Inr ks) \<Rightarrow>
          if ks = [] then r else r\<lparr>jw_cache := collect_keys ks, jw_last_force_refresh := now\<rparr>
      | _ \<Rightarrow> r)"

definition cached :: "JwksKeyResolver \<Rightarrow> string option \<Rightarrow> JwtAlgorithm \<Rightarrow> (VerificationKey, KeyResolverError) result" where
  "cached r kid algorithm =
     (case jw_cache r kid of Some vk \<Rightarrow> vk_to_result vk algorithm | None \<Rightarrow> Err (KeyNotFound kid))"

text \<open>Debounce check and compare-exchange, both under the debounce lock.\<close>

definition should_refresh :: "timestamp \<Rightarrow> JwksKeyResolver \<Rightarrow> bool \<times> JwksKeyResolver" where
  "should_refresh now r =
     (if now - jw_last_force_refresh r < int FORCE_REFRESH_DEBOUNCE then (False, r)
      else if jw_refresh_in_flight r then (False, r)
      else (True, r\<lparr>jw_refresh_in_flight := True\<rparr>))"

definition reset_in_flight :: "JwksKeyResolver \<Rightarrow> JwksKeyResolver" where
  "reset_in_flight r = r\<lparr>jw_refresh_in_flight := False\<rparr>"

text \<open>\<open>resolve\<close> when no other thread intervenes: \<open>now\<close> at the debounce check, \<open>now'\<close> after the fetch.\<close>

definition JwksKeyResolver_resolve ::
  "timestamp \<Rightarrow> timestamp \<Rightarrow> fetch \<Rightarrow> string option \<Rightarrow> JwtAlgorithm \<Rightarrow> JwksKeyResolver \<Rightarrow>
   (VerificationKey, KeyResolverError) result \<times> JwksKeyResolver" where
  "JwksKeyResolver_resolve now now' result kid algorithm r =
     (case jw_cache r kid of
        Some vk \<Rightarrow> (vk_to_result vk algorithm, r)
      | None \<Rightarrow>
          (case should_refresh now r of
             (False, r1) \<Rightarrow> (Err (KeyNotFound kid), r1)
           | (True, r1) \<Rightarrow>
               (let r2 = force_refresh result now' r1 in (cached r2 kid algorithm, reset_in_flight r2))))"

section \<open>Threads\<close>

text \<open>
  A thread between its calls, past its lookup, refreshing, or refreshed and about to look again. \<open>jt_now\<close>
  is the monotonic clock, \<open>jt_published\<close> every key list a fetch delivered, \<open>jt_refreshes\<close> the instants of
  the forced refreshes that succeeded, newest first.
\<close>

datatype thread =
  Idle
| Missed "string option" JwtAlgorithm
| Refreshing "string option" JwtAlgorithm
| Refreshed "string option" JwtAlgorithm

record jwks_system =
  jt_resolver :: JwksKeyResolver
  jt_threads :: "nat \<Rightarrow> thread"
  jt_now :: timestamp
  jt_published :: "keys list"
  jt_refreshes :: "timestamp list"
  jt_answers :: "(JwtAlgorithm \<times> VerificationKey) list"

definition answer :: "JwtAlgorithm \<Rightarrow> (VerificationKey, KeyResolverError) result \<Rightarrow> jwks_system \<Rightarrow> jwks_system" where
  "answer alg res s = (case res of Inr vk \<Rightarrow> s\<lparr>jt_answers := (alg, vk) # jt_answers s\<rparr> | Inl _ \<Rightarrow> s)"

definition publish :: "fetch \<Rightarrow> jwks_system \<Rightarrow> jwks_system" where
  "publish result s = (case result of Some (Inr ks) \<Rightarrow> s\<lparr>jt_published := ks # jt_published s\<rparr> | _ \<Rightarrow> s)"

inductive jwks_step :: "jwks_system \<Rightarrow> jwks_system \<Rightarrow> bool" where
  tick: "jt_now s \<le> now \<Longrightarrow> jwks_step s (s\<lparr>jt_now := now\<rparr>)"
| background: "jwks_step s (publish result (s\<lparr>jt_resolver := background_refresh result (jt_resolver s)\<rparr>))"
| hit: "jt_threads s i = Idle \<Longrightarrow> jw_cache (jt_resolver s) kid = Some vk \<Longrightarrow>
    jwks_step s (answer alg (vk_to_result vk alg) s)"
| miss: "jt_threads s i = Idle \<Longrightarrow> jw_cache (jt_resolver s) kid = None \<Longrightarrow>
    jwks_step s (s\<lparr>jt_threads := (jt_threads s)(i := Missed kid alg)\<rparr>)"
| refused: "jt_threads s i = Missed kid alg \<Longrightarrow> should_refresh (jt_now s) (jt_resolver s) = (False, r) \<Longrightarrow>
    jwks_step s (s\<lparr>jt_resolver := r, jt_threads := (jt_threads s)(i := Idle)\<rparr>)"
| begin_refresh: "jt_threads s i = Missed kid alg \<Longrightarrow> should_refresh (jt_now s) (jt_resolver s) = (True, r) \<Longrightarrow>
    jwks_step s (s\<lparr>jt_resolver := r, jt_threads := (jt_threads s)(i := Refreshing kid alg)\<rparr>)"
| fetched: "jt_threads s i = Refreshing kid alg \<Longrightarrow>
    jwks_step s (publish result (s\<lparr>jt_resolver := force_refresh result (jt_now s) (jt_resolver s),
      jt_threads := (jt_threads s)(i := Refreshed kid alg),
      jt_refreshes := (case result of Some (Inr (_ # _)) \<Rightarrow> jt_now s # jt_refreshes s | _ \<Rightarrow> jt_refreshes s)\<rparr>))"
| finish: "jt_threads s i = Refreshed kid alg \<Longrightarrow>
    jwks_step s (answer alg (cached (jt_resolver s) kid alg)
      (s\<lparr>jt_resolver := reset_in_flight (jt_resolver s), jt_threads := (jt_threads s)(i := Idle)\<rparr>))"

inductive jwks_reachable :: "jwks_system \<Rightarrow> bool" where
  start: "jwks_reachable
    (publish warmup \<lparr>jt_resolver = JwksKeyResolver_with_provider warmup now, jt_threads = (\<lambda>_. Idle), jt_now = now,
      jt_published = [], jt_refreshes = [], jt_answers = []\<rparr>)"
| step: "jwks_reachable s \<Longrightarrow> jwks_step s s' \<Longrightarrow> jwks_reachable s'"

section \<open>Invariant\<close>

definition refreshing :: "thread \<Rightarrow> bool" where
  "refreshing t \<longleftrightarrow> (\<exists>kid alg. t = Refreshing kid alg)"

definition in_refresh :: "thread \<Rightarrow> bool" where
  "in_refresh t \<longleftrightarrow> (\<exists>kid alg. t = Refreshing kid alg \<or> t = Refreshed kid alg)"

lemma thread_simps [simp]:
  "refreshing Idle = False" "refreshing (Missed kid alg) = False" "refreshing (Refreshing kid alg) = True"
  "refreshing (Refreshed kid alg) = False"
  "in_refresh Idle = False" "in_refresh (Missed kid alg) = False" "in_refresh (Refreshing kid alg) = True"
  "in_refresh (Refreshed kid alg) = True"
  by (simp_all add: refreshing_def in_refresh_def)

text \<open>Only one thread refreshes, and it began no sooner than the debounce interval after the last success.\<close>

definition exclusive :: "jwks_system \<Rightarrow> bool" where
  "exclusive s \<longleftrightarrow>
     (\<forall>i. in_refresh (jt_threads s i) \<longrightarrow> jw_refresh_in_flight (jt_resolver s)) \<and>
     (\<forall>i j. in_refresh (jt_threads s i) \<longrightarrow> in_refresh (jt_threads s j) \<longrightarrow> i = j) \<and>
     (\<forall>i. refreshing (jt_threads s i) \<longrightarrow>
        jw_last_force_refresh (jt_resolver s) + int FORCE_REFRESH_DEBOUNCE \<le> jt_now s)"

definition spaced :: "jwks_system \<Rightarrow> bool" where
  "spaced s \<longleftrightarrow>
     sorted_wrt (\<lambda>a b. b + int FORCE_REFRESH_DEBOUNCE \<le> a) (jt_refreshes s) \<and>
     (case jt_refreshes s of [] \<Rightarrow> True | t # _ \<Rightarrow> t = jw_last_force_refresh (jt_resolver s))"

text \<open>The cache comes from published sets and is not emptied by one; an answer has the type its algorithm needs.\<close>

definition cache_published :: "keys set \<Rightarrow> (string option \<rightharpoonup> VerificationKey) \<Rightarrow> bool" where
  "cache_published P cache \<longleftrightarrow>
     (\<forall>kid vk. cache kid = Some vk \<longrightarrow> (\<exists>ks. ks \<in> P \<and> (kid, vk) \<in> set ks)) \<and>
     (\<forall>ks. ks \<in> P \<longrightarrow> ks \<noteq> [] \<longrightarrow> cache \<noteq> Map.empty)"

definition answers_published :: "keys set \<Rightarrow> (JwtAlgorithm \<times> VerificationKey) set \<Rightarrow> bool" where
  "answers_published P A \<longleftrightarrow>
     (\<forall>alg vk. (alg, vk) \<in> A \<longrightarrow> key_algorithm vk = alg \<and> (\<exists>ks kid. ks \<in> P \<and> (kid, vk) \<in> set ks))"

definition from_published :: "jwks_system \<Rightarrow> bool" where
  "from_published s \<longleftrightarrow> cache_published (set (jt_published s)) (jw_cache (jt_resolver s)) \<and>
     answers_published (set (jt_published s)) (set (jt_answers s))"

lemma vk_to_result_Ok [simp]: "vk_to_result vk alg = Ok vk' \<longleftrightarrow> vk' = vk \<and> key_algorithm vk = alg"
  by (auto simp: vk_to_result_def)

lemma collect_keys_SomeD: "collect_keys ks kid = Some vk \<Longrightarrow> (kid, vk) \<in> set ks"
  by (auto simp: collect_keys_def dest: map_of_SomeD)

lemma collect_keys_empty [simp]: "collect_keys ks = Map.empty \<longleftrightarrow> ks = []"
  by (simp add: collect_keys_def)

lemma answer_simps [simp]:
  "jt_resolver (answer alg res s) = jt_resolver s" "jt_threads (answer alg res s) = jt_threads s"
  "jt_now (answer alg res s) = jt_now s" "jt_published (answer alg res s) = jt_published s"
  "jt_refreshes (answer alg res s) = jt_refreshes s"
  "set (jt_answers (answer alg res s)) = set (jt_answers s) \<union> {(alg, vk) | vk. res = Ok vk}"
  by (auto simp: answer_def split: sum.splits)

lemma publish_simps [simp]:
  "jt_resolver (publish result s) = jt_resolver s" "jt_threads (publish result s) = jt_threads s"
  "jt_now (publish result s) = jt_now s" "jt_refreshes (publish result s) = jt_refreshes s"
  "jt_answers (publish result s) = jt_answers s"
  "set (jt_published (publish result s)) = set (jt_published s) \<union> {ks. result = Some (Ok ks)}"
  by (auto simp: publish_def split: option.splits sum.splits)

lemma force_refresh_simps:
  "jw_refresh_in_flight (force_refresh result now r) = jw_refresh_in_flight r"
  "jw_cache (force_refresh result now r) = warm_cache result (jw_cache r)"
  "jw_last_force_refresh (force_refresh result now r)
     = (case result of Some (Inr (_ # _)) \<Rightarrow> now | _ \<Rightarrow> jw_last_force_refresh r)"
  by (auto simp: force_refresh_def warm_cache_def split: option.splits sum.splits list.splits)

lemma should_refresh_False: "should_refresh now r = (False, r') \<Longrightarrow> r' = r"
  by (auto simp: should_refresh_def split: if_splits)

lemma should_refresh_True:
  "should_refresh now r = (True, r') \<longleftrightarrow>
     jw_last_force_refresh r + int FORCE_REFRESH_DEBOUNCE \<le> now \<and> \<not> jw_refresh_in_flight r \<and>
     r' = r\<lparr>jw_refresh_in_flight := True\<rparr>"
  by (auto simp: should_refresh_def)

lemma refreshing_in_refresh: "refreshing t \<Longrightarrow> in_refresh t"
  by (auto simp: refreshing_def in_refresh_def)

text \<open>While a thread refreshes no other does: what the others may do keeps the exclusion.\<close>

lemma exclusive_alone:
  assumes "\<And>j. j \<noteq> i \<Longrightarrow> \<not> in_refresh (jt_threads s j)"
    and "in_refresh (jt_threads s i) \<Longrightarrow> jw_refresh_in_flight (jt_resolver s)"
    and "\<not> refreshing (jt_threads s i)"
  shows "exclusive s"
  unfolding exclusive_def using assms refreshing_in_refresh by metis

lemma exclusive_others:
  "exclusive s \<Longrightarrow> in_refresh (jt_threads s i) \<Longrightarrow> j \<noteq> i \<Longrightarrow> \<not> in_refresh (jt_threads s j)"
  unfolding exclusive_def by metis

lemma exclusive_flight: "exclusive s \<Longrightarrow> in_refresh (jt_threads s i) \<Longrightarrow> jw_refresh_in_flight (jt_resolver s)"
  unfolding exclusive_def by metis

lemma exclusive_step: "jwks_step s s' \<Longrightarrow> exclusive s \<Longrightarrow> exclusive s'"
proof (induction rule: jwks_step.induct)
  case (fetched s i kid alg result)
  then have others: "\<And>j. j \<noteq> i \<Longrightarrow> \<not> in_refresh (jt_threads s j)"
    and flight: "jw_refresh_in_flight (jt_resolver s)"
    using exclusive_others [of s i] exclusive_flight [of s i] by simp_all
  show ?case by (rule exclusive_alone [of i]) (simp_all add: others flight force_refresh_simps)
next
  case (finish s i kid alg)
  then have "\<And>j. j \<noteq> i \<Longrightarrow> \<not> in_refresh (jt_threads s j)" using exclusive_others [of s i] by simp
  then show ?case by (intro exclusive_alone [of i]) simp_all
qed (auto simp: exclusive_def background_refresh_def should_refresh_True dest!: should_refresh_False)

lemma spaced_step: "jwks_step s s' \<Longrightarrow> exclusive s \<Longrightarrow> spaced s \<Longrightarrow> spaced s'"
proof (induction rule: jwks_step.induct)
  case (fetched s i kid alg result)
  then have "jw_last_force_refresh (jt_resolver s) + int FORCE_REFRESH_DEBOUNCE \<le> jt_now s"
    by (metis exclusive_def thread_simps(3))
  moreover have "t \<le> jw_last_force_refresh (jt_resolver s)" if "t \<in> set (jt_refreshes s)" for t
    using fetched(3) that by (cases "jt_refreshes s") (auto simp: spaced_def)
  ultimately show ?case
    using fetched(3) by (auto simp: spaced_def force_refresh_simps split: option.splits sum.splits list.splits)
qed (auto simp: spaced_def background_refresh_def reset_in_flight_def should_refresh_True dest!: should_refresh_False
    split: list.splits)

lemma warm_cache_SomeD:
  "warm_cache result cache kid = Some vk \<Longrightarrow>
     cache kid = Some vk \<or> (\<exists>ks. result = Some (Ok ks) \<and> (kid, vk) \<in> set ks)"
  by (auto simp: warm_cache_def dest: collect_keys_SomeD split: option.splits sum.splits if_splits)

lemma warm_cache_empty:
  "warm_cache result cache = Map.empty \<Longrightarrow> cache = Map.empty \<and> (\<forall>ks. result = Some (Ok ks) \<longrightarrow> ks = [])"
  by (auto simp: warm_cache_def split: option.splits sum.splits if_splits)

lemma cache_published_warm:
  assumes "cache_published P cache"
  shows "cache_published (P \<union> {ks. result = Some (Ok ks)}) (warm_cache result cache)"
  unfolding cache_published_def
proof (intro conjI allI impI)
  fix kid vk assume "warm_cache result cache kid = Some vk"
  then show "\<exists>ks. ks \<in> P \<union> {ks. result = Some (Ok ks)} \<and> (kid, vk) \<in> set ks"
    using assms warm_cache_SomeD [of result cache kid vk] unfolding cache_published_def by blast
next
  fix ks assume "ks \<in> P \<union> {ks. result = Some (Ok ks)}" "ks \<noteq> []"
  then show "warm_cache result cache \<noteq> Map.empty"
    using assms warm_cache_empty [of result cache] unfolding cache_published_def by auto
qed

lemma answers_published_mono: "answers_published P A \<Longrightarrow> P \<subseteq> Q \<Longrightarrow> answers_published Q A"
  unfolding answers_published_def by (meson subsetD)

lemma answers_published_lookup:
  assumes "answers_published P A" and "cache_published P cache" and lookup: "cache kid = Some vk"
  shows "answers_published P (A \<union> {(alg, vk') | vk'. vk_to_result vk alg = Ok vk'})"
proof -
  obtain ks where "ks \<in> P" "(kid, vk) \<in> set ks" using assms(2) lookup unfolding cache_published_def by meson
  then show ?thesis using assms(1) unfolding answers_published_def by auto
qed

lemma from_published_step: "jwks_step s s' \<Longrightarrow> from_published s \<Longrightarrow> from_published s'"
proof (induction rule: jwks_step.induct)
  case (background s result)
  then show ?case
    by (auto simp: from_published_def background_refresh_def intro: cache_published_warm answers_published_mono)
next
  case (fetched s i kid alg result)
  then show ?case
    by (auto simp: from_published_def force_refresh_simps intro: cache_published_warm answers_published_mono)
next
  case (finish s i kid alg)
  then show ?case
  proof (cases "jw_cache (jt_resolver s) kid")
    case None
    then show ?thesis using finish by (simp add: from_published_def reset_in_flight_def cached_def)
  next
    case (Some vk)
    then show ?thesis using finish answers_published_lookup [of _ _ "jw_cache (jt_resolver s)" kid vk alg]
      by (simp add: from_published_def reset_in_flight_def cached_def)
  qed
next
  case (hit s i kid vk alg)
  then show ?case using answers_published_lookup [of _ _ "jw_cache (jt_resolver s)" kid vk alg] by (simp add: from_published_def)
qed (auto simp: from_published_def should_refresh_True dest!: should_refresh_False)

lemma jwks_invariant: "jwks_reachable s \<Longrightarrow> exclusive s \<and> spaced s \<and> from_published s"
proof (induction rule: jwks_reachable.induct)
  case (start warmup now)
  have "cache_published ({} \<union> {ks. warmup = Some (Ok ks)}) (warm_cache warmup Map.empty)"
    by (rule cache_published_warm) (simp add: cache_published_def)
  then show ?case
    by (simp add: exclusive_def spaced_def from_published_def answers_published_def JwksKeyResolver_with_provider_def)
next
  case (step s s')
  then show ?case using exclusive_step spaced_step from_published_step by blast
qed

section \<open>Reading DER back\<close>

text \<open>A reference reader of the long and short length forms, and of an element of a given tag.\<close>

fun read_length :: "8 word list \<Rightarrow> (nat \<times> 8 word list) option" where
  "read_length [] = None"
| "read_length (b # bs) =
     (if b < 0x80 then Some (unat b, bs)
      else if b = 0x81 then (case bs of l # bs' \<Rightarrow> Some (unat l, bs') | _ \<Rightarrow> None)
      else if b = 0x82 then (case bs of h # l # bs' \<Rightarrow> Some (unat h * 256 + unat l, bs') | _ \<Rightarrow> None)
      else None)"

definition read_element :: "8 word \<Rightarrow> 8 word list \<Rightarrow> (8 word list \<times> 8 word list) option" where
  "read_element tag bs =
     (case bs of
        [] \<Rightarrow> None
      | t # rest \<Rightarrow>
          if t \<noteq> tag then None
          else (case read_length rest of
                  None \<Rightarrow> None
                | Some (n, content) \<Rightarrow>
                    if length content < n then None else Some (take n content, drop n content)))"

lemma unat_of_nat_byte: "n < 256 \<Longrightarrow> unat (of_nat n :: 8 word) = n"
  by (simp add: unat_of_nat take_bit_nat_eq_self)

lemma read_der_length: "n < 65536 \<Longrightarrow> read_length (der_length n @ rest) = Some (n, rest)"
proof (cases "n < 128")
  case True
  then have "(of_nat n :: 8 word) < 0x80" by (simp add: word_less_nat_alt unat_of_nat_byte)
  then show ?thesis using True by (simp add: der_length_def unat_of_nat_byte)
next
  case False
  assume "n < 65536"
  then have "n div 256 < 256" by (simp add: less_mult_imp_div_less)
  then show ?thesis using False
    by (cases "n < 256") (simp_all add: der_length_def unat_of_nat_byte)
qed

lemma read_tagged:
  "length content < 65536 \<Longrightarrow> read_element tag (tag # der_length (length content) @ content @ rest) = Some (content, rest)"
  by (simp add: read_element_def read_der_length)

text \<open>Big-endian bytes as a number, and as the two's-complement number a DER \<open>INTEGER\<close> is.\<close>

definition byte_value :: "8 word list \<Rightarrow> int" where
  "byte_value bytes = foldl (\<lambda>acc b. acc * 256 + uint b) 0 bytes"

definition integer_value :: "8 word list \<Rightarrow> int" where
  "integer_value bytes =
     byte_value bytes - (if bytes \<noteq> [] \<and> bit (hd bytes) 7 then 256 ^ length bytes else 0)"

text \<open>A reader of RSA public keys: algorithm, bit string, and in it the pair of integers, each read to its end.\<close>

definition read_rsa_spki :: "8 word list \<Rightarrow> (int \<times> int) option" where
  "read_rsa_spki der =
     do {
       (spki, rest) \<leftarrow> read_element 0x30 der;
       (_, after_alg) \<leftarrow> read_element 0x30 spki;
       (bits, rest') \<leftarrow> read_element 0x03 after_alg;
       (pair, rest'') \<leftarrow> read_element 0x30 (tl bits);
       (n, after_n) \<leftarrow> read_element 0x02 pair;
       (e, after_e) \<leftarrow> read_element 0x02 after_n;
       if rest = [] \<and> rest' = [] \<and> rest'' = [] \<and> after_e = [] \<and> hd bits = 0
       then Some (integer_value n, integer_value e) else None
     }"

definition integer_content :: "8 word list \<Rightarrow> 8 word list" where
  "integer_content bytes = (if bytes \<noteq> [] \<and> bit (hd bytes) 7 then 0x00 # bytes else bytes)"

lemma der_integer_content:
  "der_integer bytes = 0x02 # der_length (length (integer_content bytes)) @ integer_content bytes"
  by (simp add: der_integer_def integer_content_def Let_def)

lemma integer_value_content: "integer_value (integer_content bytes) = byte_value bytes"
  by (simp add: integer_value_def integer_content_def byte_value_def)

lemma integer_content_length: "length (integer_content bytes) \<le> Suc (length bytes)"
  by (simp add: integer_content_def)

lemma der_length_length: "length (der_length n) \<le> 3"
  by (simp add: der_length_def)

lemma read_der_sequence:
  "length content < 65536 \<Longrightarrow> read_element 0x30 (der_sequence content @ rest) = Some (content, rest)"
  by (simp add: der_sequence_def read_tagged)

lemma read_der_integer:
  "length bytes < 65535 \<Longrightarrow> read_element 0x02 (der_integer bytes @ rest) = Some (integer_content bytes, rest)"
  using read_tagged [of "integer_content bytes" "0x02" rest] integer_content_length [of bytes]
  by (simp add: der_integer_content)

lemma read_der_bitstring:
  "length content < 65535 \<Longrightarrow> read_element 0x03 (der_bitstring content @ rest) = Some (0 # content, rest)"
  using read_tagged [of "0 # content" "0x03" rest] by (simp add: der_bitstring_def)

lemma der_part_length:
  "length (der_sequence content) \<le> length content + 4"
  "length (der_integer bytes) \<le> length bytes + 5"
  "length (der_bitstring content) \<le> length content + 5"
  using der_length_length [of "length content"] der_length_length [of "length content + 1"]
    der_length_length [of "length (integer_content bytes)"] integer_content_length [of bytes]
  by (simp_all add: der_sequence_def der_integer_content der_bitstring_def)

text \<open>
  An RSA key whose modulus and exponent together have at most 65000 bytes is encoded as a DER structure
  from which exactly the two numbers are read back; a modulus with its top bit set does not turn negative.
\<close>

theorem rsa_key_round_trip:
  assumes "length n + length e \<le> 65000"
  shows "read_rsa_spki (rsa_spki n e) = Some (byte_value n, byte_value e)"
proof -
  define ints where "ints = der_integer n @ der_integer e"
  have ints: "length ints \<le> 65010"
    using assms der_part_length(2) [of n] der_part_length(2) [of e] by (simp add: ints_def)
  define alg where "alg = der_sequence [0x06, 0x09, 0x2a, 0x86, 0x48, 0x86, 0xf7, 0x0d, 0x01, 0x01, 0x01, 0x05, 0x00]"
  have seq: "length (der_sequence ints) \<le> 65014" using ints der_part_length(1) [of ints] by simp
  have body: "length (alg @ der_bitstring (der_sequence ints)) < 65536"
    using seq der_part_length(3) [of "der_sequence ints"]
      der_part_length(1) [of "[0x06, 0x09, 0x2a, 0x86, 0x48, 0x86, 0xf7, 0x0d, 0x01, 0x01, 0x01, 0x05, 0x00]"]
    by (simp add: alg_def)
  have "rsa_spki n e = der_sequence (alg @ der_bitstring (der_sequence ints))"
    by (simp add: rsa_spki_def ints_def alg_def)
  moreover have "read_element 0x30 (alg @ rest) = Some ([0x06, 0x09, 0x2a, 0x86, 0x48, 0x86, 0xf7, 0x0d, 0x01, 0x01, 0x01, 0x05, 0x00], rest)" for rest
    unfolding alg_def by (rule read_der_sequence) simp
  moreover have "read_element 0x02 ints = Some (integer_content n, der_integer e)"
    unfolding ints_def using assms by (intro read_der_integer) simp
  ultimately show ?thesis
    using read_der_sequence [OF body, of "[]"] read_der_bitstring [of "der_sequence ints" "[]"] seq ints
      read_der_sequence [of ints "[]"] read_der_integer [of e "[]"] assms
    by (simp add: read_rsa_spki_def integer_value_content)
qed

theorem rsa_key_round_trip_witness:
  "read_rsa_spki (rsa_spki [0xC3, 0x01] [0x01, 0x00, 0x01]) = Some (49921, 65537)"
  using rsa_key_round_trip [of "[0xC3, 0x01]" "[0x01, 0x00, 0x01]"] by (simp add: byte_value_def)

text \<open>A length of 65536 bytes or more loses its high bits: the encoding of such a length is that of another.\<close>

lemma der_length_truncates: "der_length 65536 = [0x82, 0x00, 0x00]"
  by (simp add: der_length_def)

section \<open>Properties\<close>

text \<open>A thread that misses a key and may refresh: the fetch replaces the cache and the flag is clear again.\<close>

lemma forced_round:
  assumes reachable: "jwks_reachable s" and idle: "jt_threads s i = Idle"
    and missing: "jw_cache (jt_resolver s) kid = None"
    and due: "should_refresh (jt_now s) (jt_resolver s) = (True, r)"
    and keys: "ks \<noteq> []"
  obtains s' where "jwks_reachable s'" "jt_refreshes s' = jt_now s # jt_refreshes s" "jt_now s' = jt_now s"
    "jt_threads s' i = Idle" "jw_cache (jt_resolver s') = collect_keys ks"
    "jw_last_force_refresh (jt_resolver s') = jt_now s" "\<not> jw_refresh_in_flight (jt_resolver s')"
proof -
  define s1 where "s1 = s\<lparr>jt_threads := (jt_threads s)(i := Missed kid Hs256)\<rparr>"
  define s2 where "s2 = s1\<lparr>jt_resolver := r, jt_threads := (jt_threads s1)(i := Refreshing kid Hs256)\<rparr>"
  define s3 where "s3 = publish (Some (Ok ks)) (s2\<lparr>jt_resolver := force_refresh (Some (Ok ks)) (jt_now s2) (jt_resolver s2),
      jt_threads := (jt_threads s2)(i := Refreshed kid Hs256),
      jt_refreshes := (case (Some (Ok ks) :: fetch) of Some (Inr (_ # _)) \<Rightarrow> jt_now s2 # jt_refreshes s2 | _ \<Rightarrow> jt_refreshes s2)\<rparr>)"
  define s4 where "s4 = answer Hs256 (cached (jt_resolver s3) kid Hs256)
      (s3\<lparr>jt_resolver := reset_in_flight (jt_resolver s3), jt_threads := (jt_threads s3)(i := Idle)\<rparr>)"
  have "jwks_step s s1" unfolding s1_def by (rule miss [OF idle missing])
  moreover have "jwks_step s1 s2" unfolding s2_def using due by (intro begin_refresh) (simp_all add: s1_def)
  moreover have "jwks_step s2 s3" unfolding s3_def by (rule fetched [where kid = kid and alg = Hs256]) (simp add: s2_def)
  moreover have "jwks_step s3 s4" unfolding s4_def by (rule finish) (simp add: s3_def)
  ultimately have "jwks_reachable s4" using reachable by (meson jwks_reachable.step)
  moreover have "jt_refreshes s4 = jt_now s # jt_refreshes s"
    using keys by (cases ks) (simp_all add: s4_def s3_def s2_def s1_def)
  ultimately show ?thesis
    using keys that [of s4] by (simp add: s4_def s3_def s2_def s1_def force_refresh_def reset_in_flight_def)
qed

text \<open>
  C38: In every run of the resolver's threads, at most one thread is refreshing on demand, and two forced
  refreshes that succeeded are at least the debounce interval of thirty seconds apart.
\<close>

theorem forced_refreshes_are_spaced:
  assumes "jwks_reachable s"
  shows "sorted_wrt (\<lambda>later earlier. earlier + 30 * 1000000000 \<le> later) (jt_refreshes s) \<and>
    (\<forall>i j. in_refresh (jt_threads s i) \<longrightarrow> in_refresh (jt_threads s j) \<longrightarrow> i = j)"
  using jwks_invariant [OF assms] by (simp add: spaced_def exclusive_def FORCE_REFRESH_DEBOUNCE_def)

theorem forced_refreshes_are_spaced_witness:
  "\<exists>s. jwks_reachable s \<and> length (jt_refreshes s) = 2 \<and>
     sorted_wrt (\<lambda>later earlier. earlier + 30 * 1000000000 \<le> later) (jt_refreshes s)"
proof -
  let ?start = "publish None \<lparr>jt_resolver = JwksKeyResolver_with_provider None 0, jt_threads = (\<lambda>_. Idle), jt_now = 0,
      jt_published = [], jt_refreshes = [], jt_answers = []\<rparr>"
  have "jwks_reachable ?start" by (rule jwks_reachable.start)
  then obtain s where s: "jwks_reachable s" "jt_refreshes s = [0]" "jt_now s = 0" "jt_threads s 0 = Idle"
      "jw_cache (jt_resolver s) = collect_keys [(None, Hmac ''k'')]"
      "jw_last_force_refresh (jt_resolver s) = 0" "\<not> jw_refresh_in_flight (jt_resolver s)"
    by (rule forced_round [of ?start 0 None _ "[(None, Hmac ''k'')]"])
      (simp_all add: JwksKeyResolver_with_provider_def warm_cache_def should_refresh_def FORCE_REFRESH_INITIAL_AGE_def
        FORCE_REFRESH_DEBOUNCE_def)
  let ?later = "s\<lparr>jt_now := 31 * 1000000000\<rparr>"
  have "jwks_reachable ?later" using s by (intro jwks_reachable.step [OF s(1)] tick) simp
  then obtain s' where "jwks_reachable s'" "jt_refreshes s' = [31 * 1000000000, 0]"
    by (rule forced_round [of ?later 0 "Some ''new''" _ "[(None, Hmac ''k'')]"])
      (simp_all add: s collect_keys_def should_refresh_def FORCE_REFRESH_DEBOUNCE_def)
  then show ?thesis using forced_refreshes_are_spaced [of s'] by (intro exI [of _ s']) simp
qed

text \<open>
  C37: In every run, a key the resolver hands out for an algorithm is of the type that algorithm needs, so a
  token cannot have an RSA key used as an HMAC secret, and it stands in a key set that a fetch delivered;
  the same holds of every cached key; and once a non-empty set was delivered the cache is never empty again.
\<close>

theorem served_keys_are_published:
  assumes "jwks_reachable s"
  shows "(\<forall>alg vk. (alg, vk) \<in> set (jt_answers s) \<longrightarrow>
            key_algorithm vk = alg \<and> (\<exists>ks kid. ks \<in> set (jt_published s) \<and> (kid, vk) \<in> set ks)) \<and>
         (\<forall>kid vk. jw_cache (jt_resolver s) kid = Some vk \<longrightarrow>
            (\<exists>ks. ks \<in> set (jt_published s) \<and> (kid, vk) \<in> set ks)) \<and>
         (\<forall>ks. ks \<in> set (jt_published s) \<longrightarrow> ks \<noteq> [] \<longrightarrow> jw_cache (jt_resolver s) \<noteq> Map.empty)"
  using jwks_invariant [OF assms] unfolding from_published_def cache_published_def answers_published_def by blast

theorem served_keys_are_published_witness:
  "\<exists>s. jwks_reachable s \<and> (Hs256, Hmac ''k'') \<in> set (jt_answers s) \<and> key_algorithm (Hmac ''k'') = Hs256"
proof -
  let ?start = "publish (Some (Ok [(None, Hmac ''k'')]))
      \<lparr>jt_resolver = JwksKeyResolver_with_provider (Some (Ok [(None, Hmac ''k'')])) 0, jt_threads = (\<lambda>_. Idle),
       jt_now = 0, jt_published = [], jt_refreshes = [], jt_answers = []\<rparr>"
  let ?served = "answer Hs256 (vk_to_result (Hmac ''k'') Hs256) ?start"
  have "jwks_step ?start ?served"
    by (rule hit [of _ 0 None]) (simp_all add: JwksKeyResolver_with_provider_def warm_cache_def collect_keys_def)
  then have served: "jwks_reachable ?served" by (rule jwks_reachable.step [OF jwks_reachable.start])
  have "(Hs256, Hmac ''k'') \<in> set (jt_answers ?served)" by simp
  then show ?thesis using served served_keys_are_published [OF served] by blast
qed

end
