(* ===== verification/Ego_Oidc.thy ===== *)
theory Ego_Oidc
  imports Ego_Jwks "HOL-Library.AList"
begin

text \<open>
  Token authentication (\<open>crates/security-jwt/src\<close>: \<open>config.rs\<close>, \<open>authenticator.rs\<close>, \<open>oidc_config.rs\<close>,
  \<open>discovery.rs\<close>, \<open>introspection.rs\<close>, \<open>oidc_provider.rs\<close>, \<open>multi_issuer.rs\<close>): the providers that pin one
  algorithm, the OIDC provider that routes a token to its keys or to an introspection endpoint, and the cache
  of introspection results with its eviction queue.

  Answers of remote endpoints are arguments; \<open>None\<close> is a task that was dropped before it answered.
\<close>

section \<open>Configuration\<close>

datatype ConfigError = ConfigInvalid string string

definition not_empty :: "string \<Rightarrow> ConfigError" where
  "not_empty field = ConfigInvalid field ''must not be empty''"

record JwtProviderConfig =
  jc_expected_iss :: "string option"
  jc_expected_aud :: "string list option"
  jc_leeway_seconds :: "u64 option"

definition MAX_LEEWAY_SECONDS :: u64 where
  "MAX_LEEWAY_SECONDS = 300"

definition em_dash :: string where
  "em_dash = map char_of [226, 128, 148 :: nat]"

definition JwtProviderConfig_validate :: "JwtProviderConfig \<Rightarrow> (unit, ConfigError) result" where
  "JwtProviderConfig_validate c =
     (if (case jc_leeway_seconds c of Some leeway \<Rightarrow> leeway > MAX_LEEWAY_SECONDS | None \<Rightarrow> False)
      then Err (ConfigInvalid ''leeway_seconds'' ''must not exceed 300 seconds'')
      else if jc_expected_iss c = Some [] then Err (not_empty ''expected_iss'')
      else (case jc_expected_aud c of
        None \<Rightarrow> Err (ConfigInvalid ''expected_aud''
          (''is required '' @ em_dash @ '' without it, a signature-valid token for any audience is accepted (audience-confusion / token-reuse risk)''))
      | Some aud \<Rightarrow>
          if aud = [] then Err (ConfigInvalid ''expected_aud'' ''must not be empty when set'')
          else if list_ex (\<lambda>s. s = []) aud then Err (ConfigInvalid ''expected_aud'' ''must not contain empty string entries'')
          else Ok ()))"

section \<open>Providers of one algorithm\<close>

definition show_jwt_algorithm :: "JwtAlgorithm \<Rightarrow> string" where
  "show_jwt_algorithm a = (case a of Hs256 \<Rightarrow> ''Hs256'' | Rs256 \<Rightarrow> ''Rs256'' | Es256 \<Rightarrow> ''Es256'')"

definition map_resolver_error :: "KeyResolverError \<Rightarrow> AuthenticationError" where
  "map_resolver_error e =
     (case e of
        KeyNotFound _ \<Rightarrow> InvalidSignature
      | AlgorithmMismatch expected requested \<Rightarrow> AlgorithmNotSupported
          (''algorithm mismatch: expected '' @ show_jwt_algorithm expected @ '', requested '' @ show_jwt_algorithm requested)
      | InvalidKeyMaterial msg \<Rightarrow> InvalidToken (''key material: '' @ msg))"

definition MAX_TOKEN_BYTES :: nat where
  "MAX_TOKEN_BYTES = 8192"

type_synonym 's KeyResolver =
  "string option \<Rightarrow> JwtAlgorithm \<Rightarrow> 's \<Rightarrow> (VerificationKey, KeyResolverError) result option \<times> 's"

definition resolve_key_sync ::
  "'s KeyResolver \<Rightarrow> string option \<Rightarrow> JwtAlgorithm \<Rightarrow> 's \<Rightarrow> (VerificationKey, AuthenticationError) result \<times> 's" where
  "resolve_key_sync resolve kid algorithm s =
     (case resolve kid algorithm s of
        (None, s') \<Rightarrow> (Err (ProviderUnavailable ''key resolver did not complete (pool exhausted or task dropped)''), s')
      | (Some r, s') \<Rightarrow> (map_sum map_resolver_error id r, s'))"

definition bearer_token :: "Credential \<Rightarrow> (string, AuthenticationError) result" where
  "bearer_token credential =
     (case credential of
        Bearer raw \<Rightarrow>
          if length raw > MAX_TOKEN_BYTES then Err (InvalidToken ''token exceeds maximum allowed size'') else Ok raw
      | _ \<Rightarrow> Err (InvalidToken ''expected Bearer credential''))"

definition authenticate_inner ::
  "('k, 'f) jwt_externals \<Rightarrow> string \<Rightarrow> JwtProviderConfig \<Rightarrow> 's KeyResolver \<Rightarrow> timestamp \<Rightarrow> Algorithm \<Rightarrow> JwtAlgorithm \<Rightarrow>
   'f PrincipalMapper \<Rightarrow> (VerificationKey \<Rightarrow> ('k, AuthenticationError) result) \<Rightarrow> 's \<Rightarrow>
   (SecurityContext, AuthenticationError) result \<times> 's" where
  "authenticate_inner x token config resolve now expected_alg jwt_alg mapper build_decoding_key s =
     (case j_decode_header x token of
        Inl msg \<Rightarrow> (Err (InvalidToken msg), s)
      | Inr (alg, kid) \<Rightarrow>
          if alg \<noteq> expected_alg
          then (Err (AlgorithmNotSupported
                  (''expected '' @ j_show_algorithm x expected_alg @ '' but token uses '' @ j_show_algorithm x alg)), s)
          else (case resolve_key_sync resolve kid jwt_alg s of
            (Inl e, s') \<Rightarrow> (Err e, s')
          | (Inr verification_key, s') \<Rightarrow>
              (case build_decoding_key verification_key of
                 Inl e \<Rightarrow> (Err e, s')
               | Inr decoding_key \<Rightarrow>
                   (validate_with_mapper x token decoding_key expected_alg
                      \<lparr>vp_expected_iss = jc_expected_iss config, vp_expected_aud = jc_expected_aud config,
                       vp_leeway_seconds = jc_leeway_seconds config\<rparr> now mapper, s'))))"

definition hs256_decoding_key :: "('k, 'f) jwt_externals \<Rightarrow> VerificationKey \<Rightarrow> ('k, AuthenticationError) result" where
  "hs256_decoding_key x key =
     (case key of
        Hmac bytes \<Rightarrow>
          if length bytes < 32
          then Err (ProviderUnavailable ''HMAC secret must be at least 32 bytes (NIST SP 800-107)'')
          else Ok (j_from_secret x bytes)
      | _ \<Rightarrow> Err (InvalidToken ''expected HMAC key''))"

definition rs256_decoding_key :: "('k, 'f) jwt_externals \<Rightarrow> VerificationKey \<Rightarrow> ('k, AuthenticationError) result" where
  "rs256_decoding_key x key =
     (case key of
        RsaPem pem \<Rightarrow> map_sum (\<lambda>e. InvalidToken (''bad RSA public key: '' @ e)) id (j_from_rsa_pem x pem)
      | _ \<Rightarrow> Err (InvalidToken ''expected RSA PEM key''))"

definition es256_decoding_key :: "('k, 'f) jwt_externals \<Rightarrow> VerificationKey \<Rightarrow> ('k, AuthenticationError) result" where
  "es256_decoding_key x key =
     (case key of
        EcPem pem \<Rightarrow> map_sum (\<lambda>e. InvalidToken (''bad EC public key: '' @ e)) id (j_from_ec_pem x pem)
      | _ \<Rightarrow> Err (InvalidToken ''expected EC PEM key''))"

text \<open>\<open>define_provider!\<close>: what a provider keeps besides its resolver and its clock.\<close>

record 'f single_provider =
  sp_config :: JwtProviderConfig
  sp_mapper :: "'f PrincipalMapper"

definition provider_try_new :: "('k, 'f) jwt_externals \<Rightarrow> JwtProviderConfig \<Rightarrow> ('f single_provider, ConfigError) result" where
  "provider_try_new x config =
     (case JwtProviderConfig_validate config of
        Inl e \<Rightarrow> Err e
      | Inr _ \<Rightarrow> Ok \<lparr>sp_config = config, sp_mapper = DefaultPrincipalMapper_map x\<rparr>)"

definition provider_with_mapper :: "'f PrincipalMapper \<Rightarrow> 'f single_provider \<Rightarrow> 'f single_provider" where
  "provider_with_mapper mapper p = p\<lparr>sp_mapper := mapper\<rparr>"

definition Hs256AuthenticationProvider_authenticate ::
  "('k, 'f) jwt_externals \<Rightarrow> 'f single_provider \<Rightarrow> 's KeyResolver \<Rightarrow> timestamp \<Rightarrow> Credential \<Rightarrow> 's \<Rightarrow>
   (SecurityContext, AuthenticationError) result \<times> 's" where
  "Hs256AuthenticationProvider_authenticate x p resolve now credential s =
     (case bearer_token credential of
        Inl e \<Rightarrow> (Err e, s)
      | Inr token \<Rightarrow> authenticate_inner x token (sp_config p) resolve now HS256 Hs256 (sp_mapper p) (hs256_decoding_key x) s)"

definition Rs256AuthenticationProvider_authenticate ::
  "('k, 'f) jwt_externals \<Rightarrow> 'f single_provider \<Rightarrow> 's KeyResolver \<Rightarrow> timestamp \<Rightarrow> Credential \<Rightarrow> 's \<Rightarrow>
   (SecurityContext, AuthenticationError) result \<times> 's" where
  "Rs256AuthenticationProvider_authenticate x p resolve now credential s =
     (case bearer_token credential of
        Inl e \<Rightarrow> (Err e, s)
      | Inr token \<Rightarrow> authenticate_inner x token (sp_config p) resolve now RS256 Rs256 (sp_mapper p) (rs256_decoding_key x) s)"

definition Es256AuthenticationProvider_authenticate ::
  "('k, 'f) jwt_externals \<Rightarrow> 'f single_provider \<Rightarrow> 's KeyResolver \<Rightarrow> timestamp \<Rightarrow> Credential \<Rightarrow> 's \<Rightarrow>
   (SecurityContext, AuthenticationError) result \<times> 's" where
  "Es256AuthenticationProvider_authenticate x p resolve now credential s =
     (case bearer_token credential of
        Inl e \<Rightarrow> (Err e, s)
      | Inr token \<Rightarrow> authenticate_inner x token (sp_config p) resolve now ES256 Es256 (sp_mapper p) (es256_decoding_key x) s)"

section \<open>OIDC configuration\<close>

datatype TokenFormat = FormatJwt | FormatOpaque | FormatAuto

text \<open>A parsed URL, by its scheme and host.\<close>

record Url =
  url_scheme :: string
  url_host :: "string option"

record OidcProviderConfig =
  oc_issuer_url :: "Url option"
  oc_jwks_uri :: "Url option"
  oc_expected_iss :: "string option"
  oc_expected_aud :: "string list option"
  oc_leeway_seconds :: "u64 option"
  oc_jwks_refresh_ttl_seconds :: "u64 option"
  oc_token_format :: "TokenFormat option"
  oc_introspection_endpoint :: "Url option"
  oc_introspection_client_id :: "string option"
  oc_introspection_client_secret :: "string option"
  oc_introspection_cache_ttl_seconds :: "u64 option"
  oc_allowed_algorithms :: "JwtAlgorithm list option"

definition validate_url_requires_https :: "Url \<Rightarrow> string \<Rightarrow> (unit, AuthenticationError) result" where
  "validate_url_requires_https url field =
     (if url_scheme url = ''https'' then Ok ()
      else if url_scheme url = ''http'' then
        (let host = (case url_host url of Some h \<Rightarrow> h | None \<Rightarrow> []) in
         if host = ''localhost'' \<or> host = ''127.0.0.1'' \<or> host = ''[::1]'' then Ok ()
         else Err (ProviderUnavailable (field @ '' must use https (http allowed only for localhost/127.0.0.1/[::1])'')))
      else Err (ProviderUnavailable
        (field @ '' has unsupported scheme '' @ quoted (url_scheme url) @ '' '' @ em_dash @ '' must be https'')))"

definition validate_optional_url :: "Url option \<Rightarrow> string \<Rightarrow> (unit, AuthenticationError) result" where
  "validate_optional_url url field =
     (case url of None \<Rightarrow> Ok () | Some u \<Rightarrow> validate_url_requires_https u field)"

definition OidcProviderConfig_validate :: "OidcProviderConfig \<Rightarrow> (unit, AuthenticationError) result" where
  "OidcProviderConfig_validate c =
     (if oc_issuer_url c = None \<and> oc_jwks_uri c = None
      then Err (ProviderUnavailable ''either issuer_url or jwks_uri must be configured'')
      else (case validate_optional_url (oc_jwks_uri c) ''jwks_uri'' of Inl e \<Rightarrow> Err e | Inr _ \<Rightarrow>
           (case validate_optional_url (oc_issuer_url c) ''issuer_url'' of Inl e \<Rightarrow> Err e | Inr _ \<Rightarrow>
           (case validate_optional_url (oc_introspection_endpoint c) ''introspection_endpoint'' of Inl e \<Rightarrow> Err e | Inr _ \<Rightarrow>
            if oc_introspection_endpoint c \<noteq> None \<and>
               (oc_introspection_client_id c = None \<or> oc_introspection_client_secret c = None)
            then Err (ProviderUnavailable
              ''introspection_endpoint requires introspection_client_id and introspection_client_secret'')
            else if oc_introspection_endpoint c = None \<and>
               (oc_introspection_client_id c \<noteq> None \<or> oc_introspection_client_secret c \<noteq> None)
            then Err (ProviderUnavailable ''introspection_client_id/secret set without introspection_endpoint'')
            else if oc_introspection_cache_ttl_seconds c = Some 0
            then Err (ProviderUnavailable ''introspection_cache_ttl_seconds must be >= 1 (use None to disable cache)'')
            else if (case oc_introspection_cache_ttl_seconds c of Some ttl \<Rightarrow> ttl > 300 | None \<Rightarrow> False)
            then Err (ProviderUnavailable
              ''introspection_cache_ttl_seconds must be <= 300 (longer TTLs defeat token revocation)'')
            else if oc_allowed_algorithms c = Some []
            then Err (ProviderUnavailable ''allowed_algorithms must not be empty'')
            else if oc_jwks_uri c \<noteq> None \<and> oc_expected_iss c = None
            then Err (ProviderUnavailable
              (''expected_iss is required when jwks_uri is configured '' @ em_dash @
               '' without it, tokens from any issuer are accepted''))
            else Ok ()))))"

record OidcEndpoints =
  oe_jwks_uri :: Url
  oe_introspection_endpoint :: "Url option"

text \<open>What discovery makes of a document: its key set is required, and its URLs are held to the same rule.\<close>

definition discovery_endpoints :: "Url option \<Rightarrow> Url option \<Rightarrow> (OidcEndpoints, AuthenticationError) result" where
  "discovery_endpoints jwks_uri introspection_endpoint =
     (case jwks_uri of
        None \<Rightarrow> Err (ProviderUnavailable ''discovery document missing required jwks_uri'')
      | Some uri \<Rightarrow>
          (case validate_url_requires_https uri ''jwks_uri (from discovery)'' of Inl e \<Rightarrow> Err e | Inr _ \<Rightarrow>
          (case validate_optional_url introspection_endpoint ''introspection_endpoint (from discovery)'' of
             Inl e \<Rightarrow> Err e
           | Inr _ \<Rightarrow> Ok \<lparr>oe_jwks_uri = uri, oe_introspection_endpoint = introspection_endpoint\<rparr>)))"

section \<open>What an accepted token has\<close>

declare map_sum_Ok [simp]

lemma check_exp_Ok:
  "check_exp x params now claims = Ok () \<longleftrightarrow>
     (\<exists>v t. map_of claims ''exp'' = Some v \<and> parse_timestamp x v = Some t \<and> now < t + leeway_of params)"
  by (auto simp: check_exp_def split: option.splits if_splits)

lemma check_nbf_Ok:
  "check_nbf x params now claims = Ok () \<longleftrightarrow>
     (case map_of claims ''nbf'' of
        None \<Rightarrow> True
      | Some v \<Rightarrow> (case parse_timestamp x v of Some t \<Rightarrow> t \<le> now + leeway_of params | None \<Rightarrow> False))"
  by (auto simp: check_nbf_def split: option.splits if_splits)

lemma check_iss_Ok:
  "check_iss params claims = Ok () \<longleftrightarrow>
     (case vp_expected_iss params of None \<Rightarrow> True | Some iss \<Rightarrow> map_of claims ''iss'' = Some (JString iss))"
  by (auto simp: check_iss_def split: option.splits)

lemma check_aud_Ok:
  "check_aud params claims = Ok () \<longleftrightarrow>
     (case vp_expected_aud params of
        None \<Rightarrow> True
      | Some expected \<Rightarrow> (\<exists>auds. token_auds claims = Ok auds \<and> set expected \<inter> set auds \<noteq> {}))"
  by (auto simp: check_aud_def list_ex_iff split: option.splits sum.splits if_splits)

lemmas checks_Ok = check_exp_Ok check_nbf_Ok check_iss_Ok check_aud_Ok

lemma validate_with_mapper_Ok:
  "validate_with_mapper x token key alg params now mapper = Ok ctx \<longleftrightarrow>
     (\<exists>claims. j_decode x token key alg = Ok claims \<and>
        check_exp x params now claims = Ok () \<and> check_nbf x params now claims = Ok () \<and>
        check_iss params claims = Ok () \<and> check_aud params claims = Ok () \<and>
        mapper (claims_map_to_claim_set x claims) = Ok (sec_principal ctx, sec_claims ctx))"
  by (cases ctx) (auto simp: validate_with_mapper_def split: sum.splits prod.splits)

lemma resolve_key_sync_Ok:
  "resolve_key_sync resolve kid alg s = (Ok vk, s') \<longleftrightarrow> resolve kid alg s = (Some (Ok vk), s')"
  by (cases "resolve kid alg s") (auto simp: resolve_key_sync_def split: option.splits sum.splits)

lemma authenticate_inner_Ok:
  "authenticate_inner x token config resolve now expected_alg jwt_alg mapper build s = (Ok ctx, s') \<longleftrightarrow>
     (\<exists>kid vk key. j_decode_header x token = Ok (expected_alg, kid) \<and>
        resolve kid jwt_alg s = (Some (Ok vk), s') \<and> build vk = Ok key \<and>
        validate_with_mapper x token key expected_alg
          \<lparr>vp_expected_iss = jc_expected_iss config, vp_expected_aud = jc_expected_aud config,
           vp_leeway_seconds = jc_leeway_seconds config\<rparr> now mapper = Ok ctx)"
  by (auto simp: authenticate_inner_def resolve_key_sync_Ok[symmetric] split: sum.splits prod.splits)

lemma decoding_key_Ok:
  "hs256_decoding_key x vk = Ok key \<longleftrightarrow> (\<exists>bytes. vk = Hmac bytes \<and> 32 \<le> length bytes \<and> key = j_from_secret x bytes)"
  "rs256_decoding_key x vk = Ok key \<longleftrightarrow> (\<exists>pem. vk = RsaPem pem \<and> j_from_rsa_pem x pem = Ok key)"
  "es256_decoding_key x vk = Ok key \<longleftrightarrow> (\<exists>pem. vk = EcPem pem \<and> j_from_ec_pem x pem = Ok key)"
  by (auto simp: hs256_decoding_key_def rs256_decoding_key_def es256_decoding_key_def
      split: VerificationKey.splits sum.splits)

lemma provider_try_new_Ok:
  assumes "provider_try_new x config = Ok p"
  shows "sp_config p = config" "sp_mapper p = DefaultPrincipalMapper_map x"
    and "\<exists>aud. jc_expected_aud config = Some aud \<and> aud \<noteq> [] \<and> [] \<notin> set aud"
    and "leeway_of \<lparr>vp_expected_iss = iss, vp_expected_aud = auds, vp_leeway_seconds = jc_leeway_seconds config\<rparr> \<le> 300 * 1000000000"
proof -
  have valid: "JwtProviderConfig_validate config = Ok ()" and p: "p = \<lparr>sp_config = config, sp_mapper = DefaultPrincipalMapper_map x\<rparr>"
    using assms by (auto simp: provider_try_new_def split: sum.splits)
  show "sp_config p = config" "sp_mapper p = DefaultPrincipalMapper_map x" by (simp_all add: p)
  show "\<exists>aud. jc_expected_aud config = Some aud \<and> aud \<noteq> [] \<and> [] \<notin> set aud"
    using valid by (auto simp: JwtProviderConfig_validate_def list_ex_iff split: option.splits if_splits)
  have "uint l \<le> 300" if "jc_leeway_seconds config = Some l" for l
    using valid that by (auto simp: JwtProviderConfig_validate_def MAX_LEEWAY_SECONDS_def word_less_def split: if_splits)
  then show "leeway_of \<lparr>vp_expected_iss = iss, vp_expected_aud = auds, vp_leeway_seconds = jc_leeway_seconds config\<rparr> \<le> 300 * 1000000000"
    by (auto simp: leeway_of_def Let_def split: option.splits)
qed

lemma fold_with_role:
  "set (pr_roles (fold Principal_with_role rs p)) = set rs \<union> set (pr_roles p)"
  "pr_subject_id (fold Principal_with_role rs p) = pr_subject_id p"
  "pr_tenant_id (fold Principal_with_role rs p) = pr_tenant_id p"
  by (induction rs arbitrary: p) (auto simp: Principal_with_role_def set_insort_insert)

text \<open>The mapper's principal is the subject of the token, with the roles and the tenant it claims.\<close>

lemma DefaultPrincipalMapper_map_Ok:
  assumes "DefaultPrincipalMapper_map x cs = Ok (p, cl)"
  shows "get_str cs ''sub'' = Some (pr_subject_id p)"
    and "set (pr_roles p) = set (ClaimSet_roles cs)"
    and "case tenant_claim cs of None \<Rightarrow> pr_tenant_id p = None | Some (tid, _) \<Rightarrow> Ok (the (pr_tenant_id p)) = TenantId_new tid"
  using assms
  by (auto simp: DefaultPrincipalMapper_map_def get_str_def SubjectId_new_def TenantId_new_def Let_def fold_with_role Principal_new_def
      Principal_with_tenant_id_def split: option.splits sum.splits if_splits prod.splits)

text \<open>The three providers by the algorithm they pin.\<close>

fun header_algorithm :: "JwtAlgorithm \<Rightarrow> Algorithm" where
  "header_algorithm Hs256 = HS256"
| "header_algorithm Rs256 = RS256"
| "header_algorithm Es256 = ES256"

definition pinned_authenticate ::
  "JwtAlgorithm \<Rightarrow> ('k, 'f) jwt_externals \<Rightarrow> 'f single_provider \<Rightarrow> 's KeyResolver \<Rightarrow> timestamp \<Rightarrow> Credential \<Rightarrow> 's \<Rightarrow>
   (SecurityContext, AuthenticationError) result \<times> 's" where
  "pinned_authenticate alg =
     (case alg of
        Hs256 \<Rightarrow> Hs256AuthenticationProvider_authenticate
      | Rs256 \<Rightarrow> Rs256AuthenticationProvider_authenticate
      | Es256 \<Rightarrow> Es256AuthenticationProvider_authenticate)"

definition key_material :: "('k, 'f) jwt_externals \<Rightarrow> VerificationKey \<Rightarrow> ('k, AuthenticationError) result" where
  "key_material x vk =
     (case vk of
        Hmac _ \<Rightarrow> hs256_decoding_key x vk | RsaPem _ \<Rightarrow> rs256_decoding_key x vk | EcPem _ \<Rightarrow> es256_decoding_key x vk)"

lemma bearer_case_Ok:
  "(case bearer_token credential of Inl e \<Rightarrow> (Err e, s) | Inr token \<Rightarrow> f token) = (Ok ctx, s') \<longleftrightarrow>
     (\<exists>token. credential = Bearer token \<and> length token \<le> MAX_TOKEN_BYTES \<and> f token = (Ok ctx, s'))"
  by (auto simp: bearer_token_def split: Credential.splits)

lemma key_material_iff:
  "hs256_decoding_key x vk = Ok key \<longleftrightarrow> key_algorithm vk = Hs256 \<and> key_material x vk = Ok key"
  "rs256_decoding_key x vk = Ok key \<longleftrightarrow> key_algorithm vk = Rs256 \<and> key_material x vk = Ok key"
  "es256_decoding_key x vk = Ok key \<longleftrightarrow> key_algorithm vk = Es256 \<and> key_material x vk = Ok key"
  by (cases vk; simp add: key_material_def decoding_key_Ok)+

lemma pinned_authenticate_Ok:
  "pinned_authenticate alg x p resolve now credential s = (Ok ctx, s') \<longleftrightarrow>
     (\<exists>token kid vk key. credential = Bearer token \<and> length token \<le> MAX_TOKEN_BYTES \<and>
        j_decode_header x token = Ok (header_algorithm alg, kid) \<and>
        resolve kid alg s = (Some (Ok vk), s') \<and> key_algorithm vk = alg \<and> key_material x vk = Ok key \<and>
        validate_with_mapper x token key (header_algorithm alg)
          \<lparr>vp_expected_iss = jc_expected_iss (sp_config p), vp_expected_aud = jc_expected_aud (sp_config p),
           vp_leeway_seconds = jc_leeway_seconds (sp_config p)\<rparr> now (sp_mapper p) = Ok ctx)"
  by (cases alg)
    (simp_all add: pinned_authenticate_def Hs256AuthenticationProvider_authenticate_def
      Rs256AuthenticationProvider_authenticate_def Es256AuthenticationProvider_authenticate_def bearer_case_Ok
      authenticate_inner_Ok key_material_iff conj_assoc)

text \<open>
  C14: When a provider that was built accepts a credential at an instant, the credential is a bearer token of at
  most 8192 bytes whose header names the one algorithm of the provider; it verified under a key the resolver
  gave for that algorithm, of the type the algorithm needs; it has an expiry that passed less than 300 seconds
  ago, if at all; its issuer is the expected one where one is configured; one of its audiences is
  configured, of which there is at least one; and the principal is its subject, with the roles it claims.
\<close>

theorem accepted_token_is_authentic:
  assumes "provider_try_new x config = Ok p"
    and "pinned_authenticate alg x p resolve now credential s = (Ok ctx, s')"
  shows "\<exists>token kid vk key claims exp v auds aud.
     credential = Bearer token \<and> length token \<le> 8192 \<and>
     j_decode_header x token = Ok (header_algorithm alg, kid) \<and>
     resolve kid alg s = (Some (Ok vk), s') \<and> key_algorithm vk = alg \<and> key_material x vk = Ok key \<and>
     j_decode x token key (header_algorithm alg) = Ok claims \<and>
     map_of claims ''exp'' = Some v \<and> parse_timestamp x v = Some exp \<and> now < exp + 300 * 1000000000 \<and>
     (case jc_expected_iss config of None \<Rightarrow> True | Some iss \<Rightarrow> map_of claims ''iss'' = Some (JString iss)) \<and>
     jc_expected_aud config = Some auds \<and> aud \<in> set auds \<and> aud \<noteq> [] \<and>
     (\<exists>token_aud. token_auds claims = Ok token_aud \<and> aud \<in> set token_aud) \<and>
     get_str (claims_map_to_claim_set x claims) ''sub'' = Some (pr_subject_id (sec_principal ctx)) \<and>
     set (pr_roles (sec_principal ctx)) = set (ClaimSet_roles (claims_map_to_claim_set x claims))"
proof -
  note p = provider_try_new_Ok [OF assms(1)]
  let ?params = "\<lparr>vp_expected_iss = jc_expected_iss config, vp_expected_aud = jc_expected_aud config,
    vp_leeway_seconds = jc_leeway_seconds config\<rparr>"
  obtain token kid vk key where token: "credential = Bearer token" "length token \<le> 8192"
      "j_decode_header x token = Ok (header_algorithm alg, kid)" "resolve kid alg s = (Some (Ok vk), s')"
      "key_algorithm vk = alg" "key_material x vk = Ok key"
    and valid: "validate_with_mapper x token key (header_algorithm alg) ?params now (DefaultPrincipalMapper_map x) = Ok ctx"
    using assms(2) by (auto simp: pinned_authenticate_Ok p MAX_TOKEN_BYTES_def)
  from valid obtain claims where claims: "j_decode x token key (header_algorithm alg) = Ok claims"
    and checks: "check_exp x ?params now claims = Ok ()" "check_iss ?params claims = Ok ()" "check_aud ?params claims = Ok ()"
    and mapped: "DefaultPrincipalMapper_map x (claims_map_to_claim_set x claims) = Ok (sec_principal ctx, sec_claims ctx)"
    by (auto simp: validate_with_mapper_Ok)
  obtain v exp where exp: "map_of claims ''exp'' = Some v" "parse_timestamp x v = Some exp" "now < exp + 300 * 1000000000"
    using checks(1) p(4) [of "jc_expected_iss config" "jc_expected_aud config"] by (fastforce simp: check_exp_Ok)
  obtain auds token_aud aud where aud: "jc_expected_aud config = Some auds" "aud \<in> set auds" "aud \<noteq> []"
      "token_auds claims = Ok token_aud" "aud \<in> set token_aud"
    using checks(3) p(3) by (fastforce simp: check_aud_Ok)
  have iss: "case jc_expected_iss config of None \<Rightarrow> True | Some iss \<Rightarrow> map_of claims ''iss'' = Some (JString iss)"
    using checks(2) by (simp add: check_iss_Ok)
  show ?thesis using token claims exp iss aud DefaultPrincipalMapper_map_Ok(1,2) [OF mapped] by blast
qed

definition sample_claims :: "(string \<times> json) list" where
  "sample_claims = [(''aud'', JString ''api''), (''exp'', JNumber ''10''), (''roles'', JArray [JString ''r'']), (''sub'', JString ''u'')]"

definition sample_externals :: "(string, unit) jwt_externals" where
  "sample_externals =
     \<lparr>j_decode_header = (\<lambda>_. Ok (HS256, None)), j_decode = (\<lambda>_ _ _. Ok sample_claims), j_from_secret = id,
      j_from_rsa_pem = Ok, j_from_ec_pem = Ok, j_show_algorithm = (\<lambda>_. []), j_from_timestamp = (\<lambda>n. Some (n * 1000000000)),
      j_f64_of_number = (\<lambda>_. ()), j_f64_as_i64 = (\<lambda>_. 0), j_number_from_f64 = (\<lambda>_. None), j_show_int = (\<lambda>_. ''0'')\<rparr>"

definition sample_config :: JwtProviderConfig where
  "sample_config = \<lparr>jc_expected_iss = None, jc_expected_aud = Some [''api''], jc_leeway_seconds = None\<rparr>"

definition sample_resolver :: "unit KeyResolver" where
  "sample_resolver kid alg s = (Some (LocalKeyResolver_resolve Hs256 (Hmac (replicate 32 CHR ''k'')) kid alg), s)"

definition sample_provider :: "unit single_provider" where
  "sample_provider = \<lparr>sp_config = sample_config, sp_mapper = DefaultPrincipalMapper_map sample_externals\<rparr>"

theorem accepted_token_is_authentic_witness:
  "\<exists>ctx. pinned_authenticate Hs256 sample_externals sample_provider sample_resolver 0 (Bearer ''t'') () = (Ok ctx, ()) \<and>
     pr_subject_id (sec_principal ctx) = ''u'' \<and> set (pr_roles (sec_principal ctx)) = {''r''}"
proof -
  have new: "provider_try_new sample_externals sample_config = Ok sample_provider"
    by (simp add: provider_try_new_def JwtProviderConfig_validate_def sample_config_def sample_provider_def)
  let ?key = "replicate 32 CHR ''k''"
  let ?valid = "validate_with_mapper sample_externals ''t'' ?key HS256
    \<lparr>vp_expected_iss = None, vp_expected_aud = Some [''api''], vp_leeway_seconds = None\<rparr> 0 (DefaultPrincipalMapper_map sample_externals)"
  have "is_ok ?valid" by code_simp
  then obtain ctx where "?valid = Ok ctx" by (auto elim: is_ok.elims)
  then have ctx: "pinned_authenticate Hs256 sample_externals sample_provider sample_resolver 0 (Bearer ''t'') () = (Ok ctx, ())"
    unfolding pinned_authenticate_Ok
    by (intro exI [of _ "''t''"] exI [of _ None] exI [of _ "Hmac ?key"] exI [of _ ?key])
      (simp add: MAX_TOKEN_BYTES_def sample_externals_def sample_resolver_def LocalKeyResolver_resolve_def
        key_material_def hs256_decoding_key_def sample_provider_def sample_config_def)
  have decoded: "claims = sample_claims" if "j_decode sample_externals token key alg = Ok claims" for token key alg claims
    using that by (simp add: sample_externals_def)
  have "get_str (claims_map_to_claim_set sample_externals sample_claims) ''sub'' = Some (pr_subject_id (sec_principal ctx)) \<and>
      set (pr_roles (sec_principal ctx)) = set (ClaimSet_roles (claims_map_to_claim_set sample_externals sample_claims))"
    using accepted_token_is_authentic [OF new ctx] by (elim exE conjE) (drule decoded, hypsubst, intro conjI)
  moreover have "get_str (claims_map_to_claim_set sample_externals sample_claims) ''sub'' = Some ''u'' \<and>
      ClaimSet_roles (claims_map_to_claim_set sample_externals sample_claims) = [''r'']" by code_simp
  ultimately show ?thesis using ctx by (intro exI [of _ ctx]) simp
qed

end
