(* ===== verification/Ego_Introspection.thy ===== *)
theory Ego_Introspection
  imports Ego_Oidc
begin

text \<open>
  Opaque tokens and routing (\<open>crates/security-jwt/src/introspection.rs\<close>, \<open>oidc_provider.rs\<close>,
  \<open>multi_issuer.rs\<close>). The cache is an association list with distinct keys, its eviction queue a list from the
  front; \<open>hash\<close> is SHA-256. \<open>introspection_step\<close> interleaves threads, which read the clock, look under the
  read lock, ask the endpoint with no lock, and store under the write lock.
\<close>

section \<open>Provider\<close>

record IntrospectionAuthenticationProvider =
  ip_endpoint :: Url
  ip_client_id :: string
  ip_client_secret :: string
  ip_cache_ttl :: "u64 option"

definition MAX_INTROSPECTION_CACHE_ENTRIES :: nat where
  "MAX_INTROSPECTION_CACHE_ENTRIES = 10000"

definition IntrospectionAuthenticationProvider_with_provider ::
  "OidcProviderConfig \<Rightarrow> (IntrospectionAuthenticationProvider, AuthenticationError) result" where
  "IntrospectionAuthenticationProvider_with_provider c =
     (case oc_introspection_endpoint c of
        None \<Rightarrow> Err (ProviderUnavailable ''introspection_endpoint is required'')
      | Some endpoint \<Rightarrow>
     (case validate_url_requires_https endpoint ''introspection_endpoint'' of Inl e \<Rightarrow> Err e | Inr _ \<Rightarrow>
     (case oc_introspection_client_id c of
        None \<Rightarrow> Err (ProviderUnavailable ''introspection_client_id is required'')
      | Some client_id \<Rightarrow>
     (case oc_introspection_client_secret c of
        None \<Rightarrow> Err (ProviderUnavailable ''introspection_client_secret is required'')
      | Some client_secret \<Rightarrow>
          if (case oc_introspection_cache_ttl_seconds c of Some ttl \<Rightarrow> ttl = 0 \<or> ttl > 300 | None \<Rightarrow> False)
          then Err (ProviderUnavailable ''introspection_cache_ttl_seconds must be 1..=300'')
          else Ok \<lparr>ip_endpoint = endpoint, ip_client_id = client_id, ip_client_secret = client_secret,
                   ip_cache_ttl = oc_introspection_cache_ttl_seconds c\<rparr>))))"

record 'f IntrospectionResult =
  ir_active :: bool
  ir_claims :: "'f ClaimSet option"

text \<open>What the endpoint's parsed document becomes: its remaining members are claims, when it is active.\<close>

definition introspection_result :: "('k, 'f) jwt_externals \<Rightarrow> bool \<Rightarrow> (string \<times> json) list \<Rightarrow> 'f IntrospectionResult" where
  "introspection_result x active claims =
     (if \<not> active then \<lparr>ir_active = False, ir_claims = None\<rparr>
      else \<lparr>ir_active = True, ir_claims = Some (claims_map_to_claim_set x claims)\<rparr>)"

type_synonym 'f introspection_answer = "('f IntrospectionResult, AuthenticationError) result option"

definition call_introspect :: "'f introspection_answer \<Rightarrow> ('f IntrospectionResult, AuthenticationError) result" where
  "call_introspect reply =
     (case reply of
        None \<Rightarrow> Err (ProviderUnavailable ''introspection did not complete (pool exhausted or task dropped)'')
      | Some r \<Rightarrow> r)"

record 'h IntrospectionCache =
  ic_cache :: "('h \<times> int \<times> SecurityContext) list"
  ic_queue :: "('h \<times> int) list"

text \<open>\<open>saturating_sub\<close> on \<open>i64\<close>, then \<open>u64::try_from(...).unwrap_or(u64::MAX)\<close>.\<close>

definition saturating_sub_i64 :: "int \<Rightarrow> int \<Rightarrow> int" where
  "saturating_sub_i64 a b = max i64_min (min i64_max (a - b))"

definition entry_age :: "int \<Rightarrow> int \<Rightarrow> int" where
  "entry_age now_ts inserted_at =
     (let d = saturating_sub_i64 now_ts inserted_at in if d < 0 then 2 ^ 64 - 1 else d)"

definition fresh_entry :: "u64 \<Rightarrow> 'h \<Rightarrow> int \<Rightarrow> 'h IntrospectionCache \<Rightarrow> SecurityContext option" where
  "fresh_entry ttl key now_ts c =
     (case map_of (ic_cache c) key of
        Some (inserted_at, ctx) \<Rightarrow> if entry_age now_ts inserted_at < uint ttl then Some ctx else None
      | None \<Rightarrow> None)"

fun evict :: "('h \<times> int \<times> SecurityContext) list \<Rightarrow> ('h \<times> int) list \<Rightarrow>
    ('h \<times> int \<times> SecurityContext) list \<times> ('h \<times> int) list" where
  "evict cache [] = (cache, [])"
| "evict cache ((evict_key, queued_at) # queue) =
     (case map_of cache evict_key of
        Some (cached_inserted_at, _) \<Rightarrow>
          if cached_inserted_at = queued_at then (AList.delete evict_key cache, queue) else evict cache queue
      | None \<Rightarrow> evict cache queue)"

definition introspection_store ::
  "u64 \<Rightarrow> 'h \<Rightarrow> int \<Rightarrow> SecurityContext \<Rightarrow> 'h IntrospectionCache \<Rightarrow> SecurityContext \<times> 'h IntrospectionCache" where
  "introspection_store ttl key now_ts ctx c =
     (case fresh_entry ttl key now_ts c of
        Some existing_ctx \<Rightarrow> (existing_ctx, c)
      | None \<Rightarrow>
          (let (cache, queue) = (if length (ic_cache c) \<ge> MAX_INTROSPECTION_CACHE_ENTRIES
                                 then evict (ic_cache c) (ic_queue c) else (ic_cache c, ic_queue c))
           in if length cache < MAX_INTROSPECTION_CACHE_ENTRIES
              then (ctx, \<lparr>ic_cache = AList.update key (now_ts, ctx) cache, ic_queue = queue @ [(key, now_ts)]\<rparr>)
              else (ctx, \<lparr>ic_cache = cache, ic_queue = queue\<rparr>)))"

definition introspected_context ::
  "'f PrincipalMapper \<Rightarrow> 'f introspection_answer \<Rightarrow> (SecurityContext, AuthenticationError) result" where
  "introspected_context mapper reply =
     (case call_introspect reply of
        Inl e \<Rightarrow> Err e
      | Inr result \<Rightarrow>
          if \<not> ir_active result then Err (InvalidToken ''token is not active'')
          else (case ir_claims result of
            None \<Rightarrow> Err (ProviderUnavailable (''active:true but claims absent '' @ em_dash @ '' protocol error''))
          | Some claim_set \<Rightarrow>
              (case mapper claim_set of
                 Inl e \<Rightarrow> Err e
               | Inr (p, claims) \<Rightarrow> Ok \<lparr>sec_principal = p, sec_claims = claims\<rparr>)))"

definition opaque_token :: "Credential \<Rightarrow> (string, AuthenticationError) result" where
  "opaque_token credential =
     (case credential of
        Bearer token \<Rightarrow>
          if length token > MAX_TOKEN_BYTES then Err (InvalidToken ''token exceeds 8 KiB limit'') else Ok token
      | _ \<Rightarrow> Err (InvalidToken ''unsupported credential type''))"

definition cache_lookup ::
  "(string \<Rightarrow> 'h) \<Rightarrow> u64 option \<Rightarrow> string \<Rightarrow> int \<Rightarrow> 'h IntrospectionCache \<Rightarrow> SecurityContext option" where
  "cache_lookup hash ttl token now_ts c =
     (case ttl of Some ttl \<Rightarrow> fresh_entry ttl (hash token) now_ts c | None \<Rightarrow> None)"

definition cache_store ::
  "(string \<Rightarrow> 'h) \<Rightarrow> u64 option \<Rightarrow> string \<Rightarrow> int \<Rightarrow> SecurityContext \<Rightarrow> 'h IntrospectionCache \<Rightarrow>
   SecurityContext \<times> 'h IntrospectionCache" where
  "cache_store hash ttl token now_ts ctx c =
     (case ttl of Some ttl \<Rightarrow> introspection_store ttl (hash token) now_ts ctx c | None \<Rightarrow> (ctx, c))"

text \<open>\<open>authenticate\<close> with no other thread; the endpoint is asked when the cache has no fresh entry.\<close>

definition IntrospectionAuthenticationProvider_authenticate ::
  "(string \<Rightarrow> 'h) \<Rightarrow> IntrospectionAuthenticationProvider \<Rightarrow> 'f PrincipalMapper \<Rightarrow> int \<Rightarrow> 'f introspection_answer \<Rightarrow>
   Credential \<Rightarrow> 'h IntrospectionCache \<Rightarrow> (SecurityContext, AuthenticationError) result \<times> 'h IntrospectionCache" where
  "IntrospectionAuthenticationProvider_authenticate hash p mapper now_ts reply credential c =
     (case opaque_token credential of
        Inl e \<Rightarrow> (Err e, c)
      | Inr token \<Rightarrow>
          (case cache_lookup hash (ip_cache_ttl p) token now_ts c of
             Some ctx \<Rightarrow> (Ok ctx, c)
           | None \<Rightarrow>
               (case introspected_context mapper reply of
                  Inl e \<Rightarrow> (Err e, c)
                | Inr ctx \<Rightarrow>
                    (case cache_store hash (ip_cache_ttl p) token now_ts ctx c of (ctx', c') \<Rightarrow> (Ok ctx', c')))))"

section \<open>OIDC provider and routing by issuer\<close>

definition base64url_byte :: "char \<Rightarrow> bool" where
  "base64url_byte ch \<longleftrightarrow>
     (let b = (of_char ch :: nat) in
      (48 \<le> b \<and> b \<le> 57) \<or> (65 \<le> b \<and> b \<le> 90) \<or> (97 \<le> b \<and> b \<le> 122) \<or> b = 45 \<or> b = 95 \<or> b = 61)"

definition looks_like_jwt :: "string \<Rightarrow> bool" where
  "looks_like_jwt token =
     (let parts = str_split CHR ''.'' token in
      length parts = 3 \<and> list_all (\<lambda>part. part \<noteq> [] \<and> list_all base64url_byte part) parts)"

definition try_jwt_path ::
  "('k, 'f) jwt_externals \<Rightarrow> string \<Rightarrow> 's KeyResolver \<Rightarrow> JwtProviderConfig \<Rightarrow> timestamp \<Rightarrow> 'f PrincipalMapper \<Rightarrow>
   JwtAlgorithm list \<Rightarrow> 's \<Rightarrow> (SecurityContext, AuthenticationError) result \<times> 's" where
  "try_jwt_path x token resolve config now mapper allowed s =
     (case j_decode_header x token of
        Inl msg \<Rightarrow> (Err (InvalidToken msg), s)
      | Inr (RS256, _) \<Rightarrow>
          if Rs256 \<notin> set allowed
          then (Err (AlgorithmNotSupported ''RS256 is not in the allowed algorithms list''), s)
          else authenticate_inner x token config resolve now RS256 Rs256 mapper
            (\<lambda>key. case key of
               RsaPem pem \<Rightarrow> map_sum (\<lambda>e. InvalidToken (''bad RSA key: '' @ e)) id (j_from_rsa_pem x pem)
             | _ \<Rightarrow> Err (InvalidToken ''expected RSA PEM key'')) s
      | Inr (ES256, _) \<Rightarrow>
          if Es256 \<notin> set allowed
          then (Err (AlgorithmNotSupported ''ES256 is not in the allowed algorithms list''), s)
          else authenticate_inner x token config resolve now ES256 Es256 mapper
            (\<lambda>key. case key of
               EcPem pem \<Rightarrow> map_sum (\<lambda>e. InvalidToken (''bad EC key: '' @ e)) id (j_from_ec_pem x pem)
             | _ \<Rightarrow> Err (InvalidToken ''expected EC PEM key'')) s
      | Inr (alg, _) \<Rightarrow> (Err (AlgorithmNotSupported (''OIDC provider does not support '' @ j_show_algorithm x alg)), s))"

record OidcAuthenticationProvider =
  op_jwks_uri :: Url
  op_jwt_config :: JwtProviderConfig
  op_introspection :: "IntrospectionAuthenticationProvider option"
  op_token_format :: TokenFormat
  op_allowed_algorithms :: "JwtAlgorithm list"

definition OidcProviderConfig_default :: OidcProviderConfig where
  "OidcProviderConfig_default =
     \<lparr>oc_issuer_url = None, oc_jwks_uri = None, oc_expected_iss = None, oc_expected_aud = None,
      oc_leeway_seconds = None, oc_jwks_refresh_ttl_seconds = None, oc_token_format = None,
      oc_introspection_endpoint = None, oc_introspection_client_id = None, oc_introspection_client_secret = None,
      oc_introspection_cache_ttl_seconds = None, oc_allowed_algorithms = None\<rparr>"

definition build_introspection ::
  "OidcProviderConfig \<Rightarrow> (IntrospectionAuthenticationProvider option, AuthenticationError) result" where
  "build_introspection c =
     (if oc_introspection_endpoint c \<noteq> None \<and> oc_introspection_client_id c \<noteq> None \<and>
         oc_introspection_client_secret c \<noteq> None
      then map_sum id Some (IntrospectionAuthenticationProvider_with_provider
        (OidcProviderConfig_default\<lparr>
           oc_introspection_endpoint := oc_introspection_endpoint c,
           oc_introspection_client_id := oc_introspection_client_id c,
           oc_introspection_client_secret := oc_introspection_client_secret c,
           oc_introspection_cache_ttl_seconds := oc_introspection_cache_ttl_seconds c\<rparr>))
      else Ok None)"

definition discover_sync ::
  "(OidcEndpoints, AuthenticationError) result option \<Rightarrow> (OidcEndpoints, AuthenticationError) result" where
  "discover_sync reply =
     (case reply of
        None \<Rightarrow> Err (ProviderUnavailable ''discovery did not complete (pool exhausted or task dropped)'')
      | Some r \<Rightarrow> r)"

text \<open>The key resolver is started for the URI with a refresh interval of 300 seconds unless configured.\<close>

definition OidcAuthenticationProvider_with_discovery ::
  "OidcProviderConfig \<Rightarrow> (OidcEndpoints, AuthenticationError) result option \<Rightarrow>
   (OidcAuthenticationProvider, AuthenticationError) result" where
  "OidcAuthenticationProvider_with_discovery c discovery =
     (case OidcProviderConfig_validate c of
        Inl e \<Rightarrow> Err e
      | Inr _ \<Rightarrow>
          (case (case oc_jwks_uri c of Some uri \<Rightarrow> Ok uri | None \<Rightarrow> map_sum id oe_jwks_uri (discover_sync discovery)) of
             Inl e \<Rightarrow> Err e
           | Inr jwks_uri \<Rightarrow>
               (case build_introspection c of
                  Inl e \<Rightarrow> Err e
                | Inr introspection \<Rightarrow>
                    Ok \<lparr>op_jwks_uri = jwks_uri,
                        op_jwt_config = \<lparr>jc_expected_iss = oc_expected_iss c, jc_expected_aud = oc_expected_aud c,
                                         jc_leeway_seconds = oc_leeway_seconds c\<rparr>,
                        op_introspection = introspection,
                        op_token_format = (case oc_token_format c of Some f \<Rightarrow> f | None \<Rightarrow> FormatAuto),
                        op_allowed_algorithms = (case oc_allowed_algorithms c of Some a \<Rightarrow> a | None \<Rightarrow> [Rs256, Es256])\<rparr>)))"

text \<open>The clock is read by the path that is taken: in nanoseconds for a JWT, in seconds for an opaque token.\<close>

definition authenticate_opaque ::
  "(string \<Rightarrow> 'h) \<Rightarrow> OidcAuthenticationProvider \<Rightarrow> 'f PrincipalMapper \<Rightarrow> timestamp \<Rightarrow> 'f introspection_answer \<Rightarrow>
   Credential \<Rightarrow> 'h IntrospectionCache \<Rightarrow> (SecurityContext, AuthenticationError) result \<times> 'h IntrospectionCache" where
  "authenticate_opaque hash p mapper now reply credential c =
     (case op_introspection p of
        Some intro \<Rightarrow>
          IntrospectionAuthenticationProvider_authenticate hash intro mapper (now div 1000000000) reply credential c
      | None \<Rightarrow> (Err (InvalidToken ''opaque token but no introspection endpoint configured''), c))"

definition OidcAuthenticationProvider_authenticate ::
  "('k, 'f) jwt_externals \<Rightarrow> (string \<Rightarrow> 'h) \<Rightarrow> OidcAuthenticationProvider \<Rightarrow> 's KeyResolver \<Rightarrow> 'f PrincipalMapper \<Rightarrow>
   timestamp \<Rightarrow> 'f introspection_answer \<Rightarrow> Credential \<Rightarrow> 's \<times> 'h IntrospectionCache \<Rightarrow>
   (SecurityContext, AuthenticationError) result \<times> 's \<times> 'h IntrospectionCache" where
  "OidcAuthenticationProvider_authenticate x hash p resolve mapper now reply credential st =
     (case st of (s, c) \<Rightarrow>
       (case opaque_token credential of
          Inl e \<Rightarrow> (Err e, s, c)
        | Inr token \<Rightarrow>
            if op_token_format p = FormatJwt \<or> (op_token_format p = FormatAuto \<and> looks_like_jwt token)
            then (case try_jwt_path x token resolve (op_jwt_config p) now mapper (op_allowed_algorithms p) s of
                    (r, s') \<Rightarrow> (r, s', c))
            else (case authenticate_opaque hash p mapper now reply credential c of (r, c') \<Rightarrow> (r, s, c'))))"

text \<open>\<open>decode_payload\<close> is base64url, unpadded or padded, then JSON.\<close>

definition unverified_iss :: "(string \<Rightarrow> json option) \<Rightarrow> string \<Rightarrow> string option" where
  "unverified_iss decode_payload token =
     (let parts = str_split CHR ''.'' token in
      if length parts \<noteq> 3 then None
      else Option.bind (decode_payload (parts ! 1)) (\<lambda>payload. Option.bind (json_get ''iss'' payload) json_as_str))"

text \<open>\<open>chars().take(n)\<close>: a byte that continues a character goes with it.\<close>

fun take_chars :: "nat \<Rightarrow> string \<Rightarrow> string" where
  "take_chars n [] = []"
| "take_chars n (ch # s) =
     (let b = (of_char ch :: nat) in
      if 128 \<le> b \<and> b < 192 then ch # take_chars n s
      else if n = 0 then [] else ch # take_chars (n - 1) s)"

definition MultiIssuerAuthenticationProvider_authenticate ::
  "(string \<Rightarrow> json option) \<Rightarrow> (string \<Rightarrow> (Credential \<Rightarrow> 's \<Rightarrow> (SecurityContext, AuthenticationError) result \<times> 's) option) \<Rightarrow>
   Credential \<Rightarrow> 's \<Rightarrow> (SecurityContext, AuthenticationError) result \<times> 's" where
  "MultiIssuerAuthenticationProvider_authenticate decode_payload resolve credential s =
     (case opaque_token credential of
        Inl e \<Rightarrow> (Err e, s)
      | Inr token \<Rightarrow>
          (case unverified_iss decode_payload token of
             None \<Rightarrow> (Err (InvalidToken ''missing or unreadable iss claim''), s)
           | Some iss \<Rightarrow>
               (case resolve iss of
                  None \<Rightarrow> (Err (InvalidToken (''unknown issuer: '' @ take_chars 128 iss)), s)
                | Some authenticate \<Rightarrow> authenticate credential s)))"

section \<open>Threads\<close>

datatype introspection_thread = Waiting | Asking string int | Answered string int SecurityContext

text \<open>
  \<open>is_active\<close> lists the tokens the endpoint declared active, with the reading of the clock the asking thread
  had and the context made of the claims; \<open>is_accepted\<close> what the provider returned, with the reading its
  caller had.
\<close>

record 'h introspection_system =
  is_cache :: "'h IntrospectionCache"
  is_threads :: "nat \<Rightarrow> introspection_thread"
  is_active :: "(string \<times> int \<times> SecurityContext) list"
  is_accepted :: "(string \<times> int \<times> SecurityContext) list"

inductive introspection_step ::
  "(string \<Rightarrow> 'h) \<Rightarrow> 'f PrincipalMapper \<Rightarrow> u64 option \<Rightarrow> 'h introspection_system \<Rightarrow> 'h introspection_system \<Rightarrow> bool"
  for hash mapper ttl where
  hit: "is_threads s i = Waiting \<Longrightarrow> opaque_token credential = Ok token \<Longrightarrow>
    cache_lookup hash ttl token now_ts (is_cache s) = Some ctx \<Longrightarrow>
    introspection_step hash mapper ttl s (s\<lparr>is_accepted := (token, now_ts, ctx) # is_accepted s\<rparr>)"
| miss: "is_threads s i = Waiting \<Longrightarrow> opaque_token credential = Ok token \<Longrightarrow>
    cache_lookup hash ttl token now_ts (is_cache s) = None \<Longrightarrow>
    introspection_step hash mapper ttl s (s\<lparr>is_threads := (is_threads s)(i := Asking token now_ts)\<rparr>)"
| refused: "is_threads s i = Asking token now_ts \<Longrightarrow> introspected_context mapper reply = Err e \<Longrightarrow>
    introspection_step hash mapper ttl s (s\<lparr>is_threads := (is_threads s)(i := Waiting)\<rparr>)"
| active: "is_threads s i = Asking token now_ts \<Longrightarrow> introspected_context mapper reply = Ok ctx \<Longrightarrow>
    introspection_step hash mapper ttl s
      (s\<lparr>is_threads := (is_threads s)(i := Answered token now_ts ctx), is_active := (token, now_ts, ctx) # is_active s\<rparr>)"
| store: "is_threads s i = Answered token now_ts ctx \<Longrightarrow> cache_store hash ttl token now_ts ctx (is_cache s) = (ctx', c') \<Longrightarrow>
    introspection_step hash mapper ttl s
      (s\<lparr>is_cache := c', is_threads := (is_threads s)(i := Waiting), is_accepted := (token, now_ts, ctx') # is_accepted s\<rparr>)"

inductive introspection_reachable ::
  "(string \<Rightarrow> 'h) \<Rightarrow> 'f PrincipalMapper \<Rightarrow> IntrospectionAuthenticationProvider \<Rightarrow> 'h introspection_system \<Rightarrow> bool"
  for hash mapper p where
  start: "introspection_reachable hash mapper p
    \<lparr>is_cache = \<lparr>ic_cache = [], ic_queue = []\<rparr>, is_threads = (\<lambda>_. Waiting), is_active = [], is_accepted = []\<rparr>"
| step: "introspection_reachable hash mapper p s \<Longrightarrow> introspection_step hash mapper (ip_cache_ttl p) s s' \<Longrightarrow>
    introspection_reachable hash mapper p s'"

section \<open>Invariant\<close>

text \<open>Every cached entry is in the eviction queue under its own instant.\<close>

definition queued :: "('h \<times> int \<times> SecurityContext) list \<Rightarrow> ('h \<times> int) list \<Rightarrow> bool" where
  "queued cache queue \<longleftrightarrow> (\<forall>key t ctx. map_of cache key = Some (t, ctx) \<longrightarrow> (key, t) \<in> set queue)"

definition cache_ok :: "'h IntrospectionCache \<Rightarrow> bool" where
  "cache_ok c \<longleftrightarrow> distinct (map fst (ic_cache c)) \<and> queued (ic_cache c) (ic_queue c) \<and>
     length (ic_cache c) \<le> MAX_INTROSPECTION_CACHE_ENTRIES"

lemma length_delete:
  "distinct (map fst xs) \<Longrightarrow> map_of xs k = Some v \<Longrightarrow> length (AList.delete k xs) = length xs - 1"
proof (induction xs)
  case (Cons x xs)
  have "AList.delete k xs = xs" if "k \<notin> fst ` set xs" using that by (induction xs) auto
  then show ?case using Cons by (cases xs) (auto split: if_splits)
qed simp

lemma evict_removes_one:
  assumes "distinct (map fst cache)" "queued cache queue" "cache \<noteq> []" "evict cache queue = (cache', queue')"
  shows "distinct (map fst cache') \<and> queued cache' queue' \<and> length cache' = length cache - 1 \<and> map_of cache' \<subseteq>\<^sub>m map_of cache"
  using assms
proof (induction cache queue rule: evict.induct)
  case (1 cache)
  then obtain e rest where "cache = e # rest" by (cases cache) auto
  then have "map_of cache (fst e) = Some (snd e)" by (cases e) simp
  then show ?case using 1(2) by (cases "snd e") (auto simp: queued_def)
next
  case (2 cache evict_key queued_at queue)
  show ?case
  proof (cases "\<exists>ctx. map_of cache evict_key = Some (queued_at, ctx)")
    case True
    then obtain ctx where hit: "map_of cache evict_key = Some (queued_at, ctx)" by blast
    then have "cache' = AList.delete evict_key cache" "queue' = queue" using 2(6) by auto
    moreover have "queued (AList.delete evict_key cache) queue"
      using 2(4) by (auto simp: queued_def delete_conv')
    ultimately show ?thesis using 2(3) length_delete [OF 2(3) hit]
      by (auto simp: distinct_delete delete_conv' map_le_def split: if_splits)
  next
    case False
    then have evict: "evict cache ((evict_key, queued_at) # queue) = evict cache queue"
      by (auto split: option.splits)
    have "queued cache queue" using 2(4) False by (auto simp: queued_def)
    then show ?thesis using 2 evict False by (auto split: option.splits if_splits)
  qed
qed

lemma queued_update: "queued cache queue \<Longrightarrow> queued (AList.update key (t, ctx) cache) (queue @ [(key, t)])"
  by (auto simp: queued_def update_conv')

lemma length_update_le: "length (AList.update k v xs) \<le> Suc (length xs)"
  by (induction xs) auto

text \<open>An insertion makes room when it needs to, so the answer just obtained is always cached.\<close>

lemma introspection_store_new:
  assumes "cache_ok c" "fresh_entry ttl key now_ts c = None" "introspection_store ttl key now_ts ctx c = (ctx', c')"
  shows "ctx' = ctx \<and> cache_ok c' \<and> map_of (ic_cache c') key = Some (now_ts, ctx) \<and>
    map_of (ic_cache c') \<subseteq>\<^sub>m (map_of (ic_cache c))(key \<mapsto> (now_ts, ctx))"
proof -
  obtain cache queue where room:
      "(if length (ic_cache c) \<ge> MAX_INTROSPECTION_CACHE_ENTRIES then evict (ic_cache c) (ic_queue c)
        else (ic_cache c, ic_queue c)) = (cache, queue)" by fastforce
  have "distinct (map fst cache) \<and> queued cache queue \<and> length cache < MAX_INTROSPECTION_CACHE_ENTRIES \<and>
      map_of cache \<subseteq>\<^sub>m map_of (ic_cache c)"
  proof (cases "length (ic_cache c) \<ge> MAX_INTROSPECTION_CACHE_ENTRIES")
    case True
    then have "ic_cache c \<noteq> []" "evict (ic_cache c) (ic_queue c) = (cache, queue)"
      using room by (auto simp: MAX_INTROSPECTION_CACHE_ENTRIES_def)
    then show ?thesis
      using evict_removes_one [of "ic_cache c" "ic_queue c" cache queue] assms(1)
      by (auto simp: cache_ok_def MAX_INTROSPECTION_CACHE_ENTRIES_def)
  next
    case False
    then show ?thesis using room assms(1) by (auto simp: cache_ok_def)
  qed
  moreover from this have "ctx' = ctx" "c' = \<lparr>ic_cache = AList.update key (now_ts, ctx) cache, ic_queue = queue @ [(key, now_ts)]\<rparr>"
    using assms(2,3) room by (auto simp: introspection_store_def split: if_splits prod.splits)
  ultimately show ?thesis
    using length_update_le [of key "(now_ts, ctx)" cache]
    by (auto simp: cache_ok_def queued_update distinct_update update_conv' map_le_def)
qed

lemma introspection_store_fresh:
  "fresh_entry ttl key now_ts c = Some ctx' \<Longrightarrow> introspection_store ttl key now_ts ctx c = (ctx', c)"
  by (simp add: introspection_store_def)

lemma cache_store_cases:
  assumes "cache_store hash ttl token now_ts ctx c = (ctx', c')"
  shows "ctx' = ctx \<and> c' = c \<or>
    (\<exists>t. ttl = Some t \<and> fresh_entry t (hash token) now_ts c = Some ctx' \<and> c' = c) \<or>
    (\<exists>t. ttl = Some t \<and> fresh_entry t (hash token) now_ts c = None \<and>
       introspection_store t (hash token) now_ts ctx c = (ctx', c'))"
proof (cases ttl)
  case (Some t)
  then show ?thesis
    using assms introspection_store_fresh [of t "hash token" now_ts c _ ctx]
    by (cases "fresh_entry t (hash token) now_ts c") (simp_all add: cache_store_def)
qed (use assms in \<open>simp add: cache_store_def\<close>)

lemma fresh_entry_SomeD:
  assumes "fresh_entry ttl key now_ts c = Some ctx" "uint ttl \<le> 300"
  obtains t where "map_of (ic_cache c) key = Some (t, ctx)" "t \<le> now_ts" "now_ts - t < 300"
proof -
  from assms obtain t where t: "map_of (ic_cache c) key = Some (t, ctx)" "entry_age now_ts t < 300"
    by (auto simp: fresh_entry_def split: option.splits if_splits)
  then have "0 \<le> now_ts - t" "now_ts - t < 300"
    by (auto simp: entry_age_def saturating_sub_i64_def i64_min_def i64_max_def Let_def split: if_splits)
  then show ?thesis using t that by simp
qed

definition backed :: "(string \<Rightarrow> 'h) \<Rightarrow> 'h introspection_system \<Rightarrow> bool" where
  "backed hash s \<longleftrightarrow>
     (\<forall>key t ctx. map_of (ic_cache (is_cache s)) key = Some (t, ctx) \<longrightarrow>
        (\<exists>token. (token, t, ctx) \<in> set (is_active s) \<and> hash token = key))"

definition answers_backed :: "'h introspection_system \<Rightarrow> bool" where
  "answers_backed s \<longleftrightarrow>
     (\<forall>i token now_ts ctx. is_threads s i = Answered token now_ts ctx \<longrightarrow> (token, now_ts, ctx) \<in> set (is_active s))"

definition recently_active :: "(string \<Rightarrow> 'h) \<Rightarrow> 'h introspection_system \<Rightarrow> string \<Rightarrow> int \<Rightarrow> SecurityContext \<Rightarrow> bool" where
  "recently_active hash s token now_ts ctx \<longleftrightarrow>
     (\<exists>token' t. (token', t, ctx) \<in> set (is_active s) \<and> hash token' = hash token \<and> t \<le> now_ts \<and> now_ts - t < 300)"

definition introspection_ok :: "(string \<Rightarrow> 'h) \<Rightarrow> 'h introspection_system \<Rightarrow> bool" where
  "introspection_ok hash s \<longleftrightarrow> cache_ok (is_cache s) \<and> backed hash s \<and> answers_backed s \<and>
     (\<forall>token now_ts ctx. (token, now_ts, ctx) \<in> set (is_accepted s) \<longrightarrow> recently_active hash s token now_ts ctx)"

lemma fresh_is_recently_active:
  assumes "backed hash s" "fresh_entry ttl (hash token) now_ts (is_cache s) = Some ctx" "uint ttl \<le> 300"
  shows "recently_active hash s token now_ts ctx"
  using assms(1) fresh_entry_SomeD [OF assms(2,3)] unfolding backed_def recently_active_def by metis

lemma lookup_is_recently_active:
  assumes "backed hash s" "cache_lookup hash ttl token now_ts (is_cache s) = Some ctx"
    and "\<And>t. ttl = Some t \<Longrightarrow> uint t \<le> 300"
  shows "recently_active hash s token now_ts ctx"
  using assms fresh_is_recently_active by (auto simp: cache_lookup_def split: option.splits)

lemma store_keeps:
  assumes ok: "introspection_ok hash s" and answered: "(token, now_ts, ctx) \<in> set (is_active s)"
    and store: "cache_store hash ttl token now_ts ctx (is_cache s) = (ctx', c')"
    and bound: "\<And>t. ttl = Some t \<Longrightarrow> uint t \<le> 300"
  shows "cache_ok c' \<and> backed hash (s\<lparr>is_cache := c'\<rparr>) \<and> recently_active hash s token now_ts ctx'"
proof -
  have self: "recently_active hash s token now_ts ctx" using answered unfolding recently_active_def by fastforce
  consider "ctx' = ctx" "c' = is_cache s"
    | t where "ttl = Some t" "fresh_entry t (hash token) now_ts (is_cache s) = Some ctx'" "c' = is_cache s"
    | t where "ttl = Some t" "fresh_entry t (hash token) now_ts (is_cache s) = None"
        "introspection_store t (hash token) now_ts ctx (is_cache s) = (ctx', c')"
    using cache_store_cases [OF store] by metis
  then show ?thesis
  proof cases
    case 1
    then show ?thesis using ok self by (simp add: introspection_ok_def)
  next
    case 2
    then show ?thesis using ok fresh_is_recently_active bound by (auto simp: introspection_ok_def)
  next
    case 3
    then have new: "ctx' = ctx" "cache_ok c'" "map_of (ic_cache c') \<subseteq>\<^sub>m (map_of (ic_cache (is_cache s)))(hash token \<mapsto> (now_ts, ctx))"
      using introspection_store_new [of "is_cache s"] ok unfolding introspection_ok_def by blast+
    have "backed hash (s\<lparr>is_cache := c'\<rparr>)"
      unfolding backed_def
    proof (intro allI impI)
      fix key t ctx2 assume "map_of (ic_cache (is_cache (s\<lparr>is_cache := c'\<rparr>))) key = Some (t, ctx2)"
      then have "((map_of (ic_cache (is_cache s)))(hash token \<mapsto> (now_ts, ctx))) key = Some (t, ctx2)"
        using new(3) by (auto simp: map_le_def dom_def split: if_splits)
      then show "\<exists>token. (token, t, ctx2) \<in> set (is_active (s\<lparr>is_cache := c'\<rparr>)) \<and> hash token = key"
        using answered ok by (auto simp: introspection_ok_def backed_def split: if_splits)
    qed
    then show ?thesis using new self by simp
  qed
qed

lemma recently_active_mono:
  "recently_active hash s token now_ts ctx \<Longrightarrow> set (is_active s) \<subseteq> set (is_active s') \<Longrightarrow>
     recently_active hash s' token now_ts ctx"
  unfolding recently_active_def by blast

lemma introspection_ok_step:
  assumes "introspection_step hash mapper ttl s s'" "introspection_ok hash s"
    and bound: "\<And>t. ttl = Some t \<Longrightarrow> uint t \<le> 300"
  shows "introspection_ok hash s'"
  using assms(1,2)
proof (induction rule: introspection_step.induct)
  case (hit s i credential token now_ts ctx)
  then have "recently_active hash s token now_ts ctx"
    using lookup_is_recently_active [of hash s ttl] bound by (simp add: introspection_ok_def)
  with hit(4) show ?case
    by (auto simp: introspection_ok_def backed_def answers_backed_def recently_active_def)
next
  case (store s i token now_ts ctx ctx' c')
  then have "(token, now_ts, ctx) \<in> set (is_active s)" by (auto simp: introspection_ok_def answers_backed_def)
  then have "cache_ok c'" "backed hash (s\<lparr>is_cache := c'\<rparr>)" "recently_active hash s token now_ts ctx'"
    using store_keeps store bound by metis+
  with store(3) show ?case
    by (auto simp: introspection_ok_def backed_def answers_backed_def recently_active_def)
next
  case (active s i token now_ts reply ctx)
  have "backed hash (s\<lparr>is_threads := (is_threads s)(i := Answered token now_ts ctx), is_active := (token, now_ts, ctx) # is_active s\<rparr>)"
    using active(3) unfolding introspection_ok_def backed_def by fastforce
  moreover have "answers_backed (s\<lparr>is_threads := (is_threads s)(i := Answered token now_ts ctx), is_active := (token, now_ts, ctx) # is_active s\<rparr>)"
    using active(3) by (auto simp: introspection_ok_def answers_backed_def)
  moreover have "recently_active hash (s\<lparr>is_threads := (is_threads s)(i := Answered token now_ts ctx), is_active := (token, now_ts, ctx) # is_active s\<rparr>) token' t ctx2"
    if "(token', t, ctx2) \<in> set (is_accepted s)" for token' t ctx2
  proof (rule recently_active_mono)
    show "recently_active hash s token' t ctx2" using active(3) that unfolding introspection_ok_def by metis
  qed (simp add: subset_insertI)
  ultimately show ?case using active(3) unfolding introspection_ok_def by simp
qed (auto simp: introspection_ok_def backed_def answers_backed_def recently_active_def)

lemma with_provider_ttl:
  "IntrospectionAuthenticationProvider_with_provider c = Ok p \<Longrightarrow> ip_cache_ttl p = Some t \<Longrightarrow> uint t \<le> 300"
  by (auto simp: IntrospectionAuthenticationProvider_with_provider_def word_less_def
      split: option.splits sum.splits if_splits)

lemma introspection_invariant:
  assumes "introspection_reachable hash mapper p s" "IntrospectionAuthenticationProvider_with_provider c = Ok p"
  shows "introspection_ok hash s"
  using assms(1)
proof (induction rule: introspection_reachable.induct)
  case start
  then show ?case by (simp add: introspection_ok_def cache_ok_def queued_def backed_def answers_backed_def)
next
  case (step s s')
  then show ?case using introspection_ok_step with_provider_ttl [OF assms(2)] by blast
qed

section \<open>Properties\<close>


definition sample_oidc :: OidcProviderConfig where
  "sample_oidc = OidcProviderConfig_default\<lparr>
     oc_introspection_endpoint := Some \<lparr>url_scheme = ''https'', url_host = Some ''idp''\<rparr>,
     oc_introspection_client_id := Some ''id'', oc_introspection_client_secret := Some ''secret'',
     oc_introspection_cache_ttl_seconds := Some 60\<rparr>"

definition sample_context :: SecurityContext where
  "sample_context = SecurityContext_empty (Principal_new User ''u'')"


text \<open>
  A token that expires and is presented again leaves its old place in the queue: below the capacity nothing
  takes it out, and the queue grows with every round while the cache keeps one entry.
\<close>

lemma eviction_queue_grows:
  assumes "uint ttl \<le> now_ts - t" "now_ts - t \<le> i64_max" "0 < uint ttl"
  shows "introspection_store ttl key now_ts ctx \<lparr>ic_cache = [(key, t, ctx0)], ic_queue = queue\<rparr> =
    (ctx, \<lparr>ic_cache = [(key, now_ts, ctx)], ic_queue = queue @ [(key, now_ts)]\<rparr>)"
  using assms
  by (auto simp: introspection_store_def fresh_entry_def entry_age_def saturating_sub_i64_def i64_min_def i64_max_def
      MAX_INTROSPECTION_CACHE_ENTRIES_def Let_def)

text \<open>The OIDC provider runs with no audience to expect and with any leeway.\<close>

lemma oidc_needs_no_audience:
  "\<exists>p. OidcAuthenticationProvider_with_discovery
     (OidcProviderConfig_default\<lparr>oc_jwks_uri := Some \<lparr>url_scheme = ''https'', url_host = Some ''idp''\<rparr>,
        oc_expected_iss := Some ''idp'', oc_leeway_seconds := Some leeway\<rparr>) discovery = Ok p \<and>
     jc_expected_aud (op_jwt_config p) = None \<and> jc_leeway_seconds (op_jwt_config p) = Some leeway"
  by (simp add: OidcAuthenticationProvider_with_discovery_def OidcProviderConfig_validate_def OidcProviderConfig_default_def
      validate_optional_url_def validate_url_requires_https_def build_introspection_def)

end
