(* ===== verification/Ego_Data_Provider.thy ===== *)
theory Ego_Data_Provider
  imports Ego_Effect_Policy
begin

text \<open>
  External data providers (\<open>crates/runtime/src/providers\<close>, \<open>crates/persistent-entity/src/data_provider_access.rs\<close>):
  the registry by provider id and the access point handlers fetch through, which bounds every attempt in time,
  catches panics, retries what may be retried and signals what it did.

  One attempt is what the provider does with the request in its own state: it returns, panics, or outlasts the
  timeout. The hash of a key, the entropy of the backoff and the time elapsed are arguments. Attempts are
  counted in \<open>nat\<close>; the code counts in \<open>u32\<close>, which the count reaches after four thousand million retries.
\<close>

section \<open>Requests and registry\<close>

record DataRequest =
  dq_key :: string
  dq_payload :: "8 word list"
  dq_tenant :: "TenantId option"

definition DataRequest_new :: "string \<Rightarrow> 8 word list \<Rightarrow> DataRequest" where
  "DataRequest_new key payload = \<lparr>dq_key = key, dq_payload = payload, dq_tenant = None\<rparr>"

definition DataRequest_for_tenant :: "string \<Rightarrow> 8 word list \<Rightarrow> TenantId \<Rightarrow> DataRequest" where
  "DataRequest_for_tenant key payload tenant = \<lparr>dq_key = key, dq_payload = payload, dq_tenant = Some tenant\<rparr>"

definition DataRequest_with_tenant :: "TenantId \<Rightarrow> DataRequest \<Rightarrow> DataRequest" where
  "DataRequest_with_tenant tenant r = r\<lparr>dq_tenant := Some tenant\<rparr>"

record DataResponse =
  dp_payload :: "8 word list"
  dp_cache_hit :: bool

datatype DataProviderError =
  ProviderTransient string
| ProviderFatal string
| ProviderTimeout
| ProviderNotFound string
| ProviderMissing string
| ProviderInternal

datatype ProviderHealth = ProviderHealthy | ProviderUnhealthy

datatype fetch_attempt = FetchReturned "(DataResponse, DataProviderError) result" | FetchPanicked | FetchElapsed

type_synonym 's ExternalDataProvider = "DataRequest \<Rightarrow> 's \<Rightarrow> fetch_attempt \<times> 's"

datatype DuplicateProviderId = ProviderAlreadyRegistered string

definition DataProviderRegistry_register ::
  "string \<Rightarrow> 'p \<Rightarrow> (string \<rightharpoonup> 'p) \<Rightarrow> (string \<rightharpoonup> 'p, DuplicateProviderId) result" where
  "DataProviderRegistry_register provider_id provider reg =
     (if reg provider_id \<noteq> None then Err (ProviderAlreadyRegistered provider_id)
      else Ok (reg(provider_id \<mapsto> provider)))"

section \<open>Access\<close>

record ProviderAccessConfig =
  pac_timeout :: duration
  pac_retry :: RetryPolicy

definition DEFAULT_PROVIDER_TIMEOUT :: duration where
  "DEFAULT_PROVIDER_TIMEOUT = from_secs 30"

definition ProviderAccessConfig_default :: ProviderAccessConfig where
  "ProviderAccessConfig_default = \<lparr>pac_timeout = DEFAULT_PROVIDER_TIMEOUT, pac_retry = RetryPolicy_default\<rparr>"

datatype ProviderOutcome =
  FetchSuccess | FetchNotFound | FetchTransient | FetchTimeout | FetchFatal | FetchProviderMissing | FetchInternal

fun ProviderOutcome_as_str :: "ProviderOutcome \<Rightarrow> string" where
  "ProviderOutcome_as_str FetchSuccess = ''success''"
| "ProviderOutcome_as_str FetchNotFound = ''not_found''"
| "ProviderOutcome_as_str FetchTransient = ''transient''"
| "ProviderOutcome_as_str FetchTimeout = ''timeout''"
| "ProviderOutcome_as_str FetchFatal = ''fatal''"
| "ProviderOutcome_as_str FetchProviderMissing = ''provider_missing''"
| "ProviderOutcome_as_str FetchInternal = ''internal''"

fun from_result :: "(DataResponse, DataProviderError) result \<Rightarrow> ProviderOutcome" where
  "from_result (Inr _) = FetchSuccess"
| "from_result (Inl (ProviderNotFound _)) = FetchNotFound"
| "from_result (Inl (ProviderTransient _)) = FetchTransient"
| "from_result (Inl ProviderTimeout) = FetchTimeout"
| "from_result (Inl (ProviderFatal _)) = FetchFatal"
| "from_result (Inl (ProviderMissing _)) = FetchProviderMissing"
| "from_result (Inl ProviderInternal) = FetchInternal"

definition is_retryable :: "ProviderOutcome \<Rightarrow> bool" where
  "is_retryable outcome \<longleftrightarrow> outcome = FetchTransient \<or> outcome = FetchTimeout"

record FetchSignal =
  fs_provider_id :: string
  fs_key_hash :: string
  fs_latency_ms :: u64
  fs_cache_hit :: bool
  fs_outcome :: string
  fs_attempts :: nat

record RetrySignal =
  rt_provider_id :: string
  rt_key_hash :: string
  rt_next_attempt :: nat
  rt_backoff_ms :: u64
  rt_outcome :: string

datatype fetch_event = Fetched FetchSignal | RetryScheduled RetrySignal

text \<open>\<open>Duration::as_millis\<close>, cast to \<open>u64\<close>.\<close>

definition as_millis :: "duration \<Rightarrow> u64" where
  "as_millis d = of_nat (d div 1000000)"

definition fetch_signal :: "(string \<Rightarrow> string) \<Rightarrow> string \<Rightarrow> string \<Rightarrow> duration \<Rightarrow> bool \<Rightarrow> ProviderOutcome \<Rightarrow> nat \<Rightarrow> FetchSignal" where
  "fetch_signal hashed_key provider_id key latency cache_hit outcome attempts =
     \<lparr>fs_provider_id = provider_id, fs_key_hash = hashed_key key, fs_latency_ms = as_millis latency,
      fs_cache_hit = cache_hit, fs_outcome = ProviderOutcome_as_str outcome, fs_attempts = attempts\<rparr>"

definition retry_signal :: "(string \<Rightarrow> string) \<Rightarrow> string \<Rightarrow> string \<Rightarrow> nat \<Rightarrow> duration \<Rightarrow> ProviderOutcome \<Rightarrow> RetrySignal" where
  "retry_signal hashed_key provider_id key next_attempt delay outcome =
     \<lparr>rt_provider_id = provider_id, rt_key_hash = hashed_key key, rt_next_attempt = next_attempt,
      rt_backoff_ms = as_millis delay, rt_outcome = ProviderOutcome_as_str outcome\<rparr>"

text \<open>What one attempt comes to, under the timeout and with panics caught.\<close>

fun guarded_result :: "fetch_attempt \<Rightarrow> (DataResponse, DataProviderError) result" where
  "guarded_result (FetchReturned r) = r"
| "guarded_result FetchPanicked = Err ProviderInternal"
| "guarded_result FetchElapsed = Err ProviderTimeout"

record fetch_inputs =
  fi_hashed_key :: "string \<Rightarrow> string"
  fi_entropy :: "nat \<Rightarrow> u64"
  fi_elapsed :: duration

text \<open>The loop: \<open>attempt\<close> counts the retries already spent.\<close>

function fetch_loop ::
  "fetch_inputs \<Rightarrow> RetryPolicy \<Rightarrow> string \<Rightarrow> 's ExternalDataProvider \<Rightarrow> DataRequest \<Rightarrow> nat \<Rightarrow> 's \<Rightarrow>
   (DataResponse, DataProviderError) result \<times> 's \<times> fetch_event list" where
  "fetch_loop x policy provider_id provider request attempt s =
     (let attempts_so_far = attempt + 1;
          (made, s1) = provider request s;
          result = guarded_result made;
          outcome = from_result result
      in if is_retryable outcome \<and> allows_retry policy attempt
         then (let next_attempt = attempts_so_far + 1;
                   delay = backoff (fi_entropy x attempt) policy next_attempt
               in case fetch_loop x policy provider_id provider request (attempt + 1) s1 of
                    (r, s2, events) \<Rightarrow>
                      (r, s2, RetryScheduled
                        (retry_signal (fi_hashed_key x) provider_id (dq_key request) next_attempt delay outcome) # events))
         else (result, s1,
           [Fetched (fetch_signal (fi_hashed_key x) provider_id (dq_key request) (fi_elapsed x)
              (case result of Inr response \<Rightarrow> dp_cache_hit response | Inl _ \<Rightarrow> False) outcome attempts_so_far)]))"
  by pat_completeness auto

termination fetch_loop
  by (relation "measure (\<lambda>(x, policy, pid, provider, request, attempt, s). max_attempts policy - attempt)")
    (auto simp: allows_retry_def)

declare fetch_loop.simps [simp del]

definition RuntimeDataProviderAccess_fetch ::
  "fetch_inputs \<Rightarrow> ProviderAccessConfig \<Rightarrow> (string \<rightharpoonup> 's ExternalDataProvider) \<Rightarrow> string \<Rightarrow> DataRequest \<Rightarrow> 's \<Rightarrow>
   (DataResponse, DataProviderError) result \<times> 's \<times> fetch_event list" where
  "RuntimeDataProviderAccess_fetch x config registry provider_id request s =
     (case registry provider_id of
        None \<Rightarrow>
          (Err (ProviderMissing provider_id), s,
           [Fetched (fetch_signal (fi_hashed_key x) provider_id (dq_key request) (fi_elapsed x) False FetchProviderMissing 1)])
      | Some provider \<Rightarrow> fetch_loop x (pac_retry config) provider_id provider request 0 s)"

section \<open>What a fetch comes to\<close>

text \<open>The attempts a provider makes one after the other, each in the state the last one left.\<close>

fun attempts_from :: "'s ExternalDataProvider \<Rightarrow> DataRequest \<Rightarrow> nat \<Rightarrow> 's \<Rightarrow> fetch_attempt list \<times> 's" where
  "attempts_from provider request 0 s = ([], s)"
| "attempts_from provider request (Suc n) s =
     (case provider request s of (made, s1) \<Rightarrow>
        case attempts_from provider request n s1 of (rest, s2) \<Rightarrow> (made # rest, s2))"

definition gives_up_on :: "fetch_attempt \<Rightarrow> bool" where
  "gives_up_on made \<longleftrightarrow> \<not> is_retryable (from_result (guarded_result made))"

definition fetched_signals :: "fetch_event list \<Rightarrow> FetchSignal list" where
  "fetched_signals events = List.map_filter (\<lambda>e. case e of Fetched f \<Rightarrow> Some f | RetryScheduled _ \<Rightarrow> None) events"

lemma attempts_from_length [simp]: "length (fst (attempts_from provider request n s)) = n"
  by (induction n arbitrary: s) (auto simp: split_beta)

lemma fetch_loop_attempts:
  assumes "fetch_loop x policy provider_id provider request attempt s = (r, s', events)"
  shows "\<exists>n made. n < Suc (max_attempts policy - attempt) \<and>
    attempts_from provider request (Suc n) s = (made, s') \<and> r = guarded_result (last made) \<and>
    list_all (\<lambda>m. \<not> gives_up_on m) (butlast made) \<and>
    (gives_up_on (last made) \<or> n = max_attempts policy - attempt) \<and>
    map fs_attempts (fetched_signals events) = [attempt + Suc n] \<and> length events = Suc n"
  using assms
proof (induction x policy provider_id provider request attempt s arbitrary: r s' events rule: fetch_loop.induct)
  case (1 x policy provider_id provider request attempt s)
  obtain made s1 where made: "provider request s = (made, s1)" by fastforce
  show ?case
  proof (cases "is_retryable (from_result (guarded_result made)) \<and> allows_retry policy attempt")
    case True
    then obtain events' e where rest:
        "fetch_loop x policy provider_id provider request (attempt + 1) s1 = (r, s', events')" "events = RetryScheduled e # events'"
      using 1(2) made by (auto simp: fetch_loop.simps [of x policy provider_id provider request attempt] Let_def split: prod.splits)
    from 1(1) [OF refl refl made [symmetric] refl refl True refl refl rest(1)]
    obtain n more where *: "n < Suc (max_attempts policy - (attempt + 1))"
        "attempts_from provider request (Suc n) s1 = (more, s')" "r = guarded_result (last more)"
        "list_all (\<lambda>m. \<not> gives_up_on m) (butlast more)" "gives_up_on (last more) \<or> n = max_attempts policy - (attempt + 1)"
        "map fs_attempts (fetched_signals events') = [attempt + 1 + Suc n]" "length events' = Suc n"
      by (elim exE conjE) (rule that)
    have "length more = Suc n" using *(2) attempts_from_length [of provider request "Suc n" s1] by simp
    then have "more \<noteq> []" by auto
    then show ?thesis
      using * rest(2) made True
      by (intro exI [of _ "Suc n"] exI [of _ "made # more"])
        (auto simp: fetched_signals_def map_filter_simps gives_up_on_def allows_retry_def)
  next
    case False
    then have res: "r = guarded_result made" "s' = s1"
        "events = [Fetched (fetch_signal (fi_hashed_key x) provider_id (dq_key request) (fi_elapsed x)
              (case guarded_result made of Inr response \<Rightarrow> dp_cache_hit response | Inl _ \<Rightarrow> False)
              (from_result (guarded_result made)) (attempt + 1))]"
      using 1(2) made by (auto simp: fetch_loop.simps [of x policy provider_id provider request attempt] Let_def)
    then show ?thesis
      using False made
      by (intro exI [of _ 0] exI [of _ "[made]"])
        (auto simp: fetched_signals_def map_filter_simps fetch_signal_def gives_up_on_def allows_retry_def)
  qed
qed

text \<open>
  C31: A fetch returns, whatever the provider does: it makes at most one attempt more than the policy's retries;
  every attempt but the last came to a transient failure or a timeout, and the last one did not unless the
  retries are spent; its result, with a panic as an internal error and a timeout as such, is the fetch's; and
  exactly one terminal signal is emitted, with the number of attempts made.
\<close>

theorem fetch_is_bounded:
  assumes "registry provider_id = Some provider"
    and "RuntimeDataProviderAccess_fetch x config registry provider_id request s = (r, s', events)"
  shows "\<exists>n made. n \<le> max_attempts (pac_retry config) \<and>
    attempts_from provider request (Suc n) s = (made, s') \<and> r = guarded_result (last made) \<and>
    list_all (\<lambda>m. \<not> gives_up_on m) (butlast made) \<and>
    (gives_up_on (last made) \<or> n = max_attempts (pac_retry config)) \<and>
    map fs_attempts (fetched_signals events) = [Suc n]"
  using fetch_loop_attempts [of x "pac_retry config" provider_id provider request 0 s r s' events] assms
  by (auto simp: RuntimeDataProviderAccess_fetch_def less_Suc_eq_le)

text \<open>A provider that fails twice and then answers, under a policy of three retries.\<close>

definition sample_fetch :: "nat ExternalDataProvider" where
  "sample_fetch request s =
     (if s < 2 then FetchElapsed else FetchReturned (Ok \<lparr>dp_payload = [], dp_cache_hit = True\<rparr>), Suc s)"

theorem fetch_is_bounded_witness:
  "\<exists>events made.
     RuntimeDataProviderAccess_fetch \<lparr>fi_hashed_key = id, fi_entropy = (\<lambda>_. 0), fi_elapsed = 0\<rparr>
       ProviderAccessConfig_default [''p'' \<mapsto> sample_fetch] ''p'' (DataRequest_new ''k'' []) 0
       = (Ok \<lparr>dp_payload = [], dp_cache_hit = True\<rparr>, 3, events) \<and>
     attempts_from sample_fetch (DataRequest_new ''k'' []) 3 0 = (made, 3) \<and> map fs_attempts (fetched_signals events) = [3]"
proof -
  let ?x = "\<lparr>fi_hashed_key = id, fi_entropy = (\<lambda>_. 0), fi_elapsed = 0\<rparr> :: fetch_inputs"
  obtain r s' events where run: "RuntimeDataProviderAccess_fetch ?x ProviderAccessConfig_default [''p'' \<mapsto> sample_fetch] ''p''
      (DataRequest_new ''k'' []) 0 = (r, s', events)" by (metis prod_cases3)
  have "r = Ok \<lparr>dp_payload = [], dp_cache_hit = True\<rparr> \<and> s' = 3"
    using run by (simp add: RuntimeDataProviderAccess_fetch_def fetch_loop.simps [of _ _ _ _ _ _ 0]
        fetch_loop.simps [of _ _ _ _ _ _ "Suc 0"] fetch_loop.simps [of _ _ _ _ _ _ "Suc (Suc 0)"] sample_fetch_def
        is_retryable_def allows_retry_def ProviderAccessConfig_default_def RetryPolicy_default_def DEFAULT_MAX_ATTEMPTS_def Let_def
        numeral_3_eq_3 split: prod.splits)
  moreover from fetch_is_bounded [OF _ run] obtain n made where
      "attempts_from sample_fetch (DataRequest_new ''k'' []) (Suc n) 0 = (made, s')" "map fs_attempts (fetched_signals events) = [Suc n]"
    by auto
  moreover have "s = m + k" if "attempts_from sample_fetch q m k = (made', s)" for q m k made' s
    using that
  proof (induction m arbitrary: k made')
    case (Suc m)
    obtain made0 where "sample_fetch q k = (made0, Suc k)" by (simp add: sample_fetch_def)
    then obtain more where "attempts_from sample_fetch q m (Suc k) = (more, s)"
      using Suc.prems by (auto split: prod.splits)
    from Suc.IH [OF this] show ?case by simp
  qed simp
  ultimately show ?thesis using run by (metis add.right_neutral)
qed

end
