(* ===== verification/Ego_Health.thy ===== *)
theory Ego_Health
  imports Ego_Data_Provider Ego_Reservation "HOL-Library.Multiset"
begin

text \<open>
  Health reports (\<open>crates/domain/src/health\<close>, \<open>crates/service-sdk/src/health\<close>,
  \<open>crates/runtime/src/providers/health.rs\<close>): contributors are checked at the same time, each under its own
  timeout and with panics caught, optionally under one budget for all, and their reports are folded into one
  status.

  The checks finish in an order of their own: \<open>arrivals\<close> lists the contributors, by position, whose checks
  finished before the budget ran out. \<open>drain\<close> is the order in which the hash map of pending contributors is
  emptied.
\<close>

section \<open>Status\<close>

datatype ProbeKind = Liveness | Readiness | Startup

datatype HealthStatus = Healthy | Degraded | Unhealthy

datatype DependencyRequirement = Required | Optional

datatype HealthCode = HTimeout | HUnavailable | HInitializationPending | HDependencyFailure | HInternalFailure

record HealthCheck =
  hc_status :: HealthStatus
  hc_code :: "HealthCode option"

record ContributorReport =
  cr_name :: string
  cr_status :: HealthStatus
  cr_requirement :: DependencyRequirement
  cr_code :: "HealthCode option"

record HealthReport =
  hr_probe :: ProbeKind
  hr_status :: HealthStatus
  hr_contributors :: "ContributorReport list"

fun contribution :: "HealthStatus \<Rightarrow> DependencyRequirement \<Rightarrow> HealthStatus" where
  "contribution Healthy _ = Healthy"
| "contribution Degraded _ = Degraded"
| "contribution Unhealthy Required = Unhealthy"
| "contribution Unhealthy Optional = Degraded"

fun severity :: "HealthStatus \<Rightarrow> nat" where
  "severity Healthy = 0"
| "severity Degraded = 1"
| "severity Unhealthy = 2"

text \<open>\<open>max_by_key\<close>: of several greatest elements the last.\<close>

fun max_by_severity :: "HealthStatus list \<Rightarrow> HealthStatus option" where
  "max_by_severity [] = None"
| "max_by_severity (s # ss) =
     (case max_by_severity ss of
        None \<Rightarrow> Some s
      | Some m \<Rightarrow> if severity s \<le> severity m then Some m else Some s)"

definition health_fold :: "ContributorReport list \<Rightarrow> HealthStatus" where
  "health_fold reports =
     (case max_by_severity (map (\<lambda>r. contribution (cr_status r) (cr_requirement r)) reports) of
        Some s \<Rightarrow> s | None \<Rightarrow> Healthy)"

section \<open>Aggregation\<close>

datatype check_outcome = CheckDone HealthCheck | CheckPanicked | CheckElapsed

record contributor =
  ct_name :: string
  ct_requirement :: DependencyRequirement
  ct_outcome :: check_outcome

definition contributor_report :: "contributor \<Rightarrow> ContributorReport" where
  "contributor_report c =
     (case ct_outcome c of
        CheckDone check \<Rightarrow>
          \<lparr>cr_name = ct_name c, cr_status = hc_status check, cr_requirement = ct_requirement c, cr_code = hc_code check\<rparr>
      | CheckPanicked \<Rightarrow>
          \<lparr>cr_name = ct_name c, cr_status = Unhealthy, cr_requirement = ct_requirement c, cr_code = Some HInternalFailure\<rparr>
      | CheckElapsed \<Rightarrow>
          \<lparr>cr_name = ct_name c, cr_status = Unhealthy, cr_requirement = ct_requirement c, cr_code = Some HTimeout\<rparr>)"

definition timeout_report :: "string \<times> DependencyRequirement \<Rightarrow> ContributorReport" where
  "timeout_report p = \<lparr>cr_name = fst p, cr_status = Unhealthy, cr_requirement = snd p, cr_code = Some HTimeout\<rparr>"

record HealthAggregationConfig =
  hg_per_contributor :: duration
  hg_global_budget :: "duration option"

definition HealthAggregationConfig_default :: HealthAggregationConfig where
  "HealthAggregationConfig_default = \<lparr>hg_per_contributor = from_secs 5, hg_global_budget = None\<rparr>"

type_synonym pending = "(nat \<times> string \<times> DependencyRequirement) list"

definition sorted_reports :: "(nat \<times> ContributorReport) list \<Rightarrow> ContributorReport list" where
  "sorted_reports reports = map snd (sort_key fst reports)"

text \<open>The loop under the budget; with no arrival left and checks pending the budget elapses.\<close>

fun collect_until ::
  "contributor list \<Rightarrow> (pending \<Rightarrow> pending) \<Rightarrow> nat list \<Rightarrow> pending \<Rightarrow> (nat \<times> ContributorReport) list \<Rightarrow>
   (nat \<times> ContributorReport) list" where
  "collect_until cs drain [] pending reports =
     reports @ map (\<lambda>(i, p). (i, timeout_report p)) (drain pending)"
| "collect_until cs drain (i # arrivals) pending reports =
     (let pending' = filter (\<lambda>e. fst e \<noteq> i) pending; reports' = reports @ [(i, contributor_report (cs ! i))]
      in if pending' = [] then reports' else collect_until cs drain arrivals pending' reports')"

definition collect_reports ::
  "HealthAggregationConfig \<Rightarrow> (pending \<Rightarrow> pending) \<Rightarrow> nat list \<Rightarrow> contributor list \<Rightarrow> ContributorReport list" where
  "collect_reports config drain arrivals cs =
     (case hg_global_budget config of
        None \<Rightarrow> sorted_reports (map (\<lambda>i. (i, contributor_report (cs ! i))) arrivals)
      | Some _ \<Rightarrow>
          sorted_reports (collect_until cs drain arrivals
            (map (\<lambda>i. (i, ct_name (cs ! i), ct_requirement (cs ! i))) [0..<length cs]) []))"

definition HealthAggregator_aggregate ::
  "HealthAggregationConfig \<Rightarrow> (pending \<Rightarrow> pending) \<Rightarrow> nat list \<Rightarrow> contributor list \<Rightarrow> ProbeKind \<Rightarrow> HealthReport" where
  "HealthAggregator_aggregate config drain arrivals cs probe =
     (let contributors = collect_reports config drain arrivals cs
      in \<lparr>hr_probe = probe, hr_status = health_fold contributors, hr_contributors = contributors\<rparr>)"

section \<open>Contributors\<close>

definition OPERATION_RESERVATION_STORE_CONTRIBUTOR :: string where
  "OPERATION_RESERVATION_STORE_CONTRIBUTOR = ''operation-reservation-store''"

fun reservation_store_check :: "(unit, ReservationError) result \<Rightarrow> HealthCheck" where
  "reservation_store_check (Inr _) = \<lparr>hc_status = Healthy, hc_code = None\<rparr>"
| "reservation_store_check (Inl (Backend _)) = \<lparr>hc_status = Unhealthy, hc_code = Some HUnavailable\<rparr>"
| "reservation_store_check (Inl _) = \<lparr>hc_status = Unhealthy, hc_code = Some HInternalFailure\<rparr>"

definition OperationReservationStoreHealthContributor :: "(unit, ReservationError) result \<Rightarrow> contributor" where
  "OperationReservationStoreHealthContributor probe =
     \<lparr>ct_name = OPERATION_RESERVATION_STORE_CONTRIBUTOR, ct_requirement = Required,
      ct_outcome = CheckDone (reservation_store_check probe)\<rparr>"

fun provider_check :: "ProviderHealth \<Rightarrow> HealthCheck" where
  "provider_check ProviderHealthy = \<lparr>hc_status = Healthy, hc_code = None\<rparr>"
| "provider_check ProviderUnhealthy = \<lparr>hc_status = Unhealthy, hc_code = Some HDependencyFailure\<rparr>"

definition ProviderHealthContributor :: "string \<Rightarrow> ProviderHealth \<Rightarrow> contributor" where
  "ProviderHealthContributor provider_id health =
     \<lparr>ct_name = provider_id, ct_requirement = Required, ct_outcome = CheckDone (provider_check health)\<rparr>"

section \<open>Facts\<close>

lemma severity_inj: "severity a = severity b \<Longrightarrow> a = b"
  by (cases a; cases b) simp_all

lemma max_by_severity_Some:
  "max_by_severity ss = Some m \<longleftrightarrow> m \<in> set ss \<and> (\<forall>s. s \<in> set ss \<longrightarrow> severity s \<le> severity m)"
proof (induction ss arbitrary: m)
  case (Cons a ss)
  show ?case
  proof (cases "max_by_severity ss")
    case None
    then have "ss = []" by (cases ss) (auto split: option.splits if_splits)
    then show ?thesis by auto
  next
    case (Some n)
    then have n: "n \<in> set ss" "\<And>s. s \<in> set ss \<Longrightarrow> severity s \<le> severity n" using Cons by auto
    have "m = n" if "severity a \<le> severity n" "m \<in> set (a # ss)" "severity n \<le> severity m"
      using that n(2) [of m] by (intro severity_inj) auto
    moreover have "m = a" if "\<not> severity a \<le> severity n" "m \<in> set (a # ss)" "severity a \<le> severity m"
      using that n(2) [of m] by auto
    moreover have "severity s \<le> severity a" if "\<not> severity a \<le> severity n" "s \<in> set ss" for s
      using that n(2) [of s] by simp
    ultimately show ?thesis using Some n by auto
  qed
qed simp

lemma health_fold_Unhealthy:
  "health_fold reports = Unhealthy \<longleftrightarrow> (\<exists>r. r \<in> set reports \<and> cr_status r = Unhealthy \<and> cr_requirement r = Required)"
proof -
  have contribution: "contribution s q = Unhealthy \<longleftrightarrow> s = Unhealthy \<and> q = Required" for s q
    by (cases s; cases q) simp_all
  have top: "severity s \<le> severity Unhealthy" for s by (cases s) simp_all
  show ?thesis
  proof (cases "max_by_severity (map (\<lambda>r. contribution (cr_status r) (cr_requirement r)) reports)")
    case None
    then have "reports = []" by (cases reports) (auto split: option.splits if_splits)
    then show ?thesis by (simp add: health_fold_def)
  next
    case (Some m)
    then have "m = Unhealthy \<longleftrightarrow> Unhealthy \<in> set (map (\<lambda>r. contribution (cr_status r) (cr_requirement r)) reports)"
      unfolding max_by_severity_Some using top severity_inj by (metis order.antisym)
    moreover have "Unhealthy \<in> set (map (\<lambda>r. contribution (cr_status r) (cr_requirement r)) reports) \<longleftrightarrow>
        (\<exists>r. r \<in> set reports \<and> cr_status r = Unhealthy \<and> cr_requirement r = Required)"
      by (simp add: image_iff contribution [symmetric]) metis
    ultimately show ?thesis using Some by (simp add: health_fold_def)
  qed
qed

lemma health_fold_Healthy:
  "health_fold reports = Healthy \<longleftrightarrow> (\<forall>r. r \<in> set reports \<longrightarrow> cr_status r = Healthy)"
proof (cases "max_by_severity (map (\<lambda>r. contribution (cr_status r) (cr_requirement r)) reports)")
  case None
  then have "reports = []" by (cases reports) (auto split: option.splits if_splits)
  then show ?thesis by (simp add: health_fold_def)
next
  case (Some m)
  have contribution: "contribution s q = Healthy \<longleftrightarrow> s = Healthy" for s q by (cases s; cases q) simp_all
  have bottom: "severity s \<le> severity Healthy \<longleftrightarrow> s = Healthy" for s by (cases s) simp_all
  have "m \<in> set (map (\<lambda>r. contribution (cr_status r) (cr_requirement r)) reports)"
    and "\<forall>s. s \<in> set (map (\<lambda>r. contribution (cr_status r) (cr_requirement r)) reports) \<longrightarrow> severity s \<le> severity m"
    using max_by_severity_Some Some by blast+
  then have "m = Healthy \<longleftrightarrow> (\<forall>r. r \<in> set reports \<longrightarrow> contribution (cr_status r) (cr_requirement r) = Healthy)"
    using bottom by auto
  then show ?thesis using Some contribution by (simp add: health_fold_def)
qed

lemma sorted_reports_positions:
  assumes "set xs = (\<lambda>i. (i, f i)) ` {0..<n}" "distinct (map fst xs)"
  shows "sorted_reports xs = map f [0..<n]"
proof -
  have "map fst (sort_key fst xs) = [0..<n]"
  proof (rule sorted_distinct_set_unique)
    show "distinct (map fst (sort_key fst xs))"
      using assms(2) by (metis distinct_map distinct_sort set_sort)
    show "set (map fst (sort_key fst xs)) = set [0..<n]" using assms(1) by (force simp: image_iff)
  qed (simp_all add: sorted_sort_key)
  moreover have "e = (fst e, f (fst e))" if "e \<in> set (sort_key fst xs)" for e using that assms(1) by auto
  ultimately show ?thesis unfolding sorted_reports_def
    by (metis (no_types, lifting) map_map map_eq_conv comp_apply snd_conv)
qed

lemma collect_until_positions:
  assumes "distinct arrivals" "set arrivals \<subseteq> fst ` set pending" "distinct (map fst (pending))"
    and drain: "\<And>p. mset (drain p) = mset p" and "distinct (map fst reports @ map fst pending)"
  shows "set (collect_until cs drain arrivals pending reports) =
      set reports \<union> (\<lambda>i. (i, contributor_report (cs ! i))) ` set arrivals \<union>
      (\<lambda>(i, p). (i, timeout_report p)) ` {e. e \<in> set pending \<and> fst e \<notin> set arrivals} \<and>
    distinct (map fst (collect_until cs drain arrivals pending reports))"
  using assms(1-3,5)
proof (induction arrivals arbitrary: pending reports)
  case Nil
  have same: "set (drain pending) = set pending" using drain by (metis mset_eq_setD)
  have "mset (map fst (drain pending)) = mset (map fst pending)" using drain by simp
  then have "distinct (map fst (drain pending))" using Nil(3) by (metis mset_eq_imp_distinct_iff)
  then show ?case using Nil(4) same by (auto simp: image_iff comp_def case_prod_unfold)
next
  case (Cons i arrivals)
  let ?pending = "filter (\<lambda>e. fst e \<noteq> i) pending"
  let ?reports = "reports @ [(i, contributor_report (cs ! i))]"
  have keys: "set arrivals \<subseteq> fst ` set ?pending" using Cons.prems(1,2) by (force simp: image_iff)
  have dist: "distinct (map fst ?pending)" using Cons.prems(3) by (simp add: distinct_map_filter)
  have both: "distinct (map fst ?reports @ map fst ?pending)"
    using Cons.prems(2,4) dist by (auto simp: image_iff)
  have rest: "{e. e \<in> set ?pending \<and> fst e \<notin> set arrivals} = {e. e \<in> set pending \<and> fst e \<notin> set (i # arrivals)}" by auto
  show ?case
  proof (cases "?pending = []")
    case True
    then have none: "arrivals = []" using keys by simp
    have "{e. e \<in> set pending \<and> fst e \<notin> set (i # arrivals)} = {}"
      using True by (auto simp: filter_empty_conv)
    then show ?thesis using True none both by (simp only: collect_until.simps Let_def if_True) auto
  next
    case False
    then show ?thesis using Cons.IH [OF _ keys dist both] Cons.prems(1) rest by (auto simp: Let_def)
  qed
qed

definition expected_report :: "nat list \<Rightarrow> contributor list \<Rightarrow> nat \<Rightarrow> ContributorReport" where
  "expected_report arrivals cs i =
     (if i \<in> set arrivals then contributor_report (cs ! i) else timeout_report (ct_name (cs ! i), ct_requirement (cs ! i)))"

lemma collect_reports_positions:
  assumes "distinct arrivals" "set arrivals \<subseteq> {0..<length cs}"
    and "case hg_global_budget config of None \<Rightarrow> set arrivals = {0..<length cs} | Some _ \<Rightarrow> True"
    and drain: "\<And>p. mset (drain p) = mset p"
  shows "collect_reports config drain arrivals cs = map (expected_report arrivals cs) [0..<length cs]"
proof (cases "hg_global_budget config")
  case None
  then have all: "set arrivals = {0..<length cs}" using assms(3) by simp
  have "sorted_reports (map (\<lambda>i. (i, contributor_report (cs ! i))) arrivals)
      = map (expected_report arrivals cs) [0..<length cs]"
    using all assms(1) by (intro sorted_reports_positions) (auto simp: expected_report_def comp_def)
  then show ?thesis using None by (simp add: collect_reports_def)
next
  case (Some budget)
  let ?pending = "map (\<lambda>i. (i, ct_name (cs ! i), ct_requirement (cs ! i))) [0..<length cs]"
  let ?all = "collect_until cs drain arrivals ?pending []"
  have keys: "set arrivals \<subseteq> fst ` set ?pending" using assms(2) by (force simp: image_iff)
  have dist: "distinct (map fst ?pending)" by (simp add: comp_def)
  note positions = collect_until_positions [of arrivals ?pending drain "[]" cs, OF assms(1) keys dist drain]
  have late: "(\<lambda>(i, p). (i, timeout_report p)) ` {e. e \<in> set ?pending \<and> fst e \<notin> set arrivals}
      = (\<lambda>i. (i, expected_report arrivals cs i)) ` ({0..<length cs} - set arrivals)"
    by (force simp: expected_report_def image_iff)
  have arrived: "(\<lambda>i. (i, contributor_report (cs ! i))) ` set arrivals = (\<lambda>i. (i, expected_report arrivals cs i)) ` set arrivals"
    by (auto simp: expected_report_def)
  have "set ?all = (\<lambda>i. (i, expected_report arrivals cs i)) ` (set arrivals \<union> ({0..<length cs} - set arrivals))"
    using positions dist unfolding late arrived image_Un by simp
  then have "set ?all = (\<lambda>i. (i, expected_report arrivals cs i)) ` {0..<length cs}"
    using assms(2) by (simp add: Un_absorb1 Un_Diff_cancel)
  then have "sorted_reports ?all = map (expected_report arrivals cs) [0..<length cs]"
    using positions dist by (intro sorted_reports_positions) simp_all
  then show ?thesis using Some by (simp add: collect_reports_def)
qed

section \<open>Property\<close>

text \<open>
  C35: A health report does not depend on the order in which checks finish. It has exactly one entry per
  registered contributor, in the order of registration and even for contributors of the same name: what its
  check said, an internal failure if it panicked, a timeout if it outlasted its own timeout or the budget for
  all. The status is unhealthy if and only if a required contributor is, and healthy if and only if all are.
\<close>

theorem health_report_is_exact:
  assumes "distinct arrivals" "set arrivals \<subseteq> {0..<length cs}"
    and "case hg_global_budget config of None \<Rightarrow> set arrivals = {0..<length cs} | Some _ \<Rightarrow> True"
    and "\<And>p. mset (drain p) = mset p"
  shows "hr_contributors (HealthAggregator_aggregate config drain arrivals cs probe) =
      map (\<lambda>i. if i \<in> set arrivals then contributor_report (cs ! i)
               else timeout_report (ct_name (cs ! i), ct_requirement (cs ! i))) [0..<length cs] \<and>
    (hr_status (HealthAggregator_aggregate config drain arrivals cs probe) = Unhealthy \<longleftrightarrow>
      (\<exists>i < length cs. ct_requirement (cs ! i) = Required \<and>
         (i \<in> set arrivals \<longrightarrow> cr_status (contributor_report (cs ! i)) = Unhealthy))) \<and>
    (hr_status (HealthAggregator_aggregate config drain arrivals cs probe) = Healthy \<longleftrightarrow>
      (\<forall>i < length cs. i \<in> set arrivals \<and> cr_status (contributor_report (cs ! i)) = Healthy))"
proof -
  let ?report = "expected_report arrivals cs"
  have reports: "hr_contributors (HealthAggregator_aggregate config drain arrivals cs probe) = map ?report [0..<length cs]"
    using collect_reports_positions [OF assms] by (simp add: HealthAggregator_aggregate_def Let_def)
  have status: "hr_status (HealthAggregator_aggregate config drain arrivals cs probe) = health_fold (map ?report [0..<length cs])"
    using collect_reports_positions [OF assms] by (simp add: HealthAggregator_aggregate_def Let_def)
  have requirement: "cr_requirement (?report i) = ct_requirement (cs ! i)" for i
    by (simp add: expected_report_def contributor_report_def timeout_report_def split: check_outcome.splits)
  have entry: "cr_status (?report i) = (if i \<in> set arrivals then cr_status (contributor_report (cs ! i)) else Unhealthy)" for i
    by (simp add: expected_report_def timeout_report_def)
  have ex: "(\<exists>r. r \<in> set (map ?report [0..<length cs]) \<and> P r) \<longleftrightarrow> (\<exists>i < length cs. P (?report i))" for P by auto
  have all: "(\<forall>r. r \<in> set (map ?report [0..<length cs]) \<longrightarrow> P r) \<longleftrightarrow> (\<forall>i < length cs. P (?report i))" for P by auto
  have "hr_status (HealthAggregator_aggregate config drain arrivals cs probe) = Unhealthy \<longleftrightarrow>
      (\<exists>i < length cs. ct_requirement (cs ! i) = Required \<and> (i \<in> set arrivals \<longrightarrow> cr_status (contributor_report (cs ! i)) = Unhealthy))"
    unfolding status health_fold_Unhealthy ex requirement entry by (meson HealthStatus.distinct)
  moreover have "hr_status (HealthAggregator_aggregate config drain arrivals cs probe) = Healthy \<longleftrightarrow>
      (\<forall>i < length cs. i \<in> set arrivals \<and> cr_status (contributor_report (cs ! i)) = Healthy)"
    unfolding status health_fold_Healthy all entry by (meson HealthStatus.distinct)
  moreover have "map ?report [0..<length cs] = map (\<lambda>i. if i \<in> set arrivals then contributor_report (cs ! i)
               else timeout_report (ct_name (cs ! i), ct_requirement (cs ! i))) [0..<length cs]"
    by (simp add: expected_report_def)
  ultimately show ?thesis using reports by simp
qed

theorem health_report_is_exact_witness:
  "let cs = [ProviderHealthContributor ''a'' ProviderHealthy,
             OperationReservationStoreHealthContributor (Ok ())\<lparr>ct_outcome := CheckPanicked\<rparr>,
             ProviderHealthContributor ''a'' ProviderHealthy\<lparr>ct_requirement := Optional\<rparr>]
   in hr_status (HealthAggregator_aggregate \<lparr>hg_per_contributor = 5, hg_global_budget = Some 9\<rparr> rev [1, 0] cs Readiness) = Unhealthy \<and>
      map cr_name (hr_contributors (HealthAggregator_aggregate \<lparr>hg_per_contributor = 5, hg_global_budget = Some 9\<rparr> rev [1, 0] cs Readiness))
        = [''a'', OPERATION_RESERVATION_STORE_CONTRIBUTOR, ''a'']"
  unfolding Let_def
  by (rule conjI)
    (auto simp: health_report_is_exact upt_rec contributor_report_def timeout_report_def ProviderHealthContributor_def
      OperationReservationStoreHealthContributor_def less_Suc_eq numeral_3_eq_3 intro: exI [of _ "Suc 0"])

end
