(* ===== verification/Ego_Retention.thy ===== *)
theory Ego_Retention
  imports Ego_Service_Runtime Ego_Reservation_Memory
begin

text \<open>
  Retention of completed reservations and of settled effects
  (\<open>crates/service-sdk/src/runtime/retention.rs\<close>, \<open>effect_retention.rs\<close>): the policies with their
  constructors, one iteration of each worker's loop, the loop, and what stopping a worker reports.

  A worker deletes what finished before \<open>clock.now() - window\<close>. The window is the policy's
  \<open>Duration\<close> converted by \<open>chrono\<close>, whose ranges are parameters: \<open>ch_max_delta\<close> is the longest
  \<open>chrono::Duration\<close>, \<open>ch_min_utc\<close> and \<open>ch_max_utc\<close> the first and the last \<open>DateTime\<close>.
  \<open>DateTime - Duration\<close> panics when it leaves that range, which ends the worker's task; a panicking
  iteration is \<open>None\<close>. Every iteration carries what it reads: the clock twice, the elapsed time, the
  fresh trace context and, for the in-memory store, the map's iteration orders.
\<close>

section \<open>Policies\<close>

datatype RetentionPolicyError = ZeroRetention | ZeroInterval | ZeroBatch

record RetentionPolicy =
  rp_retention :: duration
  rp_interval :: duration
  rp_batch_size :: nat

definition RetentionPolicy_new :: "duration \<Rightarrow> duration \<Rightarrow> nat \<Rightarrow> (RetentionPolicy, RetentionPolicyError) result" where
  "RetentionPolicy_new retention interval batch_size =
     (if retention = 0 then Err ZeroRetention
      else if interval = 0 then Err ZeroInterval
      else if batch_size = 0 then Err ZeroBatch
      else Ok \<lparr>rp_retention = retention, rp_interval = interval, rp_batch_size = batch_size\<rparr>)"

datatype EffectRetentionPolicyError = EffectZeroRetention | EffectZeroInterval | EffectZeroBatch

record EffectRetentionPolicy =
  erp_retention :: duration
  erp_interval :: duration
  erp_batch_size :: nat

definition EffectRetentionPolicy_new ::
  "duration \<Rightarrow> duration \<Rightarrow> nat \<Rightarrow> (EffectRetentionPolicy, EffectRetentionPolicyError) result" where
  "EffectRetentionPolicy_new retention interval batch_size =
     (if retention = 0 then Err EffectZeroRetention
      else if interval = 0 then Err EffectZeroInterval
      else if batch_size = 0 then Err EffectZeroBatch
      else Ok \<lparr>erp_retention = retention, erp_interval = interval, erp_batch_size = batch_size\<rparr>)"

lemma RetentionPolicy_new_Ok:
  "RetentionPolicy_new ret iv b = Ok p \<longleftrightarrow>
     0 < ret \<and> 0 < iv \<and> 0 < b \<and> p = \<lparr>rp_retention = ret, rp_interval = iv, rp_batch_size = b\<rparr>"
  by (auto simp: RetentionPolicy_new_def)

section \<open>The cutoff\<close>

record chrono_range =
  ch_max_delta :: int
  ch_min_utc :: timestamp
  ch_max_utc :: timestamp

text \<open>\<open>chrono::Duration::seconds(i64::MAX / 1_000)\<close>, in nanoseconds.\<close>

definition window_fallback :: int where
  "window_fallback = (i64_max div 1000) * 1000000000"

definition retention_window :: "chrono_range \<Rightarrow> duration \<Rightarrow> int" where
  "retention_window ch retention = (if int retention \<le> ch_max_delta ch then int retention else window_fallback)"

definition cutoff_at :: "chrono_range \<Rightarrow> duration \<Rightarrow> timestamp \<Rightarrow> timestamp option" where
  "cutoff_at ch retention now =
     (let cutoff = now - retention_window ch retention in if cutoff < ch_min_utc ch then None else Some cutoff)"

section \<open>One iteration\<close>

datatype retention_signal =
  TickHistogram string duration
| TickCounter string nat
| TickGauge string int
| TickSpanStarted TraceContext string
| TickSpanEnded SpanId SpanOutcome

record tick =
  tk_cutoff_now :: timestamp
  tk_gauge_now :: timestamp
  tk_elapsed :: duration
  tk_root :: TraceContext

text \<open>The age in milliseconds, \<open>age.num_milliseconds().max(0)\<close>.\<close>

definition clamped_age :: "timestamp \<Rightarrow> timestamp \<Rightarrow> int" where
  "clamped_age now at = max 0 ((now - at) div 1000000)"

fun oldest_completed_signal :: "timestamp \<Rightarrow> (OldestCompleted, ReservationError) result \<Rightarrow> retention_signal list" where
  "oldest_completed_signal now (Inr (OldestAt at)) =
     [TickGauge ''idempotency.purge.oldest_completed_age'' (clamped_age now at)]"
| "oldest_completed_signal now _ = []"

fun oldest_terminal_signal :: "timestamp \<Rightarrow> (timestamp option, 'e) result \<Rightarrow> retention_signal list" where
  "oldest_terminal_signal now (Inr (Some at)) = [TickGauge ''effect.cleanup.oldest_terminal_age'' (clamped_age now at)]"
| "oldest_terminal_signal now _ = []"

definition rows_signal :: "string \<Rightarrow> (nat, 'e) result \<Rightarrow> retention_signal list" where
  "rows_signal name purged = (case purged of Inr rows \<Rightarrow> [TickCounter name rows] | Inl _ \<Rightarrow> [])"

definition tick_span_end :: "tick \<Rightarrow> string \<Rightarrow> (nat, 'e) result \<Rightarrow> retention_signal" where
  "tick_span_end tk message purged =
     TickSpanEnded (tc_span_id (tk_root tk)) (case purged of Inr _ \<Rightarrow> SpanOk | Inl _ \<Rightarrow> SpanError message)"

text \<open>
  \<open>purge\<close> and \<open>oldest\<close> are the store's \<open>purge_completed_before\<close> and \<open>oldest_completed\<close>; \<open>tracer\<close> and
  \<open>observability\<close> say whether one is registered.
\<close>

definition retention_tick ::
  "chrono_range \<Rightarrow> RetentionPolicy \<Rightarrow> bool \<Rightarrow> bool \<Rightarrow>
   (timestamp \<Rightarrow> nat \<Rightarrow> 's \<Rightarrow> (nat, ReservationError) result \<times> 's) \<Rightarrow> ('s \<Rightarrow> (OldestCompleted, ReservationError) result) \<Rightarrow>
   tick \<Rightarrow> 's \<Rightarrow> (retention_signal list \<times> 's) option" where
  "retention_tick ch policy tracer observability purge oldest tk s =
     (case cutoff_at ch (rp_retention policy) (tk_cutoff_now tk) of
        None \<Rightarrow> None
      | Some cutoff \<Rightarrow>
          (case purge cutoff (rp_batch_size policy) s of
             (purged, s') \<Rightarrow>
               Some
                 ((if tracer then [TickSpanStarted (tk_root tk) ''idempotency.purge_batch''] else []) @
                  (if observability
                   then TickHistogram ''idempotency.purge.batch_duration'' (tk_elapsed tk) #
                        rows_signal ''idempotency.purge.rows'' purged @ oldest_completed_signal (tk_gauge_now tk) (oldest s')
                   else []) @
                  (if tracer then [tick_span_end tk ''the reservation store could not purge'' purged] else []),
                  s')))"

definition effect_retention_tick ::
  "chrono_range \<Rightarrow> EffectRetentionPolicy \<Rightarrow> bool \<Rightarrow> bool \<Rightarrow>
   (timestamp \<Rightarrow> nat \<Rightarrow> 's \<Rightarrow> (nat, 'e) result \<times> 's) \<Rightarrow> ('s \<Rightarrow> (timestamp option, 'e) result) \<Rightarrow>
   tick \<Rightarrow> 's \<Rightarrow> (retention_signal list \<times> 's) option" where
  "effect_retention_tick ch policy tracer observability purge_before oldest_terminal tk s =
     (case cutoff_at ch (erp_retention policy) (tk_cutoff_now tk) of
        None \<Rightarrow> None
      | Some cutoff \<Rightarrow>
          (case purge_before cutoff (erp_batch_size policy) s of
             (purged, s') \<Rightarrow>
               Some
                 ((if tracer then [TickSpanStarted (tk_root tk) ''effect.purge_batch''] else []) @
                  (if observability
                   then TickHistogram ''effect.cleanup.batch_duration'' (tk_elapsed tk) #
                        rows_signal ''effect.cleanup.rows'' purged @ oldest_terminal_signal (tk_gauge_now tk) (oldest_terminal s')
                   else []) @
                  (if tracer then [tick_span_end tk ''the effect store could not purge'' purged] else []),
                  s')))"

section \<open>The loop and its end\<close>

text \<open>
  After each iteration \<open>select!\<close> either sees the cancellation or sleeps for the interval; \<open>cancelled\<close>
  says which. A task that still loops when the list of iterations ends is \<open>TaskRunning\<close>.
\<close>

datatype task_state = TaskRunning | TaskDone | TaskPanicked | TaskCancelled

fun worker_loop ::
  "('t \<Rightarrow> 's \<Rightarrow> (retention_signal list \<times> 's) option) \<Rightarrow> ('t \<times> bool) list \<Rightarrow> 's \<Rightarrow> task_state \<times> retention_signal list \<times> 's" where
  "worker_loop iteration [] s = (TaskRunning, [], s)"
| "worker_loop iteration ((tk, cancelled) # rest) s =
     (case iteration tk s of
        None \<Rightarrow> (TaskPanicked, [], s)
      | Some (signals, s') \<Rightarrow>
          if cancelled then (TaskDone, signals, s')
          else (case worker_loop iteration rest s' of (end_state, later, s'') \<Rightarrow> (end_state, signals @ later, s'')))"

datatype RetentionShutdown = Stopped | Panicked | TimedOut

text \<open>What \<open>timeout(deadline, task)\<close> found: a task still running at the deadline is aborted and awaited.\<close>

fun RetentionWorker_stop :: "task_state \<Rightarrow> RetentionShutdown" where
  "RetentionWorker_stop TaskDone = Stopped"
| "RetentionWorker_stop TaskPanicked = Panicked"
| "RetentionWorker_stop TaskCancelled = Stopped"
| "RetentionWorker_stop TaskRunning = TimedOut"

datatype EffectRetentionShutdown = EffectStopped | EffectPanicked | EffectTimedOut

fun EffectRetentionWorker_stop :: "task_state \<Rightarrow> EffectRetentionShutdown" where
  "EffectRetentionWorker_stop TaskDone = EffectStopped"
| "EffectRetentionWorker_stop TaskPanicked = EffectPanicked"
| "EffectRetentionWorker_stop TaskCancelled = EffectStopped"
| "EffectRetentionWorker_stop TaskRunning = EffectTimedOut"

section \<open>The worker beside the in-memory store\<close>

definition store_retention_tick ::
  "chrono_range \<Rightarrow> RetentionPolicy \<Rightarrow> bool \<Rightarrow> bool \<Rightarrow> OperationId list \<Rightarrow> OperationId list \<Rightarrow> tick \<Rightarrow> reservation_store \<Rightarrow>
   (retention_signal list \<times> reservation_store) option" where
  "store_retention_tick ch policy tracer observability order order' tk records =
     retention_tick ch policy tracer observability
       (\<lambda>cutoff batch s. map_prod Ok id (ReservationStore_purge_completed_before order cutoff batch s))
       (\<lambda>s. Ok (ReservationStore_oldest_completed order' s)) tk records"

text \<open>Iterations of the worker between calls of clients and of other runtimes on the same store.\<close>

datatype retention_event =
  WorkerTick tick "OperationId list" "OperationId list"
| StoreCall timestamp reservation_op

fun retention_step ::
  "chrono_range \<Rightarrow> RetentionPolicy \<Rightarrow> bool \<Rightarrow> bool \<Rightarrow> retention_event \<Rightarrow> bool \<times> reservation_store \<Rightarrow> bool \<times> reservation_store" where
  "retention_step ch policy tr ob (WorkerTick tk order order') (alive, s) =
     (if alive
      then (case store_retention_tick ch policy tr ob order order' tk s of None \<Rightarrow> (False, s) | Some (_, s') \<Rightarrow> (True, s'))
      else (False, s))"
| "retention_step ch policy tr ob (StoreCall now call) (alive, s) = (alive, snd (ReservationStore_exec now call s))"

definition run_retention ::
  "chrono_range \<Rightarrow> RetentionPolicy \<Rightarrow> bool \<Rightarrow> bool \<Rightarrow> retention_event list \<Rightarrow> bool \<times> reservation_store \<Rightarrow> bool \<times> reservation_store" where
  "run_retention ch policy tr ob events w = fold (retention_step ch policy tr ob) events w"

section \<open>Lemmas\<close>

lemma cutoff_at_Some:
  "cutoff_at ch ret now = Some c \<longleftrightarrow> c = now - retention_window ch ret \<and> ch_min_utc ch \<le> c"
  by (auto simp: cutoff_at_def Let_def)

lemma store_retention_tick_cases:
  obtains (panics) "cutoff_at ch (rp_retention policy) (tk_cutoff_now tk) = None"
      "store_retention_tick ch policy tr ob order order' tk s = None"
  | (purges) c sig where "cutoff_at ch (rp_retention policy) (tk_cutoff_now tk) = Some c"
      "store_retention_tick ch policy tr ob order order' tk s =
         Some (sig, snd (ReservationStore_purge_completed_before order c (rp_batch_size policy) s))"
proof (cases "cutoff_at ch (rp_retention policy) (tk_cutoff_now tk)")
  case None
  then show ?thesis using panics by (simp add: store_retention_tick_def retention_tick_def)
next
  case (Some c)
  obtain n s' where "ReservationStore_purge_completed_before order c (rp_batch_size policy) s = (n, s')" by fastforce
  then show ?thesis using purges [of c] Some by (simp add: store_retention_tick_def retention_tick_def)
qed

text \<open>With the ranges \<open>chrono\<close> documents, a cutoff never comes later than the policy's window before now.\<close>

lemma cutoff_respects_retention:
  assumes "cutoff_at ch ret now = Some c" "now \<le> ch_max_utc ch" "ch_max_utc ch - window_fallback < ch_min_utc ch"
  shows "c = now - int ret"
  using assms by (auto simp: cutoff_at_Some retention_window_def split: if_splits)

lemma retention_step_keeps:
  assumes "store_slot (snd w) i = Done fp r at"
    and "ch_max_utc ch - window_fallback < ch_min_utc ch"
    and "case e of WorkerTick tk _ _ \<Rightarrow> tk_cutoff_now tk \<le> ch_max_utc ch \<and> tk_cutoff_now tk \<le> at + int (rp_retention policy)
         | StoreCall now call \<Rightarrow> \<not> purges_at at call"
  shows "store_slot (snd (retention_step ch policy tr ob e w)) i = Done fp r at"
proof (cases e)
  case (StoreCall now call)
  then show ?thesis using assms mem.done_stable [of "snd w" i fp r at call now] by (cases w) auto
next
  case (WorkerTick tk order order')
  obtain alive s where w: "w = (alive, s)" by fastforce
  show ?thesis
  proof (cases rule: store_retention_tick_cases [of ch policy tk tr ob order order' s])
    case panics
    then show ?thesis using assms(1) WorkerTick w by simp
  next
    case (purges c sig)
    have "\<not> purges_at at (Purge c (rp_batch_size policy) order)"
      using cutoff_respects_retention [OF purges(1) _ assms(2)] assms(3) WorkerTick by simp
    then show ?thesis
      using mem.done_stable [of s i fp r at "Purge c (rp_batch_size policy) order" 0] assms(1) purges(2) WorkerTick w
      by simp
  qed
qed

lemma run_retention_keeps:
  assumes "store_slot (snd w) i = Done fp r at"
    and "ch_max_utc ch - window_fallback < ch_min_utc ch"
    and "\<forall>e \<in> set es. case e of
           WorkerTick tk _ _ \<Rightarrow> tk_cutoff_now tk \<le> ch_max_utc ch \<and> tk_cutoff_now tk \<le> at + int (rp_retention policy)
         | StoreCall now call \<Rightarrow> \<not> purges_at at call"
  shows "store_slot (snd (run_retention ch policy tr ob es w)) i = Done fp r at"
  using assms(1,3)
proof (induction es arbitrary: w)
  case (Cons e es)
  have "store_slot (snd (retention_step ch policy tr ob e w)) i = Done fp r at"
    by (rule retention_step_keeps [OF Cons.prems(1) assms(2)]) (use Cons.prems(2) in simp)
  with Cons show ?case by (simp add: run_retention_def)
qed (simp add: run_retention_def)

subsection \<open>Draining\<close>

text \<open>Each iteration iterates over the map as it is then.\<close>

fun orders_enumerate ::
  "chrono_range \<Rightarrow> RetentionPolicy \<Rightarrow> bool \<Rightarrow> bool \<Rightarrow> retention_event list \<Rightarrow> bool \<times> reservation_store \<Rightarrow> bool" where
  "orders_enumerate ch policy tr ob [] w = True"
| "orders_enumerate ch policy tr ob (e # es) w =
     ((case e of WorkerTick _ order _ \<Rightarrow> enumerates order (snd w) | StoreCall _ _ \<Rightarrow> True) \<and>
      orders_enumerate ch policy tr ob es (retention_step ch policy tr ob e w))"

abbreviation eligible :: "timestamp \<Rightarrow> reservation_store \<Rightarrow> OperationId set" where
  "eligible c records \<equiv> {i. purge_eligible c records i}"

lemma eligible_mono: "c \<le> c' \<Longrightarrow> eligible c s \<subseteq> eligible c' s"
  by (auto simp: purge_eligible_iff)

lemma finite_eligible: "finite (dom s) \<Longrightarrow> finite (eligible c s)"
  by (rule finite_subset [of _ "dom s"]) (auto simp: purge_eligible_iff)

lemma purge_eligible_remove_keys:
  "purge_eligible c (remove_keys ks s) i \<longleftrightarrow> i \<notin> set ks \<and> purge_eligible c s i"
  by (simp add: purge_eligible_def)

lemma purge_shrinks:
  fixes b :: nat
  assumes "enumerates order s" "c \<le> hi"
  defines "s' \<equiv> snd (ReservationStore_purge_completed_before order c b s)"
  shows "eligible c s' = {} \<or> card (eligible hi s') + b \<le> card (eligible hi s)"
    and "dom s' \<subseteq> dom s"
    and "\<And>i. i \<notin> eligible hi s \<Longrightarrow> s' i = s i"
proof -
  let ?all = "filter (purge_eligible c s) order"
  let ?ks = "take b ?all"
  have s': "s' = remove_keys ?ks s" by (simp add: s'_def ReservationStore_purge_completed_before_def Let_def)
  have ks: "set ?ks \<subseteq> eligible hi s"
    using take_filter_subset [of b "purge_eligible c s" order] eligible_mono [OF assms(2), of s] by blast
  then show "\<And>i. i \<notin> eligible hi s \<Longrightarrow> s' i = s i" by (auto simp: s')
  show "dom s' \<subseteq> dom s" by (auto simp: s' dom_def split: if_splits)
  show "eligible c s' = {} \<or> card (eligible hi s') + b \<le> card (eligible hi s)"
  proof (cases "length ?all \<le> b")
    case True
    have "set ?all = eligible c s"
      using assms(1) by (auto simp: enumerates_mem [OF assms(1)] purge_eligible_iff)
    with True show ?thesis by (auto simp: s' purge_eligible_remove_keys)
  next
    case False
    have "eligible hi s' = eligible hi s - set ?ks" by (auto simp: s' purge_eligible_remove_keys)
    moreover have "card (set ?ks) = b"
      using False distinct_take_filter [OF enumerates_distinct [OF assms(1)], of b "purge_eligible c s"]
      by (simp only: distinct_card) simp
    moreover have "finite (eligible hi s)" using finite_eligible enumerates_finite [OF assms(1)] .
    ultimately show ?thesis using ks card_mono [of "eligible hi s" "set ?ks"] by (simp add: card_Diff_subset)
  qed
qed

lemma eligible_purge_subset:
  "eligible lo (snd (ReservationStore_purge_completed_before order c b s)) \<subseteq> eligible lo s"
  by (auto simp: ReservationStore_purge_completed_before_def Let_def purge_eligible_remove_keys)

lemma worker_drains:
  assumes "\<forall>e \<in> set es. \<exists>tk order order' c. e = WorkerTick tk order order' \<and>
             cutoff_at ch (rp_retention policy) (tk_cutoff_now tk) = Some c \<and> lo \<le> c \<and> c \<le> hi"
    and "orders_enumerate ch policy tr ob es (True, s)" "finite (dom s)"
    and "eligible lo s = {} \<or> card (eligible hi s) \<le> length es * rp_batch_size policy" "lo \<le> hi"
  shows "\<exists>s'. run_retention ch policy tr ob es (True, s) = (True, s') \<and> eligible lo s' = {} \<and>
           (\<forall>i. i \<notin> eligible hi s \<longrightarrow> s' i = s i)"
  using assms(1-4)
proof (induction es arbitrary: s)
  case Nil
  then have "eligible lo s = {}" using eligible_mono [OF assms(5), of s] finite_eligible [of s hi] by auto
  then show ?case by (simp add: run_retention_def)
next
  case (Cons e es)
  let ?b = "rp_batch_size policy"
  obtain tk order order' c where e: "e = WorkerTick tk order order'"
    and c: "cutoff_at ch (rp_retention policy) (tk_cutoff_now tk) = Some c" "lo \<le> c" "c \<le> hi"
    using Cons.prems(1) by auto
  let ?s = "snd (ReservationStore_purge_completed_before order c ?b s)"
  have step: "retention_step ch policy tr ob e (True, s) = (True, ?s)"
    using c(1) e by (cases rule: store_retention_tick_cases [of ch policy tk tr ob order order' s]) auto
  have ord: "enumerates order s" using Cons.prems(2) e by simp
  note shrink = purge_shrinks [OF ord c(3), where b = ?b]
  have more: "eligible lo ?s = {} \<or> card (eligible hi ?s) \<le> length es * ?b"
    using shrink(1) Cons.prems(4) eligible_mono [OF c(2), of ?s] eligible_purge_subset [of lo order c ?b s] by auto
  have fin: "finite (dom ?s)" using shrink(2) Cons.prems(3) by (rule finite_subset)
  have ords: "orders_enumerate ch policy tr ob es (True, ?s)" using Cons.prems(2) step by simp
  obtain s' where s': "run_retention ch policy tr ob es (True, ?s) = (True, s')" "eligible lo s' = {}"
    "\<forall>i. i \<notin> eligible hi ?s \<longrightarrow> s' i = ?s i"
    using Cons.IH [OF _ ords fin more] Cons.prems(1) by auto
  have "\<forall>i. i \<notin> eligible hi s \<longrightarrow> s' i = s i"
    using s'(3) shrink(3) eligible_purge_subset [of hi order c ?b s] by auto
  then show ?case using s'(1,2) step by (auto simp: run_retention_def)
qed

subsection \<open>A window longer than the calendar\<close>

text \<open>
  A retention longer than the longest \<open>chrono::Duration\<close> is accepted by the constructor and replaced by
  \<open>window_fallback\<close>, which reaches before the first \<open>DateTime\<close>: the worker's first iteration panics and
  nothing is ever purged.
\<close>

lemma overlong_window_ends_worker:
  assumes "ch_max_delta ch < int (rp_retention policy)" "tk_cutoff_now tk \<le> ch_max_utc ch"
    and "ch_max_utc ch - window_fallback < ch_min_utc ch"
  shows "worker_loop (store_retention_tick ch policy tr ob order order') ((tk, cancelled) # ticks) s = (TaskPanicked, [], s)"
    and "RetentionWorker_stop (fst (worker_loop (store_retention_tick ch policy tr ob order order') ((tk, cancelled) # ticks) s)) = Panicked"
proof -
  have "cutoff_at ch (rp_retention policy) (tk_cutoff_now tk) = None"
    using assms by (simp add: cutoff_at_def Let_def retention_window_def)
  then have "store_retention_tick ch policy tr ob order order' tk s = None"
    by (simp add: store_retention_tick_def retention_tick_def)
  then show "worker_loop (store_retention_tick ch policy tr ob order order') ((tk, cancelled) # ticks) s = (TaskPanicked, [], s)"
    and "RetentionWorker_stop (fst (worker_loop (store_retention_tick ch policy tr ob order order') ((tk, cancelled) # ticks) s)) = Panicked"
    by simp_all
qed

text \<open>An iteration reports rows only when the purge succeeded, and closes exactly the span it opened.\<close>

lemma effect_tick_reports:
  assumes "cutoff_at ch (erp_retention policy) (tk_cutoff_now tk) = Some c"
    and "purge_before c (erp_batch_size policy) s = (purged, s')"
  shows "\<exists>signals. effect_retention_tick ch policy tr ob purge_before oldest_terminal tk s = Some (signals, s') \<and>
    (\<forall>n. TickCounter ''effect.cleanup.rows'' n \<in> set signals \<longleftrightarrow> ob \<and> purged = Ok n) \<and>
    (\<forall>v. TickGauge ''effect.cleanup.oldest_terminal_age'' v \<in> set signals \<longrightarrow> 0 \<le> v)"
proof -
  have "0 \<le> v" if "TickGauge n v \<in> set (oldest_terminal_signal now (oldest_terminal s'))" for n v now
    using that by (cases "(now, oldest_terminal s')" rule: oldest_terminal_signal.cases) (auto simp: clamped_age_def)
  moreover have "TickCounter n v \<notin> set (oldest_terminal_signal now (oldest_terminal s'))" for n v now
    by (cases "(now, oldest_terminal s')" rule: oldest_terminal_signal.cases) auto
  ultimately show ?thesis
    using assms by (auto simp: effect_retention_tick_def rows_signal_def tick_span_end_def split: sum.splits)
qed

section \<open>Properties\<close>

definition ex_chrono :: chrono_range where
  "ex_chrono = \<lparr>ch_max_delta = i64_max * 1000000, ch_min_utc = - 8334601228800 * 1000000000, ch_max_utc = 8210266876799 * 1000000000\<rparr>"

definition ex_tick :: "timestamp \<Rightarrow> tick" where
  "ex_tick now = \<lparr>tk_cutoff_now = now, tk_gauge_now = now, tk_elapsed = 1,
     tk_root = TraceContext_root (TraceId (replicate 16 10)) (SpanId (replicate 8 171))\<rparr>"

definition ex_completed :: "timestamp \<Rightarrow> reservation_store" where
  "ex_completed at = [ex_id \<mapsto> \<lparr>rec_fingerprint = OperationFingerprint ''f'',
                                rec_state = Completed (StoredServiceResponse [7]) at\<rparr>]"

lemma ex_chrono_range: "ch_max_utc ex_chrono - window_fallback < ch_min_utc ex_chrono"
  by (simp add: ex_chrono_def window_fallback_def i64_max_def)

text \<open>C21: retention never shortens the promise of replay. From the moment a reservation completes at
  \<open>at\<close>, whatever the worker's policy and however its iterations interleave with calls of clients, and
  even when the policy's window does not fit the calendar type, a retry that presents the same request
  is answered with the stored response as long as the worker's clock has not passed \<open>at\<close> plus the
  policy's retention and nobody else purges.\<close>

theorem answer_kept_for_retention:
  assumes "RetentionPolicy_new ret iv b = Ok policy"
    and "ch_max_utc ch - window_fallback < ch_min_utc ch"
    and "records (request_id req) = Some \<lparr>rec_fingerprint = req_fingerprint req, rec_state = Completed r at\<rparr>"
    and "\<forall>e \<in> set events. case e of
           WorkerTick tk _ _ \<Rightarrow> tk_cutoff_now tk \<le> ch_max_utc ch \<and> tk_cutoff_now tk \<le> at + int ret
         | StoreCall now call \<Rightarrow> \<not> purges_at at call"
  shows "fst (ReservationStore_reserve now req (snd (run_retention ch policy tracer observability events (True, records)))) =
           Ok (Succeeded r)"
proof -
  have ret: "rp_retention policy = ret" using assms(1) by (simp add: RetentionPolicy_new_Ok)
  have "store_slot (snd (run_retention ch policy tracer observability events (True, records))) (request_id req) =
      Done (req_fingerprint req) r at"
    by (rule run_retention_keeps [OF _ assms(2) assms(4) [folded ret]]) (simp add: store_slot_def assms(3))
  then show ?thesis by (rule mem.reserve_done)
qed

theorem answer_kept_for_retention_witness:
  "fst (ReservationStore_reserve 900 (ex_request ''f'' ''b'' 950)
     (snd (run_retention ex_chrono \<lparr>rp_retention = 500, rp_interval = 10, rp_batch_size = 4\<rparr> True True
        [WorkerTick (ex_tick 580) [ex_id] [ex_id], StoreCall 590 (Reserve (ex_request ''g'' ''c'' 700)), WorkerTick (ex_tick 600) [ex_id] [ex_id]]
        (True, ex_completed 100)))) = Ok (Succeeded (StoredServiceResponse [7]))"
proof (rule answer_kept_for_retention [where ret = 500 and iv = 10 and b = 4 and at = 100])
  show "RetentionPolicy_new 500 10 4 = Ok \<lparr>rp_retention = 500, rp_interval = 10, rp_batch_size = 4\<rparr>"
    by (simp add: RetentionPolicy_new_def)
  show "ch_max_utc ex_chrono - window_fallback < ch_min_utc ex_chrono" by (rule ex_chrono_range)
  show "ex_completed 100 (request_id (ex_request ''f'' ''b'' 950)) =
      Some \<lparr>rec_fingerprint = req_fingerprint (ex_request ''f'' ''b'' 950), rec_state = Completed (StoredServiceResponse [7]) 100\<rparr>"
    by (simp add: ex_completed_def ex_defs)
qed (simp add: ex_tick_def ex_chrono_def)


definition ex_backlog :: reservation_store where
  "ex_backlog = (ex_completed 100)(ex_id\<lparr>oid_tenant := None\<rparr> \<mapsto>
     \<lparr>rec_fingerprint = OperationFingerprint ''g'', rec_state = InProgress (OwnerId ''a'') (FencingToken 1) 900\<rparr>)"

lemma ex_backlog_apply:
  "ex_backlog i = (if i = ex_id\<lparr>oid_tenant := None\<rparr> then
       Some \<lparr>rec_fingerprint = OperationFingerprint ''g'', rec_state = InProgress (OwnerId ''a'') (FencingToken 1) 900\<rparr>
     else ex_completed 100 i)"
  by (simp add: ex_backlog_def)

lemma ex_backlog_eligible: "{i. purge_eligible 200 ex_backlog i} = {ex_id}"
proof -
  have "ex_id \<noteq> ex_id\<lparr>oid_tenant := None\<rparr>" by (simp add: ex_id_def)
  then show ?thesis by (auto simp: purge_eligible_iff ex_backlog_apply ex_completed_def split: if_splits)
qed


end
