(* ===== verification/Ego_Registry.thy ===== *)
theory Ego_Registry
  imports Ego_Prelude
begin

text \<open>
  Contract versions and the service registry (\<open>crates/service-sdk/src/contract/version.rs\<close>,
  \<open>registry/registry.rs\<close>). A \<open>TypeId\<close> is a value of the type \<open>'t\<close>, an implementation one of \<open>'i\<close>.
  \<open>semver::VersionReq\<close> belongs to the \<open>semver\<close> crate: a range constraint is the predicate
  \<open>req.matches\<close> on the three components.
\<close>

section \<open>Contract versions\<close>

type_synonym u32 = "32 word"

datatype ContractVersion = ContractVersion (major: u32) (minor: u32) (patch: u32)

definition ContractVersion_cmp :: "ContractVersion \<Rightarrow> ContractVersion \<Rightarrow> Ordering" where
  "ContractVersion_cmp a b =
     then_with (then_with (ord_cmp (major a) (major b)) (ord_cmp (minor a) (minor b))) (ord_cmp (patch a) (patch b))"

instantiation ContractVersion :: linorder
begin

definition less_eq_ContractVersion :: "ContractVersion \<Rightarrow> ContractVersion \<Rightarrow> bool" where
  "less_eq_ContractVersion a b \<longleftrightarrow> ContractVersion_cmp a b \<noteq> OrdGreater"

definition less_ContractVersion :: "ContractVersion \<Rightarrow> ContractVersion \<Rightarrow> bool" where
  "less_ContractVersion a b \<longleftrightarrow> ContractVersion_cmp a b = OrdLess"

instance
proof
  fix x y z :: ContractVersion
  note defs = less_eq_ContractVersion_def less_ContractVersion_def ContractVersion_cmp_def
  show "x < y \<longleftrightarrow> x \<le> y \<and> \<not> y \<le> x" by (auto simp: defs)
  show "x \<le> x" by (simp add: defs)
  show "x \<le> y \<Longrightarrow> y \<le> z \<Longrightarrow> x \<le> z" by (auto simp: defs not_less)
  show "x \<le> y \<Longrightarrow> y \<le> x \<Longrightarrow> x = y" by (auto simp: defs ContractVersion.expand)
  show "x \<le> y \<or> y \<le> x" by (auto simp: defs)
qed

end

lemma ContractVersion_le_iff:
  "a \<le> b \<longleftrightarrow> major a < major b \<or> major a = major b \<and> (minor a < minor b \<or> minor a = minor b \<and> patch a \<le> patch b)"
  by (auto simp: less_eq_ContractVersion_def ContractVersion_cmp_def not_less)

text \<open>\<open>u32\<close>'s \<open>FromStr\<close>, which takes a plus sign and leading zeros.\<close>

definition parse_u32 :: "string \<Rightarrow> u32 option" where
  "parse_u32 s =
     (let ds = (if s \<noteq> [] \<and> hd s = CHR ''+'' then tl s else s) in
      if ds \<noteq> [] \<and> list_all is_digit ds \<and> decimal ds < 2 ^ 32 then Some (word_of_int (decimal ds)) else None)"

definition ContractVersion_to_string :: "ContractVersion \<Rightarrow> string" where
  "ContractVersion_to_string v =
     nat_to_string (unat (major v)) @ ''.'' @ nat_to_string (unat (minor v)) @ ''.'' @ nat_to_string (unat (patch v))"

definition ContractVersion_from_str :: "string \<Rightarrow> (ContractVersion, string) result" where
  "ContractVersion_from_str s =
     (let parts = str_split CHR ''.'' s in
      if length parts \<noteq> 3 then Err ''Invalid version format. Expected format: major.minor.patch''
      else (case parse_u32 (parts ! 0) of
              None \<Rightarrow> Err ''Invalid major version''
            | Some ma \<Rightarrow>
                (case parse_u32 (parts ! 1) of
                   None \<Rightarrow> Err ''Invalid minor version''
                 | Some mi \<Rightarrow>
                     (case parse_u32 (parts ! 2) of
                        None \<Rightarrow> Err ''Invalid patch version''
                      | Some pa \<Rightarrow> Ok (ContractVersion ma mi pa)))))"

section \<open>Version constraints\<close>

datatype VersionConstraint = Exact ContractVersion | LatestCompatible "u64 \<times> u64 \<times> u64 \<Rightarrow> bool"

definition to_semver :: "ContractVersion \<Rightarrow> u64 \<times> u64 \<times> u64" where
  "to_semver v = (ucast (major v), ucast (minor v), ucast (patch v))"

fun VersionConstraint_matches :: "VersionConstraint \<Rightarrow> ContractVersion \<Rightarrow> bool" where
  "VersionConstraint_matches (Exact v) version = (v = version)"
| "VersionConstraint_matches (LatestCompatible req) version = req (to_semver version)"

definition VersionConstraint_exact :: "string \<Rightarrow> (VersionConstraint, string) result" where
  "VersionConstraint_exact s = map_sum id Exact (ContractVersion_from_str s)"

definition VersionConstraint_range ::
  "(string \<Rightarrow> ((u64 \<times> u64 \<times> u64 \<Rightarrow> bool), string) result) \<Rightarrow> string \<Rightarrow> (VersionConstraint, string) result" where
  "VersionConstraint_range parse_req s = map_sum id LatestCompatible (parse_req s)"

section \<open>The registry\<close>

datatype RegistryError =
  DuplicateService string string
| RegistryServiceNotFound
| RegistryDependencyNotFound
| DependencyCycle

fun RegistryError_to_string :: "RegistryError \<Rightarrow> string" where
  "RegistryError_to_string (DuplicateService name version) = ''Duplicate service: '' @ name @ '' v'' @ version"
| "RegistryError_to_string RegistryServiceNotFound = ''Service not found''"
| "RegistryError_to_string RegistryDependencyNotFound = ''Dependency not found''"
| "RegistryError_to_string DependencyCycle = ''Dependency cycle detected''"

type_synonym 'i version_list = "(ContractVersion \<times> 'i) list"
type_synonym ('t, 'i) service_registry = "'t \<rightharpoonup> 'i version_list"

definition ServiceRegistry_new :: "('t, 'i) service_registry" where
  "ServiceRegistry_new = Map.empty"

definition ServiceRegistry_is_empty :: "('t, 'i) service_registry \<Rightarrow> bool" where
  "ServiceRegistry_is_empty reg \<longleftrightarrow> reg = Map.empty"

text \<open>\<open>entries.entry(type_id).or_default()\<close>.\<close>

definition entry_or_default :: "'t \<Rightarrow> ('t, 'i) service_registry \<Rightarrow> 'i version_list" where
  "entry_or_default t reg = (case reg t of None \<Rightarrow> [] | Some entries \<Rightarrow> entries)"

text \<open>The state after a refused registration holds the entry \<open>or_default\<close> found, which was there already.\<close>

definition ServiceRegistry_register ::
  "('t \<Rightarrow> string) \<Rightarrow> 't \<Rightarrow> ContractVersion \<Rightarrow> 'i \<Rightarrow> ('t, 'i) service_registry \<Rightarrow>
   (unit, RegistryError) result \<times> ('t, 'i) service_registry" where
  "ServiceRegistry_register type_name t version impl reg =
     (let entries = entry_or_default t reg in
      if list_ex (\<lambda>e. fst e = version) entries
      then (Err (DuplicateService (type_name t) (ContractVersion_to_string version)), reg(t \<mapsto> entries))
      else (Ok (), reg(t \<mapsto> entries @ [(version, impl)])))"

text \<open>\<open>Iterator::max_by_key\<close>: the last of the greatest.\<close>

fun max_by_version :: "'i version_list \<Rightarrow> (ContractVersion \<times> 'i) option" where
  "max_by_version [] = None"
| "max_by_version (e # es) =
     (case max_by_version es of
        None \<Rightarrow> Some e
      | Some m \<Rightarrow> if fst m < fst e then Some e else Some m)"

definition ServiceRegistry_resolve_raw ::
  "'t \<Rightarrow> VersionConstraint \<Rightarrow> ('t, 'i) service_registry \<Rightarrow> ('i, RegistryError) result" where
  "ServiceRegistry_resolve_raw t constraint reg =
     (case reg t of
        None \<Rightarrow> Err RegistryServiceNotFound
      | Some entries \<Rightarrow>
          (case max_by_version (filter (\<lambda>e. VersionConstraint_matches constraint (fst e)) entries) of
             None \<Rightarrow> Err RegistryServiceNotFound
           | Some m \<Rightarrow> Ok (snd m)))"

fun merge_versions ::
  "('t \<Rightarrow> string) \<Rightarrow> 't \<Rightarrow> 'i version_list \<Rightarrow> ('t, 'i) service_registry \<Rightarrow>
   (unit, RegistryError) result \<times> ('t, 'i) service_registry" where
  "merge_versions debug_id t [] reg = (Ok (), reg)"
| "merge_versions debug_id t ((version, impl) # vs) reg =
     (case ServiceRegistry_register debug_id t version impl reg of
        (Inl e, reg') \<Rightarrow> (Err e, reg')
      | (Inr _, reg') \<Rightarrow> merge_versions debug_id t vs reg')"

text \<open>\<open>order\<close> is the order in which \<open>other.entries\<close> is iterated over; \<open>debug_id\<close> prints a \<open>TypeId\<close>.\<close>

fun ServiceRegistry_merge ::
  "('t \<Rightarrow> string) \<Rightarrow> 't list \<Rightarrow> ('t, 'i) service_registry \<Rightarrow> ('t, 'i) service_registry \<Rightarrow>
   (unit, RegistryError) result \<times> ('t, 'i) service_registry" where
  "ServiceRegistry_merge debug_id [] other reg = (Ok (), reg)"
| "ServiceRegistry_merge debug_id (t # order) other reg =
     (case merge_versions debug_id t (entry_or_default t other) reg of
        (Inl e, reg') \<Rightarrow> (Err e, reg')
      | (Inr _, reg') \<Rightarrow> ServiceRegistry_merge debug_id order other reg')"

section \<open>Lemmas\<close>

lemma decimal_append [simp]: "decimal (ds @ [c]) = 10 * decimal ds + (of_char c - 48)"
  by (simp add: decimal_def)

lemma nat_to_string_digits:
  "decimal (nat_to_string n) = int n \<and> list_all is_digit (nat_to_string n) \<and> nat_to_string n \<noteq> []"
proof (induction n rule: nat_to_string.induct)
  case (1 n)
  have d: "is_digit (char_of (48 + m))" "(of_char (char_of (48 + m)) :: int) = 48 + int m" if "m < 10" for m :: nat
  proof -
    have "(of_char (char_of (48 + m) :: char) :: nat) = 48 + m"
      using that by (simp add: take_bit_nat_eq_self)
    then show "is_digit (char_of (48 + m))" "(of_char (char_of (48 + m)) :: int) = 48 + int m"
      using that of_nat_of_char [of "char_of (48 + m)", where 'a = int] by (simp_all add: is_digit_def)
  qed
  show ?case
  proof (cases "n < 10")
    case True
    then show ?thesis using d [of n] by (simp add: nat_to_string.simps [of n] decimal_def)
  next
    case False
    have "int n = 10 * int (n div 10) + int (n mod 10)"
      by (metis mult_div_mod_eq of_nat_add of_nat_mult of_nat_numeral)
    then show ?thesis using 1 False d [of "n mod 10"] by (simp add: nat_to_string.simps [of n])
  qed
qed

lemma is_digit_not_dot: "is_digit c \<Longrightarrow> c \<noteq> CHR ''.'' \<and> c \<noteq> CHR ''+''"
  by (auto simp: is_digit_def)

lemma dot_notin_nat_to_string: "CHR ''.'' \<notin> set (nat_to_string n)"
  using nat_to_string_digits [of n] is_digit_not_dot by (auto simp: list_all_iff)

lemma parse_u32_nat_to_string: "parse_u32 (nat_to_string (unat w)) = Some w"
proof -
  have "hd (nat_to_string (unat w)) \<noteq> CHR ''+''"
    using nat_to_string_digits [of "unat w"] is_digit_not_dot by (metis list.set_sel(1) list_all_iff)
  moreover have "unat w < 2 ^ 32" using unsigned_less [of w] by simp
  then have "int (unat w) < 2 ^ 32" by (metis of_nat_less_iff of_nat_numeral of_nat_power)
  ultimately show ?thesis
    using nat_to_string_digits [of "unat w"] by (simp add: parse_u32_def)
qed

subsection \<open>What a registry holds\<close>

definition held :: "('t, 'i) service_registry \<Rightarrow> 't \<times> ContractVersion \<rightharpoonup> 'i" where
  "held reg k = map_of (entry_or_default (fst k) reg) (snd k)"

definition registry_inv :: "('t, 'i) service_registry \<Rightarrow> bool" where
  "registry_inv reg \<longleftrightarrow> (\<forall>t. distinct (map fst (entry_or_default t reg)))"

lemma entry_or_default_upd [simp]:
  "entry_or_default t (reg(t' \<mapsto> es)) = (if t = t' then es else entry_or_default t reg)"
  by (simp add: entry_or_default_def)

lemma list_ex_version: "list_ex (\<lambda>e. fst e = v) es \<longleftrightarrow> map_of es v \<noteq> None"
  by (induction es) auto

lemma register_held:
  "held (snd (ServiceRegistry_register name t v i reg)) =
     (if held reg (t, v) = None then (held reg)((t, v) \<mapsto> i) else held reg)"
  by (auto simp: ServiceRegistry_register_def Let_def held_def list_ex_version map_add_def fun_eq_iff split: option.splits)

lemma register_inv [inv_intros]:
  "registry_inv reg \<Longrightarrow> registry_inv (snd (ServiceRegistry_register name t v i reg))"
  by (auto simp: ServiceRegistry_register_def Let_def registry_inv_def list_ex_iff)

lemma register_result:
  "fst (ServiceRegistry_register name t v i reg) =
     (if held reg (t, v) = None then Ok () else Err (DuplicateService (name t) (ContractVersion_to_string v)))"
  by (simp add: ServiceRegistry_register_def Let_def held_def list_ex_version)

lemma max_by_version_None [simp]: "max_by_version es = None \<longleftrightarrow> es = []"
  by (cases es) (auto split: option.splits)

lemma max_by_version_Some:
  "max_by_version es = Some m \<Longrightarrow> m \<in> set es \<and> (\<forall>e \<in> set es. fst e \<le> fst m)"
proof (induction es arbitrary: m)
  case (Cons e es)
  then show ?case by (cases "max_by_version es") (fastforce split: if_splits)+
qed simp

lemma resolve_raw_iff:
  assumes "registry_inv reg"
  shows "ServiceRegistry_resolve_raw t c reg = Ok i \<longleftrightarrow>
     (\<exists>v. held reg (t, v) = Some i \<and> VersionConstraint_matches c v \<and>
        (\<forall>v'. held reg (t, v') \<noteq> None \<and> VersionConstraint_matches c v' \<longrightarrow> v' \<le> v))"
proof -
  let ?es = "entry_or_default t reg"
  let ?fs = "filter (\<lambda>e. VersionConstraint_matches c (fst e)) ?es"
  have res: "ServiceRegistry_resolve_raw t c reg = Ok i \<longleftrightarrow> (\<exists>v. max_by_version ?fs = Some (v, i))"
    by (auto simp: ServiceRegistry_resolve_raw_def entry_or_default_def split: option.splits)
  have dist: "distinct (map fst ?es)" using assms by (simp add: registry_inv_def)
  have held_iff: "held reg (t, v) = Some j \<longleftrightarrow> (v, j) \<in> set ?es" for v j
    using dist by (simp add: held_def)
  have "max_by_version ?fs = Some (v, i) \<longleftrightarrow>
      (v, i) \<in> set ?fs \<and> (\<forall>e \<in> set ?fs. fst e \<le> v)" for v
  proof
    assume "max_by_version ?fs = Some (v, i)"
    from max_by_version_Some [OF this] show "(v, i) \<in> set ?fs \<and> (\<forall>e \<in> set ?fs. fst e \<le> v)" by simp
  next
    assume vi: "(v, i) \<in> set ?fs \<and> (\<forall>e \<in> set ?fs. fst e \<le> v)"
    then have "?fs \<noteq> []" by (metis empty_iff empty_set)
    then obtain m where m: "max_by_version ?fs = Some m" using max_by_version_None by blast
    from max_by_version_Some [OF m] have max: "m \<in> set ?fs" "\<forall>e \<in> set ?fs. fst e \<le> fst m" by blast+
    then have "fst m = v" using vi by (metis fst_conv order_antisym)
    moreover have "m \<in> set ?es" "(v, i) \<in> set ?es" using max(1) vi by simp_all
    ultimately have "m = (v, i)" using dist eq_key_imp_eq_value by (metis prod.collapse)
    with m show "max_by_version ?fs = Some (v, i)" by simp
  qed
  then have "ServiceRegistry_resolve_raw t c reg = Ok i \<longleftrightarrow>
      (\<exists>v. (v, i) \<in> set ?es \<and> VersionConstraint_matches c v \<and>
         (\<forall>v'. (\<exists>j. (v', j) \<in> set ?es) \<and> VersionConstraint_matches c v' \<longrightarrow> v' \<le> v))"
    by (simp add: res)
  moreover have "held reg (t, v') \<noteq> None \<longleftrightarrow> (\<exists>j. (v', j) \<in> set ?es)" for v'
    using held_iff by fastforce
  ultimately show ?thesis by (simp only: held_iff)
qed

lemma resolve_raw_Err: "ServiceRegistry_resolve_raw t c reg = Err e \<Longrightarrow> e = RegistryServiceNotFound"
  by (auto simp: ServiceRegistry_resolve_raw_def split: option.splits)

text \<open>Merging registers the other registry's services until one of them is taken.\<close>

lemma merge_versions_inv [inv_intros]:
  "registry_inv reg \<Longrightarrow> registry_inv (snd (merge_versions d t vs reg))"
proof (induction vs arbitrary: reg)
  case (Cons e vs)
  obtain v i where e: "e = (v, i)" by fastforce
  show ?case using Cons.IH register_inv [OF Cons.prems, of d t v i] Cons.prems
    by (auto simp: e split: prod.splits sum.splits)
qed simp

lemma merge_inv [inv_intros]: "registry_inv reg \<Longrightarrow> registry_inv (snd (ServiceRegistry_merge d order other reg))"
proof (induction order arbitrary: reg)
  case (Cons t order)
  show ?case using Cons.IH merge_versions_inv [OF Cons.prems, of d t "entry_or_default t other"]
    by (auto split: prod.splits sum.splits)
qed simp

section \<open>Properties\<close>

text \<open>A history of registrations, refused ones included.\<close>

definition registrations ::
  "('t \<Rightarrow> string) \<Rightarrow> ('t \<times> ContractVersion \<times> 'i) list \<Rightarrow> ('t, 'i) service_registry" where
  "registrations name attempts =
     fold (\<lambda>(t, v, i) reg. snd (ServiceRegistry_register name t v i reg)) attempts ServiceRegistry_new"

definition first_attempt :: "('t \<times> ContractVersion \<times> 'i) list \<Rightarrow> 't \<times> ContractVersion \<rightharpoonup> 'i" where
  "first_attempt attempts = map_of (map (\<lambda>(t, v, i). ((t, v), i)) attempts)"

lemma registrations_snoc:
  "registrations name (as @ [(t, v, i)]) = snd (ServiceRegistry_register name t v i (registrations name as))"
  by (simp add: registrations_def)

lemma registrations_inv: "registry_inv (registrations name as)"
proof (induction as rule: rev_induct)
  case Nil
  then show ?case by (simp add: registrations_def registry_inv_def ServiceRegistry_new_def entry_or_default_def)
next
  case (snoc a as)
  then show ?case by (cases a) (simp add: registrations_snoc register_inv)
qed

lemma registrations_held: "held (registrations name as) = first_attempt as"
proof (induction as rule: rev_induct)
  case Nil
  then show ?case
    by (simp add: registrations_def first_attempt_def held_def ServiceRegistry_new_def entry_or_default_def fun_eq_iff)
next
  case (snoc a as)
  obtain t v i where "a = (t, v, i)" by (cases a)
  then show ?case using snoc by (auto simp: registrations_snoc register_held first_attempt_def map_add_def fun_eq_iff split: option.splits)
qed

text \<open>C36: resolution. After any history of registrations, refused duplicates included, \<open>resolve_raw\<close>
  answers with the implementation registered first under the greatest version of that service that
  satisfies the constraint, and otherwise, exactly when no registered version satisfies it, with
  \<open>ServiceNotFound\<close>.\<close>

theorem resolve_picks_highest:
  fixes name :: "'t \<Rightarrow> string" and attempts :: "('t \<times> ContractVersion \<times> 'i) list"
  defines "reg \<equiv> registrations name attempts" and "first \<equiv> first_attempt attempts"
  shows "(ServiceRegistry_resolve_raw t c reg = Ok i \<longleftrightarrow>
            (\<exists>v. first (t, v) = Some i \<and> VersionConstraint_matches c v \<and>
               (\<forall>v'. first (t, v') \<noteq> None \<and> VersionConstraint_matches c v' \<longrightarrow> v' \<le> v))) \<and>
         (ServiceRegistry_resolve_raw t c reg = Err RegistryServiceNotFound \<longleftrightarrow>
            (\<forall>v. first (t, v) \<noteq> None \<longrightarrow> \<not> VersionConstraint_matches c v))"
proof -
  note iff = resolve_raw_iff [OF registrations_inv [of name attempts], unfolded registrations_held]
  have "(\<exists>j. ServiceRegistry_resolve_raw t c reg = Ok j) \<longleftrightarrow>
      (\<exists>v. first (t, v) \<noteq> None \<and> VersionConstraint_matches c v)"
  proof
    let ?vs = "{v. first (t, v) \<noteq> None \<and> VersionConstraint_matches c v}"
    assume "\<exists>v. first (t, v) \<noteq> None \<and> VersionConstraint_matches c v"
    moreover have "finite ?vs"
      by (rule finite_subset [of _ "snd ` dom first"]) (force simp: first_def first_attempt_def finite_dom_map_of)+
    ultimately have "Max ?vs \<in> ?vs" "\<forall>v' \<in> ?vs. v' \<le> Max ?vs" using Max_in [of ?vs] by auto
    then show "\<exists>j. ServiceRegistry_resolve_raw t c reg = Ok j"
      by (auto simp: reg_def iff first_def)
  qed (auto simp: reg_def iff first_def)
  moreover have "(ServiceRegistry_resolve_raw t c reg = Err RegistryServiceNotFound) \<longleftrightarrow>
      \<not> (\<exists>j. ServiceRegistry_resolve_raw t c reg = Ok j)"
    using resolve_raw_Err [of t c reg] by (cases "ServiceRegistry_resolve_raw t c reg") auto
  moreover have "ServiceRegistry_resolve_raw t c reg = Ok i \<longleftrightarrow>
      (\<exists>v. first (t, v) = Some i \<and> VersionConstraint_matches c v \<and>
         (\<forall>v'. first (t, v') \<noteq> None \<and> VersionConstraint_matches c v' \<longrightarrow> v' \<le> v))"
    by (simp add: iff reg_def first_def)
  ultimately show ?thesis by blast
qed

definition ex_services :: "(nat \<times> ContractVersion \<times> string) list" where
  "ex_services =
     [(7, ContractVersion 1 0 0, ''a''), (7, ContractVersion 2 0 0, ''b''), (7, ContractVersion 1 5 0, ''c''),
      (7, ContractVersion 1 5 0, ''d''), (8, ContractVersion 1 9 0, ''e'')]"

theorem resolve_picks_highest_witness:
  "ServiceRegistry_resolve_raw 7 (LatestCompatible (\<lambda>(ma, _, _). ma = 1)) (registrations (\<lambda>_. ''svc'') ex_services) = Ok ''c'' \<and>
   ServiceRegistry_resolve_raw 9 (Exact (ContractVersion 1 0 0)) (registrations (\<lambda>_. ''svc'') ex_services) = Err RegistryServiceNotFound"
proof
  have first: "first_attempt ex_services (7, v) =
      (if v = ContractVersion 1 0 0 then Some ''a'' else if v = ContractVersion 2 0 0 then Some ''b''
       else if v = ContractVersion 1 5 0 then Some ''c'' else None)" for v
    by (simp add: first_attempt_def ex_services_def)
  show "ServiceRegistry_resolve_raw 7 (LatestCompatible (\<lambda>(ma, _, _). ma = 1)) (registrations (\<lambda>_. ''svc'') ex_services) = Ok ''c''"
    by (rule iffD2 [OF conjunct1 [OF resolve_picks_highest]], rule exI [of _ "ContractVersion 1 5 0"])
      (auto simp: first to_semver_def ContractVersion_le_iff split: if_splits)
  show "ServiceRegistry_resolve_raw 9 (Exact (ContractVersion 1 0 0)) (registrations (\<lambda>_. ''svc'') ex_services) = Err RegistryServiceNotFound"
    by (rule iffD2 [OF conjunct2 [OF resolve_picks_highest]]) (simp add: first_attempt_def ex_services_def)
qed

text \<open>A contract version survives being printed and parsed, and two versions print alike only when
  they are equal.\<close>

theorem version_round_trip:
  "ContractVersion_from_str (ContractVersion_to_string v) = Ok v \<and>
   (ContractVersion_to_string v = ContractVersion_to_string w \<longleftrightarrow> v = w)"
proof -
  have rt: "ContractVersion_from_str (ContractVersion_to_string u) = Ok u" for u
    using dot_notin_nat_to_string
    by (simp add: ContractVersion_from_str_def ContractVersion_to_string_def str_split_append str_split_none
        parse_u32_nat_to_string)
  then show ?thesis by (metis Inr_inject)
qed

end
