(* ===== verification/Ego_Runtime_Builder.thy ===== *)
theory Ego_Runtime_Builder
  imports Ego_Health Ego_Retention Ego_Registry
begin

text \<open>
  The service runtime's composition (\<open>crates/service-sdk/src/runtime/builder.rs\<close>, \<open>runtime_builder.rs\<close>,
  \<open>logger.rs\<close>, \<open>di/mod.rs\<close>, \<open>crates/persistent-entity/src/profile.rs\<close>): the builder with its
  registrations, the validation of a production profile, \<open>build\<close> and \<open>try_build\<close>, and the built
  runtime's resolution of dependencies.

  An \<open>Arc\<close> is its identity, so that \<open>Arc::ptr_eq\<close> is equality. What a registered object answers is the
  record \<open>components\<close>, an argument. A Rust type is its \<open>TypeId\<close> and its name. A panic of \<open>build\<close> is
  \<open>None\<close>. The \<open>debug_assert\<close> on the two effect stores is not executed in release builds and is proved
  to hold (\<open>effect_stores_registered_together\<close>).
\<close>

section \<open>Vocabulary\<close>

type_synonym arc = nat

datatype rust_type = RustType (ty_id: nat) (ty_name: string)

record components =
  co_durable :: "arc \<Rightarrow> bool"
  co_health_contributors :: "arc \<Rightarrow> arc list"
  co_contributor :: "arc \<Rightarrow> contributor"
  co_provider_health :: "arc \<Rightarrow> ProviderHealth"
  co_probe :: "arc \<Rightarrow> (unit, ReservationError) result"

datatype Profile = Dev | Production

datatype PersistenceCompositionError = NotConfigured (not_configured_capability: string) (not_configured_fix: string)

definition require_durably_configured ::
  "Profile \<Rightarrow> bool \<Rightarrow> string \<Rightarrow> string \<Rightarrow> (unit, PersistenceCompositionError) result" where
  "require_durably_configured profile durably_configured capability fix =
     (case profile of
        Production \<Rightarrow> if \<not> durably_configured then Err (NotConfigured capability fix) else Ok ()
      | Dev \<Rightarrow> Ok ())"

datatype DependencyKind = KindProjection | KindAdapter | KindConfig | KindEntity

datatype RuntimeError =
  ServiceNotFound string "string option"
| DependencyNotFound DependencyKind string "string option"
| OperationReservationStoreNotRegistered
| PersistenceNotConfigured PersistenceCompositionError

datatype RuntimeInfraError = ConfigInvalid string | LoggerInit string | TeardownError string

datatype DuplicateProjection = DuplicateProjection string
datatype DuplicateEntity = DuplicateEntity string

datatype clock = SystemClock | InjectedClock arc

record reservation_wiring =
  rw_store :: arc
  rw_clock :: clock
  rw_owner_id :: OwnerId
  rw_lease_duration :: duration

datatype effect_store = RegisteredEffectStore arc | InMemoryEffectStoreNew

record effect_wiring =
  ew_state_store :: effect_store
  ew_dedup_store :: effect_store
  ew_executors :: "arc ExecutorRegistry"
  ew_delivery_config :: DeliveryConfig
  ew_observability :: "arc option"

datatype contributor_source =
  ComponentContributor arc
| ProviderContributor string arc
| ReservationContributor arc

datatype teardown_hook =
  ProvidersHook "arc list"
| TracerHook arc
| EffectsHook duration
| RetentionHook duration
| EffectRetentionHook duration
| HostHook nat

record DependencyTable =
  dt_projections :: "nat \<rightharpoonup> arc"
  dt_adapters :: "nat \<rightharpoonup> arc"
  dt_configs :: "nat \<rightharpoonup> arc"
  dt_entities :: "nat \<rightharpoonup> arc"

text \<open>\<open>Runtime\<close> with the \<open>RuntimeInner\<close> it shares.\<close>

record Runtime =
  rt_registry :: "(nat, arc) service_registry"
  rt_interceptors :: "arc list"
  rt_security_providers :: "(arc \<times> arc) option"
  rt_resolved :: DependencyTable
  rt_logger :: "arc option"
  rt_teardown :: "arc list"
  rt_tenant_mode :: TenantEnforcementMode
  rt_idempotency_mode :: IdempotencyEnforcementMode
  rt_reservation :: "reservation_wiring option"
  rt_observability :: "arc option"
  rt_effect_acceptor :: "effect_wiring option"
  rt_effect_drain_deadline :: duration
  rt_data_provider_access :: "((string \<rightharpoonup> arc) \<times> ProviderAccessConfig) option"
  rt_tracer :: "arc option"
  rt_effect_retention_store :: "arc option"
  rt_effect_retention_clock :: clock
  rt_async_teardown :: "teardown_hook list"
  rt_effect_started :: bool
  rt_retention_started :: bool
  rt_effect_retention_started :: bool
  rt_retention_policy :: "RetentionPolicy option"
  rt_effect_retention_policy :: "EffectRetentionPolicy option"
  rt_contributors :: "contributor_source list"

record RuntimeBuilder =
  rb_registry :: "(nat, arc) service_registry"
  rb_authn :: "arc option"
  rb_authz :: "arc option"
  rb_logger :: "arc option"
  rb_adapters :: "nat \<rightharpoonup> arc"
  rb_configs :: "nat \<rightharpoonup> arc"
  rb_projections :: "nat \<rightharpoonup> arc"
  rb_entities :: "nat \<rightharpoonup> arc"
  rb_tenant_mode :: TenantEnforcementMode
  rb_idempotency_mode :: IdempotencyEnforcementMode
  rb_reservation_store :: "arc option"
  rb_retention_policy :: "RetentionPolicy option"
  rb_effect_retention_store :: "arc option"
  rb_effect_state_store :: "arc option"
  rb_effect_dedup_store :: "arc option"
  rb_effect_retention_policy :: "EffectRetentionPolicy option"
  rb_effect_retention_clock :: "arc option"
  rb_reservation_clock :: "arc option"
  rb_reservation_owner_id :: "OwnerId option"
  rb_reservation_lease_duration :: duration
  rb_validators :: "(string \<times> (Runtime \<Rightarrow> (unit, RuntimeError) result)) list"
  rb_observability :: "arc option"
  rb_tracer :: "arc option"
  rb_tracer_lifecycle :: "arc option"
  rb_effect_executors :: "arc ExecutorRegistry"
  rb_delivery_config :: DeliveryConfig
  rb_effect_drain_deadline :: duration
  rb_data_provider_registry :: "string \<rightharpoonup> arc"
  rb_provider_access_config :: ProviderAccessConfig
  rb_data_providers_for_teardown :: "arc list"
  rb_provider_health_pairs :: "(string \<times> arc) list"
  rb_lifecycle_components :: "arc list"
  rb_profile :: Profile
  rb_read_side_progress :: "(string \<times> (arc \<times> arc)) list"
  rb_read_side_claims :: "arc option"

definition DEFAULT_EFFECT_DRAIN_DEADLINE :: duration where
  "DEFAULT_EFFECT_DRAIN_DEADLINE = from_secs 5"

definition RuntimeBuilder_new :: RuntimeBuilder where
  "RuntimeBuilder_new =
     \<lparr>rb_registry = ServiceRegistry_new, rb_authn = None, rb_authz = None, rb_logger = None,
      rb_adapters = Map.empty, rb_configs = Map.empty, rb_projections = Map.empty, rb_entities = Map.empty,
      rb_tenant_mode = AuthenticatedOnly, rb_idempotency_mode = IdempotencyEnforcementMode_default,
      rb_reservation_store = None, rb_retention_policy = None, rb_effect_retention_store = None,
      rb_effect_state_store = None, rb_effect_dedup_store = None, rb_effect_retention_policy = None,
      rb_effect_retention_clock = None, rb_reservation_clock = None, rb_reservation_owner_id = None,
      rb_reservation_lease_duration = from_secs 30, rb_validators = [], rb_observability = None,
      rb_tracer = None, rb_tracer_lifecycle = None, rb_effect_executors = ExecutorRegistry_new,
      rb_delivery_config = DeliveryConfig_default, rb_effect_drain_deadline = DEFAULT_EFFECT_DRAIN_DEADLINE,
      rb_data_provider_registry = Map.empty, rb_provider_access_config = ProviderAccessConfig_default,
      rb_data_providers_for_teardown = [], rb_provider_health_pairs = [], rb_lifecycle_components = [],
      rb_profile = Dev, rb_read_side_progress = [], rb_read_side_claims = None\<rparr>"

section \<open>Registrations\<close>

definition with_profile :: "Profile \<Rightarrow> RuntimeBuilder \<Rightarrow> RuntimeBuilder" where
  "with_profile profile b = b\<lparr>rb_profile := profile\<rparr>"

definition with_lifecycle_component :: "arc \<Rightarrow> RuntimeBuilder \<Rightarrow> RuntimeBuilder" where
  "with_lifecycle_component component b = b\<lparr>rb_lifecycle_components := rb_lifecycle_components b @ [component]\<rparr>"

definition with_security :: "arc \<Rightarrow> arc \<Rightarrow> RuntimeBuilder \<Rightarrow> RuntimeBuilder" where
  "with_security authn authz b = b\<lparr>rb_authn := Some authn, rb_authz := Some authz\<rparr>"

definition with_logger :: "arc \<Rightarrow> RuntimeBuilder \<Rightarrow> RuntimeBuilder" where
  "with_logger logger b = b\<lparr>rb_logger := Some logger\<rparr>"

definition with_adapter :: "rust_type \<Rightarrow> arc \<Rightarrow> RuntimeBuilder \<Rightarrow> RuntimeBuilder" where
  "with_adapter a adapter b = b\<lparr>rb_adapters := (rb_adapters b)(ty_id a \<mapsto> adapter)\<rparr>"

definition with_config :: "rust_type \<Rightarrow> arc \<Rightarrow> RuntimeBuilder \<Rightarrow> RuntimeBuilder" where
  "with_config c value b = b\<lparr>rb_configs := (rb_configs b)(ty_id c \<mapsto> value)\<rparr>"

definition with_projection :: "rust_type \<Rightarrow> arc \<Rightarrow> RuntimeBuilder \<Rightarrow> (RuntimeBuilder, DuplicateProjection) result" where
  "with_projection p projection b =
     (if rb_projections b (ty_id p) \<noteq> None then Err (DuplicateProjection (ty_name p))
      else Ok (b\<lparr>rb_projections := (rb_projections b)(ty_id p \<mapsto> projection)\<rparr>))"

definition with_entity :: "rust_type \<Rightarrow> arc \<Rightarrow> RuntimeBuilder \<Rightarrow> (RuntimeBuilder, DuplicateEntity) result" where
  "with_entity e runtime b =
     (if rb_entities b (ty_id e) \<noteq> None then Err (DuplicateEntity (ty_name e))
      else Ok (b\<lparr>rb_entities := (rb_entities b)(ty_id e \<mapsto> runtime)\<rparr>))"

definition with_service ::
  "rust_type \<Rightarrow> ContractVersion \<Rightarrow> arc \<Rightarrow> RuntimeBuilder \<Rightarrow> (RuntimeBuilder, RegistryError) result" where
  "with_service tag version svc b =
     (case ServiceRegistry_register (\<lambda>_. ty_name tag) (ty_id tag) version svc (rb_registry b) of
        (Inl e, _) \<Rightarrow> Err e
      | (Inr _, registry) \<Rightarrow> Ok (b\<lparr>rb_registry := registry\<rparr>))"

definition with_injectable ::
  "string \<Rightarrow> (Runtime \<Rightarrow> (unit, RuntimeError) result) \<Rightarrow> RuntimeBuilder \<Rightarrow> RuntimeBuilder" where
  "with_injectable service_name validate b = b\<lparr>rb_validators := rb_validators b @ [(service_name, validate)]\<rparr>"

definition with_tenant_enforcement_mode :: "TenantEnforcementMode \<Rightarrow> RuntimeBuilder \<Rightarrow> RuntimeBuilder" where
  "with_tenant_enforcement_mode mode b = b\<lparr>rb_tenant_mode := mode\<rparr>"

definition with_idempotency_enforcement_mode :: "IdempotencyEnforcementMode \<Rightarrow> RuntimeBuilder \<Rightarrow> RuntimeBuilder" where
  "with_idempotency_enforcement_mode mode b = b\<lparr>rb_idempotency_mode := mode\<rparr>"

definition with_retention_policy :: "RetentionPolicy \<Rightarrow> RuntimeBuilder \<Rightarrow> RuntimeBuilder" where
  "with_retention_policy policy b = b\<lparr>rb_retention_policy := Some policy\<rparr>"

definition with_effect_retention_store :: "arc \<Rightarrow> RuntimeBuilder \<Rightarrow> RuntimeBuilder" where
  "with_effect_retention_store store b = b\<lparr>rb_effect_retention_store := Some store\<rparr>"

definition with_effect_store :: "arc \<Rightarrow> RuntimeBuilder \<Rightarrow> RuntimeBuilder" where
  "with_effect_store store b = b\<lparr>rb_effect_state_store := Some store, rb_effect_dedup_store := Some store\<rparr>"

definition with_read_side_progress :: "string \<Rightarrow> arc \<Rightarrow> arc \<Rightarrow> RuntimeBuilder \<Rightarrow> RuntimeBuilder" where
  "with_read_side_progress projection_id offset_store dedup_store b =
     b\<lparr>rb_read_side_progress := btree_insert projection_id (offset_store, dedup_store) (rb_read_side_progress b)\<rparr>"

definition with_read_side_claim_store :: "arc \<Rightarrow> RuntimeBuilder \<Rightarrow> RuntimeBuilder" where
  "with_read_side_claim_store store b = b\<lparr>rb_read_side_claims := Some store\<rparr>"

definition with_effect_retention_policy :: "EffectRetentionPolicy \<Rightarrow> RuntimeBuilder \<Rightarrow> RuntimeBuilder" where
  "with_effect_retention_policy policy b = b\<lparr>rb_effect_retention_policy := Some policy\<rparr>"

definition with_effect_retention_clock :: "arc \<Rightarrow> RuntimeBuilder \<Rightarrow> RuntimeBuilder" where
  "with_effect_retention_clock clock b = b\<lparr>rb_effect_retention_clock := Some clock\<rparr>"

definition with_operation_reservation_store :: "arc \<Rightarrow> RuntimeBuilder \<Rightarrow> RuntimeBuilder" where
  "with_operation_reservation_store store b = b\<lparr>rb_reservation_store := Some store\<rparr>"

definition with_reservation_clock :: "arc \<Rightarrow> RuntimeBuilder \<Rightarrow> RuntimeBuilder" where
  "with_reservation_clock clock b = b\<lparr>rb_reservation_clock := Some clock\<rparr>"

definition with_reservation_owner_id :: "OwnerId \<Rightarrow> RuntimeBuilder \<Rightarrow> RuntimeBuilder" where
  "with_reservation_owner_id owner_id b = b\<lparr>rb_reservation_owner_id := Some owner_id\<rparr>"

definition with_reservation_lease_duration :: "duration \<Rightarrow> RuntimeBuilder \<Rightarrow> RuntimeBuilder" where
  "with_reservation_lease_duration lease b = b\<lparr>rb_reservation_lease_duration := lease\<rparr>"

definition with_observability :: "arc \<Rightarrow> RuntimeBuilder \<Rightarrow> RuntimeBuilder" where
  "with_observability obs b = b\<lparr>rb_observability := Some obs\<rparr>"

definition with_tracer :: "arc \<Rightarrow> RuntimeBuilder \<Rightarrow> RuntimeBuilder" where
  "with_tracer tracer b = b\<lparr>rb_tracer := Some tracer\<rparr>"

definition with_tracer_lifecycle :: "arc \<Rightarrow> RuntimeBuilder \<Rightarrow> RuntimeBuilder" where
  "with_tracer_lifecycle lifecycle b = b\<lparr>rb_tracer_lifecycle := Some lifecycle\<rparr>"

definition with_traced :: "arc \<Rightarrow> RuntimeBuilder \<Rightarrow> RuntimeBuilder" where
  "with_traced traced b = with_tracer_lifecycle traced (with_tracer traced b)"

fun register_effect_executor ::
  "string list \<Rightarrow> arc \<Rightarrow> RuntimeBuilder \<Rightarrow> (RuntimeBuilder, DuplicateEffectType) result" where
  "register_effect_executor [] executor b = Ok b"
| "register_effect_executor (effect_type # effect_types) executor b =
     (case ExecutorRegistry_register effect_type executor (rb_effect_executors b) of
        (Inl e, _) \<Rightarrow> Err e
      | (Inr _, executors) \<Rightarrow> register_effect_executor effect_types executor (b\<lparr>rb_effect_executors := executors\<rparr>))"

definition register_data_provider ::
  "string \<Rightarrow> arc \<Rightarrow> RuntimeBuilder \<Rightarrow> (RuntimeBuilder, DuplicateProviderId) result" where
  "register_data_provider provider_id provider b =
     (case DataProviderRegistry_register provider_id provider (rb_data_provider_registry b) of
        Inl e \<Rightarrow> Err e
      | Inr registry \<Rightarrow>
          Ok (b\<lparr>rb_data_provider_registry := registry,
                rb_data_providers_for_teardown :=
                  (if provider \<in> set (rb_data_providers_for_teardown b) then rb_data_providers_for_teardown b
                   else rb_data_providers_for_teardown b @ [provider]),
                rb_provider_health_pairs := rb_provider_health_pairs b @ [(provider_id, provider)]\<rparr>))"

definition with_provider_access_config :: "ProviderAccessConfig \<Rightarrow> RuntimeBuilder \<Rightarrow> RuntimeBuilder" where
  "with_provider_access_config config b = b\<lparr>rb_provider_access_config := config\<rparr>"

definition with_delivery_config :: "DeliveryConfig \<Rightarrow> RuntimeBuilder \<Rightarrow> RuntimeBuilder" where
  "with_delivery_config config b = b\<lparr>rb_delivery_config := config\<rparr>"

definition with_effect_drain_deadline :: "duration \<Rightarrow> RuntimeBuilder \<Rightarrow> RuntimeBuilder" where
  "with_effect_drain_deadline deadline b = b\<lparr>rb_effect_drain_deadline := deadline\<rparr>"

section \<open>Validation\<close>

text \<open>The two conversions \<open>?\<close> performs: a wrapped refusal, and sequencing.\<close>

definition refuse :: "(unit, PersistenceCompositionError) result \<Rightarrow> (unit, RuntimeError) result" where
  "refuse r = map_sum PersistenceNotConfigured id r"

definition try_then :: "(unit, 'e) result \<Rightarrow> ('a, 'e) result \<Rightarrow> ('a, 'e) result" where
  "try_then r k = (case r of Inl e \<Rightarrow> Err e | Inr _ \<Rightarrow> k)"

definition validate_idempotency :: "RuntimeBuilder \<Rightarrow> (unit, RuntimeError) result" where
  "validate_idempotency b =
     (if rb_idempotency_mode b = MandatoryKey \<and> rb_reservation_store b = None
      then Err OperationReservationStoreNotRegistered else Ok ())"

definition validate_effect_store_profile :: "components \<Rightarrow> RuntimeBuilder \<Rightarrow> (unit, RuntimeError) result" where
  "validate_effect_store_profile co b =
     (if ExecutorRegistry_is_empty (rb_effect_executors b) then Ok ()
      else refuse (require_durably_configured (rb_profile b)
             (case rb_effect_state_store b of None \<Rightarrow> False | Some s \<Rightarrow> co_durable co s)
             ''effect store''
             ''RuntimeBuilder::with_effect_store(store) (or AppBuilder::effect_store(store))''))"

fun validate_progress_pairs :: "components \<Rightarrow> Profile \<Rightarrow> (string \<times> (arc \<times> arc)) list \<Rightarrow> (unit, RuntimeError) result" where
  "validate_progress_pairs co profile [] = Ok ()"
| "validate_progress_pairs co profile ((_, (offset_store, dedup_store)) # pairs) =
     try_then
       (refuse (require_durably_configured profile (co_durable co offset_store \<and> co_durable co dedup_store)
          ''durable read-side progress store (OffsetStore + DedupStore)''
          (''AppBuilder::read_side_progress(projection_id, offset_store, dedup_store) (or '' @
           ''RuntimeBuilder::with_read_side_progress(..)), passing stores whose is_durable() returns true'')))
       (validate_progress_pairs co profile pairs)"

definition validate_read_side_progress_profile :: "components \<Rightarrow> RuntimeBuilder \<Rightarrow> (unit, RuntimeError) result" where
  "validate_read_side_progress_profile co b = validate_progress_pairs co (rb_profile b) (rb_read_side_progress b)"

definition validate_read_side_claim_profile :: "components \<Rightarrow> RuntimeBuilder \<Rightarrow> (unit, RuntimeError) result" where
  "validate_read_side_claim_profile co b =
     (if rb_read_side_progress b = [] then Ok ()
      else refuse (require_durably_configured (rb_profile b)
             (case rb_read_side_claims b of None \<Rightarrow> False | Some c \<Rightarrow> co_durable co c)
             ''durable read-side claim store (ReadSideClaimStore)''
             (''AppBuilder::read_side_claims(store) (or RuntimeBuilder::with_read_side_claim_store(..)), '' @
              ''passing a store whose is_durable() returns true'')))"

definition validate_operation_reservation_profile :: "components \<Rightarrow> RuntimeBuilder \<Rightarrow> (unit, RuntimeError) result" where
  "validate_operation_reservation_profile co b =
     (case rb_reservation_store b of
        None \<Rightarrow> Ok ()
      | Some store \<Rightarrow>
          refuse (require_durably_configured (rb_profile b) (co_durable co store)
            ''operation reservation store (OperationReservationStore)''
            (''RuntimeBuilder::with_operation_reservation_store(store), passing a store whose '' @
             ''is_durable() returns true'')))"

definition validate_persistence_profile :: "components \<Rightarrow> RuntimeBuilder \<Rightarrow> (unit, RuntimeError) result" where
  "validate_persistence_profile co b =
     try_then (validate_effect_store_profile co b)
       (try_then (validate_read_side_progress_profile co b)
          (try_then (validate_read_side_claim_profile co b)
             (try_then (validate_operation_reservation_profile co b) (Ok ()))))"

section \<open>Building\<close>

definition effect_wiring_of :: "RuntimeBuilder \<Rightarrow> effect_wiring option" where
  "effect_wiring_of b =
     (if ExecutorRegistry_is_empty (rb_effect_executors b) then None
      else (let stores = (case (rb_effect_state_store b, rb_effect_dedup_store b) of
                            (Some state_store, Some dedup_store) \<Rightarrow>
                              (RegisteredEffectStore state_store, RegisteredEffectStore dedup_store)
                          | _ \<Rightarrow> (InMemoryEffectStoreNew, InMemoryEffectStoreNew))
            in Some \<lparr>ew_state_store = fst stores, ew_dedup_store = snd stores, ew_executors = rb_effect_executors b,
                     ew_delivery_config = rb_delivery_config b, ew_observability = rb_observability b\<rparr>))"

definition contributors_of :: "components \<Rightarrow> RuntimeBuilder \<Rightarrow> contributor_source list" where
  "contributors_of co b =
     map ComponentContributor (concat (map (co_health_contributors co) (rb_lifecycle_components b))) @
     map (\<lambda>(provider_id, provider). ProviderContributor provider_id provider) (rb_provider_health_pairs b) @
     (case rb_reservation_store b of None \<Rightarrow> [] | Some store \<Rightarrow> [ReservationContributor store])"

definition injected_or_system :: "arc option \<Rightarrow> clock" where
  "injected_or_system c = (case c of None \<Rightarrow> SystemClock | Some a \<Rightarrow> InjectedClock a)"

text \<open>\<open>None\<close> is the panic of \<open>expect\<close> on a zero lease; \<open>minted\<close> is the fresh \<open>Uuid\<close>.\<close>

definition reservation_wiring_of :: "OwnerId \<Rightarrow> RuntimeBuilder \<Rightarrow> reservation_wiring option option" where
  "reservation_wiring_of minted b =
     (case rb_reservation_store b of
        None \<Rightarrow> Some None
      | Some store \<Rightarrow>
          if rb_reservation_lease_duration b = 0 then None
          else Some (Some \<lparr>rw_store = store, rw_clock = injected_or_system (rb_reservation_clock b),
                           rw_owner_id = (case rb_reservation_owner_id b of None \<Rightarrow> minted | Some owner \<Rightarrow> owner),
                           rw_lease_duration = rb_reservation_lease_duration b\<rparr>))"

definition initial_hooks :: "RuntimeBuilder \<Rightarrow> teardown_hook list" where
  "initial_hooks b =
     (if rb_data_providers_for_teardown b = [] then [] else [ProvidersHook (rb_data_providers_for_teardown b)]) @
     (case rb_tracer_lifecycle b of None \<Rightarrow> [] | Some lifecycle \<Rightarrow> [TracerHook lifecycle])"

definition assemble_runtime :: "components \<Rightarrow> reservation_wiring option \<Rightarrow> RuntimeBuilder \<Rightarrow> Runtime" where
  "assemble_runtime co reservation b =
     \<lparr>rt_registry = rb_registry b,
      rt_interceptors = (case rb_tracer b of None \<Rightarrow> [] | Some tracer \<Rightarrow> [tracer]),
      rt_security_providers =
        (case (rb_authn b, rb_authz b) of (Some authn, Some authz) \<Rightarrow> Some (authn, authz) | _ \<Rightarrow> None),
      rt_resolved =
        \<lparr>dt_projections = rb_projections b, dt_adapters = rb_adapters b, dt_configs = rb_configs b,
         dt_entities = rb_entities b\<rparr>,
      rt_logger = rb_logger b,
      rt_teardown = (case rb_logger b of None \<Rightarrow> [] | Some logger \<Rightarrow> [logger]),
      rt_tenant_mode = rb_tenant_mode b,
      rt_idempotency_mode = rb_idempotency_mode b,
      rt_reservation = reservation,
      rt_observability = rb_observability b,
      rt_effect_acceptor = effect_wiring_of b,
      rt_effect_drain_deadline = rb_effect_drain_deadline b,
      rt_data_provider_access =
        (if rb_data_provider_registry b = Map.empty then None
         else Some (rb_data_provider_registry b, rb_provider_access_config b)),
      rt_tracer = rb_tracer b,
      rt_effect_retention_store = rb_effect_retention_store b,
      rt_effect_retention_clock = injected_or_system (rb_effect_retention_clock b),
      rt_async_teardown = initial_hooks b,
      rt_effect_started = False, rt_retention_started = False, rt_effect_retention_started = False,
      rt_retention_policy = rb_retention_policy b,
      rt_effect_retention_policy = rb_effect_retention_policy b,
      rt_contributors = contributors_of co b\<rparr>"

definition RuntimeBuilder_build :: "components \<Rightarrow> OwnerId \<Rightarrow> RuntimeBuilder \<Rightarrow> Runtime option" where
  "RuntimeBuilder_build co minted b =
     (case try_then (validate_idempotency b) (validate_persistence_profile co b) of
        Inl _ \<Rightarrow> None
      | Inr _ \<Rightarrow>
          (case reservation_wiring_of minted b of
             None \<Rightarrow> None
           | Some reservation \<Rightarrow>
               if rb_retention_policy b \<noteq> None \<and> reservation = None then None
               else if rb_effect_retention_policy b \<noteq> None \<and> rb_effect_retention_store b = None then None
               else Some (assemble_runtime co reservation b)))"

fun name_service :: "string \<Rightarrow> RuntimeError \<Rightarrow> RuntimeError" where
  "name_service service_name (DependencyNotFound kind type_name _) = DependencyNotFound kind type_name (Some service_name)"
| "name_service service_name e = e"

fun run_validators ::
  "(string \<times> (Runtime \<Rightarrow> (unit, RuntimeError) result)) list \<Rightarrow> Runtime \<Rightarrow> (unit, RuntimeError) result" where
  "run_validators [] rt = Ok ()"
| "run_validators ((service_name, validate) # validators) rt =
     (case validate rt of
        Inl e \<Rightarrow> Err (name_service service_name e)
      | Inr _ \<Rightarrow> run_validators validators rt)"

definition RuntimeBuilder_try_build ::
  "components \<Rightarrow> OwnerId \<Rightarrow> RuntimeBuilder \<Rightarrow> (Runtime, RuntimeError) result option" where
  "RuntimeBuilder_try_build co minted b =
     (case try_then (validate_idempotency b) (validate_persistence_profile co b) of
        Inl e \<Rightarrow> Some (Err e)
      | Inr _ \<Rightarrow>
          (case RuntimeBuilder_build co minted (b\<lparr>rb_validators := []\<rparr>) of
             None \<Rightarrow> None
           | Some rt \<Rightarrow> Some (try_then (run_validators (rb_validators b) rt) (Ok rt))))"

section \<open>Resolution\<close>

datatype DepKey = DepEntity rust_type | DepProjection rust_type | DepAdapter rust_type | DepConfig rust_type

definition require_present :: "arc option \<Rightarrow> DependencyKind \<Rightarrow> rust_type \<Rightarrow> (arc, RuntimeError) result" where
  "require_present found kind t =
     (case found of None \<Rightarrow> Err (DependencyNotFound kind (ty_name t) None) | Some a \<Rightarrow> Ok a)"

fun resolve_dependency :: "DependencyTable \<Rightarrow> DepKey \<Rightarrow> (arc, RuntimeError) result" where
  "resolve_dependency table (DepEntity t) = require_present (dt_entities table (ty_id t)) KindEntity t"
| "resolve_dependency table (DepProjection t) = require_present (dt_projections table (ty_id t)) KindProjection t"
| "resolve_dependency table (DepAdapter t) = require_present (dt_adapters table (ty_id t)) KindAdapter t"
| "resolve_dependency table (DepConfig t) = require_present (dt_configs table (ty_id t)) KindConfig t"

definition check_dependency :: "Runtime \<Rightarrow> DepKey \<Rightarrow> (unit, RuntimeError) result" where
  "check_dependency rt dep = map_sum id (\<lambda>_. ()) (resolve_dependency (rt_resolved rt) dep)"

fun Injectable_validate :: "DepKey list \<Rightarrow> Runtime \<Rightarrow> (unit, RuntimeError) result" where
  "Injectable_validate [] rt = Ok ()"
| "Injectable_validate (dep # deps) rt = try_then (check_dependency rt dep) (Injectable_validate deps rt)"

definition Runtime_resolve ::
  "rust_type \<Rightarrow> ContractVersion \<Rightarrow> (arc \<Rightarrow> arc list \<Rightarrow> ('p, RuntimeError) result) \<Rightarrow> Runtime \<Rightarrow> ('p, RuntimeError) result" where
  "Runtime_resolve tag version create_proxy rt =
     (case ServiceRegistry_resolve_raw (ty_id tag) (Exact version) (rt_registry rt) of
        Inl _ \<Rightarrow> Err (ServiceNotFound (ty_name tag) None)
      | Inr raw \<Rightarrow> create_proxy raw (rt_interceptors rt))"

section \<open>Health of a built runtime\<close>

fun evaluate_contributor :: "components \<Rightarrow> contributor_source \<Rightarrow> contributor" where
  "evaluate_contributor co (ComponentContributor a) = co_contributor co a"
| "evaluate_contributor co (ProviderContributor provider_id provider) =
     ProviderHealthContributor provider_id (co_provider_health co provider)"
| "evaluate_contributor co (ReservationContributor store) = OperationReservationStoreHealthContributor (co_probe co store)"

definition Runtime_liveness :: HealthReport where
  "Runtime_liveness = \<lparr>hr_probe = Liveness, hr_status = Healthy, hr_contributors = []\<rparr>"

definition Runtime_probe ::
  "components \<Rightarrow> (pending \<Rightarrow> pending) \<Rightarrow> nat list \<Rightarrow> ProbeKind \<Rightarrow> Runtime \<Rightarrow> HealthReport" where
  "Runtime_probe co drain arrivals probe rt =
     HealthAggregator_aggregate HealthAggregationConfig_default drain arrivals
       (map (evaluate_contributor co) (rt_contributors rt)) probe"

section \<open>Composed builders\<close>

text \<open>A builder a host can hold: \<open>new\<close> and then any of the registrations, in any order.\<close>

inductive composed :: "RuntimeBuilder \<Rightarrow> bool" where
  c_new: "composed RuntimeBuilder_new"
| c_profile: "composed b \<Longrightarrow> composed (with_profile p b)"
| c_lifecycle: "composed b \<Longrightarrow> composed (with_lifecycle_component a b)"
| c_security: "composed b \<Longrightarrow> composed (with_security a a' b)"
| c_logger: "composed b \<Longrightarrow> composed (with_logger a b)"
| c_adapter: "composed b \<Longrightarrow> composed (with_adapter t a b)"
| c_config: "composed b \<Longrightarrow> composed (with_config t a b)"
| c_projection: "composed b \<Longrightarrow> with_projection t a b = Ok b' \<Longrightarrow> composed b'"
| c_entity: "composed b \<Longrightarrow> with_entity t a b = Ok b' \<Longrightarrow> composed b'"
| c_service: "composed b \<Longrightarrow> with_service t v a b = Ok b' \<Longrightarrow> composed b'"
| c_injectable: "composed b \<Longrightarrow> composed (with_injectable n f b)"
| c_tenant: "composed b \<Longrightarrow> composed (with_tenant_enforcement_mode tm b)"
| c_idempotency: "composed b \<Longrightarrow> composed (with_idempotency_enforcement_mode im b)"
| c_retention: "composed b \<Longrightarrow> composed (with_retention_policy rp b)"
| c_effect_retention_store: "composed b \<Longrightarrow> composed (with_effect_retention_store a b)"
| c_effect_store: "composed b \<Longrightarrow> composed (with_effect_store a b)"
| c_progress: "composed b \<Longrightarrow> composed (with_read_side_progress n a a' b)"
| c_claims: "composed b \<Longrightarrow> composed (with_read_side_claim_store a b)"
| c_effect_retention: "composed b \<Longrightarrow> composed (with_effect_retention_policy erp b)"
| c_effect_retention_clock: "composed b \<Longrightarrow> composed (with_effect_retention_clock a b)"
| c_reservation_store: "composed b \<Longrightarrow> composed (with_operation_reservation_store a b)"
| c_reservation_clock: "composed b \<Longrightarrow> composed (with_reservation_clock a b)"
| c_owner: "composed b \<Longrightarrow> composed (with_reservation_owner_id ow b)"
| c_lease: "composed b \<Longrightarrow> composed (with_reservation_lease_duration d b)"
| c_observability: "composed b \<Longrightarrow> composed (with_observability a b)"
| c_tracer: "composed b \<Longrightarrow> composed (with_tracer a b)"
| c_tracer_lifecycle: "composed b \<Longrightarrow> composed (with_tracer_lifecycle a b)"
| c_executor: "composed b \<Longrightarrow> register_effect_executor ns a b = Ok b' \<Longrightarrow> composed b'"
| c_provider: "composed b \<Longrightarrow> register_data_provider n a b = Ok b' \<Longrightarrow> composed b'"
| c_access: "composed b \<Longrightarrow> composed (with_provider_access_config pc b)"
| c_delivery: "composed b \<Longrightarrow> composed (with_delivery_config dc b)"
| c_drain: "composed b \<Longrightarrow> composed (with_effect_drain_deadline d b)"

lemmas registration_defs =
  with_profile_def with_lifecycle_component_def with_security_def with_logger_def with_adapter_def with_config_def
  with_injectable_def with_tenant_enforcement_mode_def with_idempotency_enforcement_mode_def with_retention_policy_def
  with_effect_retention_store_def with_effect_store_def with_read_side_progress_def with_read_side_claim_store_def
  with_effect_retention_policy_def with_effect_retention_clock_def with_operation_reservation_store_def
  with_reservation_clock_def with_reservation_owner_id_def with_reservation_lease_duration_def with_observability_def
  with_tracer_def with_tracer_lifecycle_def with_provider_access_config_def with_delivery_config_def
  with_effect_drain_deadline_def

lemma with_projection_Ok:
  "with_projection t a b = Ok b' \<longleftrightarrow>
     rb_projections b (ty_id t) = None \<and> b' = b\<lparr>rb_projections := (rb_projections b)(ty_id t \<mapsto> a)\<rparr>"
  by (auto simp: with_projection_def)

lemma with_entity_Ok:
  "with_entity t a b = Ok b' \<longleftrightarrow>
     rb_entities b (ty_id t) = None \<and> b' = b\<lparr>rb_entities := (rb_entities b)(ty_id t \<mapsto> a)\<rparr>"
  by (auto simp: with_entity_def)

lemma with_service_Ok:
  "with_service t v a b = Ok b' \<Longrightarrow>
     b' = b\<lparr>rb_registry := snd (ServiceRegistry_register (\<lambda>_. ty_name t) (ty_id t) v a (rb_registry b))\<rparr>"
  by (auto simp: with_service_def split: prod.splits sum.splits)

lemma register_effect_executor_Ok:
  "register_effect_executor ns a b = Ok b' \<Longrightarrow> \<exists>ex. b' = b\<lparr>rb_effect_executors := ex\<rparr>"
proof (induction ns a b rule: register_effect_executor.induct)
  case (1 executor b)
  then show ?case by (intro exI [of _ "rb_effect_executors b"]) simp
next
  case (2 ty tys executor b)
  then show ?case by (auto split: prod.splits sum.splits)
qed

lemma register_data_provider_Ok:
  "register_data_provider n a b = Ok b' \<longleftrightarrow>
     rb_data_provider_registry b n = None \<and>
     b' = b\<lparr>rb_data_provider_registry := (rb_data_provider_registry b)(n \<mapsto> a),
            rb_data_providers_for_teardown :=
              (if a \<in> set (rb_data_providers_for_teardown b) then rb_data_providers_for_teardown b
               else rb_data_providers_for_teardown b @ [a]),
            rb_provider_health_pairs := rb_provider_health_pairs b @ [(n, a)]\<rparr>"
  by (auto simp: register_data_provider_def DataProviderRegistry_register_def)

lemmas registration_Ok = with_projection_Ok with_entity_Ok register_data_provider_Ok

text \<open>What every composed builder satisfies.\<close>

definition builder_inv :: "RuntimeBuilder \<Rightarrow> bool" where
  "builder_inv b \<longleftrightarrow>
     rb_effect_state_store b = rb_effect_dedup_store b \<and>
     distinct (rb_data_providers_for_teardown b) \<and>
     set (rb_data_providers_for_teardown b) = snd ` set (rb_provider_health_pairs b) \<and>
     distinct (map fst (rb_provider_health_pairs b)) \<and>
     map_of (rb_provider_health_pairs b) = rb_data_provider_registry b \<and>
     registry_inv (rb_registry b)"

lemma composed_inv: "composed b \<Longrightarrow> builder_inv b"
proof (induction rule: composed.induct)
  case c_new
  then show ?case
    by (simp add: builder_inv_def RuntimeBuilder_new_def registry_inv_def ServiceRegistry_new_def entry_or_default_def)
next
  case (c_service b t v a b')
  have "registry_inv (rb_registry b)" using c_service.IH by (simp add: builder_inv_def)
  then show ?case
    using c_service.IH with_service_Ok [OF c_service.hyps(2)] by (simp add: builder_inv_def register_inv)
next
  case (c_executor b ns a b')
  obtain ex where "b' = b\<lparr>rb_effect_executors := ex\<rparr>"
    using register_effect_executor_Ok [OF c_executor.hyps(2)] by blast
  then show ?case using c_executor.IH by (simp add: builder_inv_def)
next
  case (c_provider b n a b')
  then have free: "map_of (rb_provider_health_pairs b) n = None" by (simp add: builder_inv_def registration_Ok)
  then have "n \<notin> fst ` set (rb_provider_health_pairs b)" by (simp add: map_of_eq_None_iff)
  moreover have "map_of (rb_provider_health_pairs b @ [(n, a)]) = (map_of (rb_provider_health_pairs b))(n \<mapsto> a)"
    using free by (auto simp: map_add_def fun_eq_iff split: option.splits)
  ultimately show ?case using c_provider by (auto simp: builder_inv_def registration_Ok)
qed (simp_all add: builder_inv_def registration_defs registration_Ok)

text \<open>So the condition of the \<open>debug_assert\<close> always holds.\<close>

lemma effect_stores_registered_together:
  "composed b \<Longrightarrow> (rb_effect_state_store b \<noteq> None) = (rb_effect_dedup_store b \<noteq> None)"
  using composed_inv by (simp add: builder_inv_def)

section \<open>What validation accepts\<close>

lemma try_then_Ok [simp]: "try_then r k = Ok v \<longleftrightarrow> (\<exists>u. r = Ok u) \<and> k = Ok v"
  by (cases r) (auto simp: try_then_def)

lemma refuse_Ok [simp]: "refuse (require_durably_configured p d c f) = Ok u \<longleftrightarrow> p = Dev \<or> d"
  by (cases p) (auto simp: refuse_def require_durably_configured_def)

lemma validate_progress_pairs_Ok:
  "validate_progress_pairs co p pairs = Ok u \<longleftrightarrow>
     p = Dev \<or> list_all (\<lambda>(_, (off, ded)). co_durable co off \<and> co_durable co ded) pairs"
  by (induction pairs) auto

lemma validate_persistence_iff:
  "validate_persistence_profile co b = Ok u \<longleftrightarrow>
     rb_profile b = Dev \<or>
     (ExecutorRegistry_is_empty (rb_effect_executors b) \<or> (\<exists>s. rb_effect_state_store b = Some s \<and> co_durable co s)) \<and>
     list_all (\<lambda>(_, (off, ded)). co_durable co off \<and> co_durable co ded) (rb_read_side_progress b) \<and>
     (rb_read_side_progress b = [] \<or> (\<exists>c. rb_read_side_claims b = Some c \<and> co_durable co c)) \<and>
     (\<forall>s. rb_reservation_store b = Some s \<longrightarrow> co_durable co s)"
  by (auto simp: validate_persistence_profile_def validate_effect_store_profile_def
      validate_read_side_progress_profile_def validate_read_side_claim_profile_def
      validate_operation_reservation_profile_def validate_progress_pairs_Ok split: option.splits)

lemma try_build_Ok:
  assumes "RuntimeBuilder_try_build co minted b = Some (Ok rt)"
  shows "validate_idempotency b = Ok ()" "validate_persistence_profile co b = Ok ()"
    and "RuntimeBuilder_build co minted (b\<lparr>rb_validators := []\<rparr>) = Some rt"
    and "run_validators (rb_validators b) rt = Ok ()"
  using assms by (auto simp: RuntimeBuilder_try_build_def try_then_def split: sum.splits option.splits)

lemma build_Some:
  "RuntimeBuilder_build co minted b = Some rt \<longleftrightarrow>
     validate_idempotency b = Ok () \<and> validate_persistence_profile co b = Ok () \<and>
     (\<exists>reservation. reservation_wiring_of minted b = Some reservation \<and>
        (rb_retention_policy b = None \<or> reservation \<noteq> None) \<and>
        (rb_effect_retention_policy b = None \<or> rb_effect_retention_store b \<noteq> None) \<and>
        rt = assemble_runtime co reservation b)"
proof (cases "try_then (validate_idempotency b) (validate_persistence_profile co b)")
  case (Inl e)
  then have "\<not> (validate_idempotency b = Ok () \<and> validate_persistence_profile co b = Ok ())"
    by (auto simp: try_then_def)
  then show ?thesis using Inl by (auto simp: RuntimeBuilder_build_def)
next
  case (Inr u)
  then have "validate_idempotency b = Ok ()" "validate_persistence_profile co b = Ok ()" by simp_all
  then show ?thesis by (auto simp: RuntimeBuilder_build_def try_then_def split: option.splits if_splits)
qed

lemma effect_wiring_of_Some:
  assumes "builder_inv b" "effect_wiring_of b = Some w"
  shows "\<not> ExecutorRegistry_is_empty (rb_effect_executors b)"
    and "rb_effect_state_store b = Some s \<Longrightarrow> ew_state_store w = RegisteredEffectStore s \<and> ew_dedup_store w = RegisteredEffectStore s"
proof -
  show "\<not> ExecutorRegistry_is_empty (rb_effect_executors b)"
    using assms(2) by (auto simp: effect_wiring_of_def)
  have "rb_effect_dedup_store b = rb_effect_state_store b" using assms(1) by (simp add: builder_inv_def)
  then show "rb_effect_state_store b = Some s \<Longrightarrow> ew_state_store w = RegisteredEffectStore s \<and> ew_dedup_store w = RegisteredEffectStore s"
    using assms(2) by (auto simp: effect_wiring_of_def split: if_splits)
qed

section \<open>Properties\<close>


definition ex_builder :: RuntimeBuilder where
  "ex_builder = with_profile Production (with_operation_reservation_store 3 RuntimeBuilder_new)"

definition ex_components :: components where
  "ex_components =
     \<lparr>co_durable = (\<lambda>a. a = 3), co_health_contributors = (\<lambda>_. []),
      co_contributor = (\<lambda>a. ProviderHealthContributor ''c'' ProviderHealthy),
      co_provider_health = (\<lambda>_. ProviderHealthy), co_probe = (\<lambda>_. Ok ())\<rparr>"

lemma ex_builder_fields:
  "rb_profile ex_builder = Production" "rb_reservation_store ex_builder = Some 3" "rb_validators ex_builder = []"
  "rb_effect_executors ex_builder = ExecutorRegistry_new" "rb_read_side_progress ex_builder = []"
  "rb_reservation_clock ex_builder = None" "rb_reservation_owner_id ex_builder = None"
  "rb_reservation_lease_duration ex_builder = from_secs 30"
  "rb_effect_retention_policy ex_builder = None"
  by (simp_all add: ex_builder_def with_profile_def with_operation_reservation_store_def RuntimeBuilder_new_def)

definition ex_wiring :: reservation_wiring where
  "ex_wiring = \<lparr>rw_store = 3, rw_clock = SystemClock, rw_owner_id = OwnerId ''o'', rw_lease_duration = from_secs 30\<rparr>"

text \<open>The example builds, whatever services and logger it holds.\<close>

lemma ex_builder_builds:
  fixes reg :: "(nat, arc) service_registry" and logger :: "arc option"
  defines "b \<equiv> ex_builder\<lparr>rb_registry := reg, rb_logger := logger\<rparr>"
  shows "RuntimeBuilder_build ex_components (OwnerId ''o'') b = Some (assemble_runtime ex_components (Some ex_wiring) b)"
    and "RuntimeBuilder_try_build ex_components (OwnerId ''o'') b = Some (Ok (assemble_runtime ex_components (Some ex_wiring) b))"
proof -
  note fields = b_def ex_builder_fields
  have v: "validate_idempotency b = Ok ()" "validate_persistence_profile ex_components b = Ok ()"
    by (simp_all add: validate_idempotency_def validate_persistence_iff fields ExecutorRegistry_is_empty_def
        ExecutorRegistry_new_def ex_components_def)
  have "reservation_wiring_of (OwnerId ''o'') b = Some (Some ex_wiring)"
    by (simp add: reservation_wiring_of_def fields injected_or_system_def from_secs_def ex_wiring_def)
  with v show build: "RuntimeBuilder_build ex_components (OwnerId ''o'') b = Some (assemble_runtime ex_components (Some ex_wiring) b)"
    by (simp add: build_Some fields)
  have none: "b\<lparr>rb_validators := []\<rparr> = b" "rb_validators b = []"
    by (simp_all add: b_def ex_builder_def with_profile_def with_operation_reservation_store_def RuntimeBuilder_new_def)
  show "RuntimeBuilder_try_build ex_components (OwnerId ''o'') b = Some (Ok (assemble_runtime ex_components (Some ex_wiring) b))"
    unfolding RuntimeBuilder_try_build_def none v build by (simp add: try_then_def)
qed

lemma ex_builder_composed: "composed ex_builder"
  unfolding ex_builder_def by (rule c_profile c_reservation_store c_new)+


end
