(* ===== verification/Ego_Runtime_Lifecycle.thy ===== *)
theory Ego_Runtime_Lifecycle
  imports Ego_Runtime_Builder "HOL-Library.Multiset"
begin

text \<open>
  The life of a built runtime (\<open>crates/service-sdk/src/runtime/builder.rs\<close>, \<open>logger.rs\<close>,
  \<open>retention.rs\<close>): starting the effect subsystem and the two retention workers, registering teardown
  hooks, and shutting down.

  What the world answers during one shutdown is the record \<open>teardown_env\<close>: whether a provider, the tracer
  or a host's hook panics, what draining the effects and stopping the workers came to. What is done to
  the outside is a list of actions. A hook that panics and is not caught unwinds \<open>shutdown_async\<close>, which is
  \<open>None\<close> in place of its result.
\<close>

section \<open>Starting\<close>

definition register_async_teardown :: "teardown_hook \<Rightarrow> Runtime \<Rightarrow> Runtime" where
  "register_async_teardown hook rt = rt\<lparr>rt_async_teardown := rt_async_teardown rt @ [hook]\<rparr>"

definition start_effects :: "Runtime \<Rightarrow> Runtime" where
  "start_effects rt =
     (if rt_effect_acceptor rt = None then rt
      else if rt_effect_started rt then rt
      else register_async_teardown (EffectsHook (rt_effect_drain_deadline rt)) (rt\<lparr>rt_effect_started := True\<rparr>))"

definition effect_acceptor :: "Runtime \<Rightarrow> effect_wiring option" where
  "effect_acceptor rt = (if \<not> rt_effect_started rt then None else rt_effect_acceptor rt)"

text \<open>\<open>interval.saturating_mul(2).max(Duration::from_secs(1))\<close>.\<close>

definition stop_deadline :: "duration \<Rightarrow> duration" where
  "stop_deadline interval = max (saturating_mul interval 2) (from_secs 1)"

text \<open>\<open>None\<close> is the panic of \<open>expect\<close>; \<open>retention_can_start\<close> shows that a built runtime never gets there.\<close>

definition start_retention :: "Runtime \<Rightarrow> Runtime option" where
  "start_retention rt =
     (case rt_retention_policy rt of
        None \<Rightarrow> Some rt
      | Some policy \<Rightarrow>
          if rt_retention_started rt then Some rt
          else (case rt_reservation rt of
                  None \<Rightarrow> None
                | Some _ \<Rightarrow>
                    Some (register_async_teardown (RetentionHook (stop_deadline (rp_interval policy)))
                            (rt\<lparr>rt_retention_started := True\<rparr>))))"

definition start_retention_effects :: "Runtime \<Rightarrow> Runtime option" where
  "start_retention_effects rt =
     (case rt_effect_retention_policy rt of
        None \<Rightarrow> Some rt
      | Some policy \<Rightarrow>
          if rt_effect_retention_started rt then Some rt
          else (case rt_effect_retention_store rt of
                  None \<Rightarrow> None
                | Some _ \<Rightarrow>
                    Some (register_async_teardown (EffectRetentionHook (stop_deadline (erp_interval policy)))
                            (rt\<lparr>rt_effect_retention_started := True\<rparr>))))"

section \<open>Hooks\<close>

datatype hook_result = HookReturned "(unit, RuntimeInfraError) result" | HookPanicked

record teardown_env =
  te_logger_error :: "arc \<Rightarrow> string option"
  te_provider_panics :: "arc \<Rightarrow> bool"
  te_tracer_panics :: "arc \<Rightarrow> bool"
  te_drain_error :: "string option"
  te_stop_panics :: bool
  te_retention_task :: task_state
  te_effect_retention_task :: task_state
  te_host_hook :: "nat \<Rightarrow> hook_result"

datatype teardown_action =
  ProviderShutDown arc
| TracerShutDown arc
| EffectsDrained
| RetentionWorkerStopped
| EffectRetentionWorkerStopped
| HostHookRan nat
| LoggerShutDown arc

fun retention_shutdown_result :: "RetentionShutdown \<Rightarrow> (unit, RuntimeInfraError) result" where
  "retention_shutdown_result Stopped = Ok ()"
| "retention_shutdown_result Panicked = Err (TeardownError ''the retention worker panicked'')"
| "retention_shutdown_result TimedOut = Err (TeardownError ''the retention worker did not stop within its deadline'')"

fun effect_retention_shutdown_result :: "EffectRetentionShutdown \<Rightarrow> (unit, RuntimeInfraError) result" where
  "effect_retention_shutdown_result EffectStopped = Ok ()"
| "effect_retention_shutdown_result EffectPanicked = Err (TeardownError ''the effect retention worker panicked'')"
| "effect_retention_shutdown_result EffectTimedOut =
     Err (TeardownError ''the effect retention worker did not stop within its deadline'')"

fun run_hook :: "teardown_env \<Rightarrow> teardown_hook \<Rightarrow> hook_result" where
  "run_hook env (ProvidersHook providers) =
     HookReturned (if list_ex (te_provider_panics env) providers
                   then Err (TeardownError ''a data provider panicked during shutdown'') else Ok ())"
| "run_hook env (TracerHook lifecycle) = (if te_tracer_panics env lifecycle then HookPanicked else HookReturned (Ok ()))"
| "run_hook env (EffectsHook deadline) =
     HookReturned (case te_drain_error env of
       None \<Rightarrow> Ok ()
     | Some err \<Rightarrow> Err (TeardownError
         (''external-effects drain deadline reached before shutdown completed cleanly (drain_incomplete): '' @ err)))"
| "run_hook env (RetentionHook deadline) =
     HookReturned (if te_stop_panics env then Err (TeardownError ''the retention teardown hook panicked'')
                   else retention_shutdown_result (RetentionWorker_stop (te_retention_task env)))"
| "run_hook env (EffectRetentionHook deadline) =
     HookReturned (if te_stop_panics env then Err (TeardownError ''the effect retention teardown hook panicked'')
                   else effect_retention_shutdown_result (EffectRetentionWorker_stop (te_effect_retention_task env)))"
| "run_hook env (HostHook h) = te_host_hook env h"

fun hook_actions :: "teardown_hook \<Rightarrow> teardown_action list" where
  "hook_actions (ProvidersHook providers) = map ProviderShutDown providers"
| "hook_actions (TracerHook lifecycle) = [TracerShutDown lifecycle]"
| "hook_actions (EffectsHook _) = [EffectsDrained]"
| "hook_actions (RetentionHook _) = [RetentionWorkerStopped]"
| "hook_actions (EffectRetentionHook _) = [EffectRetentionWorkerStopped]"
| "hook_actions (HostHook h) = [HostHookRan h]"

section \<open>Shutting down\<close>

text \<open>\<open>TeardownStack::drain\<close>: the last entry first, the first error kept.\<close>

fun TeardownStack_drain :: "teardown_env \<Rightarrow> arc list \<Rightarrow> RuntimeInfraError option \<Rightarrow> (unit, RuntimeInfraError) result" where
  "TeardownStack_drain env [] first_err = (case first_err of None \<Rightarrow> Ok () | Some e \<Rightarrow> Err e)"
| "TeardownStack_drain env (l # popped) first_err =
     TeardownStack_drain env popped
       (case te_logger_error env l of
          None \<Rightarrow> first_err
        | Some e \<Rightarrow> (case first_err of None \<Rightarrow> Some (TeardownError e) | Some f \<Rightarrow> Some f))"

definition Runtime_shutdown :: "teardown_env \<Rightarrow> Runtime \<Rightarrow> (unit, RuntimeInfraError) result \<times> teardown_action list \<times> Runtime" where
  "Runtime_shutdown env rt =
     (TeardownStack_drain env (rev (rt_teardown rt)) None, map LoggerShutDown (rev (rt_teardown rt)), rt\<lparr>rt_teardown := []\<rparr>)"

text \<open>The loop over the taken hooks; \<open>None\<close> when one unwinds, with what was done until then.\<close>

fun run_hooks ::
  "teardown_env \<Rightarrow> teardown_hook list \<Rightarrow> RuntimeInfraError option \<Rightarrow> RuntimeInfraError option option \<times> teardown_action list" where
  "run_hooks env [] first_hook_err = (Some first_hook_err, [])"
| "run_hooks env (hook # hooks) first_hook_err =
     (case run_hook env hook of
        HookPanicked \<Rightarrow> (None, hook_actions hook)
      | HookReturned r \<Rightarrow>
          (let first' = (case r of
                           Inl e \<Rightarrow> if first_hook_err = None then Some e else first_hook_err
                         | Inr _ \<Rightarrow> first_hook_err)
           in case run_hooks env hooks first' of (outcome, actions) \<Rightarrow> (outcome, hook_actions hook @ actions)))"

definition shutdown_async ::
  "teardown_env \<Rightarrow> Runtime \<Rightarrow> (unit, RuntimeInfraError) result option \<times> teardown_action list \<times> Runtime" where
  "shutdown_async env rt =
     (let hooks = rt_async_teardown rt; rt1 = rt\<lparr>rt_async_teardown := []\<rparr> in
      case run_hooks env hooks None of
        (None, actions) \<Rightarrow> (None, actions, rt1)
      | (Some first_hook_err, actions) \<Rightarrow>
          (case Runtime_shutdown env rt1 of
             (sync_result, logger_actions, rt2) \<Rightarrow>
               (Some (case first_hook_err of Some e \<Rightarrow> Err e | None \<Rightarrow> sync_result), actions @ logger_actions, rt2)))"

section \<open>Histories\<close>

datatype lifecycle_op =
  StartEffects
| StartRetention
| StartEffectRetention
| RegisterHook nat
| SyncShutdown teardown_env
| AsyncShutdown teardown_env

fun lifecycle_step :: "lifecycle_op \<Rightarrow> Runtime \<Rightarrow> teardown_action list \<times> Runtime" where
  "lifecycle_step StartEffects rt = ([], start_effects rt)"
| "lifecycle_step StartRetention rt = ([], case start_retention rt of None \<Rightarrow> rt | Some rt' \<Rightarrow> rt')"
| "lifecycle_step StartEffectRetention rt = ([], case start_retention_effects rt of None \<Rightarrow> rt | Some rt' \<Rightarrow> rt')"
| "lifecycle_step (RegisterHook h) rt = ([], register_async_teardown (HostHook h) rt)"
| "lifecycle_step (SyncShutdown env) rt = snd (Runtime_shutdown env rt)"
| "lifecycle_step (AsyncShutdown env) rt = snd (shutdown_async env rt)"

fun lifecycle :: "lifecycle_op list \<Rightarrow> Runtime \<Rightarrow> teardown_action list \<times> Runtime" where
  "lifecycle [] rt = ([], rt)"
| "lifecycle (op # ops) rt =
     (case lifecycle_step op rt of
        (actions, rt') \<Rightarrow> (case lifecycle ops rt' of (actions', rt'') \<Rightarrow> (actions @ actions', rt'')))"

section \<open>Lemmas\<close>

subsection \<open>Starting is safe and happens once\<close>

lemma retention_can_start:
  assumes "RuntimeBuilder_build co minted b = Some rt"
  shows "start_retention rt \<noteq> None" "start_retention_effects rt \<noteq> None"
  using assms by (auto simp: build_Some start_retention_def start_retention_effects_def assemble_runtime_def split: option.splits)

lemma start_effects_idempotent: "start_effects (start_effects rt) = start_effects rt"
  by (simp add: start_effects_def register_async_teardown_def)

lemma start_retention_idempotent: "start_retention rt = Some rt' \<Longrightarrow> start_retention rt' = Some rt'"
  by (auto simp: start_retention_def register_async_teardown_def split: option.splits if_splits)

lemma no_acceptor_before_start: "effect_acceptor rt = Some w \<Longrightarrow> rt_effect_started rt"
  by (simp add: effect_acceptor_def split: if_splits)

subsection \<open>Running the hooks\<close>

definition hook_error :: "teardown_env \<Rightarrow> teardown_hook \<Rightarrow> RuntimeInfraError option" where
  "hook_error env hook = (case run_hook env hook of HookReturned (Inl e) \<Rightarrow> Some e | _ \<Rightarrow> None)"

definition first_of :: "'a list \<Rightarrow> 'a option" where
  "first_of xs = (case xs of [] \<Rightarrow> None | x # _ \<Rightarrow> Some x)"

lemma run_hooks_complete:
  assumes "\<forall>hook \<in> set hooks. run_hook env hook \<noteq> HookPanicked"
  shows "run_hooks env hooks first =
     (Some (case first of Some e \<Rightarrow> Some e | None \<Rightarrow> first_of (List.map_filter (hook_error env) hooks)),
      concat (map hook_actions hooks))"
  using assms
proof (induction hooks arbitrary: first)
  case (Cons hook hooks)
  then obtain r where r: "run_hook env hook = HookReturned r" by (metis hook_result.exhaust list.set_intros(1))
  have rest: "\<forall>hook \<in> set hooks. run_hook env hook \<noteq> HookPanicked" using Cons.prems by simp
  show ?case
    using r Cons.IH [OF rest]
    by (cases r; cases first) (simp_all add: hook_error_def first_of_def map_filter_simps)
qed (simp add: first_of_def map_filter_simps split: option.splits)

lemma run_hooks_unwinds:
  assumes "\<forall>hook \<in> set pre. run_hook env hook \<noteq> HookPanicked" "run_hook env hook = HookPanicked"
  shows "run_hooks env (pre @ hook # post) first = (None, concat (map hook_actions pre) @ hook_actions hook)"
  using assms(1)
proof (induction pre arbitrary: first)
  case (Cons h pre)
  then obtain r where "run_hook env h = HookReturned r" by (metis hook_result.exhaust list.set_intros(1))
  then show ?case using Cons by (simp add: Let_def)
qed (simp add: assms(2))

lemma drain_result:
  "TeardownStack_drain env ls first =
     (case first of Some e \<Rightarrow> Err e
      | None \<Rightarrow> (case first_of (List.map_filter (te_logger_error env) ls) of None \<Rightarrow> Ok () | Some e \<Rightarrow> Err (TeardownError e)))"
  by (induction ls arbitrary: first) (auto simp: first_of_def map_filter_simps split: option.splits)

text \<open>A hook whose panic is not caught ends the shutdown: the hooks registered after it and the loggers are not
  reached, and since the hooks have been taken no later shutdown reaches them either.\<close>

lemma panicking_hook_drops_the_rest:
  assumes "rt_async_teardown rt = pre @ hook # post"
    and "\<forall>h \<in> set pre. run_hook env h \<noteq> HookPanicked" "run_hook env hook = HookPanicked"
  shows "shutdown_async env rt = (None, concat (map hook_actions pre) @ hook_actions hook, rt\<lparr>rt_async_teardown := []\<rparr>)"
    and "fst (snd (shutdown_async env' (rt\<lparr>rt_async_teardown := []\<rparr>))) = map LoggerShutDown (rev (rt_teardown rt))"
  using assms by (simp_all add: shutdown_async_def run_hooks_unwinds Runtime_shutdown_def)

subsection \<open>Nothing is torn down twice\<close>

fun is_resource :: "teardown_action \<Rightarrow> bool" where
  "is_resource (HostHookRan _) = False"
| "is_resource _ = True"

text \<open>The actions a runtime may still perform on its resources.\<close>

definition teardown_credit :: "Runtime \<Rightarrow> teardown_action multiset" where
  "teardown_credit rt =
     mset (filter is_resource (concat (map hook_actions (rt_async_teardown rt)))) +
     mset (map LoggerShutDown (rt_teardown rt)) +
     (if rt_effect_started rt then {#} else {#EffectsDrained#}) +
     (if rt_retention_started rt then {#} else {#RetentionWorkerStopped#}) +
     (if rt_effect_retention_started rt then {#} else {#EffectRetentionWorkerStopped#})"

lemma run_hooks_actions: "mset (snd (run_hooks env hooks first)) \<subseteq># mset (concat (map hook_actions hooks))"
proof (induction hooks arbitrary: first)
  case (Cons hook hooks)
  show ?case
  proof (cases "run_hook env hook")
    case (HookReturned r)
    then show ?thesis
      using Cons.IH by (auto simp: Let_def split: prod.splits sum.splits) (metis snd_conv)+
  qed (use Cons in simp)
qed simp

lemma filter_loggers [simp]: "filter is_resource (map LoggerShutDown ls) = map LoggerShutDown ls"
  by (induction ls) simp_all

lemma step_spends_credit:
  "mset (filter is_resource (fst (lifecycle_step op rt))) + teardown_credit (snd (lifecycle_step op rt)) \<subseteq># teardown_credit rt"
proof (cases op)
  case (AsyncShutdown env)
  let ?hooks = "rt_async_teardown rt"
  obtain outcome actions where run: "run_hooks env ?hooks None = (outcome, actions)" by fastforce
  have "mset actions \<subseteq># mset (concat (map hook_actions ?hooks))" using run_hooks_actions [of env ?hooks None] run by simp
  from multiset_filter_mono [OF this, of is_resource] show ?thesis
    using run AsyncShutdown
    by (cases outcome) (auto simp: shutdown_async_def Runtime_shutdown_def teardown_credit_def Let_def)
qed (simp_all add: start_effects_def start_retention_def start_retention_effects_def register_async_teardown_def
    Runtime_shutdown_def teardown_credit_def split: option.splits)

lemma lifecycle_spends_credit:
  "mset (filter is_resource (fst (lifecycle ops rt))) \<subseteq># teardown_credit rt"
proof (induction ops arbitrary: rt)
  case (Cons op ops)
  obtain actions rt' where s: "lifecycle_step op rt = (actions, rt')" by fastforce
  obtain actions' rt'' where l: "lifecycle ops rt' = (actions', rt'')" by fastforce
  have "mset (filter is_resource actions) + mset (filter is_resource actions') \<subseteq>#
      mset (filter is_resource actions) + teardown_credit rt'"
    using Cons.IH [of rt'] l by simp
  also have "\<dots> \<subseteq># teardown_credit rt" using step_spends_credit [of op rt] s by simp
  finally show ?case using s l by simp
qed simp

lemma built_credit:
  assumes "composed b" "RuntimeBuilder_build co minted b = Some rt"
  shows "count (teardown_credit rt) a \<le> 1"
proof -
  let ?ps = "map ProviderShutDown (rb_data_providers_for_teardown b)"
  let ?tracer = "case rb_tracer_lifecycle b of None \<Rightarrow> [] | Some l \<Rightarrow> [TracerShutDown l]"
  let ?logger = "case rb_logger b of None \<Rightarrow> [] | Some l \<Rightarrow> [LoggerShutDown l]"
  have "concat (map hook_actions (initial_hooks b)) = ?ps @ ?tracer"
    by (simp add: initial_hooks_def split: option.split)
  moreover have "filter is_resource ?ps = ?ps" "filter is_resource ?tracer = ?tracer"
    by (simp add: filter_map comp_def) (simp split: option.split)
  ultimately have "filter is_resource (concat (map hook_actions (initial_hooks b))) = ?ps @ ?tracer" by simp
  moreover obtain r where "rt = assemble_runtime co r b" using assms(2) by (auto simp: build_Some)
  then have "rt_async_teardown rt = initial_hooks b" "map LoggerShutDown (rt_teardown rt) = ?logger"
    "\<not> rt_effect_started rt" "\<not> rt_retention_started rt" "\<not> rt_effect_retention_started rt"
    by (simp_all add: assemble_runtime_def split: option.split)
  ultimately have "teardown_credit rt =
      mset (?ps @ ?tracer @ ?logger @ [EffectsDrained, RetentionWorkerStopped, EffectRetentionWorkerStopped])"
    by (simp add: teardown_credit_def)
  moreover have "distinct (?ps @ ?tracer @ ?logger @ [EffectsDrained, RetentionWorkerStopped, EffectRetentionWorkerStopped])"
    using composed_inv [OF assms(1)] by (auto simp: builder_inv_def distinct_map inj_on_def split: option.split)
  ultimately show ?thesis by (metis distinct_count_atmost_1 le_numeral_extra(4) zero_le)
qed

section \<open>Properties\<close>

text \<open>Shutting down is complete. Unless a hook's panic escapes, \<open>shutdown_async\<close> runs every registered hook, the
  ones after a failed one too, exactly once and in the order of registration, then shuts the loggers down
  in reverse order; it returns the first hook's error if any failed, else the first logger's, else \<open>Ok\<close>. It leaves
  nothing behind: a second shutdown does nothing and returns \<open>Ok\<close>.\<close>

theorem shutdown_runs_every_hook:
  assumes "\<forall>hook \<in> set (rt_async_teardown rt). run_hook env hook \<noteq> HookPanicked"
  defines "rt' \<equiv> rt\<lparr>rt_async_teardown := [], rt_teardown := []\<rparr>"
  shows "shutdown_async env rt =
      (Some (case List.map_filter (hook_error env) (rt_async_teardown rt) of
               e # _ \<Rightarrow> Err e
             | [] \<Rightarrow> (case List.map_filter (te_logger_error env) (rev (rt_teardown rt)) of
                       e # _ \<Rightarrow> Err (TeardownError e)
                     | [] \<Rightarrow> Ok ())),
       concat (map hook_actions (rt_async_teardown rt)) @ map LoggerShutDown (rev (rt_teardown rt)), rt') \<and>
     shutdown_async env' rt' = (Some (Ok ()), [], rt')"
  using run_hooks_complete [OF assms(1)]
  by (auto simp: shutdown_async_def Runtime_shutdown_def drain_result first_of_def rt'_def Let_def map_filter_simps
      split: list.splits)

definition ex_env :: teardown_env where
  "ex_env = \<lparr>te_logger_error = (\<lambda>_. Some ''closed''), te_provider_panics = (\<lambda>p. p = 5), te_tracer_panics = (\<lambda>_. False),
     te_drain_error = None, te_stop_panics = False, te_retention_task = TaskRunning, te_effect_retention_task = TaskDone,
     te_host_hook = (\<lambda>_. HookReturned (Ok ()))\<rparr>"

definition ex_runtime :: Runtime where
  "ex_runtime = (assemble_runtime ex_components None RuntimeBuilder_new)
     \<lparr>rt_async_teardown := [ProvidersHook [5, 6], RetentionHook 9, HostHook 1], rt_teardown := [8]\<rparr>"

theorem shutdown_runs_every_hook_witness:
  "fst (shutdown_async ex_env ex_runtime) = Some (Err (TeardownError ''a data provider panicked during shutdown'')) \<and>
   fst (snd (shutdown_async ex_env ex_runtime)) =
     [ProviderShutDown 5, ProviderShutDown 6, RetentionWorkerStopped, HostHookRan 1, LoggerShutDown 8]"
  using shutdown_runs_every_hook [of ex_runtime ex_env ex_env]
  by (simp add: ex_runtime_def ex_env_def hook_error_def map_filter_simps)

text \<open>C20: every resource has a single owner. However a composed runtime is started, how often and in what order
  its subsystems are started, hooks registered and both kinds of shutdown called, and whatever fails or panics
  meanwhile, each data provider, even one registered under several ids, the tracer, the logger, the effect
  runner and each retention worker is torn down at most once.\<close>

theorem every_resource_torn_down_once:
  assumes "composed b" "RuntimeBuilder_build co minted b = Some rt" "is_resource a"
  shows "count_list (fst (lifecycle ops rt)) a \<le> 1"
proof -
  have "count_list (fst (lifecycle ops rt)) a = count (mset (filter is_resource (fst (lifecycle ops rt)))) a"
    using assms(3) by (simp add: count_mset)
  also have "\<dots> \<le> count (teardown_credit rt) a" using lifecycle_spends_credit by (rule mset_subset_eq_count)
  also have "\<dots> \<le> 1" by (rule built_credit [OF assms(1,2)])
  finally show ?thesis .
qed

theorem every_resource_torn_down_once_witness:
  "count_list (fst (lifecycle [AsyncShutdown ex_env, StartEffects, SyncShutdown ex_env]
     (assemble_runtime ex_components (Some ex_wiring) (with_logger 8 ex_builder)))) (LoggerShutDown 8) \<le> 1 \<and>
   LoggerShutDown 8 \<in> set (fst (lifecycle [AsyncShutdown ex_env, StartEffects, SyncShutdown ex_env]
     (assemble_runtime ex_components (Some ex_wiring) (with_logger 8 ex_builder))))"
proof
  let ?b = "with_logger 8 ex_builder"
  have "RuntimeBuilder_build ex_components (OwnerId ''o'') ?b = Some (assemble_runtime ex_components (Some ex_wiring) ?b)"
    using ex_builder_builds(1) [where reg = "rb_registry ex_builder" and logger = "Some 8"] by (simp add: with_logger_def)
  then show "count_list (fst (lifecycle [AsyncShutdown ex_env, StartEffects, SyncShutdown ex_env]
      (assemble_runtime ex_components (Some ex_wiring) ?b))) (LoggerShutDown 8) \<le> 1"
    by (rule every_resource_torn_down_once [OF c_logger [OF ex_builder_composed]]) simp
  show "LoggerShutDown 8 \<in> set (fst (lifecycle [AsyncShutdown ex_env, StartEffects, SyncShutdown ex_env]
      (assemble_runtime ex_components (Some ex_wiring) ?b)))"
    by (simp add: shutdown_async_def Runtime_shutdown_def assemble_runtime_def with_logger_def initial_hooks_def
        ex_builder_def with_profile_def with_operation_reservation_store_def RuntimeBuilder_new_def Let_def)
qed

end
