(* ===== verification/Ego_App.thy ===== *)
theory Ego_App
  imports Ego_Runtime_Lifecycle
begin

text \<open>
  The application composition root (\<open>crates/service-sdk/src/app/mod.rs\<close>, \<open>app/error.rs\<close>): \<open>AppBuilder\<close>'s
  registrations, which keep the first error and then ignore what follows, \<open>AppBuilder::build\<close> with the scratch
  runtime services are constructed from, and \<open>App::start\<close> and \<open>RunningApp::shutdown\<close>.

  A service type is its name, its \<open>Injectable::validate\<close> and its \<open>Injectable::build\<close>. The code's \<open>FnOnce\<close>
  registrars are the data they close over, run by \<open>run_registrar\<close>. \<open>start_effects\<close> returns \<open>Ok\<close> on every
  path, so the error branch of \<open>App::start\<close> has no counterpart.
\<close>

section \<open>Vocabulary\<close>

datatype CompositionError =
  DuplicateAdapter string
| DuplicateEffectStore string
| DuplicateEffectRetentionStore
| DuplicateReadSideProgress string
| DuplicateReadSideClaimStore
| ServiceFailed RegistryError
| Validation RuntimeError
| EffectExecutorFailed DuplicateEffectType
| DataProviderFailed DuplicateProviderId
| ProjectionFailed DuplicateProjection
| EntityFailed DuplicateEntity
| StartupFailed RuntimeInfraError
| ShutdownFailed RuntimeInfraError

record injectable =
  in_name :: string
  in_validate :: "Runtime \<Rightarrow> (unit, RuntimeError) result"
  in_build :: "Runtime \<Rightarrow> (arc, RuntimeError) result"

datatype service_registrar =
  ConstructedService injectable rust_type ContractVersion
| ServiceInstance rust_type ContractVersion arc

record AppBuilder =
  ab_runtime_builder :: RuntimeBuilder
  ab_adapter_types :: "nat set"
  ab_effect_store_registered :: bool
  ab_effect_retention_store_registered :: bool
  ab_read_side_progress_ids :: "string set"
  ab_read_side_claims_registered :: bool
  ab_service_registrars :: "service_registrar list"
  ab_pending_error :: "CompositionError option"

definition AppBuilder_new :: AppBuilder where
  "AppBuilder_new =
     \<lparr>ab_runtime_builder = RuntimeBuilder_new, ab_adapter_types = {}, ab_effect_store_registered = False,
      ab_effect_retention_store_registered = False, ab_read_side_progress_ids = {},
      ab_read_side_claims_registered = False, ab_service_registrars = [], ab_pending_error = None\<rparr>"

fun attribute_to :: "string \<Rightarrow> RuntimeError \<Rightarrow> RuntimeError" where
  "attribute_to s (DependencyNotFound kind type_name None) = DependencyNotFound kind type_name (Some s)"
| "attribute_to s (ServiceNotFound type_name None) = ServiceNotFound type_name (Some s)"
| "attribute_to s other = other"

section \<open>Registrations\<close>

text \<open>A delegation that cannot fail, one that can, and a recorded error.\<close>

definition delegate :: "(RuntimeBuilder \<Rightarrow> RuntimeBuilder) \<Rightarrow> AppBuilder \<Rightarrow> AppBuilder" where
  "delegate f app = app\<lparr>ab_runtime_builder := f (ab_runtime_builder app)\<rparr>"

definition try_delegate ::
  "('e \<Rightarrow> CompositionError) \<Rightarrow> (RuntimeBuilder \<Rightarrow> (RuntimeBuilder, 'e) result) \<Rightarrow> AppBuilder \<Rightarrow> AppBuilder" where
  "try_delegate wrap f app =
     (case f (ab_runtime_builder app) of
        Inr builder \<Rightarrow> app\<lparr>ab_runtime_builder := builder\<rparr>
      | Inl err \<Rightarrow> app\<lparr>ab_pending_error := Some (wrap err)\<rparr>)"

definition fail_with :: "CompositionError \<Rightarrow> AppBuilder \<Rightarrow> AppBuilder" where
  "fail_with err app = app\<lparr>ab_pending_error := Some err\<rparr>"

datatype app_op =
  OpAdapter rust_type arc
| OpReplaceAdapter rust_type arc
| OpConfig rust_type arc
| OpProjection rust_type arc
| OpEntity rust_type arc
| OpLogger arc
| OpSecurity arc arc
| OpObservability arc
| OpIdempotencyMode IdempotencyEnforcementMode
| OpProfile Profile
| OpReservationStore arc
| OpEnforcedIdempotency arc OwnerId duration arc
| OpEffectStore string arc
| OpEffectRetentionStore arc
| OpReadSideProgress string arc arc
| OpReadSideClaims arc
| OpEffectExecutor "string list" arc
| OpDataProvider string arc
| OpService injectable rust_type ContractVersion
| OpServiceInstance rust_type ContractVersion arc

fun app_adapter :: "rust_type \<Rightarrow> arc \<Rightarrow> AppBuilder \<Rightarrow> AppBuilder" where
  "app_adapter t a app =
     (if ty_id t \<in> ab_adapter_types app then fail_with (DuplicateAdapter (ty_name t)) app
      else delegate (with_adapter t a) (app\<lparr>ab_adapter_types := insert (ty_id t) (ab_adapter_types app)\<rparr>))"

fun app_replace_adapter :: "rust_type \<Rightarrow> arc \<Rightarrow> AppBuilder \<Rightarrow> AppBuilder" where
  "app_replace_adapter t a app =
     delegate (with_adapter t a) (app\<lparr>ab_adapter_types := insert (ty_id t) (ab_adapter_types app)\<rparr>)"

fun app_config :: "rust_type \<Rightarrow> arc \<Rightarrow> AppBuilder \<Rightarrow> AppBuilder" where
  "app_config t value app = delegate (with_config t value) app"

fun app_projection :: "rust_type \<Rightarrow> arc \<Rightarrow> AppBuilder \<Rightarrow> AppBuilder" where
  "app_projection t projection app = try_delegate ProjectionFailed (with_projection t projection) app"

fun app_entity :: "rust_type \<Rightarrow> arc \<Rightarrow> AppBuilder \<Rightarrow> AppBuilder" where
  "app_entity t runtime app = try_delegate EntityFailed (with_entity t runtime) app"

fun app_logger :: "arc \<Rightarrow> AppBuilder \<Rightarrow> AppBuilder" where
  "app_logger logger app = delegate (with_logger logger) app"

fun app_security :: "arc \<Rightarrow> arc \<Rightarrow> AppBuilder \<Rightarrow> AppBuilder" where
  "app_security authn authz app = delegate (with_security authn authz) app"

fun app_observability :: "arc \<Rightarrow> AppBuilder \<Rightarrow> AppBuilder" where
  "app_observability obs app = delegate (with_observability obs) app"

fun app_idempotency_enforcement_mode :: "IdempotencyEnforcementMode \<Rightarrow> AppBuilder \<Rightarrow> AppBuilder" where
  "app_idempotency_enforcement_mode mode app = delegate (with_idempotency_enforcement_mode mode) app"

fun app_profile :: "Profile \<Rightarrow> AppBuilder \<Rightarrow> AppBuilder" where
  "app_profile profile app = delegate (with_profile profile) app"

fun app_operation_reservation_store :: "arc \<Rightarrow> AppBuilder \<Rightarrow> AppBuilder" where
  "app_operation_reservation_store store app = delegate (with_operation_reservation_store store) app"

fun app_enforced_idempotency :: "arc \<Rightarrow> OwnerId \<Rightarrow> duration \<Rightarrow> arc \<Rightarrow> AppBuilder \<Rightarrow> AppBuilder" where
  "app_enforced_idempotency store owner_id lease_duration clock app =
     delegate (\<lambda>b. with_reservation_clock clock (with_reservation_lease_duration lease_duration
       (with_reservation_owner_id owner_id (with_operation_reservation_store store
         (with_idempotency_enforcement_mode MandatoryKey b))))) app"

fun app_effect_store :: "string \<Rightarrow> arc \<Rightarrow> AppBuilder \<Rightarrow> AppBuilder" where
  "app_effect_store type_name store app =
     (if ab_effect_store_registered app then fail_with (DuplicateEffectStore type_name) app
      else delegate (with_effect_store store) (app\<lparr>ab_effect_store_registered := True\<rparr>))"

fun app_effect_retention_store :: "arc \<Rightarrow> AppBuilder \<Rightarrow> AppBuilder" where
  "app_effect_retention_store store app =
     (if ab_effect_retention_store_registered app then fail_with DuplicateEffectRetentionStore app
      else delegate (with_effect_retention_store store) (app\<lparr>ab_effect_retention_store_registered := True\<rparr>))"

fun app_read_side_progress :: "string \<Rightarrow> arc \<Rightarrow> arc \<Rightarrow> AppBuilder \<Rightarrow> AppBuilder" where
  "app_read_side_progress projection_id offset_store dedup_store app =
     (if projection_id \<in> ab_read_side_progress_ids app then fail_with (DuplicateReadSideProgress projection_id) app
      else delegate (with_read_side_progress projection_id offset_store dedup_store)
             (app\<lparr>ab_read_side_progress_ids := insert projection_id (ab_read_side_progress_ids app)\<rparr>))"

fun app_read_side_claims :: "arc \<Rightarrow> AppBuilder \<Rightarrow> AppBuilder" where
  "app_read_side_claims store app =
     (if ab_read_side_claims_registered app then fail_with DuplicateReadSideClaimStore app
      else delegate (with_read_side_claim_store store) (app\<lparr>ab_read_side_claims_registered := True\<rparr>))"

fun app_effect_executor :: "string list \<Rightarrow> arc \<Rightarrow> AppBuilder \<Rightarrow> AppBuilder" where
  "app_effect_executor effect_types executor app =
     try_delegate EffectExecutorFailed (register_effect_executor effect_types executor) app"

fun app_data_provider :: "string \<Rightarrow> arc \<Rightarrow> AppBuilder \<Rightarrow> AppBuilder" where
  "app_data_provider provider_id provider app = try_delegate DataProviderFailed (register_data_provider provider_id provider) app"

fun app_service :: "service_registrar \<Rightarrow> AppBuilder \<Rightarrow> AppBuilder" where
  "app_service registrar app = app\<lparr>ab_service_registrars := ab_service_registrars app @ [registrar]\<rparr>"

text \<open>Every method begins with the check of \<open>pending_error\<close>.\<close>

fun register_op :: "app_op \<Rightarrow> AppBuilder \<Rightarrow> AppBuilder" where
  "register_op (OpAdapter t a) app = app_adapter t a app"
| "register_op (OpReplaceAdapter t a) app = app_replace_adapter t a app"
| "register_op (OpConfig t a) app = app_config t a app"
| "register_op (OpProjection t a) app = app_projection t a app"
| "register_op (OpEntity t a) app = app_entity t a app"
| "register_op (OpLogger a) app = app_logger a app"
| "register_op (OpSecurity a a') app = app_security a a' app"
| "register_op (OpObservability a) app = app_observability a app"
| "register_op (OpIdempotencyMode m) app = app_idempotency_enforcement_mode m app"
| "register_op (OpProfile p) app = app_profile p app"
| "register_op (OpReservationStore a) app = app_operation_reservation_store a app"
| "register_op (OpEnforcedIdempotency a ow d c) app = app_enforced_idempotency a ow d c app"
| "register_op (OpEffectStore n a) app = app_effect_store n a app"
| "register_op (OpEffectRetentionStore a) app = app_effect_retention_store a app"
| "register_op (OpReadSideProgress n a a') app = app_read_side_progress n a a' app"
| "register_op (OpReadSideClaims a) app = app_read_side_claims a app"
| "register_op (OpEffectExecutor ns a) app = app_effect_executor ns a app"
| "register_op (OpDataProvider n a) app = app_data_provider n a app"
| "register_op (OpService s t v) app = app_service (ConstructedService s t v) app"
| "register_op (OpServiceInstance t v a) app = app_service (ServiceInstance t v a) app"

definition app_register :: "AppBuilder \<Rightarrow> app_op \<Rightarrow> AppBuilder" where
  "app_register app op = (if ab_pending_error app \<noteq> None then app else register_op op app)"

definition compose_app :: "app_op list \<Rightarrow> AppBuilder" where
  "compose_app ops = foldl app_register AppBuilder_new ops"

section \<open>Building\<close>

fun run_registrar :: "service_registrar \<Rightarrow> Runtime \<Rightarrow> RuntimeBuilder \<Rightarrow> (RuntimeBuilder, CompositionError) result" where
  "run_registrar (ConstructedService s tag version) scratch builder =
     (case in_validate s scratch of
        Inl e \<Rightarrow> Err (Validation (attribute_to (in_name s) e))
      | Inr _ \<Rightarrow>
          (case in_build s scratch of
             Inl e \<Rightarrow> Err (Validation (attribute_to (in_name s) e))
           | Inr instance \<Rightarrow> map_sum ServiceFailed id (with_service tag version instance builder)))"
| "run_registrar (ServiceInstance tag version svc) scratch builder = map_sum ServiceFailed id (with_service tag version svc builder)"

fun run_registrars ::
  "service_registrar list \<Rightarrow> Runtime \<Rightarrow> RuntimeBuilder \<Rightarrow> (RuntimeBuilder, CompositionError) result" where
  "run_registrars [] scratch builder = Ok builder"
| "run_registrars (registrar # registrars) scratch builder =
     (case run_registrar registrar scratch builder of
        Inl e \<Rightarrow> Err e
      | Inr builder' \<Rightarrow> run_registrars registrars scratch builder')"

text \<open>\<open>None\<close> is a panic of \<open>RuntimeBuilder::build\<close>; each of the two runtimes mints its own owner.\<close>

definition AppBuilder_build ::
  "components \<Rightarrow> OwnerId \<Rightarrow> OwnerId \<Rightarrow> AppBuilder \<Rightarrow> (Runtime, CompositionError) result option" where
  "AppBuilder_build co scratch_owner minted app =
     (case ab_pending_error app of
        Some err \<Rightarrow> Some (Err err)
      | None \<Rightarrow>
          (let builder = ab_runtime_builder app;
               finish = (\<lambda>b. map_option (map_sum Validation id) (RuntimeBuilder_try_build co minted b))
           in if ab_service_registrars app = [] then finish builder
              else (case RuntimeBuilder_try_build co scratch_owner builder of
                      None \<Rightarrow> None
                    | Some (Inl e) \<Rightarrow> Some (Err (Validation e))
                    | Some (Inr scratch) \<Rightarrow>
                        (case run_registrars (ab_service_registrars app) scratch builder of
                           Inl e \<Rightarrow> Some (Err e)
                         | Inr builder' \<Rightarrow> finish builder'))))"

section \<open>Running\<close>

datatype app_signal = AppStarting | AppStarted nat

definition App_start :: "duration \<Rightarrow> Runtime \<Rightarrow> app_signal list \<times> Runtime" where
  "App_start elapsed rt =
     (if rt_observability rt = None then [] else [AppStarting, AppStarted (elapsed div 1000000)], start_effects rt)"

definition RunningApp_shutdown ::
  "teardown_env \<Rightarrow> Runtime \<Rightarrow> (unit, CompositionError) result option \<times> teardown_action list \<times> Runtime" where
  "RunningApp_shutdown env rt =
     (case shutdown_async env rt of (result, rest) \<Rightarrow> (map_option (map_sum ShutdownFailed id) result, rest))"

section \<open>Lemmas\<close>

lemma compose_app_Nil [simp]: "compose_app [] = AppBuilder_new"
  by (simp add: compose_app_def)

lemma compose_app_snoc [simp]: "compose_app (ops @ [op]) = app_register (compose_app ops) op"
  by (simp add: compose_app_def)

lemma app_register_failed: "ab_pending_error app \<noteq> None \<Longrightarrow> foldl app_register app ops = app"
  by (induction ops) (simp_all add: app_register_def)

lemma compose_app_failed:
  "ab_pending_error (compose_app pre) \<noteq> None \<Longrightarrow> compose_app (pre @ post) = compose_app pre"
  by (simp add: compose_app_def app_register_failed)

text \<open>The retained builder is always one the host could have composed itself.\<close>

lemma register_op_composed:
  "composed (ab_runtime_builder app) \<Longrightarrow> composed (ab_runtime_builder (register_op op app))"
  by (cases op)
    (auto simp: delegate_def try_delegate_def fail_with_def split: sum.splits
      intro!: c_adapter c_config c_logger c_security c_observability c_idempotency c_profile c_reservation_store
        c_reservation_clock c_lease c_owner c_effect_store c_effect_retention_store c_progress c_claims
      elim: c_projection c_entity c_executor c_provider)

lemma compose_app_composed: "composed (ab_runtime_builder (compose_app ops))"
proof (induction ops rule: rev_induct)
  case Nil
  then show ?case by (simp add: AppBuilder_new_def c_new)
next
  case (snoc op ops)
  then show ?case by (simp add: app_register_def register_op_composed)
qed

lemma run_registrars_composed:
  assumes "run_registrars rs scratch b = Ok b'" "composed b"
  shows "composed b' \<and> rb_profile b' = rb_profile b \<and> rb_reservation_store b' = rb_reservation_store b"
  using assms
proof (induction rs arbitrary: b)
  case (Cons r rs)
  obtain b1 where b1: "run_registrar r scratch b = Ok b1" "run_registrars rs scratch b1 = Ok b'"
    using Cons.prems(1) by (auto split: sum.splits)
  then obtain t v a where w: "with_service t v a b = Ok b1"
    by (cases r) (auto split: sum.splits simp: map_sum_Ok)
  then show ?case using Cons.IH [OF b1(2)] c_service [OF Cons.prems(2) w] with_service_Ok [OF w] by simp
qed simp

text \<open>A registration adds its service, if that slot is free, and takes nothing away.\<close>

lemma with_service_held:
  assumes "with_service t v a b = Ok b'"
  shows "held (rb_registry b) (ty_id t, v) = None" "held (rb_registry b') = (held (rb_registry b))((ty_id t, v) \<mapsto> a)"
proof -
  show free: "held (rb_registry b) (ty_id t, v) = None"
  proof (rule ccontr)
    assume "held (rb_registry b) (ty_id t, v) \<noteq> None"
    then have "fst (ServiceRegistry_register (\<lambda>_. ty_name t) (ty_id t) v a (rb_registry b)) =
        Err (DuplicateService (ty_name t) (ContractVersion_to_string v))"
      by (simp add: register_result)
    then show False using assms by (auto simp: with_service_def split: prod.splits)
  qed
  show "held (rb_registry b') = (held (rb_registry b))((ty_id t, v) \<mapsto> a)"
    using with_service_Ok [OF assms] free by (simp add: register_held)
qed

lemma run_registrar_held:
  assumes "run_registrar r scratch b = Ok b'"
  shows "\<exists>t v a. held (rb_registry b') = (held (rb_registry b))((ty_id t, v) \<mapsto> a) \<and> held (rb_registry b) (ty_id t, v) = None \<and>
     (\<forall>t' v' a'. r = ServiceInstance t' v' a' \<longrightarrow> t' = t \<and> v' = v \<and> a' = a)"
  using assms with_service_held by (cases r) (fastforce split: sum.splits simp: map_sum_Ok)+

lemma run_registrars_held:
  assumes "run_registrars rs scratch b = Ok b'"
  shows "held (rb_registry b) \<subseteq>\<^sub>m held (rb_registry b')"
    and "ServiceInstance t v a \<in> set rs \<Longrightarrow> held (rb_registry b') (ty_id t, v) = Some a"
proof -
  have "held (rb_registry b) \<subseteq>\<^sub>m held (rb_registry b') \<and>
      (ServiceInstance t v a \<in> set rs \<longrightarrow> held (rb_registry b') (ty_id t, v) = Some a)"
    using assms
  proof (induction rs arbitrary: b)
    case (Cons r rs)
    obtain b1 where b1: "run_registrar r scratch b = Ok b1" "run_registrars rs scratch b1 = Ok b'"
      using Cons.prems by (auto split: sum.splits)
    obtain t1 v1 a1 where h: "held (rb_registry b1) = (held (rb_registry b))((ty_id t1, v1) \<mapsto> a1)"
      "held (rb_registry b) (ty_id t1, v1) = None"
      "\<forall>t' v' a'. r = ServiceInstance t' v' a' \<longrightarrow> t' = t1 \<and> v' = v1 \<and> a' = a1"
      using run_registrar_held [OF b1(1)] by blast
    have sub: "held (rb_registry b) \<subseteq>\<^sub>m held (rb_registry b1)" using h(1,2) by (auto simp: map_le_def)
    have IH: "held (rb_registry b1) \<subseteq>\<^sub>m held (rb_registry b')"
      "ServiceInstance t v a \<in> set rs \<longrightarrow> held (rb_registry b') (ty_id t, v) = Some a"
      using Cons.IH [OF b1(2)] by blast+
    have "held (rb_registry b') (ty_id t1, v1) = Some a1"
      using IH(1) h(1) by (auto simp: map_le_def dest!: bspec [of _ _ "(ty_id t1, v1)"])
    then show ?case using IH sub h(3) by (auto intro: map_le_trans)
  qed simp
  then show "held (rb_registry b) \<subseteq>\<^sub>m held (rb_registry b')"
    and "ServiceInstance t v a \<in> set rs \<Longrightarrow> held (rb_registry b') (ty_id t, v) = Some a" by blast+
qed

lemma build_app_Ok:
  assumes "AppBuilder_build co o1 o2 app = Some (Ok rt)" "composed (ab_runtime_builder app)"
  obtains b where "RuntimeBuilder_try_build co o2 b = Some (Ok rt)" "composed b" "ab_pending_error app = None"
    "rb_profile b = rb_profile (ab_runtime_builder app)"
    "\<And>t v a. ServiceInstance t v a \<in> set (ab_service_registrars app) \<Longrightarrow> held (rb_registry b) (ty_id t, v) = Some a"
proof -
  have none: "ab_pending_error app = None" using assms(1) by (auto simp: AppBuilder_build_def split: option.splits)
  show thesis
  proof (cases "ab_service_registrars app = []")
    case True
    then have "RuntimeBuilder_try_build co o2 (ab_runtime_builder app) = Some (Ok rt)"
      using assms(1) none by (cases "RuntimeBuilder_try_build co o2 (ab_runtime_builder app)")
        (auto simp: AppBuilder_build_def map_sum_Ok)
    then show thesis using that assms(2) none True by simp
  next
    case False
    then obtain scratch b where b: "run_registrars (ab_service_registrars app) scratch (ab_runtime_builder app) = Ok b"
      "map_option (map_sum Validation id) (RuntimeBuilder_try_build co o2 b) = Some (Ok rt)"
      using assms(1) none by (auto simp: AppBuilder_build_def Let_def split: option.splits sum.splits)
    then have "RuntimeBuilder_try_build co o2 b = Some (Ok rt)" by (auto simp: map_sum_Ok)
    then show thesis
      using that run_registrars_composed [OF b(1) assms(2)] run_registrars_held(2) [OF b(1)] none by blast
  qed
qed

text \<open>While no error is pending every registered service is retained.\<close>

lemma register_op_registrars:
  "ab_service_registrars (register_op op app) =
     ab_service_registrars app @ (case op of OpService s t v \<Rightarrow> [ConstructedService s t v]
       | OpServiceInstance t v a \<Rightarrow> [ServiceInstance t v a] | _ \<Rightarrow> [])"
  by (cases op) (auto simp: delegate_def try_delegate_def fail_with_def split: sum.splits)

lemma compose_app_registrars:
  assumes "ab_pending_error (compose_app ops) = None" "OpServiceInstance t v a \<in> set ops"
  shows "ServiceInstance t v a \<in> set (ab_service_registrars (compose_app ops))"
  using assms
proof (induction ops rule: rev_induct)
  case (snoc op ops)
  have "ab_pending_error (compose_app ops) = None" using snoc.prems(1) by (auto simp: app_register_def split: if_splits)
  then show ?case using snoc by (auto simp: app_register_def register_op_registrars)
qed simp

lemma try_build_registry: "RuntimeBuilder_try_build co o2 b = Some (Ok rt) \<Longrightarrow> rt_registry rt = rb_registry b"
  using try_build_Ok(3) [of co o2 b rt] by (auto simp: build_Some assemble_runtime_def)

section \<open>Properties\<close>


definition ex_tag :: rust_type where
  "ex_tag = RustType 1 ''OrderServiceTag''"

definition ex_app_ops :: "app_op list" where
  "ex_app_ops = [OpProfile Production, OpReservationStore 3, OpServiceInstance ex_tag (ContractVersion 1 0 0) 11]"

lemma ex_app_composed:
  "compose_app ex_app_ops = AppBuilder_new
     \<lparr>ab_runtime_builder := ex_builder, ab_service_registrars := [ServiceInstance ex_tag (ContractVersion 1 0 0) 11]\<rparr>"
  by (simp add: compose_app_def ex_app_ops_def app_register_def AppBuilder_new_def delegate_def ex_builder_def
      with_profile_def with_operation_reservation_store_def)


text \<open>The first composition error wins. As soon as one registration fails, whatever the host registers
  afterwards, \<open>build\<close> returns that error, starts nothing and never panics.\<close>

theorem first_composition_error_wins:
  assumes "ab_pending_error (compose_app (pre @ [op])) = Some e"
    and "ab_pending_error (compose_app pre) = None"
  shows "AppBuilder_build co scratch_owner minted (compose_app (pre @ op # post)) = Some (Err e) \<and>
         register_op op (compose_app pre) = compose_app (pre @ op # post)"
proof -
  have "compose_app ((pre @ [op]) @ post) = compose_app (pre @ [op])"
    by (rule compose_app_failed) (simp add: assms(1) del: compose_app_snoc)
  then have "compose_app (pre @ op # post) = compose_app (pre @ [op])" by simp
  then show ?thesis using assms by (simp add: AppBuilder_build_def app_register_def)
qed

theorem first_composition_error_wins_witness:
  "AppBuilder_build ex_components (OwnerId ''o'') (OwnerId ''o'')
     (compose_app ([OpAdapter ex_tag 1] @ OpAdapter ex_tag 2 # [OpEffectStore ''S'' 3, OpEffectStore ''S'' 4])) =
   Some (Err (DuplicateAdapter ''OrderServiceTag''))"
proof (rule conjunct1 [OF first_composition_error_wins])
  show "ab_pending_error (compose_app ([OpAdapter ex_tag 1] @ [OpAdapter ex_tag 2])) = Some (DuplicateAdapter ''OrderServiceTag'')"
    and "ab_pending_error (compose_app [OpAdapter ex_tag 1]) = None"
    by (simp_all add: compose_app_def app_register_def AppBuilder_new_def delegate_def fail_with_def ex_tag_def)
qed

end
