(* ===== verification/Ego_Channel.thy ===== *)
theory Ego_Channel
  imports Ego_Prelude
begin

text \<open>
  Tokio's bounded multi-producer channel as the schedulers and the execution runtimes use it:
  \<open>channel\<close>, \<open>try_send\<close>, \<open>try_recv\<close> and the end of a receiver. The channel is not part of the sources; it is a record of functions on a state shared by its
  two ends, and the locale \<open>mpsc_channel\<close> states what its documentation promises. The loop both receivers
  drain it with is here, with what it returns; \<open>bounded_queue\<close> is a channel that keeps the contract.
\<close>

section \<open>The interface\<close>

datatype TrySendError = Full | Closed
datatype TryRecvError = Empty | Disconnected

record ('m, 'c) mpsc =
  mp_channel :: "nat \<Rightarrow> 'c"
  mp_try_send :: "'m \<Rightarrow> 'c \<Rightarrow> (unit, TrySendError) result \<times> 'c"
  mp_try_recv :: "'c \<Rightarrow> ('m, TryRecvError) result \<times> 'c"
  mp_drop_receiver :: "'c \<Rightarrow> 'c"

text \<open>\<open>while let Ok(item) = self.receiver.try_recv() { items.push(item) }\<close>.\<close>

partial_function (option) drain_loop :: "('m, 'c) mpsc \<Rightarrow> 'm list \<Rightarrow> 'c \<Rightarrow> ('m list \<times> 'c) option" where
  "drain_loop mp items c =
     (case mp_try_recv mp c of
        (Inr item, c') \<Rightarrow> drain_loop mp (items @ [item]) c'
      | (Inl _, c') \<Rightarrow> Some (items, c'))"

section \<open>The contract\<close>

text \<open>
  \<open>capacity\<close> is the bound the channel was made with, \<open>contents\<close> what it buffers, oldest first, and \<open>receiving\<close>
  whether its receiver is still there. Only dropping the receiver changes the last.
\<close>

locale mpsc_channel =
  fixes mp :: "('m, 'c) mpsc" and capacity :: "'c \<Rightarrow> nat" and contents :: "'c \<Rightarrow> 'm list" and receiving :: "'c \<Rightarrow> bool"
  assumes channel: "0 < n \<Longrightarrow> capacity (mp_channel mp n) = n \<and> contents (mp_channel mp n) = [] \<and> receiving (mp_channel mp n)"
    and send_result: "fst (mp_try_send mp m c) =
       (if \<not> receiving c then Err Closed else if length (contents c) < capacity c then Ok () else Err Full)"
    and send_contents: "contents (snd (mp_try_send mp m c)) =
       (if receiving c \<and> length (contents c) < capacity c then contents c @ [m] else contents c)"
    and send_keeps: "capacity (snd (mp_try_send mp m c)) = capacity c" "receiving (snd (mp_try_send mp m c)) = receiving c"
    and recv_item: "contents c = m # ms \<Longrightarrow> fst (mp_try_recv mp c) = Ok m \<and> contents (snd (mp_try_recv mp c)) = ms"
    and recv_none: "contents c = [] \<Longrightarrow> (\<exists>e. fst (mp_try_recv mp c) = Err e) \<and> contents (snd (mp_try_recv mp c)) = []"
    and recv_keeps: "capacity (snd (mp_try_recv mp c)) = capacity c" "receiving (snd (mp_try_recv mp c)) = receiving c"
    and drop_receiver: "\<not> receiving (mp_drop_receiver mp c)"
begin

lemma drain_loop_contents:
  "\<exists>c'. drain_loop mp items c = Some (items @ contents c, c') \<and> contents c' = [] \<and>
     capacity c' = capacity c \<and> receiving c' = receiving c"
proof (induction "contents c" arbitrary: items c)
  case Nil
  then show ?case using recv_none [of c] recv_keeps [of c]
    by (subst drain_loop.simps) (auto simp: prod.case_eq_if split: sum.splits)
next
  case (Cons m ms)
  obtain c1 where c1: "mp_try_recv mp c = (Ok m, c1)" "contents c1 = ms" "capacity c1 = capacity c" "receiving c1 = receiving c"
    using recv_item [of c m ms] recv_keeps [of c] Cons.hyps(2) by (metis prod.collapse)
  then show ?case using Cons.hyps(1) [of c1 "items @ [m]"] Cons.hyps(2) [symmetric]
    by (subst drain_loop.simps) simp
qed

end

section \<open>A channel that keeps it\<close>

record 'm bounded_queue =
  bq_capacity :: nat
  bq_items :: "'m list"
  bq_receiving :: bool

definition bounded_queue :: "('m, 'm bounded_queue) mpsc" where
  "bounded_queue =
     \<lparr>mp_channel = (\<lambda>n. \<lparr>bq_capacity = n, bq_items = [], bq_receiving = True\<rparr>),
      mp_try_send = (\<lambda>m q.
        if \<not> bq_receiving q then (Err Closed, q)
        else if length (bq_items q) < bq_capacity q then (Ok (), q\<lparr>bq_items := bq_items q @ [m]\<rparr>)
        else (Err Full, q)),
      mp_try_recv = (\<lambda>q.
        case bq_items q of
          m # ms \<Rightarrow> (Ok m, q\<lparr>bq_items := ms\<rparr>)
        | [] \<Rightarrow> (Err Empty, q)),
      mp_drop_receiver = (\<lambda>q. q\<lparr>bq_items := [], bq_receiving := False\<rparr>)\<rparr>"

interpretation bounded: mpsc_channel bounded_queue bq_capacity bq_items bq_receiving
  by unfold_locales (auto simp: bounded_queue_def split: list.splits)

lemma bounded_queue_contract: "mpsc_channel bounded_queue bq_capacity bq_items bq_receiving"
  by (rule bounded.mpsc_channel_axioms)

end
