(* ===== verification/Ego_Scheduler.thy ===== *)
theory Ego_Scheduler
  imports Ego_Channel "HOL-Library.Char_ord" "HOL-Library.List_Lexorder"
begin

text \<open>
  The scheduler crate (\<open>crates/ego-scheduler/src\<close>): the event bus with its overflow policies
  (\<open>event_bus.rs\<close>), the projected state (\<open>state.rs\<close>), the round-robin policy (\<open>policy.rs\<close>) and the pipeline
  \<open>run_cycle\<close> with its six stages (\<open>scheduler.rs\<close>, \<open>scheduler/\<close>). A \<open>BTreeSet\<close> is the sorted list it iterates
  over, a \<open>VecDeque\<close> a list. Counters are \<open>u64\<close> and wrap around as in a release build. SHA-256 and the
  \<open>Debug\<close> rendering of a string are arguments; log lines are left out.

  \<open>bus_spec\<close> is what the crate promises about itself: what the bus accepted is consumed once, in order, and
  the state is a function of what was consumed. The pipeline refines it, except that the gap counter depends
  on where the cycles cut the stream (\<open>gaps_depend_on_batching\<close>).
\<close>

section \<open>The event bus\<close>

datatype BusTriple = BusTriple (bt_tenant: string) (bt_entity_type: string) (bt_entity_id: string)

text \<open>The derived \<open>Ord\<close> compares the fields in their order, strings byte by byte.\<close>

definition BusTriple_cmp :: "BusTriple \<Rightarrow> BusTriple \<Rightarrow> Ordering" where
  "BusTriple_cmp a b =
     then_with (ord_cmp (bt_tenant a) (bt_tenant b))
       (then_with (ord_cmp (bt_entity_type a) (bt_entity_type b)) (ord_cmp (bt_entity_id a) (bt_entity_id b)))"

instantiation BusTriple :: linorder
begin

definition less_eq_BusTriple :: "BusTriple \<Rightarrow> BusTriple \<Rightarrow> bool" where
  "less_eq_BusTriple a b \<longleftrightarrow> BusTriple_cmp a b \<noteq> OrdGreater"

definition less_BusTriple :: "BusTriple \<Rightarrow> BusTriple \<Rightarrow> bool" where
  "less_BusTriple a b \<longleftrightarrow> BusTriple_cmp a b = OrdLess"

instance
proof
  fix x y z :: BusTriple
  note defs = less_eq_BusTriple_def less_BusTriple_def BusTriple_cmp_def
  show "x < y \<longleftrightarrow> x \<le> y \<and> \<not> y \<le> x" by (auto simp: defs)
  show "x \<le> x" by (simp add: defs)
  show "x \<le> y \<Longrightarrow> y \<le> z \<Longrightarrow> x \<le> z" by (auto simp: defs not_less)
  show "x \<le> y \<Longrightarrow> y \<le> x \<Longrightarrow> x = y" by (auto simp: defs BusTriple.expand)
  show "x \<le> y \<or> y \<le> x" by (auto simp: defs)
qed

end

datatype BusEvent =
  BusExecutionCompleted BusTriple u64
| BusRecoveryCompleted BusTriple u64

datatype EventType = ExecutionCompletedType | RecoveryCompletedType

fun EventType_from :: "BusEvent \<Rightarrow> EventType" where
  "EventType_from (BusExecutionCompleted _ _) = ExecutionCompletedType"
| "EventType_from (BusRecoveryCompleted _ _) = RecoveryCompletedType"

record SchedulerEventEnvelope =
  env_event_id :: "nat list"
  env_sequence_id :: u64
  env_event_type :: EventType
  env_payload :: BusEvent
  env_source_actor :: BusTriple

text \<open>The derived \<open>Debug\<close> of an event and \<open>u64::to_le_bytes\<close>.\<close>

definition debug_triple :: "(string \<Rightarrow> string) \<Rightarrow> BusTriple \<Rightarrow> string" where
  "debug_triple debug_str t =
     ''EntityTriple { tenant: '' @ debug_str (bt_tenant t) @ '', entity_type: '' @ debug_str (bt_entity_type t) @
     '', entity_id: '' @ debug_str (bt_entity_id t) @ '' }''"

fun debug_event :: "(string \<Rightarrow> string) \<Rightarrow> BusEvent \<Rightarrow> string" where
  "debug_event debug_str (BusExecutionCompleted t v) =
     ''ExecutionCompleted { entity: '' @ debug_triple debug_str t @ '', state_version: '' @ nat_to_string (unat v) @ '' }''"
| "debug_event debug_str (BusRecoveryCompleted t v) =
     ''RecoveryCompleted { entity: '' @ debug_triple debug_str t @ '', state_version: '' @ nat_to_string (unat v) @ '' }''"

definition to_le_bytes :: "u64 \<Rightarrow> nat list" where
  "to_le_bytes w = map (\<lambda>i. unat w div 256 ^ i mod 256) [0..<8]"

definition SchedulerEventEnvelope_new ::
  "(nat list \<Rightarrow> nat list) \<Rightarrow> (string \<Rightarrow> string) \<Rightarrow> BusEvent \<Rightarrow> BusTriple \<Rightarrow> u64 \<Rightarrow> SchedulerEventEnvelope" where
  "SchedulerEventEnvelope_new sha256 debug_str payload source_actor sequence_id =
     \<lparr>env_event_id = sha256 (map of_char (debug_event debug_str payload @ bt_tenant source_actor @
        bt_entity_type source_actor @ bt_entity_id source_actor) @ to_le_bytes sequence_id),
      env_sequence_id = sequence_id, env_event_type = EventType_from payload, env_payload = payload,
      env_source_actor = source_actor\<rparr>"

record BusItem =
  bi_sequence :: u64
  bi_event :: SchedulerEventEnvelope

datatype DropPolicy = Block | DropNewest | DropOldest

record EventBusConfig =
  eb_capacity :: nat
  eb_drop_policy :: DropPolicy

definition EventBusConfig_default :: EventBusConfig where
  "EventBusConfig_default = \<lparr>eb_capacity = 4096, eb_drop_policy = Block\<rparr>"

definition EventBusConfig_validate :: "EventBusConfig \<Rightarrow> (unit, string \<times> string) result" where
  "EventBusConfig_validate config =
     (if eb_capacity config = 0 then Err (''capacity'', ''must be non-zero'') else Ok ())"

datatype SchedulerError = BusFull | ChannelClosed

definition bus_item :: "SchedulerEventEnvelope \<Rightarrow> BusItem" where
  "bus_item envelope = \<lparr>bi_sequence = env_sequence_id envelope, bi_event = envelope\<rparr>"

text \<open>Besides its end of the channel, a sender is the policy.\<close>

definition EventSender_try_send ::
  "(BusItem, 'c) mpsc \<Rightarrow> DropPolicy \<Rightarrow> SchedulerEventEnvelope \<Rightarrow> 'c \<Rightarrow> (unit, SchedulerError) result \<times> 'c" where
  "EventSender_try_send mp drop_policy envelope c =
     (case mp_try_send mp (bus_item envelope) c of
        (Inr _, c') \<Rightarrow> (Ok (), c')
      | (Inl Full, c') \<Rightarrow>
          (case drop_policy of Block \<Rightarrow> Err BusFull | DropNewest \<Rightarrow> Ok () | DropOldest \<Rightarrow> Ok (), c')
      | (Inl Closed, c') \<Rightarrow> (Err ChannelClosed, c'))"

definition EventReceiver_drain_all :: "(BusItem, 'c) mpsc \<Rightarrow> 'c \<Rightarrow> (BusItem list \<times> 'c) option" where
  "EventReceiver_drain_all mp c = drain_loop mp [] c"

text \<open>\<open>mpsc::channel(0)\<close> panics, which is \<open>None\<close>.\<close>

definition event_bus_channel_with_config :: "(BusItem, 'c) mpsc \<Rightarrow> EventBusConfig \<Rightarrow> (DropPolicy \<times> 'c) option" where
  "event_bus_channel_with_config mp config =
     (if eb_capacity config = 0 then None else Some (eb_drop_policy config, mp_channel mp (eb_capacity config)))"

definition event_bus_channel :: "(BusItem, 'c) mpsc \<Rightarrow> (DropPolicy \<times> 'c) option" where
  "event_bus_channel mp = event_bus_channel_with_config mp EventBusConfig_default"

definition pending_from_iter :: "BusTriple list \<Rightarrow> BusTriple list" where
  "pending_from_iter xs = foldl (\<lambda>s x. insort_insert x s) [] xs"

section \<open>The state\<close>

record SchedulerState =
  ss_total_events_consumed :: u64
  ss_last_sequence_id :: "u64 option"
  ss_detected_gaps :: u64
  ss_last_suggestion :: "BusTriple option"
  ss_state_hash :: "nat list option"
  ss_replay_buffer :: "(u64 \<times> SchedulerEventEnvelope) list"

definition SchedulerState_new :: SchedulerState where
  "SchedulerState_new =
     \<lparr>ss_total_events_consumed = 0, ss_last_sequence_id = None, ss_detected_gaps = 0, ss_last_suggestion = None,
      ss_state_hash = None, ss_replay_buffer = []\<rparr>"

definition SchedulerState_apply :: "SchedulerEventEnvelope \<Rightarrow> SchedulerState \<Rightarrow> SchedulerState" where
  "SchedulerState_apply envelope s =
     (let buffer = ss_replay_buffer s;
          room = (if 1024 \<le> length buffer then tl buffer else buffer)
      in s\<lparr>ss_total_events_consumed := ss_total_events_consumed s + 1,
           ss_last_sequence_id := Some (env_sequence_id envelope),
           ss_replay_buffer := room @ [(env_sequence_id envelope, envelope)]\<rparr>)"

definition SchedulerState_eq :: "SchedulerState \<Rightarrow> SchedulerState \<Rightarrow> bool" where
  "SchedulerState_eq s t \<longleftrightarrow>
     ss_total_events_consumed s = ss_total_events_consumed t \<and> ss_last_sequence_id s = ss_last_sequence_id t \<and>
     ss_detected_gaps s = ss_detected_gaps t \<and> ss_last_suggestion s = ss_last_suggestion t \<and>
     ss_state_hash s = ss_state_hash t"

section \<open>The policy\<close>

type_synonym SchedulingPolicy = "SchedulerState \<Rightarrow> BusTriple list \<Rightarrow> BusTriple option"

definition RoundRobin :: SchedulingPolicy where
  "RoundRobin state pending =
     (if pending = [] then None
      else Some (pending ! (unat (ss_total_events_consumed state) mod length pending)))"

section \<open>The pipeline\<close>

fun detect :: "BusItem list \<Rightarrow> SchedulerState \<Rightarrow> SchedulerState" where
  "detect [] state = state"
| "detect (item # events) state =
     (let seq = env_sequence_id (bi_event item);
          state1 = (case ss_last_sequence_id state of
              Some previous \<Rightarrow> if seq \<noteq> previous + 1 then state\<lparr>ss_detected_gaps := ss_detected_gaps state + 1\<rparr> else state
            | None \<Rightarrow> state)
      in detect events (state1\<lparr>ss_last_sequence_id := Some seq\<rparr>))"

record RoutedEvent =
  re_item :: BusItem
  re_entity_switched :: bool

fun route :: "BusItem list \<Rightarrow> SchedulerState \<Rightarrow> BusTriple option \<Rightarrow> RoutedEvent list \<times> SchedulerState \<times> BusTriple option" where
  "route [] state current_entity = ([], state, current_entity)"
| "route (item # events) state current_entity =
     (let source = env_source_actor (bi_event item);
          (switched, state1, current1) =
            (case current_entity of
               Some current \<Rightarrow>
                 if current \<noteq> source
                 then (True, state\<lparr>ss_last_sequence_id := None, ss_detected_gaps := 0\<rparr>, Some source)
                 else (False, state, current_entity)
             | None \<Rightarrow> (False, state, Some source));
          (routed, state2, current2) = route events state1 current1
      in (\<lparr>re_item = item, re_entity_switched = switched\<rparr> # routed, state2, current2))"

definition reduce_apply :: "RoutedEvent list \<Rightarrow> SchedulerState \<Rightarrow> SchedulerState" where
  "reduce_apply routed state = foldl (\<lambda>s r. SchedulerState_apply (bi_event (re_item r)) s) state routed"

definition evaluate :: "SchedulingPolicy \<Rightarrow> SchedulerState \<Rightarrow> BusTriple list \<Rightarrow> BusTriple option" where
  "evaluate policy state pending = policy state pending"

definition emit_suggestion :: "SchedulerState \<Rightarrow> BusTriple option \<Rightarrow> SchedulerState" where
  "emit_suggestion state suggestion = state\<lparr>ss_last_suggestion := suggestion\<rparr>"

record 'c Scheduler =
  sc_state :: SchedulerState
  sc_receiver :: 'c
  sc_policy :: SchedulingPolicy
  sc_current_entity :: "BusTriple option"
  sc_pending :: "BusTriple list"

definition Scheduler_new :: "'c \<Rightarrow> SchedulingPolicy \<Rightarrow> 'c Scheduler" where
  "Scheduler_new receiver policy =
     \<lparr>sc_state = SchedulerState_new, sc_receiver = receiver, sc_policy = policy, sc_current_entity = None, sc_pending = []\<rparr>"

text \<open>\<open>None\<close>: the draining loop does not come to an end.\<close>

definition run_cycle :: "(BusItem, 'c) mpsc \<Rightarrow> 'c Scheduler \<Rightarrow> (BusTriple option \<times> 'c Scheduler) option" where
  "run_cycle mp s =
     (case EventReceiver_drain_all mp (sc_receiver s) of
        None \<Rightarrow> None
      | Some (events, receiver) \<Rightarrow>
          (let s0 = s\<lparr>sc_receiver := receiver\<rparr> in
           if events = [] then Some (None, s0)
           else
             (let pending = foldl (\<lambda>p item. insort_insert (env_source_actor (bi_event item)) p) (sc_pending s) events;
                  state1 = detect events (sc_state s);
                  (routed, state2, current) = route events state1 (sc_current_entity s);
                  state3 = reduce_apply routed state2;
                  suggestion = evaluate (sc_policy s) state3 pending;
                  state4 = emit_suggestion state3 suggestion
              in Some (suggestion,
                   s0\<lparr>sc_state := state4, sc_current_entity := current,
                      sc_pending := (case suggestion of None \<Rightarrow> pending | Some entity \<Rightarrow> remove1 entity pending)\<rparr>))))"

section \<open>The specification\<close>

text \<open>
  What the bus has accepted is either still queued or consumed, in the order of arrival; \<open>bs_waiting\<close> are the
  entities that had an event consumed since they were last suggested.
\<close>

record bus_spec =
  bs_queue :: "SchedulerEventEnvelope list"
  bs_consumed :: "SchedulerEventEnvelope list"
  bs_waiting :: "BusTriple set"
  bs_last_suggestion :: "BusTriple option"

datatype bus_op = Send SchedulerEventEnvelope | Cycle
datatype bus_observation = Sent "(unit, SchedulerError) result" | Suggested "BusTriple option"

definition round_robin_spec :: "nat \<Rightarrow> BusTriple set \<Rightarrow> BusTriple" where
  "round_robin_spec n waiting = sorted_list_of_set waiting ! (n mod 2 ^ 64 mod card waiting)"

fun spec_step :: "nat \<Rightarrow> DropPolicy \<Rightarrow> bus_op \<Rightarrow> bus_spec \<Rightarrow> bus_observation \<times> bus_spec" where
  "spec_step capacity drop_policy (Send e) a =
     (if length (bs_queue a) < capacity then (Sent (Ok ()), a\<lparr>bs_queue := bs_queue a @ [e]\<rparr>)
      else (Sent (if drop_policy = Block then Err BusFull else Ok ()), a))"
| "spec_step capacity drop_policy Cycle a =
     (if bs_queue a = [] then (Suggested None, a)
      else
        (let consumed = bs_consumed a @ bs_queue a;
             waiting = bs_waiting a \<union> set (map env_source_actor (bs_queue a));
             entity = round_robin_spec (length consumed) waiting
         in (Suggested (Some entity),
             \<lparr>bs_queue = [], bs_consumed = consumed, bs_waiting = waiting - {entity}, bs_last_suggestion = Some entity\<rparr>)))"

definition spec_init :: bus_spec where
  "spec_init = \<lparr>bs_queue = [], bs_consumed = [], bs_waiting = {}, bs_last_suggestion = None\<rparr>"

fun spec_run :: "nat \<Rightarrow> DropPolicy \<Rightarrow> bus_op list \<Rightarrow> bus_spec \<Rightarrow> bus_observation list \<times> bus_spec" where
  "spec_run capacity drop_policy [] a = ([], a)"
| "spec_run capacity drop_policy (op # ops) a =
     (let (obs, a1) = spec_step capacity drop_policy op a; (rest, a2) = spec_run capacity drop_policy ops a1
      in (obs # rest, a2))"

text \<open>Senders and the scheduler on the code's definitions, in any order.\<close>

fun bus_step :: "(BusItem, 'c) mpsc \<Rightarrow> DropPolicy \<Rightarrow> bus_op \<Rightarrow> 'c Scheduler \<Rightarrow> (bus_observation \<times> 'c Scheduler) option" where
  "bus_step mp drop_policy (Send e) s =
     (let (r, c) = EventSender_try_send mp drop_policy e (sc_receiver s) in Some (Sent r, s\<lparr>sc_receiver := c\<rparr>))"
| "bus_step mp drop_policy Cycle s = map_option (apfst Suggested) (run_cycle mp s)"

fun bus_run ::
  "(BusItem, 'c) mpsc \<Rightarrow> DropPolicy \<Rightarrow> bus_op list \<Rightarrow> 'c Scheduler \<Rightarrow> (bus_observation list \<times> 'c Scheduler) option" where
  "bus_run mp drop_policy [] s = Some ([], s)"
| "bus_run mp drop_policy (op # ops) s =
     (case bus_step mp drop_policy op s of
        None \<Rightarrow> None
      | Some (obs, s1) \<Rightarrow> map_option (apfst ((#) obs)) (bus_run mp drop_policy ops s1))"

text \<open>A gap is a sequence number that does not follow the one before it.\<close>

fun seq_gaps :: "u64 option \<Rightarrow> u64 list \<Rightarrow> nat" where
  "seq_gaps previous [] = 0"
| "seq_gaps previous (seq # seqs) =
     (case previous of Some p \<Rightarrow> if seq \<noteq> p + 1 then 1 else 0 | None \<Rightarrow> 0) + seq_gaps (Some seq) seqs"

definition lastn :: "nat \<Rightarrow> 'a list \<Rightarrow> 'a list" where
  "lastn n xs = drop (length xs - n) xs"

definition last_of :: "('a \<Rightarrow> 'b) \<Rightarrow> 'a list \<Rightarrow> 'b option \<Rightarrow> 'b option" where
  "last_of f xs y = (if xs = [] then y else Some (f (last xs)))"

section \<open>What the stages do\<close>

lemma length_lastn [simp]: "length (lastn n xs) = min n (length xs)"
  by (simp add: lastn_def)

lemma lastn_snoc: "0 < n \<Longrightarrow> lastn n (lastn n xs @ [x]) = lastn n (xs @ [x])"
  by (cases "length xs < n") (simp_all add: lastn_def Suc_diff_le)

lemma lastn_push:
  assumes "0 < n" "length buf \<le> n"
  shows "(if n \<le> length buf then tl buf else buf) @ [x] = lastn n (buf @ [x])"
proof (cases "n \<le> length buf")
  case True
  then show ?thesis using assms by (cases buf) (simp_all add: lastn_def)
qed (simp add: lastn_def)

lemma last_of_Nil [simp]: "last_of f [] y = y"
  by (simp add: last_of_def)

lemma last_of_Cons [simp]: "last_of f (x # xs) y = last_of f xs (Some (f x))"
  by (simp add: last_of_def)

lemma last_of_append: "last_of f (xs @ ys) y = last_of f ys (last_of f xs y)"
  by (simp add: last_of_def)

abbreviation item_seq :: "BusItem \<Rightarrow> u64" where
  "item_seq item \<equiv> env_sequence_id (bi_event item)"

abbreviation item_source :: "BusItem \<Rightarrow> BusTriple" where
  "item_source item \<equiv> env_source_actor (bi_event item)"

lemma seq_gaps_append: "seq_gaps p (xs @ ys) = seq_gaps p xs + seq_gaps (last_of id xs p) ys"
  by (induction xs arbitrary: p) auto

lemma detect_eq:
  "detect events st =
     st\<lparr>ss_detected_gaps := ss_detected_gaps st + of_nat (seq_gaps (ss_last_sequence_id st) (map item_seq events)),
        ss_last_sequence_id := last_of item_seq events (ss_last_sequence_id st)\<rparr>"
proof (induction events arbitrary: st)
  case (Cons item events)
  show ?case
    by (cases "ss_last_sequence_id st") (simp_all add: Cons.IH Let_def add.assoc)
qed simp

text \<open>Routing keeps the events and leaves the counter and the buffer of the state alone.\<close>

lemma route_eq:
  assumes "route events st cur = (routed, st', cur')"
  shows "map re_item routed = events" "cur' = last_of item_source events cur"
    "ss_total_events_consumed st' = ss_total_events_consumed st" "ss_replay_buffer st' = ss_replay_buffer st"
    "ss_last_suggestion st' = ss_last_suggestion st" "ss_state_hash st' = ss_state_hash st"
  using assms
  by (induction events arbitrary: st cur routed)
     (auto simp: Let_def split: prod.splits option.splits if_splits)

text \<open>On the stream of one entity it changes nothing; a switch anywhere in the batch empties the gap counter.\<close>

lemma route_one_stream:
  assumes "route events st cur = (routed, st', cur')" "\<forall>item \<in> set events. item_source item = actor"
    and "cur = None \<or> cur = Some actor"
  shows "st' = st"
  using assms
  by (induction events arbitrary: cur routed)
     (auto simp: Let_def split: prod.splits option.splits if_splits)

lemma route_keeps_zero:
  assumes "route events st cur = (routed, st', cur')" "ss_detected_gaps st = 0"
  shows "ss_detected_gaps st' = 0"
  using assms
  by (induction events arbitrary: st cur routed)
     (auto simp: Let_def split: prod.splits option.splits if_splits)

lemma switch_empties_gaps:
  assumes "route events st cur = (routed, st', cur')" "r \<in> set routed" "re_entity_switched r"
  shows "ss_detected_gaps st' = 0"
  using assms
proof (induction events arbitrary: st cur routed)
  case (Cons item events)
  then show ?case
    by (auto simp: Let_def dest: route_keeps_zero split: prod.splits option.splits if_splits)
qed simp

lemma reduce_eq:
  assumes "ss_replay_buffer st = map (\<lambda>e. (env_sequence_id e, e)) (lastn 1024 es)"
  shows "reduce_apply routed st =
    st\<lparr>ss_total_events_consumed := ss_total_events_consumed st + of_nat (length routed),
       ss_last_sequence_id := last_of (\<lambda>r. item_seq (re_item r)) routed (ss_last_sequence_id st),
       ss_replay_buffer := map (\<lambda>e. (env_sequence_id e, e)) (lastn 1024 (es @ map (\<lambda>r. bi_event (re_item r)) routed))\<rparr>"
  using assms
proof (induction routed arbitrary: st es)
  case Nil
  then show ?case by (simp add: reduce_apply_def)
next
  case (Cons r routed)
  let ?e = "bi_event (re_item r)"
  let ?st1 = "SchedulerState_apply ?e st"
  have "ss_replay_buffer ?st1 = map (\<lambda>e. (env_sequence_id e, e)) (lastn 1024 (lastn 1024 es @ [?e]))"
    using Cons.prems by (simp add: SchedulerState_apply_def Let_def map_tl lastn_push [of 1024 "lastn 1024 es", symmetric])
  then have "ss_replay_buffer ?st1 = map (\<lambda>e. (env_sequence_id e, e)) (lastn 1024 (es @ [?e]))"
    by (simp add: lastn_snoc)
  then show ?case using Cons.IH [of ?st1 "es @ [?e]"]
    by (simp add: reduce_apply_def SchedulerState_apply_def Let_def add.assoc)
qed

lemma insort_insert_set: "finite A \<Longrightarrow> insort_insert x (sorted_list_of_set A) = sorted_list_of_set (insert x A)"
  by (cases "x \<in> A") (simp_all add: insort_insert_key_def insert_absorb sorted_list_of_set_insert_remove)

lemma pending_set:
  "finite A \<Longrightarrow> foldl (\<lambda>p item. insort_insert (f item) p) (sorted_list_of_set A) items = sorted_list_of_set (A \<union> f ` set items)"
  by (induction items arbitrary: A) (simp_all add: insort_insert_set del: sorted_list_of_set_insert_remove)

section \<open>The pipeline refines the specification\<close>

definition tracks ::
  "('c \<Rightarrow> nat) \<Rightarrow> ('c \<Rightarrow> BusItem list) \<Rightarrow> ('c \<Rightarrow> bool) \<Rightarrow> nat \<Rightarrow> 'c Scheduler \<Rightarrow> bus_spec \<Rightarrow> bool" where
  "tracks capacity contents receiving n s a \<longleftrightarrow>
     capacity (sc_receiver s) = n \<and> receiving (sc_receiver s) \<and> contents (sc_receiver s) = map bus_item (bs_queue a) \<and>
     sc_policy s = RoundRobin \<and> finite (bs_waiting a) \<and> sc_pending s = sorted_list_of_set (bs_waiting a) \<and>
     sc_current_entity s = last_of env_source_actor (bs_consumed a) None \<and>
     ss_total_events_consumed (sc_state s) = of_nat (length (bs_consumed a)) \<and>
     ss_last_sequence_id (sc_state s) = last_of env_sequence_id (bs_consumed a) None \<and>
     ss_last_suggestion (sc_state s) = bs_last_suggestion a \<and>
     ss_replay_buffer (sc_state s) = map (\<lambda>e. (env_sequence_id e, e)) (lastn 1024 (bs_consumed a)) \<and>
     (\<forall>actor. (\<forall>e \<in> set (bs_consumed a). env_source_actor e = actor) \<longrightarrow>
        ss_detected_gaps (sc_state s) = of_nat (seq_gaps None (map env_sequence_id (bs_consumed a))))"

lemma last_of_map: "last_of f (map g xs) y = last_of (\<lambda>x. f (g x)) xs y"
  by (simp add: last_of_def last_map)

lemma bus_item_simps [simp]: "bi_event (bus_item e) = e" "bi_sequence (bus_item e) = env_sequence_id e"
  by (simp_all add: bus_item_def)

lemma last_of_None_source:
  "\<forall>e \<in> set es. f e = actor \<Longrightarrow> last_of f es None = None \<or> last_of f es None = Some actor"
  by (simp add: last_of_def)

lemma last_of_id: "last_of id (map f xs) None = last_of f xs None"
  by (simp add: last_of_map)

text \<open>The state after a batch of events has gone through detection, routing and reduction.\<close>

definition batch :: "BusItem list \<Rightarrow> SchedulerState \<times> BusTriple option \<Rightarrow> SchedulerState \<times> BusTriple option" where
  "batch events sc =
     (case route events (detect events (fst sc)) (snd sc) of
        (routed, state, current) \<Rightarrow> (reduce_apply routed state, current))"

lemma batch_eq:
  fixes q es :: "SchedulerEventEnvelope list"
  assumes buffer: "ss_replay_buffer st = map (\<lambda>e. (env_sequence_id e, e)) (lastn 1024 es)"
    and "q \<noteq> []" "batch (map bus_item q) (st, cur) = (st', cur')"
  shows "cur' = last_of env_source_actor q cur"
    "ss_total_events_consumed st' = ss_total_events_consumed st + of_nat (length q)"
    "ss_last_sequence_id st' = Some (env_sequence_id (last q))"
    "ss_last_suggestion st' = ss_last_suggestion st"
    "ss_replay_buffer st' = map (\<lambda>e. (env_sequence_id e, e)) (lastn 1024 (es @ q))"
    "\<lbrakk>\<forall>e \<in> set q. env_source_actor e = actor; cur = None \<or> cur = Some actor\<rbrakk> \<Longrightarrow>
       ss_detected_gaps st' = ss_detected_gaps st + of_nat (seq_gaps (ss_last_sequence_id st) (map env_sequence_id q))"
proof -
  obtain routed st2 where r: "route (map bus_item q) (detect (map bus_item q) st) cur = (routed, st2, cur')"
      and st': "st' = reduce_apply routed st2"
    using assms(3) by (auto simp: batch_def split: prod.splits)
  note e = route_eq [OF r]
  have events: "map (\<lambda>r. bi_event (re_item r)) routed = q"
    using arg_cong [OF e(1), of "map bi_event"] by (simp add: comp_def)
  then have len: "length routed = length q" by (metis length_map)
  have seq: "last_of (\<lambda>r. item_seq (re_item r)) routed y = Some (env_sequence_id (last q))" for y
    using \<open>q \<noteq> []\<close> unfolding events [symmetric] by (simp add: last_of_def last_map)
  have buf: "ss_replay_buffer st2 = map (\<lambda>e. (env_sequence_id e, e)) (lastn 1024 es)"
    using buffer e(4) by (simp add: detect_eq)
  note st = st' [unfolded reduce_eq [OF buf] events len seq]
  show "cur' = last_of env_source_actor q cur" using e(2) by (simp add: last_of_map)
  show "ss_total_events_consumed st' = ss_total_events_consumed st + of_nat (length q)"
    "ss_last_sequence_id st' = Some (env_sequence_id (last q))" "ss_last_suggestion st' = ss_last_suggestion st"
    "ss_replay_buffer st' = map (\<lambda>e. (env_sequence_id e, e)) (lastn 1024 (es @ q))"
    using e(3,5) by (simp_all add: st detect_eq)
  show "ss_detected_gaps st' = ss_detected_gaps st + of_nat (seq_gaps (ss_last_sequence_id st) (map env_sequence_id q))"
    if "\<forall>e \<in> set q. env_source_actor e = actor" "cur = None \<or> cur = Some actor"
    using route_one_stream [OF r _ that(2)] that(1) by (simp add: st detect_eq comp_def)
qed

lemma run_cycle_batch:
  assumes "EventReceiver_drain_all mp (sc_receiver s) = Some (events, c)" "events \<noteq> []"
    and "sc_pending s = sorted_list_of_set waiting" "finite waiting" "sc_policy s = RoundRobin"
    and "batch events (sc_state s, sc_current_entity s) = (st, cur)"
  defines "all \<equiv> waiting \<union> item_source ` set events"
  defines "entity \<equiv> round_robin_spec (unat (ss_total_events_consumed st)) all"
  shows "run_cycle mp s = Some (Some entity,
    s\<lparr>sc_receiver := c, sc_state := st\<lparr>ss_last_suggestion := Some entity\<rparr>, sc_current_entity := cur,
      sc_pending := sorted_list_of_set (all - {entity})\<rparr>)"
proof -
  have all: "finite all" "all \<noteq> {}" using assms(2,4) by (auto simp: all_def)
  have "unat (ss_total_events_consumed st) mod 2 ^ 64 = unat (ss_total_events_consumed st)"
    using unsigned_less [of "ss_total_events_consumed st", where ?'a = nat] by simp
  then have "RoundRobin st (sorted_list_of_set all) = Some entity"
    using all by (simp add: RoundRobin_def entity_def round_robin_spec_def)
  moreover have "foldl (\<lambda>p item. insort_insert (item_source item) p) (sc_pending s) events = sorted_list_of_set all"
    using pending_set [OF assms(4), of item_source events] assms(3) by (simp add: all_def)
  ultimately show ?thesis
    using assms(1,2,5,6) all(1)
    by (auto simp: run_cycle_def batch_def Let_def evaluate_def emit_suggestion_def sorted_list_of_set_remove
        simp del: sorted_list_of_set_insert_remove split: prod.splits)
qed

lemma round_robin_word: "round_robin_spec (unat (of_nat n :: u64)) w = round_robin_spec n w"
  by (simp add: round_robin_spec_def unsigned_of_nat take_bit_eq_mod)

locale event_bus = mpsc_channel mp capacity contents receiving
  for mp :: "(BusItem, 'c) mpsc" and capacity :: "'c \<Rightarrow> nat" and contents :: "'c \<Rightarrow> BusItem list" and receiving :: "'c \<Rightarrow> bool"
begin

lemma send_refines:
  assumes "tracks capacity contents receiving n s a" "spec_step n drop_policy (Send e) a = (obs, a')"
  shows "\<exists>s'. bus_step mp drop_policy (Send e) s = Some (obs, s') \<and> tracks capacity contents receiving n s' a'"
proof -
  let ?c = "sc_receiver s"
  obtain r c where rc: "mp_try_send mp (bus_item e) ?c = (r, c)" by fastforce
  have facts: "r = (if length (bs_queue a) < n then Ok () else Err Full)"
      "contents c = (if length (bs_queue a) < n then map bus_item (bs_queue a @ [e]) else map bus_item (bs_queue a))"
      "capacity c = n" "receiving c"
    using send_result [of "bus_item e" ?c] send_contents [of "bus_item e" ?c] send_keeps [of "bus_item e" ?c] assms(1)
    by (simp_all add: rc tracks_def)
  then show ?thesis
    using assms
    by (intro exI [of _ "s\<lparr>sc_receiver := c\<rparr>"])
       (auto simp: EventSender_try_send_def rc tracks_def split: if_splits DropPolicy.splits)
qed

lemma cycle_refines:
  assumes t: "tracks capacity contents receiving n s a" and "spec_step n drop_policy Cycle a = (obs, a')"
  shows "\<exists>s'. bus_step mp drop_policy Cycle s = Some (obs, s') \<and> tracks capacity contents receiving n s' a'"
proof -
  let ?q = "bs_queue a" and ?es = "bs_consumed a"
  obtain c where drained: "EventReceiver_drain_all mp (sc_receiver s) = Some (map bus_item ?q, c)"
      and c: "contents c = []" "capacity c = n" "receiving c"
    using drain_loop_contents [of "[]" "sc_receiver s"] t by (auto simp: EventReceiver_drain_all_def tracks_def)
  show ?thesis
  proof (cases "?q = []")
    case True
    then show ?thesis using assms drained c by (auto simp: run_cycle_def tracks_def)
  next
    case False
    obtain st cur where b: "batch (map bus_item ?q) (sc_state s, sc_current_entity s) = (st, cur)" by fastforce
    have buf: "ss_replay_buffer (sc_state s) = map (\<lambda>e. (env_sequence_id e, e)) (lastn 1024 ?es)"
      using t by (simp add: tracks_def)
    note st = batch_eq [OF buf False b]
    define waiting where "waiting = bs_waiting a \<union> set (map env_source_actor ?q)"
    define entity where "entity = round_robin_spec (length (?es @ ?q)) waiting"
    have total: "ss_total_events_consumed st = of_nat (length (?es @ ?q))" using st(2) t by (simp add: tracks_def)
    then have "round_robin_spec (unat (ss_total_events_consumed st)) w = round_robin_spec (length (?es @ ?q)) w" for w
      by (simp only: round_robin_word)
    then have run: "run_cycle mp s = Some (Some entity,
        s\<lparr>sc_receiver := c, sc_state := st\<lparr>ss_last_suggestion := Some entity\<rparr>, sc_current_entity := cur,
          sc_pending := sorted_list_of_set (waiting - {entity})\<rparr>)"
      using run_cycle_batch [OF drained _ _ _ _ b, of "bs_waiting a"] False t
      by (simp add: tracks_def waiting_def entity_def image_image)
    have gaps: "ss_detected_gaps st = of_nat (seq_gaps None (map env_sequence_id (?es @ ?q)))"
      if one: "\<forall>e \<in> set (?es @ ?q). env_source_actor e = actor" for actor
    proof -
      have "sc_current_entity s = None \<or> sc_current_entity s = Some actor"
        using t one last_of_None_source [of ?es env_source_actor actor] by (simp add: tracks_def)
      then have "ss_detected_gaps st = ss_detected_gaps (sc_state s) +
          of_nat (seq_gaps (ss_last_sequence_id (sc_state s)) (map env_sequence_id ?q))"
        using one by (intro st(6) [of actor]) auto
      then show ?thesis using t one by (auto simp: tracks_def seq_gaps_append last_of_id)
    qed
    have "a' = \<lparr>bs_queue = [], bs_consumed = ?es @ ?q, bs_waiting = waiting - {entity}, bs_last_suggestion = Some entity\<rparr>"
        "obs = Suggested (Some entity)"
      using assms(2) False by (simp_all add: Let_def waiting_def entity_def)
    moreover have "finite waiting" using t by (simp add: waiting_def tracks_def)
    ultimately show ?thesis
      using run st(1,3,5) total gaps c t False by (simp add: tracks_def last_of_append) (auto simp: last_of_def)
  qed
qed

lemma bus_run_refines:
  assumes "tracks capacity contents receiving n s a"
  shows "\<exists>s'. bus_run mp drop_policy ops s = Some (fst (spec_run n drop_policy ops a), s') \<and>
    tracks capacity contents receiving n s' (snd (spec_run n drop_policy ops a))"
  using assms
proof (induction ops arbitrary: s a)
  case (Cons op ops)
  obtain obs a1 where a1: "spec_step n drop_policy op a = (obs, a1)" by fastforce
  obtain s1 where s1: "bus_step mp drop_policy op s = Some (obs, s1)" "tracks capacity contents receiving n s1 a1"
    using send_refines [OF Cons.prems] cycle_refines [OF Cons.prems] a1 by (cases op) blast+
  show ?case using Cons.IH [OF s1(2)] s1(1) a1 by (auto split: prod.splits)
qed simp

end

interpretation bounded_bus: event_bus bounded_queue bq_capacity bq_items bq_receiving
  by (rule event_bus.intro) (rule bounded_queue_contract)


definition sample_event :: "string \<Rightarrow> u64 \<Rightarrow> SchedulerEventEnvelope" where
  "sample_event i seq =
     (let t = BusTriple ''t1'' ''actor'' i in SchedulerEventEnvelope_new (\<lambda>bs. bs) (\<lambda>s. s) (BusExecutionCompleted t seq) t seq)"


text \<open>
  The gap counter is not a function of the stream: detection runs over the whole batch before routing empties
  the counter at a switch, so a gap behind a switch in the same batch is forgotten, and kept when the same
  events arrive in batches of their own.
\<close>

lemma gaps_depend_on_batching:
  defines "first \<equiv> bus_item (sample_event ''a'' 1)"
    and "second \<equiv> bus_item (sample_event ''b'' 1)" and "third \<equiv> bus_item (sample_event ''b'' 5)"
  shows "ss_detected_gaps (fst (batch [first, second, third] (SchedulerState_new, None))) = 0 \<and>
    ss_detected_gaps (fst (batch [third] (batch [second] (batch [first] (SchedulerState_new, None))))) = 1"
  by (simp add: first_def second_def third_def batch_def sample_event_def SchedulerEventEnvelope_new_def Let_def
      SchedulerState_new_def reduce_apply_def SchedulerState_apply_def)

end
