(* ===== verification/Ego_Entity_Scheduler.thy ===== *)
theory Ego_Entity_Scheduler
  imports Ego_Entity_Actor Ego_Scheduler
begin

text \<open>
  The feedback an entity actor gives to the scheduler of its own crate
  (\<open>crates/persistent-entity/src/scheduler_event.rs\<close>, \<open>scheduler.rs\<close>, \<open>scheduler_policy.rs\<close>): emission with a
  sequence number that is spent whether or not the bus takes the event, draining, the counters and the replay
  buffer, and the advisory suggestion. The order in which a \<open>HashSet\<close> is iterated is an argument. An emission is
  two atomic steps, the counter's \<open>fetch_add\<close> and the channel's \<open>try_send\<close>.
\<close>

section \<open>Emission\<close>

definition DEFAULT_EVENT_BUS_CAPACITY :: nat where
  "DEFAULT_EVENT_BUS_CAPACITY = 4096"

definition DEFAULT_REPLAY_BUFFER_CAPACITY :: nat where
  "DEFAULT_REPLAY_BUFFER_CAPACITY = 1024"

type_synonym feedback_item = "u64 \<times> SchedulerEvent"

definition take_sequence :: "u64 \<Rightarrow> u64 \<times> u64" where
  "take_sequence sequence_counter = (sequence_counter, sequence_counter + 1)"

definition send_sequenced :: "(feedback_item, 'c) mpsc \<Rightarrow> u64 \<Rightarrow> SchedulerEvent \<Rightarrow> 'c \<Rightarrow> bool \<times> 'c" where
  "send_sequenced mp seq event c = (case mp_try_send mp (seq, event) c of (r, c') \<Rightarrow> (is_ok r, c'))"

definition EventSender_emit :: "(feedback_item, 'c) mpsc \<Rightarrow> SchedulerEvent \<Rightarrow> u64 \<times> 'c \<Rightarrow> bool \<times> u64 \<times> 'c" where
  "EventSender_emit mp event tx =
     (let (seq, counter) = take_sequence (fst tx); (accepted, c) = send_sequenced mp seq event (snd tx)
      in (accepted, counter, c))"

definition feedback_channel :: "(feedback_item, 'c) mpsc \<Rightarrow> nat \<Rightarrow> (u64 \<times> 'c) option" where
  "feedback_channel mp capacity = (if capacity = 0 then None else Some (0, mp_channel mp capacity))"

text \<open>\<open>SchedulerEventSender::noop\<close>: the receiver is gone from the start.\<close>

definition EventSender_noop :: "(feedback_item, 'c) mpsc \<Rightarrow> u64 \<times> 'c" where
  "EventSender_noop mp = (0, mp_drop_receiver mp (mp_channel mp 1))"

section \<open>The scheduler's view\<close>

record EntitySchedulerState =
  es_total_events_consumed :: u64
  es_last_drain_count :: nat
  es_last_sequence_id :: "u64 option"
  es_detected_gaps :: u64
  es_last_suggestion :: "EntityTriple option"
  es_replay_buffer :: "feedback_item list"

definition EntitySchedulerState_new :: EntitySchedulerState where
  "EntitySchedulerState_new =
     \<lparr>es_total_events_consumed = 0, es_last_drain_count = 0, es_last_sequence_id = None, es_detected_gaps = 0,
      es_last_suggestion = None, es_replay_buffer = []\<rparr>"

fun apply_each :: "feedback_item list \<Rightarrow> EntitySchedulerState \<Rightarrow> EntitySchedulerState" where
  "apply_each [] s = s"
| "apply_each ((seq, event) # events) s =
     (let s1 = (case es_last_sequence_id s of
             Some last_seq \<Rightarrow> if seq \<noteq> last_seq + 1 then s\<lparr>es_detected_gaps := es_detected_gaps s + 1\<rparr> else s
           | None \<Rightarrow> s);
          buffer = es_replay_buffer s1;
          room = (if DEFAULT_REPLAY_BUFFER_CAPACITY \<le> length buffer then tl buffer else buffer)
      in apply_each events (s1\<lparr>es_last_sequence_id := Some seq, es_replay_buffer := room @ [(seq, event)]\<rparr>))"

definition apply_drained_events :: "feedback_item list \<Rightarrow> EntitySchedulerState \<Rightarrow> EntitySchedulerState" where
  "apply_drained_events events s =
     apply_each events
       (s\<lparr>es_last_drain_count := length events,
          es_total_events_consumed := es_total_events_consumed s + of_nat (length events)\<rparr>)"

definition clear_replay_buffer :: "EntitySchedulerState \<Rightarrow> EntitySchedulerState" where
  "clear_replay_buffer s = s\<lparr>es_replay_buffer := []\<rparr>"

text \<open>\<open>SchedulerInner\<close>: the receiver and the state, behind one lock.\<close>

record 'c SchedulerInner =
  si_receiver :: 'c
  si_state :: EntitySchedulerState

definition SchedulerInner_new :: "'c \<Rightarrow> 'c SchedulerInner" where
  "SchedulerInner_new receiver = \<lparr>si_receiver = receiver, si_state = EntitySchedulerState_new\<rparr>"

definition drain_and_update :: "(feedback_item, 'c) mpsc \<Rightarrow> 'c SchedulerInner \<Rightarrow> (nat \<times> 'c SchedulerInner) option" where
  "drain_and_update mp inner =
     (case drain_loop mp [] (si_receiver inner) of
        None \<Rightarrow> None
      | Some (events, c) \<Rightarrow>
          Some (length events, \<lparr>si_receiver = c, si_state = apply_drained_events events (si_state inner)\<rparr>))"

definition scheduler_state :: "(feedback_item, 'c) mpsc \<Rightarrow> 'c SchedulerInner \<Rightarrow> (EntitySchedulerState \<times> 'c SchedulerInner) option" where
  "scheduler_state mp inner = map_option (\<lambda>(_, inner'). (si_state inner', inner')) (drain_and_update mp inner)"

text \<open>\<open>RoundRobinPolicy\<close> on the pending set in its iteration order.\<close>

definition RoundRobinPolicy_suggest_activation :: "EntityTriple list \<Rightarrow> EntityTriple option" where
  "RoundRobinPolicy_suggest_activation pending = (if pending = [] then None else Some (hd pending))"

definition suggest_activation ::
  "(feedback_item, 'c) mpsc \<Rightarrow> (EntityTriple list \<Rightarrow> EntityTriple option) \<Rightarrow> EntityTriple list \<Rightarrow> 'c SchedulerInner \<Rightarrow>
   (EntityTriple option \<times> 'c SchedulerInner) option" where
  "suggest_activation mp policy pending inner =
     (case drain_and_update mp inner of
        None \<Rightarrow> None
      | Some (_, inner') \<Rightarrow>
          (let suggestion = policy pending
           in Some (suggestion, inner'\<lparr>si_state := (si_state inner')\<lparr>es_last_suggestion := suggestion\<rparr>\<rparr>)))"

section \<open>A run\<close>

text \<open>
  One actor emits while the scheduler is used, in any order; the result collects which emissions the bus took.
\<close>

datatype feedback_op = Emit SchedulerEvent | DrainPending | ReadState | ClearReplay | Suggest "EntityTriple list"

fun feedback_step ::
  "(feedback_item, 'c) mpsc \<Rightarrow> feedback_op \<Rightarrow> bool list \<times> u64 \<times> 'c SchedulerInner \<Rightarrow> (bool list \<times> u64 \<times> 'c SchedulerInner) option" where
  "feedback_step mp (Emit event) (taken, counter, inner) =
     (let (accepted, counter', c) = EventSender_emit mp event (counter, si_receiver inner)
      in Some (taken @ [accepted], counter', inner\<lparr>si_receiver := c\<rparr>))"
| "feedback_step mp DrainPending (taken, counter, inner) =
     map_option (\<lambda>(_, inner'). (taken, counter, inner')) (drain_and_update mp inner)"
| "feedback_step mp ReadState (taken, counter, inner) =
     map_option (\<lambda>(_, inner'). (taken, counter, inner')) (scheduler_state mp inner)"
| "feedback_step mp ClearReplay (taken, counter, inner) =
     Some (taken, counter, inner\<lparr>si_state := clear_replay_buffer (si_state inner)\<rparr>)"
| "feedback_step mp (Suggest pending) (taken, counter, inner) =
     map_option (\<lambda>(_, inner'). (taken, counter, inner'))
       (suggest_activation mp RoundRobinPolicy_suggest_activation pending inner)"

fun feedback_run ::
  "(feedback_item, 'c) mpsc \<Rightarrow> feedback_op list \<Rightarrow> bool list \<times> u64 \<times> 'c SchedulerInner \<Rightarrow> (bool list \<times> u64 \<times> 'c SchedulerInner) option" where
  "feedback_run mp [] w = Some w"
| "feedback_run mp (op # ops) w = Option.bind (feedback_step mp op w) (feedback_run mp ops)"

section \<open>Gaps and losses\<close>

text \<open>The numbers of the emissions that were taken.\<close>

definition taken_numbers :: "bool list \<Rightarrow> nat list" where
  "taken_numbers taken = filter (\<lambda>i. taken ! i) [0..<length taken]"

lemma taken_numbers_Nil [simp]: "taken_numbers [] = []"
  by (simp add: taken_numbers_def)

lemma taken_numbers_snoc [simp]:
  "taken_numbers (taken @ [b]) = taken_numbers taken @ (if b then [length taken] else [])"
  unfolding taken_numbers_def by (auto simp: nth_append intro!: filter_cong)

lemma taken_numbers_sorted: "sorted (taken_numbers taken)" "distinct (taken_numbers taken)"
  by (simp_all add: taken_numbers_def sorted_wrt_filter)

lemma taken_numbers_less: "i \<in> set (taken_numbers taken) \<Longrightarrow> i < length taken"
  by (simp add: taken_numbers_def)

lemma apply_each_eq:
  "es_total_events_consumed (apply_each events s) = es_total_events_consumed s"
  "es_last_sequence_id (apply_each events s) = last_of fst events (es_last_sequence_id s)"
  "es_detected_gaps (apply_each events s) = es_detected_gaps s + of_nat (seq_gaps (es_last_sequence_id s) (map fst events))"
  by (induction events s rule: apply_each.induct) (auto simp: Let_def split: option.splits)

lemma seq_gaps_le: "seq_gaps p seqs \<le> length seqs"
  by (induction p seqs rule: seq_gaps.induct) (auto split: option.splits)

lemma u64_of_nat_eq: "m < 2 ^ 64 \<Longrightarrow> n < 2 ^ 64 \<Longrightarrow> (of_nat m :: u64) = of_nat n \<longleftrightarrow> m = n"
  by (simp add: word_of_nat_eq_iff take_bit_nat_eq_self)

lemma no_gap_after:
  assumes "Suc p < 2 ^ 64" "\<forall>x \<in> set xs. Suc x < 2 ^ 64"
  shows "seq_gaps (Some (of_nat p :: u64)) (map of_nat xs) = 0 \<longleftrightarrow> xs = [Suc p..<Suc p + length xs]"
  using assms
proof (induction xs arbitrary: p)
  case (Cons x xs)
  have "(of_nat x :: u64) = of_nat p + 1 \<longleftrightarrow> x = Suc p"
    using u64_of_nat_eq [of x "Suc p"] Cons.prems by (simp add: add.commute)
  moreover have "[Suc p..<Suc p + length (x # xs)] = Suc p # [Suc (Suc p)..<Suc (Suc p) + length xs]"
    by (simp add: upt_rec)
  ultimately show ?case using Cons.IH [of "Suc p"] Cons.prems by auto
qed simp

lemma no_gap_iff:
  assumes "\<forall>x \<in> set xs. Suc x < 2 ^ 64" "xs \<noteq> [] \<longrightarrow> hd xs = 0"
  shows "seq_gaps None (map of_nat xs :: u64 list) = 0 \<longleftrightarrow> xs = [0..<length xs]"
  using assms no_gap_after [of 0 "tl xs"] by (cases xs) (auto simp: upt_rec)

lemma hd_taken_numbers: "taken \<noteq> [] \<Longrightarrow> hd taken \<Longrightarrow> taken_numbers taken \<noteq> [] \<and> hd (taken_numbers taken) = 0"
  by (cases taken) (simp_all add: taken_numbers_def upt_conv_Cons del: upt_Suc)

locale feedback_bus = mpsc_channel mp capacity contents receiving
  for mp :: "(feedback_item, 'c) mpsc" and capacity :: "'c \<Rightarrow> nat" and contents :: "'c \<Rightarrow> feedback_item list" and receiving :: "'c \<Rightarrow> bool"
begin

definition view :: "nat list \<Rightarrow> nat list \<Rightarrow> 'c SchedulerInner \<Rightarrow> bool" where
  "view consumed queued inner \<longleftrightarrow>
     receiving (si_receiver inner) \<and> 0 < capacity (si_receiver inner) \<and>
     map fst (contents (si_receiver inner)) = map of_nat queued \<and>
     es_total_events_consumed (si_state inner) = of_nat (length consumed) \<and>
     es_last_sequence_id (si_state inner) = last_of of_nat consumed None \<and>
     es_detected_gaps (si_state inner) = of_nat (seq_gaps None (map of_nat consumed))"

definition feedback_inv :: "bool list \<times> u64 \<times> 'c SchedulerInner \<Rightarrow> bool" where
  "feedback_inv w \<longleftrightarrow>
     (case w of (taken, counter, inner) \<Rightarrow>
        counter = of_nat (length taken) \<and> (taken \<noteq> [] \<longrightarrow> hd taken) \<and>
        (\<exists>consumed queued. taken_numbers taken = consumed @ queued \<and> view consumed queued inner))"

lemma feedback_invI:
  assumes "counter = of_nat (length taken)" "taken \<noteq> [] \<longrightarrow> hd taken"
    and "taken_numbers taken = consumed @ queued" "view consumed queued inner"
  shows "feedback_inv (taken, counter, inner)"
  using assms by (auto simp: feedback_inv_def)

lemma drain_view:
  assumes "view consumed queued inner"
  shows "\<exists>inner'. drain_and_update mp inner = Some (length queued, inner') \<and> view (consumed @ queued) [] inner'"
proof -
  obtain c where c: "drain_loop mp [] (si_receiver inner) = Some (contents (si_receiver inner), c)"
      "contents c = []" "capacity c = capacity (si_receiver inner)" "receiving c = receiving (si_receiver inner)"
    using drain_loop_contents [of "[]" "si_receiver inner"] by auto
  have fst: "map fst (contents (si_receiver inner)) = map of_nat queued" using assms by (simp add: view_def)
  have len: "length (contents (si_receiver inner)) = length queued" using arg_cong [OF fst, of length] by simp
  have "last_of fst (contents (si_receiver inner)) y = last_of of_nat queued y" for y
    using fst last_of_map [of id fst "contents (si_receiver inner)" y] last_of_map [of id of_nat queued y] by simp
  then show ?thesis
    using assms c fst len
    by (simp add: view_def drain_and_update_def apply_drained_events_def apply_each_eq seq_gaps_append last_of_id last_of_append)
qed

lemma emit_view:
  assumes "view consumed queued inner" "EventSender_emit mp event (of_nat n, si_receiver inner) = (accepted, counter, c)"
  shows "counter = of_nat (Suc n)" "view consumed (queued @ (if accepted then [n] else [])) (inner\<lparr>si_receiver := c\<rparr>)"
    "contents (si_receiver inner) = [] \<Longrightarrow> accepted"
proof -
  let ?c = "si_receiver inner"
  obtain r where r: "mp_try_send mp (of_nat n, event) ?c = (r, c)" "accepted = is_ok r" "counter = of_nat n + 1"
    using assms(2) by (auto simp: EventSender_emit_def take_sequence_def send_sequenced_def Let_def split: prod.splits)
  then show "counter = of_nat (Suc n)" by (simp add: add.commute)
  show "view consumed (queued @ (if accepted then [n] else [])) (inner\<lparr>si_receiver := c\<rparr>)"
    "contents ?c = [] \<Longrightarrow> accepted"
    using send_result [of "(of_nat n, event)" ?c] send_contents [of "(of_nat n, event)" ?c] send_keeps [of "(of_nat n, event)" ?c]
      assms(1) r by (auto simp: view_def split: if_splits)
qed

lemma noop_discards: "\<not> fst (EventSender_emit mp event (n, mp_drop_receiver mp c))"
  using send_result [of "(n, event)" "mp_drop_receiver mp c"] drop_receiver [of c]
  by (auto simp: EventSender_emit_def take_sequence_def send_sequenced_def Let_def split: prod.splits)

lemma feedback_step_inv:
  assumes "feedback_inv w"
  shows "\<exists>w'. feedback_step mp op w = Some w' \<and> feedback_inv w'"
proof -
  obtain taken inner consumed queued where w: "w = (taken, of_nat (length taken), inner)" "taken \<noteq> [] \<longrightarrow> hd taken"
      and v: "taken_numbers taken = consumed @ queued" "view consumed queued inner"
    using assms by (auto simp: feedback_inv_def)
  obtain inner' where d: "drain_and_update mp inner = Some (length queued, inner')" "view (consumed @ queued) [] inner'"
    using drain_view [OF v(2)] by blast
  have drained: "feedback_inv (taken, of_nat (length taken), inner'\<lparr>si_state := (si_state inner')\<lparr>es_last_suggestion := x\<rparr>\<rparr>)"
      "feedback_inv (taken, of_nat (length taken), inner')" for x
    using w(2) v(1) d(2) by (auto intro!: feedback_invI [where consumed = "consumed @ queued" and queued = "[]"] simp: view_def)
  show ?thesis
  proof (cases op)
    case (Emit event)
    obtain accepted counter c where e: "EventSender_emit mp event (of_nat (length taken), si_receiver inner) = (accepted, counter, c)"
      by (metis prod_cases3)
    have "accepted" if "taken = []" using emit_view(3) [OF v(2) e] v that by (auto simp: view_def)
    then have "taken @ [accepted] \<noteq> [] \<longrightarrow> hd (taken @ [accepted])" using w(2) by (cases taken) auto
    then have "feedback_inv (taken @ [accepted], counter, inner\<lparr>si_receiver := c\<rparr>)"
      using emit_view(1,2) [OF v(2) e] v(1) by (intro feedback_invI) simp_all
    then show ?thesis using Emit w(1) e by simp
  next
    case ClearReplay
    moreover have "feedback_inv (taken, of_nat (length taken), inner\<lparr>si_state := clear_replay_buffer (si_state inner)\<rparr>)"
      using w(2) v by (intro feedback_invI) (auto simp: view_def clear_replay_buffer_def)
    ultimately show ?thesis using w(1) by simp
  qed (use drained d(1) in \<open>auto simp: w(1) scheduler_state_def suggest_activation_def Let_def\<close>)
qed

lemma feedback_run_inv: "feedback_inv w \<Longrightarrow> \<exists>w'. feedback_run mp ops w = Some w' \<and> feedback_inv w'"
proof (induction ops arbitrary: w)
  case (Cons op ops)
  obtain w1 where "feedback_step mp op w = Some w1" "feedback_inv w1" using feedback_step_inv [OF Cons.prems] by blast
  then show ?case using Cons.IH [of w1] by simp
qed simp

lemma view_gaps:
  assumes "view consumed queued inner" "taken_numbers taken = consumed @ queued" "taken \<noteq> [] \<longrightarrow> hd taken" "length taken < 2 ^ 64"
  shows "es_detected_gaps (si_state inner) = 0 \<longleftrightarrow> consumed = [0..<length consumed]"
proof -
  have less: "Suc i < 2 ^ 64" if "i \<in> set consumed" for i
    using taken_numbers_less [of i taken] that assms(2,4) by simp
  have "length consumed \<le> length taken"
    using arg_cong [OF assms(2), of length] length_filter_le [of "\<lambda>i. taken ! i" "[0..<length taken]"]
    by (simp add: taken_numbers_def)
  then have "seq_gaps None (map of_nat consumed :: u64 list) < 2 ^ 64"
    using seq_gaps_le [of None "map of_nat consumed :: u64 list"] assms(4) by simp
  then have "es_detected_gaps (si_state inner) = 0 \<longleftrightarrow> seq_gaps None (map of_nat consumed :: u64 list) = 0"
    using assms(1) u64_of_nat_eq [of "seq_gaps None (map of_nat consumed :: u64 list)" 0] by (simp add: view_def)
  moreover have "hd consumed = 0" if "consumed \<noteq> []"
    using hd_taken_numbers [of taken] assms(2,3) that by (cases taken) auto
  ultimately show ?thesis using no_gap_iff [of consumed] less by simp
qed

end

interpretation bounded_feedback: feedback_bus bounded_queue bq_capacity bq_items bq_receiving
  by (rule feedback_bus.intro) (rule bounded_queue_contract)

text \<open>
  C32: a loss does not go unnoticed. When one actor emits and the scheduler is drained, read, cleared and asked for
  suggestions in any order, every call returns; the total counts the emissions the bus took and the scheduler
  has consumed; and as long as fewer than 2 to the 64 events were emitted, no gap is reported if and only if the
  consumed events are exactly the first ones emitted, that is if and only if nothing emitted before the last
  consumed event was dropped.
\<close>

theorem lost_feedback_is_noticed:
  assumes "mpsc_channel mp capacity contents receiving" "feedback_channel mp n = Some (counter, c)"
  shows "\<exists>taken counter' inner k.
    feedback_run mp ops ([], counter, SchedulerInner_new c) = Some (taken, counter', inner) \<and>
    length (taken_numbers taken) = k + length (contents (si_receiver inner)) \<and>
    es_total_events_consumed (si_state inner) = of_nat k \<and>
    (length taken < 2 ^ 64 \<longrightarrow> es_detected_gaps (si_state inner) = 0 \<longleftrightarrow> take k (taken_numbers taken) = [0..<k])"
proof -
  have bus: "feedback_bus mp capacity contents receiving" using assms(1) by (rule feedback_bus.intro)
  have c: "0 < n" "counter = 0" "c = mp_channel mp n"
    using assms(2) by (auto simp: feedback_channel_def split: if_splits)
  have "feedback_bus.view capacity contents receiving [] [] (SchedulerInner_new c)"
    using mpsc_channel.channel [OF assms(1) c(1)]
    by (simp add: feedback_bus.view_def [OF bus] SchedulerInner_new_def EntitySchedulerState_new_def c(1,3))
  then obtain taken counter' inner where run: "feedback_run mp ops ([], counter, SchedulerInner_new c) = Some (taken, counter', inner)"
      and inv: "feedback_bus.feedback_inv capacity contents receiving (taken, counter', inner)"
    using feedback_bus.feedback_run_inv [OF bus, of "([], counter, SchedulerInner_new c)" ops]
      feedback_bus.feedback_invI [OF bus, of counter "[]" "[]" "[]"] c(2) by fastforce
  then obtain consumed queued where v: "feedback_bus.view capacity contents receiving consumed queued inner"
      "taken_numbers taken = consumed @ queued" "taken \<noteq> [] \<longrightarrow> hd taken"
    by (auto simp: feedback_bus.feedback_inv_def [OF bus])
  have "map fst (contents (si_receiver inner)) = map of_nat queued"
      "es_total_events_consumed (si_state inner) = of_nat (length consumed)"
    using v(1) by (simp_all add: feedback_bus.view_def [OF bus])
  moreover from this(1) have "length (contents (si_receiver inner)) = length queued" by (metis length_map)
  ultimately show ?thesis
    using run v(2) feedback_bus.view_gaps [OF bus v]
    by (intro exI [of _ taken] exI [of _ counter'] exI [of _ inner] exI [of _ "length consumed"]) auto
qed

theorem lost_feedback_is_noticed_witness:
  "\<exists>inner. feedback_run bounded_queue [Emit SlotFreed, Emit SlotFreed, DrainPending, Emit SlotFreed, ReadState]
       ([], 0, SchedulerInner_new (mp_channel bounded_queue 1)) = Some ([True, False, True], 3, inner) \<and>
     es_total_events_consumed (si_state inner) = 2 \<and> es_detected_gaps (si_state inner) \<noteq> 0"
proof -
  let ?ops = "[Emit SlotFreed, Emit SlotFreed, DrainPending, Emit SlotFreed, ReadState]"
  obtain inner where run: "feedback_run bounded_queue ?ops ([], 0, SchedulerInner_new (mp_channel bounded_queue 1)) =
      Some ([True, False, True], 3, inner)" "bq_items (si_receiver inner) = []"
    by (simp add: SchedulerInner_new_def bounded_queue_def EventSender_emit_def take_sequence_def send_sequenced_def
        drain_and_update_def drain_loop.simps scheduler_state_def Let_def)
  have taken: "taken_numbers [True, False, True] = [0, 2]" by (simp add: taken_numbers_def upt_conv_Cons del: upt_Suc)
  have "\<not> take 2 (taken_numbers [True, False, True]) = [0..<2]" unfolding taken by (simp add: upt_conv_Cons)
  then show ?thesis
    using lost_feedback_is_noticed [OF bounded_queue_contract, of 1 0 "mp_channel bounded_queue 1" ?ops] run taken
    by (auto simp: feedback_channel_def)
qed

text \<open>
  With two actors a gap need not be a loss: between taking a number and sending, the other may come in between.
  Here both events arrive, in the wrong order, and a gap is reported.
\<close>

lemma interleaved_senders_look_like_loss:
  fixes event :: SchedulerEvent
  defines "first \<equiv> take_sequence 0"
  defines "second \<equiv> take_sequence (snd first)"
  defines "c1 \<equiv> snd (send_sequenced bounded_queue (fst second) event (mp_channel bounded_queue 2))"
  defines "c2 \<equiv> snd (send_sequenced bounded_queue (fst first) event c1)"
  shows "length (bq_items c2) = 2 \<and> es_detected_gaps (apply_drained_events (bq_items c2) EntitySchedulerState_new) = 1"
  by (simp add: first_def second_def c1_def c2_def take_sequence_def send_sequenced_def bounded_queue_def
      apply_drained_events_def EntitySchedulerState_new_def DEFAULT_REPLAY_BUFFER_CAPACITY_def Let_def)

end
