(* ===== verification/Ego_Entity_Runtime.thy ===== *)
theory Ego_Entity_Runtime
  imports Ego_Entity_Routing Ego_Entity_Scheduler Ego_Runtime_Builder
begin

text \<open>
  The entity runtime and its builder (\<open>crates/persistent-entity/src/runtime.rs\<close>, \<open>builder.rs\<close>): configuration and
  its validation, every builder method, the durability check, the assembly, and how an entity reference is
  obtained. A registered component is an identity, \<open>durable\<close> says which stores answer \<open>is_durable\<close>;
  deserialization is a parameter. A panic is \<open>None\<close>.
\<close>

section \<open>Configuration\<close>

record RuntimeConfig =
  cfg_mailbox_capacity :: nat
  cfg_concurrency_budget :: nat
  cfg_passivation_timeout_secs :: nat
  cfg_single_tenant_mode :: bool
  cfg_tenant_id :: string

definition RuntimeConfig_passivation_timeout :: "RuntimeConfig \<Rightarrow> duration" where
  "RuntimeConfig_passivation_timeout config = from_secs (cfg_passivation_timeout_secs config)"

definition RuntimeConfig_validate :: "RuntimeConfig \<Rightarrow> (unit, string \<times> string) result" where
  "RuntimeConfig_validate config =
     (if cfg_mailbox_capacity config = 0 then Err (''mailbox_capacity'', ''must be non-zero'')
      else if cfg_concurrency_budget config = 0 then Err (''concurrency_budget'', ''must be non-zero'')
      else if \<not> cfg_single_tenant_mode config \<and> trim_is_empty (cfg_tenant_id config)
      then Err (''tenant_id'', ''must be non-empty when single_tenant_mode is false'')
      else Ok ())"

definition RuntimeConfig_default :: RuntimeConfig where
  "RuntimeConfig_default =
     \<lparr>cfg_mailbox_capacity = 1000, cfg_concurrency_budget = 10000, cfg_passivation_timeout_secs = 300,
      cfg_single_tenant_mode = True, cfg_tenant_id = []\<rparr>"

definition ceil_secs :: "duration \<Rightarrow> nat" where
  "ceil_secs d = (if d mod 10 ^ 9 > 0 then min (d div 10 ^ 9 + 1) (2 ^ 64 - 1) else d div 10 ^ 9)"

section \<open>The builder\<close>

record EntityRuntimeBuilder =
  eb_mailbox_capacity :: nat
  eb_concurrency_budget :: nat
  eb_passivation_timeout :: duration
  eb_publisher :: "arc option"
  eb_snapshot_strategy :: "arc option"
  eb_single_tenant_mode :: bool
  eb_tenant_id :: string
  eb_registry :: "arc option"
  eb_event_bus_capacity :: nat
  eb_event_store :: "arc option"
  eb_snapshot_store :: "arc option"
  eb_effect_acceptor :: "arc option"
  eb_observability :: "arc option"
  eb_profile :: Profile

definition EntityRuntimeBuilder_new :: EntityRuntimeBuilder where
  "EntityRuntimeBuilder_new =
     \<lparr>eb_mailbox_capacity = 1000, eb_concurrency_budget = 10000, eb_passivation_timeout = from_secs 300,
      eb_publisher = None, eb_snapshot_strategy = None, eb_single_tenant_mode = True, eb_tenant_id = [],
      eb_registry = None, eb_event_bus_capacity = 4096, eb_event_store = None, eb_snapshot_store = None,
      eb_effect_acceptor = None, eb_observability = None, eb_profile = Dev\<rparr>"

datatype entity_registration =
  MailboxCapacity nat
| ConcurrencyBudget nat
| PassivationTimeout duration
| UseSnapshotStrategy arc
| UsePublisher arc
| SingleTenant bool
| UseTenantId string
| UseRegistry arc
| EventBusCapacity nat
| UseEventStore arc
| UseSnapshotStore arc
| UseEffectAcceptor arc
| UseObservability arc
| UseProfile Profile

text \<open>The builder's methods, each of which replaces one field.\<close>

fun entity_register :: "entity_registration \<Rightarrow> EntityRuntimeBuilder \<Rightarrow> EntityRuntimeBuilder" where
  "entity_register (MailboxCapacity cap) b = b\<lparr>eb_mailbox_capacity := cap\<rparr>"
| "entity_register (ConcurrencyBudget budget) b = b\<lparr>eb_concurrency_budget := budget\<rparr>"
| "entity_register (PassivationTimeout timeout) b = b\<lparr>eb_passivation_timeout := timeout\<rparr>"
| "entity_register (UseSnapshotStrategy s) b = b\<lparr>eb_snapshot_strategy := Some s\<rparr>"
| "entity_register (UsePublisher p) b = b\<lparr>eb_publisher := Some p\<rparr>"
| "entity_register (SingleTenant enabled) b = b\<lparr>eb_single_tenant_mode := enabled\<rparr>"
| "entity_register (UseTenantId t) b = b\<lparr>eb_tenant_id := t\<rparr>"
| "entity_register (UseRegistry r) b = b\<lparr>eb_registry := Some r\<rparr>"
| "entity_register (EventBusCapacity cap) b = b\<lparr>eb_event_bus_capacity := cap\<rparr>"
| "entity_register (UseEventStore s) b = b\<lparr>eb_event_store := Some s\<rparr>"
| "entity_register (UseSnapshotStore s) b = b\<lparr>eb_snapshot_store := Some s\<rparr>"
| "entity_register (UseEffectAcceptor a) b = b\<lparr>eb_effect_acceptor := Some a\<rparr>"
| "entity_register (UseObservability obs) b = b\<lparr>eb_observability := Some obs\<rparr>"
| "entity_register (UseProfile profile) b = b\<lparr>eb_profile := profile\<rparr>"

definition entity_with_config :: "RuntimeConfig \<Rightarrow> EntityRuntimeBuilder \<Rightarrow> EntityRuntimeBuilder" where
  "entity_with_config config b =
     fold entity_register
       [MailboxCapacity (cfg_mailbox_capacity config), ConcurrencyBudget (cfg_concurrency_budget config),
        PassivationTimeout (from_secs (cfg_passivation_timeout_secs config)), SingleTenant (cfg_single_tenant_mode config),
        UseTenantId (cfg_tenant_id config)] b"

definition EntityRuntimeBuilder_from_value ::
  "('v \<Rightarrow> (RuntimeConfig, 'e) result) \<Rightarrow> 'v \<Rightarrow> (EntityRuntimeBuilder, 'e) result" where
  "EntityRuntimeBuilder_from_value deserialize v =
     map_sum (\<lambda>e. e) (\<lambda>c. entity_with_config c EntityRuntimeBuilder_new) (deserialize v)"

definition validate_persistence :: "(arc \<Rightarrow> bool) \<Rightarrow> EntityRuntimeBuilder \<Rightarrow> (unit, PersistenceCompositionError) result" where
  "validate_persistence durable b =
     (case require_durably_configured (eb_profile b) (case eb_event_store b of None \<Rightarrow> False | Some s \<Rightarrow> durable s)
             ''event store'' ''EntityRuntimeBuilder::with_event_store(store)'' of
        Inl e \<Rightarrow> Err e
      | Inr _ \<Rightarrow>
          require_durably_configured (eb_profile b) (case eb_snapshot_store b of None \<Rightarrow> False | Some s \<Rightarrow> durable s)
            ''snapshot store'' ''EntityRuntimeBuilder::with_snapshot_store(store)'')"

text \<open>What is registered, or the default the builder makes.\<close>

datatype component = Given arc | DefaultComponent

definition given_or_default :: "arc option \<Rightarrow> component" where
  "given_or_default a = (case a of Some x \<Rightarrow> Given x | None \<Rightarrow> DefaultComponent)"

record EntityRuntime =
  er_registry :: component
  er_event_store :: component
  er_snapshot_store :: component
  er_publisher :: component
  er_snapshot_strategy :: component
  er_config :: RuntimeConfig
  er_effect_acceptor :: "arc option"
  er_observability :: "arc option"
  er_passivation_timeout :: duration

definition EntityRuntimeBuilder_build :: "(arc \<Rightarrow> bool) \<Rightarrow> EntityRuntimeBuilder \<Rightarrow> EntityRuntime option" where
  "EntityRuntimeBuilder_build durable b =
     (case validate_persistence durable b of
        Inl _ \<Rightarrow> None
      | Inr _ \<Rightarrow>
          if eb_event_bus_capacity b = 0 then None
          else Some
            \<lparr>er_registry = given_or_default (eb_registry b), er_event_store = given_or_default (eb_event_store b),
             er_snapshot_store = given_or_default (eb_snapshot_store b), er_publisher = given_or_default (eb_publisher b),
             er_snapshot_strategy = given_or_default (eb_snapshot_strategy b),
             er_config = \<lparr>cfg_mailbox_capacity = eb_mailbox_capacity b, cfg_concurrency_budget = eb_concurrency_budget b,
                cfg_passivation_timeout_secs = ceil_secs (eb_passivation_timeout b),
                cfg_single_tenant_mode = eb_single_tenant_mode b, cfg_tenant_id = eb_tenant_id b\<rparr>,
             er_effect_acceptor = eb_effect_acceptor b, er_observability = eb_observability b,
             er_passivation_timeout = eb_passivation_timeout b\<rparr>)"

definition EntityRuntimeBuilder_try_build ::
  "(arc \<Rightarrow> bool) \<Rightarrow> EntityRuntimeBuilder \<Rightarrow> (EntityRuntime, PersistenceCompositionError) result option" where
  "EntityRuntimeBuilder_try_build durable b =
     (case validate_persistence durable b of
        Inl e \<Rightarrow> Some (Err e)
      | Inr _ \<Rightarrow> map_option Ok (EntityRuntimeBuilder_build durable b))"

section \<open>Entity references\<close>

definition runtime_triple :: "EntityRuntime \<Rightarrow> string \<Rightarrow> string \<Rightarrow> EntityTriple" where
  "runtime_triple r entity_type entity_id =
     \<lparr>et_tenant_id = (if cfg_single_tenant_mode (er_config r) then ''default'' else cfg_tenant_id (er_config r)),
      et_entity_type = entity_type, et_entity_id = entity_id\<rparr>"

definition EntityRuntime_entity_ref ::
  "EntityRuntime \<Rightarrow> nat \<Rightarrow> string \<Rightarrow> string \<Rightarrow> 'm routing \<Rightarrow> (handle, EntityError) result \<times> 'm routing" where
  "EntityRuntime_entity_ref r ctype entity_type entity_id w =
     activate ctype (cfg_mailbox_capacity (er_config r)) (runtime_triple r entity_type entity_id) w"

section \<open>What the builder guarantees\<close>

lemma validate_persistence_Ok:
  "validate_persistence durable b = Ok () \<longleftrightarrow>
     (eb_profile b = Production \<longrightarrow>
        (\<exists>s. eb_event_store b = Some s \<and> durable s) \<and> (\<exists>s. eb_snapshot_store b = Some s \<and> durable s))"
  by (auto simp: validate_persistence_def require_durably_configured_def split: Profile.splits option.splits sum.splits)

lemma ceil_secs_bounds:
  assumes "d < from_secs (2 ^ 64 - 1)"
  shows "d \<le> from_secs (ceil_secs d)" "0 < d \<Longrightarrow> from_secs (ceil_secs d) < d + from_secs 1"
proof -
  define k m where "k = d div 10 ^ 9" and "m = d mod 10 ^ 9"
  have d: "d = k * 10 ^ 9 + m" "m < 10 ^ 9" by (simp_all add: k_def m_def)
  have "k < 2 ^ 64 - 1" using assms by (simp add: k_def from_secs_def less_mult_imp_div_less)
  then have "ceil_secs d = (if m > 0 then k + 1 else k)" unfolding ceil_secs_def k_def [symmetric] m_def [symmetric] by simp
  then show "d \<le> from_secs (ceil_secs d)" "0 < d \<Longrightarrow> from_secs (ceil_secs d) < d + from_secs 1"
    using d by (auto simp: from_secs_def)
qed

text \<open>
  A runtime that \<open>try_build\<close> returns keeps what its builder was told: in production its events and snapshots go to
  registered durable stores; actors wait exactly the configured idle time, and the whole seconds it reports are that
  time rounded up, never down to zero; every entity it refers to belongs to its one tenant.
\<close>

theorem entity_runtime_honours_builder:
  assumes "EntityRuntimeBuilder_try_build durable b = Some (Ok r)" "eb_passivation_timeout b < from_secs (2 ^ 64 - 1)"
  shows "(eb_profile b = Production \<longrightarrow>
       (\<exists>s. er_event_store r = Given s \<and> durable s) \<and> (\<exists>s. er_snapshot_store r = Given s \<and> durable s)) \<and>
    er_passivation_timeout r = eb_passivation_timeout b \<and>
    eb_passivation_timeout b \<le> RuntimeConfig_passivation_timeout (er_config r) \<and>
    (0 < eb_passivation_timeout b \<longrightarrow>
       RuntimeConfig_passivation_timeout (er_config r) < eb_passivation_timeout b + from_secs 1) \<and>
    et_tenant_id (runtime_triple r entity_type entity_id) = (if eb_single_tenant_mode b then ''default'' else eb_tenant_id b)"
proof -
  have v: "validate_persistence durable b = Ok ()" and r: "EntityRuntimeBuilder_build durable b = Some r"
    using assms(1) by (auto simp: EntityRuntimeBuilder_try_build_def split: sum.splits)
  then have "er_config r = \<lparr>cfg_mailbox_capacity = eb_mailbox_capacity b, cfg_concurrency_budget = eb_concurrency_budget b,
        cfg_passivation_timeout_secs = ceil_secs (eb_passivation_timeout b),
        cfg_single_tenant_mode = eb_single_tenant_mode b, cfg_tenant_id = eb_tenant_id b\<rparr>"
      "er_passivation_timeout r = eb_passivation_timeout b"
      "er_event_store r = given_or_default (eb_event_store b)" "er_snapshot_store r = given_or_default (eb_snapshot_store b)"
    by (auto simp: EntityRuntimeBuilder_build_def split: if_splits)
  then show ?thesis
    using v ceil_secs_bounds [OF assms(2)]
    by (auto simp: validate_persistence_Ok RuntimeConfig_passivation_timeout_def runtime_triple_def given_or_default_def)
qed

text \<open>
  The builder does not validate a configuration it is given: a deserialized one with a blank tenant is built, and
  \<open>try_build\<close> panics when the event bus has no capacity.
\<close>

lemma configuration_is_not_validated:
  assumes "deserialize v = Ok (RuntimeConfig_default\<lparr>cfg_single_tenant_mode := False, cfg_tenant_id := '' ''\<rparr>)"
  shows "RuntimeConfig_validate (projr (deserialize v)) \<noteq> Ok () \<and>
    (\<exists>r. EntityRuntimeBuilder_try_build durable (projr (EntityRuntimeBuilder_from_value deserialize v)) = Some (Ok r) \<and>
         et_tenant_id (runtime_triple r entity_type entity_id) = '' '')"
  using assms
  by (simp add: EntityRuntimeBuilder_from_value_def RuntimeConfig_validate_def RuntimeConfig_default_def trim_is_empty_def
      EntityRuntimeBuilder_try_build_def EntityRuntimeBuilder_build_def validate_persistence_def require_durably_configured_def
      entity_with_config_def EntityRuntimeBuilder_new_def runtime_triple_def)

lemma try_build_can_panic:
  "EntityRuntimeBuilder_try_build durable (entity_register (EventBusCapacity 0) EntityRuntimeBuilder_new) = None"
  by (simp add: EntityRuntimeBuilder_try_build_def EntityRuntimeBuilder_build_def validate_persistence_def
      require_durably_configured_def EntityRuntimeBuilder_new_def)

end
