(* ===== verification/Ego_Transport.thy ===== *)
theory Ego_Transport
  imports Ego_Runtime_Builder
begin

text \<open>
  The HTTP boundary (\<open>crates/transport/src\<close>): service errors (\<open>crates/service-sdk/src/error\<close>) and the mapping of
  every error to a status and a fixed reason (\<open>error.rs\<close>), the carriers of the operation key
  (\<open>idempotency.rs\<close>), the extractors for the key, the authenticated context and the trace context
  (\<open>operation_key.rs\<close>, \<open>security.rs\<close>, \<open>propagation.rs\<close>) and the gRPC bind configuration (\<open>config.rs\<close>).

  The header map is the \<open>http\<close> crate's and is a record of its lookups; metrics are the list of counters an
  extractor raises. An extractor runs against the \<open>Runtime\<close> that the builder assembled.
\<close>

section \<open>Service errors\<close>

datatype ServiceError =
  SvcValidation string
| SvcAuthorization string
| SvcInternal string
| SvcNotFound string
| SvcConflict string
| SvcTimeout string
| SvcRateLimit string
| SvcServiceUnavailable string
| SvcBusinessLogic string
| SvcCustom string

datatype ErrorCategory =
  CategoryValidation | CategoryBusiness | CategorySystem | CategoryNetwork | CategoryAuthentication
| CategoryAuthorization | CategoryResource | CategoryTimeout | CategoryUnknown

fun ServiceError_code :: "ServiceError \<Rightarrow> string" where
  "ServiceError_code (SvcValidation _) = ''VALIDATION''"
| "ServiceError_code (SvcAuthorization _) = ''AUTHORIZATION''"
| "ServiceError_code (SvcInternal _) = ''INTERNAL''"
| "ServiceError_code (SvcNotFound _) = ''NOT_FOUND''"
| "ServiceError_code (SvcConflict _) = ''CONFLICT''"
| "ServiceError_code (SvcTimeout _) = ''TIMEOUT''"
| "ServiceError_code (SvcRateLimit _) = ''RATE_LIMIT''"
| "ServiceError_code (SvcServiceUnavailable _) = ''SERVICE_UNAVAILABLE''"
| "ServiceError_code (SvcBusinessLogic _) = ''BUSINESS_LOGIC''"
| "ServiceError_code (SvcCustom _) = ''CUSTOM''"

fun ServiceError_category :: "ServiceError \<Rightarrow> ErrorCategory" where
  "ServiceError_category (SvcValidation _) = CategoryValidation"
| "ServiceError_category (SvcAuthorization _) = CategoryAuthorization"
| "ServiceError_category (SvcInternal _) = CategorySystem"
| "ServiceError_category (SvcNotFound _) = CategoryResource"
| "ServiceError_category (SvcConflict _) = CategoryBusiness"
| "ServiceError_category (SvcTimeout _) = CategoryTimeout"
| "ServiceError_category (SvcRateLimit _) = CategorySystem"
| "ServiceError_category (SvcServiceUnavailable _) = CategorySystem"
| "ServiceError_category (SvcBusinessLogic _) = CategoryBusiness"
| "ServiceError_category (SvcCustom _) = CategoryUnknown"

fun ServiceError_message :: "ServiceError \<Rightarrow> string" where
  "ServiceError_message (SvcValidation m) = m"
| "ServiceError_message (SvcAuthorization m) = m"
| "ServiceError_message (SvcInternal m) = m"
| "ServiceError_message (SvcNotFound m) = m"
| "ServiceError_message (SvcConflict m) = m"
| "ServiceError_message (SvcTimeout m) = m"
| "ServiceError_message (SvcRateLimit m) = m"
| "ServiceError_message (SvcServiceUnavailable m) = m"
| "ServiceError_message (SvcBusinessLogic m) = m"
| "ServiceError_message (SvcCustom m) = m"

fun ServiceError_from_category :: "ErrorCategory \<Rightarrow> ServiceError" where
  "ServiceError_from_category CategoryValidation = SvcValidation ''validation error''"
| "ServiceError_from_category CategoryAuthorization = SvcAuthorization ''authorization error''"
| "ServiceError_from_category CategorySystem = SvcInternal ''system error''"
| "ServiceError_from_category CategoryNetwork = SvcInternal ''network error''"
| "ServiceError_from_category CategoryAuthentication = SvcAuthorization ''authentication error''"
| "ServiceError_from_category CategoryResource = SvcNotFound ''resource error''"
| "ServiceError_from_category CategoryTimeout = SvcTimeout ''timeout error''"
| "ServiceError_from_category CategoryUnknown = SvcInternal ''unknown error''"
| "ServiceError_from_category CategoryBusiness = SvcBusinessLogic ''business logic error''"

section \<open>Error responses\<close>

datatype TransportError =
  BadRequest | Unauthorized | Forbidden | TransportNotFound | TransportConflict | TooManyRequests
| GatewayTimeout | TransportUnavailable | TransportInternal

fun status_code :: "TransportError \<Rightarrow> nat" where
  "status_code BadRequest = 400"
| "status_code Unauthorized = 401"
| "status_code Forbidden = 403"
| "status_code TransportNotFound = 404"
| "status_code TransportConflict = 409"
| "status_code TooManyRequests = 429"
| "status_code GatewayTimeout = 504"
| "status_code TransportUnavailable = 503"
| "status_code TransportInternal = 500"

fun transport_reason :: "TransportError \<Rightarrow> string" where
  "transport_reason BadRequest = ''bad request''"
| "transport_reason Unauthorized = ''unauthorized''"
| "transport_reason Forbidden = ''forbidden''"
| "transport_reason TransportNotFound = ''not found''"
| "transport_reason TransportConflict = ''conflict''"
| "transport_reason TooManyRequests = ''too many requests''"
| "transport_reason GatewayTimeout = ''gateway timeout''"
| "transport_reason TransportUnavailable = ''service unavailable''"
| "transport_reason TransportInternal = ''internal error''"

definition into_response :: "TransportError \<Rightarrow> nat \<times> json" where
  "into_response e = (status_code e, JObject [(''error'', JString (transport_reason e))])"

fun TransportError_from_service :: "ServiceError \<Rightarrow> TransportError" where
  "TransportError_from_service (SvcValidation _) = BadRequest"
| "TransportError_from_service (SvcAuthorization _) = Forbidden"
| "TransportError_from_service (SvcInternal _) = TransportInternal"
| "TransportError_from_service (SvcNotFound _) = TransportNotFound"
| "TransportError_from_service (SvcConflict _) = TransportConflict"
| "TransportError_from_service (SvcTimeout _) = GatewayTimeout"
| "TransportError_from_service (SvcRateLimit _) = TooManyRequests"
| "TransportError_from_service (SvcServiceUnavailable _) = TransportUnavailable"
| "TransportError_from_service (SvcBusinessLogic _) = TransportConflict"
| "TransportError_from_service (SvcCustom _) = TransportInternal"

fun TransportError_from_key_rejection :: "OperationKeyRejection \<Rightarrow> TransportError" where
  "TransportError_from_key_rejection (MissingKey _) = BadRequest"
| "TransportError_from_key_rejection (InvalidKey _ _) = BadRequest"
| "TransportError_from_key_rejection (UnreadableKey _) = BadRequest"

fun TransportError_from_security :: "SecurityError \<Rightarrow> TransportError" where
  "TransportError_from_security (AuthenticationFailed _) = Unauthorized"
| "TransportError_from_security (InvalidCredential _) = Unauthorized"
| "TransportError_from_security (InvalidSubjectId _) = Unauthorized"
| "TransportError_from_security (AuthorizationDenied _) = Forbidden"
| "TransportError_from_security MissingContext = Unauthorized"
| "TransportError_from_security CapabilityNotEnabled = TransportInternal"
| "TransportError_from_security (ProviderError _) = TransportInternal"
| "TransportError_from_security (InvalidAccessRequest _) = BadRequest"
| "TransportError_from_security (TenantMismatch _ _) = Forbidden"
| "TransportError_from_security (CrossTenantDenied _) = Forbidden"

section \<open>Carriers\<close>

text \<open>\<open>HeaderMap::get\<close>, \<open>get_all\<close> and \<open>HeaderValue::to_str\<close>; the map of a gRPC request has the first and the last.\<close>

record 'v HeaderMap =
  hm_get :: "string \<Rightarrow> 'v option"
  hm_get_all :: "string \<Rightarrow> 'v list"
  hm_to_str :: "'v \<Rightarrow> string option"

definition IDEMPOTENCY_KEY_HEADER :: string where
  "IDEMPOTENCY_KEY_HEADER = ''Idempotency-Key''"

definition HeaderCarrier_raw_operation_key :: "'v HeaderMap \<Rightarrow> RawOperationKey" where
  "HeaderCarrier_raw_operation_key headers =
     (case hm_get headers IDEMPOTENCY_KEY_HEADER of
        None \<Rightarrow> KeyAbsent
      | Some value \<Rightarrow> (case hm_to_str headers value of Some raw \<Rightarrow> KeyPresent raw | None \<Rightarrow> KeyUnreadable))"

definition HeaderCarrier_carrier_name :: string where
  "HeaderCarrier_carrier_name = ''http:Idempotency-Key''"

definition IDEMPOTENCY_KEY_METADATA :: string where
  "IDEMPOTENCY_KEY_METADATA = ''idempotency-key''"

definition GrpcMetadataCarrier_raw_operation_key :: "'v HeaderMap \<Rightarrow> RawOperationKey" where
  "GrpcMetadataCarrier_raw_operation_key metadata =
     (case hm_get metadata IDEMPOTENCY_KEY_METADATA of
        None \<Rightarrow> KeyAbsent
      | Some value \<Rightarrow> (case hm_to_str metadata value of Some raw \<Rightarrow> KeyPresent raw | None \<Rightarrow> KeyUnreadable))"

definition GrpcMetadataCarrier_carrier_name :: string where
  "GrpcMetadataCarrier_carrier_name = ''grpc:idempotency-key''"

section \<open>Extractors\<close>

record key_rejected_signal =
  kr_reason :: string
  kr_carrier :: string

fun key_rejected_attributes :: "OperationKeyRejection \<Rightarrow> string \<times> string" where
  "key_rejected_attributes (MissingKey carrier) = (''missing'', carrier)"
| "key_rejected_attributes (InvalidKey carrier _) = (''invalid'', carrier)"
| "key_rejected_attributes (UnreadableKey carrier) = (''unreadable'', carrier)"

definition OperationKeyExtractor_from_request_parts ::
  "Runtime \<Rightarrow> 'v HeaderMap \<Rightarrow> (OperationKey option, TransportError) result \<times> key_rejected_signal list" where
  "OperationKeyExtractor_from_request_parts rt headers =
     (case resolve_operation_key HeaderCarrier_carrier_name (HeaderCarrier_raw_operation_key headers)
             (rt_idempotency_mode rt) of
        Inr key \<Rightarrow> (Ok key, [])
      | Inl rejection \<Rightarrow>
          (Err BadRequest,
           case rt_observability rt of
             None \<Rightarrow> []
           | Some _ \<Rightarrow>
               (let (reason, carrier) = key_rejected_attributes rejection
                in [\<lparr>kr_reason = reason, kr_carrier = carrier\<rparr>])))"

definition AxumRequestContext_header :: "'v HeaderMap \<Rightarrow> RequestContext" where
  "AxumRequestContext_header headers name = Option.bind (hm_get headers name) (hm_to_str headers)"

definition AuthenticatedContext_from_request_parts ::
  "AuthenticationProvider \<Rightarrow> 'v HeaderMap \<Rightarrow> (SecurityContext, TransportError) result" where
  "AuthenticatedContext_from_request_parts authn headers =
     (case BearerExtractor_extract (AxumRequestContext_header headers) of
        Inl _ \<Rightarrow> Err Unauthorized
      | Inr None \<Rightarrow> Err Unauthorized
      | Inr (Some credential) \<Rightarrow>
          (case authn credential of
             Inl _ \<Rightarrow> Err Unauthorized
           | Inr security_context \<Rightarrow> Ok security_context))"

definition TRACEPARENT_HEADER :: string where
  "TRACEPARENT_HEADER = ''traceparent''"

text \<open>\<open>None\<close> is a panic.\<close>

definition TraceContextExtractor_from_request_parts ::
  "TraceContext \<Rightarrow> SpanId \<Rightarrow> 'v HeaderMap \<Rightarrow> TraceContext option" where
  "TraceContextExtractor_from_request_parts root new_span headers =
     originate_trace_context (hm_to_str headers) root new_span (hm_get_all headers TRACEPARENT_HEADER)"

definition traceparent_header :: "TraceContext option \<Rightarrow> string option" where
  "traceparent_header trace_context = map_option to_traceparent trace_context"

section \<open>Configuration\<close>

record GrpcServerConfig =
  gs_bind_address :: string
  gs_port :: "16 word"

definition GrpcServerConfig_default :: GrpcServerConfig where
  "GrpcServerConfig_default = \<lparr>gs_bind_address = ''0.0.0.0'', gs_port = 50051\<rparr>"

definition GrpcServerConfig_validate :: "GrpcServerConfig \<Rightarrow> (unit, string \<times> string) result" where
  "GrpcServerConfig_validate config =
     (if gs_bind_address config = [] then Err (''bind_address'', ''must not be empty'')
      else if gs_port config = 0 then Err (''port'', ''must be non-zero'')
      else Ok ())"

section \<open>Responses\<close>

text \<open>
  A response is one of nine, whatever the error says: two errors that differ only in their texts are answered
  alike.
\<close>

lemma response_hides_texts:
  "ServiceError_code e = ServiceError_code f \<Longrightarrow>
     into_response (TransportError_from_service e) = into_response (TransportError_from_service f)"
  by (cases e; cases f) simp_all

lemma response_is_client_or_server_error: "fst (into_response e) \<in> {400, 401, 403, 404, 409, 429, 500, 503, 504}"
  by (cases e) (simp_all add: into_response_def)

section \<open>Admission\<close>

lemma to_ascii_lowercase_take [simp]: "take n (to_ascii_lowercase s) = to_ascii_lowercase (take n s)"
  by (simp add: to_ascii_lowercase_def take_map)

lemma length_to_ascii_lowercase [simp]: "length (to_ascii_lowercase s) = length s"
  by (simp add: to_ascii_lowercase_def)

lemma bearer_prefix: "is_prefix ''bearer '' (to_ascii_lowercase val) \<longleftrightarrow> to_ascii_lowercase (take 7 val) = ''bearer ''"
  by (simp add: is_prefix_def numeral_eq_Suc)

lemma bearer_length: "to_ascii_lowercase p = ''bearer '' \<Longrightarrow> length p = 7"
  by (drule arg_cong [of _ _ length]) simp

text \<open>A bearer token is what follows seven characters that read \<open>bearer\<close> and a space, in any case.\<close>

lemma bearer_extract_iff:
  assumes "\<And>val. header ''authorization'' = Some val \<Longrightarrow> \<forall>c \<in> set val. (of_char c :: nat) < 128"
  shows "BearerExtractor_extract header = Ok (Some credential) \<longleftrightarrow>
    (\<exists>p token. header ''authorization'' = Some (p @ token) \<and> to_ascii_lowercase p = ''bearer '' \<and>
       \<not> is_prefix '' '' token \<and> credential = Bearer token)"
proof (cases "header ''authorization''")
  case None
  then show ?thesis by (simp add: BearerExtractor_extract_def)
next
  case (Some val)
  show ?thesis
  proof (cases "to_ascii_lowercase (take 7 val) = ''bearer ''")
    case True
    have len: "7 \<le> length val" using arg_cong [OF True, of length] by simp
    then have "str_get_from val 7 = Some (drop 7 val)"
      using ascii_boundary [of val 7] assms [OF Some] by (simp add: str_get_from_def)
    moreover have "is_prefix ''bearer '' (to_ascii_lowercase val)" using True by (simp only: bearer_prefix)
    moreover have "length val - length (drop 7 (to_ascii_lowercase val)) = 7" using len by simp
    ultimately have "BearerExtractor_extract header = Ok (Some credential) \<longleftrightarrow>
        \<not> is_prefix '' '' (drop 7 val) \<and> credential = Bearer (drop 7 val)"
      using Some by (auto simp: BearerExtractor_extract_def Let_def)
    moreover have "p = take 7 val \<and> token = drop 7 val" if "val = p @ token" "to_ascii_lowercase p = ''bearer ''" for p token
      using that(1) bearer_length [OF that(2)] by simp
    ultimately show ?thesis using Some True by (metis append_take_drop_id option.inject)
  next
    case False
    have "\<not> is_prefix ''bearer '' (to_ascii_lowercase val)" using False unfolding bearer_prefix .
    moreover have "to_ascii_lowercase (take 7 val) = ''bearer ''" if "val = p @ token" "to_ascii_lowercase p = ''bearer ''" for p token
      using that bearer_length [OF that(2)] by simp
    ultimately show ?thesis using Some False by (auto simp: BearerExtractor_extract_def Let_def)
  qed
qed

text \<open>On ASCII the trace parser's slices fall on character boundaries.\<close>

lemma str_split_chars: "p \<in> set (str_split c s) \<Longrightarrow> set p \<subseteq> set s"
  by (induction s arbitrary: p) (fastforce split: if_splits list.splits)+

lemma decode_from_ascii:
  "\<forall>c \<in> set s. (of_char c :: nat) < 128 \<Longrightarrow> i * 2 + n * 2 \<le> length s \<Longrightarrow> decode_from s i n \<noteq> None"
proof (induction n arbitrary: i)
  case (Suc n)
  then show ?case using Suc.IH [of "i + 1"] by (auto simp: ascii_boundary split: option.splits)
qed simp

lemma from_hex_ascii:
  assumes "\<forall>c \<in> set s. (of_char c :: nat) < 128"
  shows "TraceId_from_hex s \<noteq> None" "SpanId_from_hex s \<noteq> None"
  using decode_from_ascii [OF assms] by (simp_all add: TraceId_from_hex_def SpanId_from_hex_def decode_hex_def)

lemma parse_traceparent_ascii:
  assumes "\<forall>c \<in> set s. (of_char c :: nat) < 128"
  shows "parse_traceparent s \<noteq> None"
proof -
  have "\<forall>p \<in> set (str_split CHR ''-'' s). TraceId_from_hex p \<noteq> None \<and> SpanId_from_hex p \<noteq> None"
    using from_hex_ascii str_split_chars assms by blast
  then show ?thesis by (auto simp: parse_traceparent_def split: list.splits option.splits sum.splits if_splits)
qed

lemma trace_extractor_total:
  assumes "\<And>v s. hm_to_str headers v = Some s \<Longrightarrow> \<forall>c \<in> set s. (of_char c :: nat) < 128"
  shows "TraceContextExtractor_from_request_parts root new_span headers \<noteq> None"
proof -
  have "\<forall>v s. hm_to_str headers v = Some s \<longrightarrow> from_inbound new_span s \<noteq> None"
    using parse_traceparent_ascii assms by (simp add: from_inbound_def)
  then show ?thesis
    by (fastforce simp: TraceContextExtractor_from_request_parts_def originate_trace_context_def
        split: list.splits option.splits sum.splits)
qed

lemma built_runtime_mode:
  assumes "RuntimeBuilder_try_build co minted b = Some (Ok rt)"
  shows "rt_idempotency_mode rt = rb_idempotency_mode b" "rb_idempotency_mode b = MandatoryKey \<Longrightarrow> rt_reservation rt \<noteq> None"
  using try_build_Ok [OF assms]
  by (auto simp: build_Some assemble_runtime_def reservation_wiring_of_def validate_idempotency_def
      split: option.splits if_splits)

lemma key_extractor_Ok:
  "fst (OperationKeyExtractor_from_request_parts rt headers) = Ok key \<longleftrightarrow>
     (case key of
        Some k \<Rightarrow> \<exists>v raw. hm_get headers IDEMPOTENCY_KEY_HEADER = Some v \<and> hm_to_str headers v = Some raw \<and>
                    OperationKey_parse raw = Ok k
      | None \<Rightarrow> hm_get headers IDEMPOTENCY_KEY_HEADER = None \<and> rt_idempotency_mode rt = Compatibility)"
  by (auto simp: OperationKeyExtractor_from_request_parts_def resolve_operation_key_def HeaderCarrier_raw_operation_key_def
      split: option.splits sum.splits IdempotencyEnforcementMode.splits)

lemma key_extractor_Err:
  "fst (OperationKeyExtractor_from_request_parts rt headers) = Err e \<Longrightarrow> e = BadRequest"
  by (auto simp: OperationKeyExtractor_from_request_parts_def split: sum.splits)

text \<open>
  C28: the HTTP boundary admits exactly the usable requests. For a runtime the builder returned, and header values
  that read as ASCII, as the \<open>http\<close> crate guarantees: a security context is extracted if and only if the
  \<open>authorization\<close> header is the bearer scheme, in any case, one space and a token that the provider
  authenticates, and any other request is answered with 401; an operation key is extracted if and only if the
  header carries a valid one, its absence is admitted only under a builder in compatibility mode, and any
  other request is answered with 400; under mandatory keys every admitted request therefore has a key and the
  runtime has a store to reserve it in. Reading the trace context never fails and never panics.
\<close>

theorem http_boundary_admits_usable_requests:
  fixes authn :: AuthenticationProvider and headers :: "'v HeaderMap" and rt :: Runtime
  assumes "RuntimeBuilder_try_build co minted b = Some (Ok rt)"
    and ascii: "\<forall>v s. hm_to_str headers v = Some s \<longrightarrow> (\<forall>c \<in> set s. (of_char c :: nat) < 128)"
  defines "admitted \<equiv> AuthenticatedContext_from_request_parts authn headers"
    and "keyed \<equiv> fst (OperationKeyExtractor_from_request_parts rt headers)"
  shows "(admitted = Ok ctx \<longleftrightarrow>
      (\<exists>v p token. hm_get headers ''authorization'' = Some v \<and> hm_to_str headers v = Some (p @ token) \<and>
         to_ascii_lowercase p = ''bearer '' \<and> \<not> is_prefix '' '' token \<and> authn (Bearer token) = Ok ctx)) \<and>
    (admitted = Err e \<longrightarrow> fst (into_response e) = 401) \<and>
    (keyed = Ok (Some k) \<longleftrightarrow>
      (\<exists>v raw. hm_get headers IDEMPOTENCY_KEY_HEADER = Some v \<and> hm_to_str headers v = Some raw \<and>
         OperationKey_parse raw = Ok k)) \<and>
    (keyed = Ok None \<longleftrightarrow> hm_get headers IDEMPOTENCY_KEY_HEADER = None \<and> rb_idempotency_mode b = Compatibility) \<and>
    (keyed = Err e \<longrightarrow> fst (into_response e) = 400) \<and>
    (rb_idempotency_mode b = MandatoryKey \<and> keyed = Ok key \<longrightarrow> key \<noteq> None \<and> rt_reservation rt \<noteq> None) \<and>
    TraceContextExtractor_from_request_parts root new_span headers \<noteq> None"
proof -
  note mode = built_runtime_mode [OF assms(1)]
  define presented where "presented v p token \<longleftrightarrow> hm_get headers ''authorization'' = Some v \<and>
      hm_to_str headers v = Some (p @ token) \<and> to_ascii_lowercase p = ''bearer '' \<and> \<not> is_prefix '' '' token" for v p token
  have header: "AxumRequestContext_header headers ''authorization'' = Some val \<longleftrightarrow>
      (\<exists>v. hm_get headers ''authorization'' = Some v \<and> hm_to_str headers v = Some val)" for val
    by (simp add: AxumRequestContext_header_def bind_eq_Some_conv)
  have bearer: "BearerExtractor_extract (AxumRequestContext_header headers) = Ok (Some credential) \<longleftrightarrow>
      (\<exists>v p token. presented v p token \<and> credential = Bearer token)" for credential
    unfolding presented_def by (subst bearer_extract_iff) (unfold header, use ascii in blast, blast)
  have "admitted = Ok ctx \<longleftrightarrow>
      (\<exists>credential. BearerExtractor_extract (AxumRequestContext_header headers) = Ok (Some credential) \<and> authn credential = Ok ctx)"
    by (auto simp: admitted_def AuthenticatedContext_from_request_parts_def split: sum.splits option.splits)
  then have "admitted = Ok ctx \<longleftrightarrow> (\<exists>v p token. presented v p token \<and> authn (Bearer token) = Ok ctx)"
    unfolding bearer by blast
  moreover have "admitted = Err e \<longrightarrow> fst (into_response e) = 401"
    by (auto simp: admitted_def AuthenticatedContext_from_request_parts_def into_response_def split: sum.splits option.splits)
  moreover have "keyed = Err e \<longrightarrow> fst (into_response e) = 400"
    using key_extractor_Err [of rt headers e] by (auto simp add: keyed_def into_response_def)
  moreover have "keyed = Ok (Some k) \<longleftrightarrow>
      (\<exists>v raw. hm_get headers IDEMPOTENCY_KEY_HEADER = Some v \<and> hm_to_str headers v = Some raw \<and> OperationKey_parse raw = Ok k)"
      "keyed = Ok None \<longleftrightarrow> hm_get headers IDEMPOTENCY_KEY_HEADER = None \<and> rb_idempotency_mode b = Compatibility"
    by (simp_all add: keyed_def key_extractor_Ok mode(1))
  moreover from this(2) have "rb_idempotency_mode b = MandatoryKey \<and> keyed = Ok key \<longrightarrow> key \<noteq> None \<and> rt_reservation rt \<noteq> None"
    using mode(2) by auto
  moreover have "TraceContextExtractor_from_request_parts root new_span headers \<noteq> None"
    by (rule trace_extractor_total) (use ascii in blast)
  ultimately show ?thesis unfolding presented_def conj_assoc by (intro conjI) assumption+
qed

definition ex_context :: SecurityContext where
  "ex_context = SecurityContext_empty (Principal_new User ''alice'')"

definition ex_headers :: "string HeaderMap" where
  "ex_headers =
     \<lparr>hm_get = map_of [(''authorization'', ''Bearer tok''), (''Idempotency-Key'', ''op-1'')],
      hm_get_all = (\<lambda>_. []),
      hm_to_str = (\<lambda>v. if \<forall>c \<in> set v. (of_char c :: nat) < 128 then Some v else None)\<rparr>"

theorem http_boundary_admits_usable_requests_witness:
  "fst (OperationKeyExtractor_from_request_parts (assemble_runtime ex_components (Some ex_wiring) ex_builder) ex_headers) =
     Ok (Some (OperationKey ''op-1'')) \<and>
   AuthenticatedContext_from_request_parts (\<lambda>c. if c = Bearer ''tok'' then Ok ex_context else Err InvalidSignature) ex_headers = Ok ex_context"
proof -
  have built: "RuntimeBuilder_try_build ex_components (OwnerId ''o'') ex_builder =
      Some (Ok (assemble_runtime ex_components (Some ex_wiring) ex_builder))"
    using ex_builder_builds(2) [where reg = "rb_registry ex_builder" and logger = "rb_logger ex_builder"] by simp
  have ascii: "\<forall>v s. hm_to_str ex_headers v = Some s \<longrightarrow> (\<forall>c \<in> set s. (of_char c :: nat) < 128)"
    by (simp add: ex_headers_def)
  note admits = http_boundary_admits_usable_requests [OF built ascii]
  have "\<not> trim_is_empty ''op-1''" by (simp add: trim_is_empty_def)
  then have key: "hm_get ex_headers IDEMPOTENCY_KEY_HEADER = Some ''op-1''" "hm_to_str ex_headers ''op-1'' = Some ''op-1''"
      "OperationKey_parse ''op-1'' = Ok (OperationKey ''op-1'')"
    by (simp_all add: ex_headers_def IDEMPOTENCY_KEY_HEADER_def OperationKey_parse_def MAX_LEN_def)
  have token: "hm_get ex_headers ''authorization'' = Some ''Bearer tok''" "hm_to_str ex_headers ''Bearer tok'' = Some (''Bearer '' @ ''tok'')"
    by (simp_all add: ex_headers_def)
  have bearer: "to_ascii_lowercase ''Bearer '' = ''bearer ''" "\<not> is_prefix '' '' ''tok''" by code_simp+
  show ?thesis
  proof
    show "fst (OperationKeyExtractor_from_request_parts (assemble_runtime ex_components (Some ex_wiring) ex_builder) ex_headers) =
        Ok (Some (OperationKey ''op-1''))"
      using admits key by blast
    show "AuthenticatedContext_from_request_parts (\<lambda>c. if c = Bearer ''tok'' then Ok ex_context else Err InvalidSignature) ex_headers = Ok ex_context"
      using admits [where ctx = ex_context and authn = "\<lambda>c. if c = Bearer ''tok'' then Ok ex_context else Err InvalidSignature"] token bearer
      by (metis (no_types, lifting))
  qed
qed

end
