(* ===== verification/Ego_Execution.thy ===== *)
theory Ego_Execution
  imports Ego_Channel
begin

text \<open>
  The execution runtimes: the backend-neutral \<open>Runtime\<close> with its lifecycle and failures
  (\<open>crates/runtime/src/runtime\<close>) and its two Tokio implementations, the one beside the trait
  (\<open>runtime/runtime.rs\<close>) and the one of \<open>crates/runtime-tokio/src/lib.rs\<close>.

  An identifier is a random UUID and an argument; a map from identifiers is the registry under the mutex. In the
  second implementation a task locks that mutex when it ends, so spawning is two steps between which the task
  may already end; a panic while the mutex is held poisons it, and every later \<open>lock().unwrap()\<close> panics. Tokio's
  own runtime, its threads and its builder are not modelled.
\<close>

section \<open>Lifecycle and failures\<close>

type_synonym ExecutionId = nat

datatype ExecutionState = ExecActive | ExecDraining | ExecTerminated | ExecFailed

datatype SendErrorKind = SendNotFound | SendClosed

record SendError =
  se_id :: ExecutionId
  se_cause :: SendErrorKind

datatype SpawnErrorKind = SpawnClosed | SpawnInternal string

fun SendErrorKind_to_string :: "SendErrorKind \<Rightarrow> string" where
  "SendErrorKind_to_string SendNotFound = ''execution not found''"
| "SendErrorKind_to_string SendClosed = ''execution is closed''"

fun SpawnErrorKind_to_string :: "SpawnErrorKind \<Rightarrow> string" where
  "SpawnErrorKind_to_string SpawnClosed = ''runtime is closed''"
| "SpawnErrorKind_to_string (SpawnInternal msg) = ''internal runtime error: '' @ msg"

section \<open>The implementation beside the trait\<close>

record 'c ExecutionUnit =
  eu_state :: ExecutionState
  eu_sender :: 'c

type_synonym 'c units = "ExecutionId \<rightharpoonup> 'c ExecutionUnit"

text \<open>\<open>let (sender, _receiver) = mpsc::channel(64)\<close>: the receiver ends with the function.\<close>

definition spawn_execution :: "('m, 'c) mpsc \<Rightarrow> ExecutionId \<Rightarrow> 'c units \<Rightarrow> ExecutionId \<times> 'c units" where
  "spawn_execution mp eid units =
     (eid, units(eid \<mapsto> \<lparr>eu_state = ExecActive, eu_sender = mp_drop_receiver mp (mp_channel mp 64)\<rparr>))"

text \<open>The closures of a \<open>RuntimeHandle\<close>, and the methods of the runtime.\<close>

definition send_fn :: "('m, 'c) mpsc \<Rightarrow> ExecutionId \<Rightarrow> 'm \<Rightarrow> 'c units \<Rightarrow> (unit, SendError) result \<times> 'c units" where
  "send_fn mp eid msg units =
     (case units eid of
        None \<Rightarrow> (Err \<lparr>se_id = eid, se_cause = SendNotFound\<rparr>, units)
      | Some unit \<Rightarrow>
          (case eu_state unit of
             ExecActive \<Rightarrow> (Ok (), units(eid \<mapsto> unit\<lparr>eu_sender := snd (mp_try_send mp msg (eu_sender unit))\<rparr>))
           | _ \<Rightarrow> (Err \<lparr>se_id = eid, se_cause = SendClosed\<rparr>, units)))"

definition send_message :: "('m, 'c) mpsc \<Rightarrow> ExecutionId \<Rightarrow> 'm \<Rightarrow> 'c units \<Rightarrow> (unit, SendError) result \<times> 'c units" where
  "send_message mp eid msg units =
     (case units eid of
        None \<Rightarrow> (Err \<lparr>se_id = eid, se_cause = SendNotFound\<rparr>, units)
      | Some unit \<Rightarrow>
          (case eu_state unit of
             ExecActive \<Rightarrow>
               (case mp_try_send mp msg (eu_sender unit) of
                  (r, c) \<Rightarrow> (map_sum (\<lambda>_. \<lparr>se_id = eid, se_cause = SendClosed\<rparr>) (\<lambda>_. ()) r, units(eid \<mapsto> unit\<lparr>eu_sender := c\<rparr>)))
           | _ \<Rightarrow> (Err \<lparr>se_id = eid, se_cause = SendClosed\<rparr>, units)))"

definition shutdown_execution :: "ExecutionId \<Rightarrow> 'c units \<Rightarrow> 'c units" where
  "shutdown_execution eid units =
     (case units eid of
        None \<Rightarrow> units
      | Some unit \<Rightarrow> if eu_state unit = ExecActive then units(eid \<mapsto> unit\<lparr>eu_state := ExecDraining\<rparr>) else units)"

definition execution_state :: "ExecutionId \<Rightarrow> 'c units \<Rightarrow> ExecutionState option" where
  "execution_state eid units = map_option eu_state (units eid)"

section \<open>The Tokio adapter\<close>

datatype 'c UnitState = UnitActive 'c | UnitDraining | UnitTerminated | UnitFailed

fun unit_execution_state :: "'c UnitState \<Rightarrow> ExecutionState" where
  "unit_execution_state (UnitActive _) = ExecActive"
| "unit_execution_state UnitDraining = ExecDraining"
| "unit_execution_state UnitTerminated = ExecTerminated"
| "unit_execution_state UnitFailed = ExecFailed"

text \<open>
  Besides the registry, the flag and the mutex, what Tokio knows: which tasks have been launched but are not yet
  registered, and how tasks ended, \<open>True\<close> without a panic.
\<close>

record 'c TokioRuntime =
  tr_units :: "ExecutionId \<rightharpoonup> 'c UnitState"
  tr_fail_closed :: bool
  tr_poisoned :: bool
  tr_launched :: "ExecutionId set"
  tr_ended :: "ExecutionId \<rightharpoonup> bool"

definition TokioRuntime_new :: "'c TokioRuntime" where
  "TokioRuntime_new =
     \<lparr>tr_units = Map.empty, tr_fail_closed = False, tr_poisoned = False, tr_launched = {}, tr_ended = Map.empty\<rparr>"

definition set_fail_closed :: "bool \<Rightarrow> 'c TokioRuntime \<Rightarrow> 'c TokioRuntime" where
  "set_fail_closed v rt = rt\<lparr>tr_fail_closed := v\<rparr>"

text \<open>\<open>spawn\<close> up to the launch of the task, and the registration that follows; \<open>None\<close> is a panic.\<close>

definition TokioRuntime_launch :: "ExecutionId \<Rightarrow> 'c TokioRuntime \<Rightarrow> (ExecutionId, SpawnErrorKind) result \<times> 'c TokioRuntime" where
  "TokioRuntime_launch eid rt =
     (if tr_fail_closed rt then (Err SpawnClosed, rt) else (Ok eid, rt\<lparr>tr_launched := insert eid (tr_launched rt)\<rparr>))"

definition TokioRuntime_register :: "('m, 'c) mpsc \<Rightarrow> ExecutionId \<Rightarrow> 'c TokioRuntime \<Rightarrow> 'c TokioRuntime option" where
  "TokioRuntime_register mp eid rt =
     (if tr_poisoned rt then None
      else Some (rt\<lparr>tr_units := (tr_units rt)(eid \<mapsto> UnitActive (mp_channel mp 32)), tr_launched := tr_launched rt - {eid}\<rparr>))"

text \<open>The end of \<open>wrapped\<close>: it takes the mutex and looks its own unit up with \<open>unwrap\<close>.\<close>

definition TokioRuntime_task_ends :: "ExecutionId \<Rightarrow> bool \<Rightarrow> 'c TokioRuntime \<Rightarrow> 'c TokioRuntime" where
  "TokioRuntime_task_ends eid ok rt =
     (let rt1 = rt\<lparr>tr_ended := (tr_ended rt)(eid \<mapsto> ok)\<rparr> in
      if tr_poisoned rt then rt1
      else case tr_units rt eid of
             None \<Rightarrow> rt1\<lparr>tr_poisoned := True\<rparr>
           | Some _ \<Rightarrow> rt1\<lparr>tr_units := (tr_units rt)(eid \<mapsto> if ok then UnitTerminated else UnitFailed)\<rparr>)"

definition TokioRuntime_send_self ::
  "('m, 'c) mpsc \<Rightarrow> ExecutionId \<Rightarrow> 'm \<Rightarrow> 'c TokioRuntime \<Rightarrow> ((unit, SendError) result \<times> 'c TokioRuntime) option" where
  "TokioRuntime_send_self mp eid msg rt =
     (if tr_poisoned rt then None
      else case tr_units rt eid of
             None \<Rightarrow> Some (Err \<lparr>se_id = eid, se_cause = SendNotFound\<rparr>, rt)
           | Some (UnitActive tx) \<Rightarrow>
               (case mp_try_send mp msg tx of
                  (r, c) \<Rightarrow> Some (map_sum (\<lambda>_. \<lparr>se_id = eid, se_cause = SendClosed\<rparr>) (\<lambda>_. ()) r,
                                  rt\<lparr>tr_units := (tr_units rt)(eid \<mapsto> UnitActive c)\<rparr>))
           | Some _ \<Rightarrow> Some (Err \<lparr>se_id = eid, se_cause = SendClosed\<rparr>, rt))"

text \<open>The runtime's own \<open>send\<close> looks at the flag first, the rest is the same.\<close>

definition TokioRuntime_send ::
  "('m, 'c) mpsc \<Rightarrow> ExecutionId \<Rightarrow> 'm \<Rightarrow> 'c TokioRuntime \<Rightarrow> ((unit, SendError) result \<times> 'c TokioRuntime) option" where
  "TokioRuntime_send mp eid msg rt =
     (if tr_fail_closed rt then Some (Err \<lparr>se_id = eid, se_cause = SendClosed\<rparr>, rt)
      else TokioRuntime_send_self mp eid msg rt)"

text \<open>\<open>message_consumer\<close>: \<open>while let Some(_msg) = rx.recv().await {}\<close>, one turn of it.\<close>

definition TokioRuntime_consume :: "('m, 'c) mpsc \<Rightarrow> ExecutionId \<Rightarrow> 'c TokioRuntime \<Rightarrow> 'c TokioRuntime" where
  "TokioRuntime_consume mp eid rt =
     (case tr_units rt eid of
        Some (UnitActive c) \<Rightarrow> rt\<lparr>tr_units := (tr_units rt)(eid \<mapsto> UnitActive (snd (mp_try_recv mp c)))\<rparr>
      | _ \<Rightarrow> rt)"

definition TokioRuntime_shutdown :: "ExecutionId \<Rightarrow> 'c TokioRuntime \<Rightarrow> 'c TokioRuntime option" where
  "TokioRuntime_shutdown eid rt =
     (if tr_poisoned rt then None
      else Some (case tr_units rt eid of
                   Some (UnitActive _) \<Rightarrow> rt\<lparr>tr_units := (tr_units rt)(eid \<mapsto> UnitDraining)\<rparr>
                 | _ \<Rightarrow> rt))"

definition TokioRuntime_state :: "ExecutionId \<Rightarrow> 'c TokioRuntime \<Rightarrow> ExecutionState option option" where
  "TokioRuntime_state eid rt =
     (if tr_poisoned rt then None else Some (map_option unit_execution_state (tr_units rt eid)))"

section \<open>Any interleaving\<close>

inductive exec_step :: "('m, 'c) mpsc \<Rightarrow> 'c TokioRuntime \<Rightarrow> 'c TokioRuntime \<Rightarrow> bool" for mp where
  flag: "exec_step mp rt (set_fail_closed v rt)"
| launch: "eid \<notin> dom (tr_units rt) \<union> dom (tr_ended rt) \<union> tr_launched rt \<Longrightarrow>
    TokioRuntime_launch eid rt = (Ok eid, rt') \<Longrightarrow> exec_step mp rt rt'"
| register: "eid \<in> tr_launched rt \<Longrightarrow> TokioRuntime_register mp eid rt = Some rt' \<Longrightarrow> exec_step mp rt rt'"
| task_ends: "eid \<in> dom (tr_units rt) \<union> tr_launched rt \<Longrightarrow> eid \<notin> dom (tr_ended rt) \<Longrightarrow>
    exec_step mp rt (TokioRuntime_task_ends eid ok rt)"
| send: "TokioRuntime_send mp eid msg rt = Some (r, rt') \<Longrightarrow> exec_step mp rt rt'"
| send_self: "TokioRuntime_send_self mp eid msg rt = Some (r, rt') \<Longrightarrow> exec_step mp rt rt'"
| consume: "exec_step mp rt (TokioRuntime_consume mp eid rt)"
| shutdown: "TokioRuntime_shutdown eid rt = Some rt' \<Longrightarrow> exec_step mp rt rt'"

inductive exec_steps :: "('m, 'c) mpsc \<Rightarrow> 'c TokioRuntime \<Rightarrow> 'c TokioRuntime \<Rightarrow> bool" for mp where
  refl: "exec_steps mp rt rt"
| step: "exec_steps mp rt rt1 \<Longrightarrow> exec_step mp rt1 rt2 \<Longrightarrow> exec_steps mp rt rt2"

inductive_cases exec_stepE: "exec_step mp rt rt'"

text \<open>Where a unit stands, given how its task ended.\<close>

fun unit_agrees :: "bool option \<Rightarrow> 'c UnitState \<Rightarrow> bool" where
  "unit_agrees None u \<longleftrightarrow> unit_execution_state u = ExecActive \<or> unit_execution_state u = ExecDraining"
| "unit_agrees (Some ok) u \<longleftrightarrow> u = (if ok then UnitTerminated else UnitFailed)"

definition exec_inv :: "'c TokioRuntime \<Rightarrow> bool" where
  "exec_inv rt \<longleftrightarrow>
     (tr_poisoned rt \<longleftrightarrow> \<not> dom (tr_ended rt) \<subseteq> dom (tr_units rt)) \<and>
     tr_launched rt \<inter> dom (tr_units rt) = {} \<and>
     (\<not> tr_poisoned rt \<longrightarrow> (\<forall>eid u. tr_units rt eid = Some u \<longrightarrow> unit_agrees (tr_ended rt eid) u))"

section \<open>What holds at all times\<close>

lemma exec_inv_new: "exec_inv TokioRuntime_new"
  by (simp add: exec_inv_def TokioRuntime_new_def)

lemma unit_agrees_active [simp]: "unit_agrees e (UnitActive c) \<longleftrightarrow> e = None"
  by (cases e) auto

lemma unit_agrees_draining [simp]: "unit_agrees e UnitDraining \<longleftrightarrow> e = None"
  by (cases e) auto

lemma exec_inv_unit:
  assumes "exec_inv rt" "tr_units rt eid = Some u" "unit_agrees (tr_ended rt eid) u \<longrightarrow> unit_agrees (tr_ended rt eid) v"
  shows "exec_inv (rt\<lparr>tr_units := (tr_units rt)(eid \<mapsto> v)\<rparr>)"
proof -
  have "dom ((tr_units rt)(eid \<mapsto> v)) = dom (tr_units rt)" using assms(2) by (simp add: insert_absorb domI)
  then show ?thesis using assms unfolding exec_inv_def by (simp add: insert_absorb domI del: dom_fun_upd split: if_splits)
qed

lemma exec_inv_send_self:
  assumes "exec_inv rt" "TokioRuntime_send_self mp eid msg rt = Some (r, rt')"
  shows "exec_inv rt'"
proof -
  have "rt' = rt \<or> (\<exists>tx c. tr_units rt eid = Some (UnitActive tx) \<and>
      rt' = rt\<lparr>tr_units := (tr_units rt)(eid \<mapsto> UnitActive c)\<rparr>)"
    using assms(2) by (auto simp: TokioRuntime_send_self_def split: if_splits option.splits UnitState.splits prod.splits)
  then show ?thesis using exec_inv_unit [OF assms(1)] assms(1) by auto
qed

lemma exec_inv_send: "exec_inv rt \<Longrightarrow> TokioRuntime_send mp eid msg rt = Some (r, rt') \<Longrightarrow> exec_inv rt'"
  by (auto simp: TokioRuntime_send_def intro: exec_inv_send_self split: if_splits)

lemma exec_inv_consume: "exec_inv rt \<Longrightarrow> exec_inv (TokioRuntime_consume mp eid rt)"
  by (auto simp: TokioRuntime_consume_def intro: exec_inv_unit split: option.splits UnitState.splits)

lemma exec_inv_shutdown: "exec_inv rt \<Longrightarrow> TokioRuntime_shutdown eid rt = Some rt' \<Longrightarrow> exec_inv rt'"
  by (auto simp: TokioRuntime_shutdown_def intro: exec_inv_unit split: option.splits UnitState.splits if_splits)

lemma exec_inv_register:
  assumes "exec_inv rt" "eid \<in> tr_launched rt" "TokioRuntime_register mp eid rt = Some rt'"
  shows "exec_inv rt'"
proof -
  have rt: "\<not> tr_poisoned rt" "tr_units rt eid = None" using assms by (auto simp: TokioRuntime_register_def exec_inv_def split: if_splits)
  then have "tr_ended rt eid = None" using assms(1) by (auto simp: exec_inv_def)
  moreover have "dom (tr_ended rt) \<subseteq> insert eid (dom (tr_units rt))" using assms(1) rt by (auto simp: exec_inv_def)
  moreover have "rt' = rt\<lparr>tr_units := (tr_units rt)(eid \<mapsto> UnitActive (mp_channel mp 32)), tr_launched := tr_launched rt - {eid}\<rparr>"
    using assms(3) rt by (simp add: TokioRuntime_register_def)
  ultimately show ?thesis using assms(1) rt by (simp add: exec_inv_def) blast
qed

lemma exec_inv_task_ends:
  assumes "exec_inv rt" "tr_ended rt eid = None"
  shows "exec_inv (TokioRuntime_task_ends eid ok rt)"
proof (cases "tr_units rt eid")
  case None
  then show ?thesis using assms by (simp add: exec_inv_def TokioRuntime_task_ends_def Let_def domIff)
next
  case (Some u)
  then have "insert eid (dom (tr_units rt)) = dom (tr_units rt)" by (simp add: insert_absorb domI)
  then show ?thesis using assms Some by (simp add: exec_inv_def TokioRuntime_task_ends_def Let_def domI)
qed

lemma exec_step_inv: "exec_step mp rt rt' \<Longrightarrow> exec_inv rt \<Longrightarrow> exec_inv rt'"
proof (induction rule: exec_step.induct)
  case (launch eid rt rt')
  then have "rt' = rt\<lparr>tr_launched := insert eid (tr_launched rt)\<rparr>" by (simp add: TokioRuntime_launch_def split: if_splits)
  then show ?case using launch by (simp add: exec_inv_def)
next
  case (flag rt v)
  then show ?case by (simp add: exec_inv_def set_fail_closed_def)
next
  case (task_ends eid rt ok)
  then show ?case by (intro exec_inv_task_ends) auto
qed (blast intro: exec_inv_send exec_inv_send_self exec_inv_consume exec_inv_shutdown exec_inv_register)+

lemma exec_steps_inv: "exec_steps mp rt rt' \<Longrightarrow> exec_inv rt \<Longrightarrow> exec_inv rt'"
  by (induction rule: exec_steps.induct) (auto intro: exec_step_inv)

definition ended_unit :: "'c UnitState \<Rightarrow> bool" where
  "ended_unit u \<longleftrightarrow> u = UnitTerminated \<or> u = UnitFailed"

lemma ended_agrees: "ended_unit u \<Longrightarrow> unit_agrees e u \<Longrightarrow> e \<noteq> None"
  by (cases e) (auto simp: ended_unit_def)

lemma exec_step_ended:
  assumes "exec_step mp rt rt'" "exec_inv rt" "tr_units rt eid = Some u" "ended_unit u"
  shows "tr_units rt' eid = Some u"
  using assms(1)
proof cases
  case (register eid')
  then show ?thesis using assms(2,3) by (auto simp: TokioRuntime_register_def exec_inv_def split: if_splits)
next
  case (task_ends eid' ok)
  have "eid' = eid \<Longrightarrow> tr_poisoned rt"
    using task_ends assms(2,3) ended_agrees [OF assms(4)] by (auto simp: exec_inv_def)
  then show ?thesis using task_ends assms(3) by (auto simp: TokioRuntime_task_ends_def Let_def split: option.splits)
next
  case (send eid' msg r)
  then show ?thesis using assms(3,4)
    by (auto simp: TokioRuntime_send_def TokioRuntime_send_self_def ended_unit_def
        split: if_splits option.splits UnitState.splits prod.splits)
next
  case (send_self eid' msg r)
  then show ?thesis using assms(3,4)
    by (auto simp: TokioRuntime_send_self_def ended_unit_def split: if_splits option.splits UnitState.splits prod.splits)
next
  case (consume eid')
  then show ?thesis using assms(3,4)
    by (auto simp: TokioRuntime_consume_def ended_unit_def split: option.splits UnitState.splits)
next
  case (shutdown eid')
  then show ?thesis using assms(3,4)
    by (auto simp: TokioRuntime_shutdown_def ended_unit_def split: if_splits option.splits UnitState.splits)
qed (use assms(3) in \<open>auto simp: set_fail_closed_def TokioRuntime_launch_def split: if_splits\<close>)

lemma exec_steps_ended:
  "exec_steps mp rt rt' \<Longrightarrow> exec_inv rt \<Longrightarrow> tr_units rt eid = Some u \<Longrightarrow> ended_unit u \<Longrightarrow> tr_units rt' eid = Some u"
  by (induction rule: exec_steps.induct) (auto intro: exec_step_ended exec_steps_inv)

lemma steps_poisoned: "exec_steps mp rt rt' \<Longrightarrow> tr_poisoned rt \<Longrightarrow> tr_poisoned rt'"
proof (induction rule: exec_steps.induct)
  case (step rt rt1 rt2)
  then have "tr_poisoned rt1" by blast
  with step.hyps(2) show ?case
    by cases (auto simp: set_fail_closed_def TokioRuntime_launch_def TokioRuntime_register_def TokioRuntime_task_ends_def
        TokioRuntime_send_def TokioRuntime_send_self_def TokioRuntime_consume_def TokioRuntime_shutdown_def Let_def
        split: if_splits option.splits UnitState.splits)
qed



text \<open>
  A task may end before its execution is registered: it is launched first. The registry is then lost for good.
\<close>

lemma early_end_poisons_registry:
  fixes mp :: "('m, 'c) mpsc"
  defines "rt \<equiv> TokioRuntime_task_ends 0 True (snd (TokioRuntime_launch 0 (TokioRuntime_new :: 'c TokioRuntime)))"
  shows "exec_steps mp TokioRuntime_new rt \<and> TokioRuntime_register mp 0 rt = None"
proof -
  let ?rt1 = "snd (TokioRuntime_launch 0 (TokioRuntime_new :: 'c TokioRuntime))"
  have "exec_step mp TokioRuntime_new ?rt1" by (rule exec_step.launch [of 0]) (simp_all add: TokioRuntime_launch_def TokioRuntime_new_def)
  moreover have "exec_step mp ?rt1 rt" unfolding rt_def
    by (rule exec_step.task_ends) (simp_all add: TokioRuntime_launch_def TokioRuntime_new_def)
  ultimately have "exec_steps mp TokioRuntime_new rt" using exec_steps.intros by metis
  then show ?thesis
    by (simp add: rt_def TokioRuntime_task_ends_def TokioRuntime_register_def TokioRuntime_launch_def TokioRuntime_new_def Let_def)
qed

text \<open>
  In the implementation beside the trait the receiver is gone when \<open>spawn\<close> returns: a send through the runtime is
  refused although the execution is active, and one through its own handle reports success for a message that
  is nowhere.
\<close>

lemma spawned_execution_gets_no_message:
  assumes "mpsc_channel mp capacity contents receiving" "spawn_execution mp eid units = (i, units')"
  shows "execution_state eid units' = Some ExecActive \<and>
    fst (send_message mp eid msg units') = Err \<lparr>se_id = eid, se_cause = SendClosed\<rparr> \<and>
    fst (send_fn mp eid msg units') = Ok () \<and>
    contents (eu_sender (the (snd (send_fn mp eid msg units') eid))) = contents (eu_sender (the (units' eid)))"
proof -
  let ?c = "mp_drop_receiver mp (mp_channel mp 64)"
  obtain r c where rc: "mp_try_send mp msg ?c = (r, c)" by fastforce
  have "r = Err Closed" "contents c = contents ?c"
    using mpsc_channel.send_result [OF assms(1), of msg ?c] mpsc_channel.send_contents [OF assms(1), of msg ?c]
      mpsc_channel.drop_receiver [OF assms(1), of "mp_channel mp 64"] by (simp_all add: rc)
  then show ?thesis using assms(2) by (auto simp: spawn_execution_def send_message_def send_fn_def execution_state_def rc)
qed

text \<open>An execution's own handle does not look at the fail-closed flag: it still sends when the runtime refuses to.\<close>

lemma handle_ignores_fail_closed:
  fixes rt :: "'m bounded_queue TokioRuntime"
  assumes "tr_units rt eid = Some (UnitActive (mp_channel bounded_queue 32))" "tr_fail_closed rt" "\<not> tr_poisoned rt"
  shows "map_option fst (TokioRuntime_send bounded_queue eid msg rt) = Some (Err \<lparr>se_id = eid, se_cause = SendClosed\<rparr>) \<and>
    map_option fst (TokioRuntime_send_self bounded_queue eid msg rt) = Some (Ok ())"
  using assms by (simp add: TokioRuntime_send_def TokioRuntime_send_self_def bounded_queue_def)

end
