(* ===== verification/Spec2Isabelle.thy ===== *)
theory Spec2Isabelle
  imports Ego_Reservation_Memory Ego_Effect_Acceptance_Properties Ego_Entity_Properties Ego_Entity_Routing Ego_Projection_Memory
    Ego_Service_Properties Ego_Api_Key Ego_Introspection Ego_App
    Ego_Entity_Runtime Ego_Transport Ego_Execution
begin

text \<open>
  \<^bold>\<open>Verification of ego-rs.\<close>

  ego-rs (\<open>src/crates\<close>) is a runtime for event-sourced services written in Rust. A request enters through the HTTP
  boundary, is authenticated and authorised, resolved to a tenant, reserved under its operation key and dispatched
  to a service method; the method sends commands to entity actors; an actor persists events with a receipt,
  publishes them, and hands the external effects a command described to a delivery pipeline; projections read the
  tagged events; retention workers purge what is no longer promised; a composition root assembles all of this and
  refuses what is not durable in production.

  \<^bold>\<open>How the code is modelled.\<close> Every operation is a function at the top level of a theory, with the state it reads and
  writes passed explicitly. Rust's \<open>Result\<close> is the sum type (\<open>Ok\<close>, \<open>Err\<close>), a panic or a loop that does not end is
  \<open>None\<close>. Structs are records, enums datatypes, \<open>u64\<close> counters words that wrap around where the code lets them,
  strings lists of bytes, hash maps maps (with the iteration order as an argument where it matters), \<open>BTreeSet\<close> and
  \<open>BTreeMap\<close> sorted lists. Clocks, entropy, random identifiers, digests and signatures, Tokio's channels, the header map,
  serde, chrono's range and the user's handlers are parameters; what is assumed of them is a named hypothesis or the
  \<open>assumes\<close> of a locale, and is what their documentation says. Tasks and threads interleave by step relations whose steps
  are the code's atomic sections. No definition has fuel: loops are structural, have a measure (\<open>fetch_loop\<close>,
  \<open>reserve_loop\<close>), or are \<open>partial_function\<close>s proved to return (\<open>drain_loop\<close>).

  \<^bold>\<open>The theories\<close>, in the order in which they build on each other.

  \<^item> \<open>Ego_Prelude\<close>: results, durations, checked arithmetic, strings and UTF-8, JSON, enumeration of maps.
  \<^item> \<open>Ego_Identity\<close> (\<open>persistence-api/src/context.rs\<close>, \<open>operation\<close>, \<open>domain/src/operation\<close>): tenants, operation keys,
    fingerprints, receipts.
  \<^item> \<open>Ego_Reservation\<close>, \<open>Ego_Reservation_Memory\<close> (\<open>operation/reservation.rs\<close> of \<open>persistence-api\<close> and
    \<open>persistence-memory\<close>): the life of a reservation as a step relation, the port as the locale
    \<open>reservation_port\<close>, and the in-memory store as its interpretation: leases are exclusive, a takeover fences the old
    owner out, and the store refines the lifecycle.
  \<^item> \<open>Ego_Effect\<close>, \<open>Ego_Effect_Store\<close>, \<open>Ego_Effect_Policy\<close>, \<open>Ego_Effect_Runner\<close> (\<open>domain/src/effect.rs\<close>,
    \<open>runtime/src/effects\<close>): the effect algebra, the state and dedup stores, retry policies, and the delivery runner over
    arbitrary ports. \<open>Ego_Effect_Delivery\<close> states what a port promises as the locale \<open>effect_world\<close>, in which calls may fail
    and lose requests or responses; \<open>Ego_Effect_System\<close> and \<open>Ego_Effect_Once\<close> (locale \<open>effect_world_exact\<close>) show that no
    success is recorded without a delivery, that a scope is delivered at most once, and that every dispatch settles
    its effect. \<open>Ego_Effect_Acceptor\<close>, \<open>_Acceptance\<close> and \<open>_Acceptance_Properties\<close> (\<open>acceptor.rs\<close>, \<open>queue.rs\<close>) model concurrent
    \<open>accept\<close> calls, the queue, inline dispatch and the shutdown gate, and show that they refine that pipeline.
  \<^item> \<open>Ego_Event_Store\<close>, \<open>Ego_Event_Store_Memory\<close>: the event store port as the locale \<open>event_store\<close>, interpreted by both
    in-memory stores.
  \<^item> \<open>Ego_Entity_Persistence\<close>, \<open>_Actor\<close>, \<open>_Correct\<close>, \<open>_Recovery\<close>, \<open>_Properties\<close> (\<open>persistent-entity/src\<close>: \<open>persistence.rs\<close>,
    \<open>actor.rs\<close>, \<open>snapshot.rs\<close>): an operation is executed once, the state in memory is the replay of the stream, and
    recovery restores it (locales \<open>snapshot_port\<close>, \<open>entity_stores\<close>). \<open>Ego_Entity_Routing\<close> (\<open>registry.rs\<close>, \<open>mailbox.rs\<close>,
    \<open>entity_ref_tokio.rs\<close>): at most one live actor per entity, and accepted commands are answered.
  \<^item> \<open>Ego_Channel\<close>, \<open>Ego_Scheduler\<close>, \<open>Ego_Entity_Scheduler\<close> (\<open>ego-scheduler/src\<close>, \<open>persistent-entity/src/scheduler*.rs\<close>): the
    two schedulers over a bounded channel (locale \<open>mpsc_channel\<close>, extended by \<open>event_bus\<close> and \<open>feedback_bus\<close>). The
    pipeline refines a specification of the observed stream; lost feedback is noticed. \<open>Ego_Entity_Runtime\<close>
    (\<open>builder.rs\<close>, \<open>runtime.rs\<close>) builds the entity runtime.
  \<^item> \<open>Ego_Execution\<close> (\<open>runtime/src/runtime\<close>, \<open>runtime-tokio\<close>): executions follow their lifecycle unless a task ends before
    it is registered.
  \<^item> \<open>Ego_Read_Side\<close>, \<open>Ego_Projection\<close>, \<open>Ego_Projection_Memory\<close> (\<open>domain/src/read_side\<close>, \<open>runtime/src/read_side\<close>): sessions with
    offsets, dedup and claims; over the locale \<open>projection_stores\<close> no event is passed over and a projection catches
    up, even when store calls lose requests and responses.
  \<^item> \<open>Ego_Trace\<close>, \<open>Ego_Security\<close>, \<open>Ego_Api_Key\<close>, \<open>Ego_Jwt\<close>, \<open>Ego_Jwks\<close>, \<open>Ego_Oidc\<close>, \<open>Ego_Introspection\<close> (\<open>domain/src/tracer.rs\<close>,
    \<open>security-sdk\<close>, \<open>security-apikey\<close>, \<open>security-jwt\<close>): trace headers, principals and authorisation, and the
    authentication providers: an accepted token verified under a published key and passed every configured check, an
    accepted opaque token was active within its cache lifetime, keys served are keys published, refreshes are
    spaced.
  \<^item> \<open>Ego_Service_Context\<close>, \<open>Ego_Canonical\<close>, \<open>Ego_Service_Runtime\<close>, \<open>_Dispatch\<close>, \<open>_Correct\<close>, \<open>_Properties\<close> (\<open>service-sdk/src\<close>:
    \<open>context\<close>, \<open>runtime/idempotency.rs\<close>, and the method generated by \<open>service-sdk-macros\<close>): tenants and permits, the
    canonical fingerprint, and idempotent dispatch: a retry replays the response, a lease is executed once, an
    unauthorised call reaches nothing, reservations stay in their tenant.
  \<^item> \<open>Ego_Data_Provider\<close>, \<open>Ego_Health\<close>, \<open>Ego_Retention\<close>, \<open>Ego_Registry\<close> (\<open>runtime/src/providers\<close>, \<open>service-sdk/src/health\<close>,
    \<open>runtime/retention.rs\<close>, \<open>contract\<close>, \<open>registry\<close>): bounded fetches, exact health reports, retention that neither
    shortens the promise of replay nor fails to drain, resolution of the highest matching version.
  \<^item> \<open>Ego_Runtime_Builder\<close>, \<open>Ego_Runtime_Lifecycle\<close>, \<open>Ego_App\<close> (\<open>service-sdk/src/runtime/builder.rs\<close>, \<open>app\<close>): every
    registration, the validation chain, starting and shutting down; a production runtime is durable, every resource
    is torn down once, an application serves what it registered.
  \<^item> \<open>Ego_Transport\<close> (\<open>transport/src\<close>, \<open>service-sdk/src/error\<close>): error responses and the extractors of the HTTP boundary,
    run against the runtime that the builder returned.

  Every locale is interpreted on the model's own stores; the locales of the channel, which belongs to Tokio, on a
  bounded queue. The theorems introduced by a number are the development's main results; each that has hypotheses
  is followed by an instance on a concrete input. Lemmas that show where the code departs from its documentation stand
  beside the results they limit, for example \<open>gaps_depend_on_batching\<close>, \<open>early_end_poisons_registry\<close>,
  \<open>panicking_hook_drops_the_rest\<close> or \<open>overlong_window_ends_worker\<close>.

  \<^bold>\<open>Not modelled.\<close>

  \<^item> The SQL backends (\<open>persistence\<close>, \<open>persistence-stoolap\<close>, \<open>effect-store\<close>): their logic is in SQL statements that
    PostgreSQL or Stoolap execute, whose semantics is not part of the sources. The locales \<open>reservation_port\<close>,
    \<open>event_store\<close> and \<open>projection_stores\<close> say what a backend has to provide for the results to carry over.
  \<^item> \<open>infrastructure\<close> (calls of the OpenTelemetry SDK), \<open>testkit\<close>, examples and benchmarks.
  \<^item> Of the delivery runner: interleaving inside one dispatch, the semaphore, the shutdown latch. Of the service macros:
    the parsing of attributes. Of the transport: \<open>serve\<close>, which hands a router to axum. Log lines, \<open>Debug\<close> and serde
    implementations, and the builder of Tokio's thread pool.
  \<^item> Wake-ups of Tokio's \<open>Notify\<close> and the abort of a task at a deadline: a waiting caller may try again at any time, and
    a deadline is an input.
\<close>

end
